(* ===== verification/S3_Prelude.thy ===== *)
theory S3_Prelude
  imports Main "HOL-Library.Word" "HOL-Library.Char_ord" "HOL-Library.List_Lexorder"
begin

text \<open>
  The vocabulary every component shares: Rust's \<open>Result\<close> with the \<open>?\<close> operator, the
  functions of Rust's \<open>str\<close> and slices that the sources call, fixed-width unsigned
  integers. The ordered map \<open>BTreeMap\<close> has its own theory.

  A Rust \<open>String\<close> or \<open>&str\<close> is its UTF-8 byte sequence and a \<open>Vec<u8>\<close> is a byte
  sequence; both are lists of \<open>char\<close>, which has exactly the 256 byte values.
\<close>

named_theorems res_simps "rewriting of result-valued code"
named_theorems str_simps "rewriting of string operations"

type_synonym bytes = "char list"

section \<open>Result and the question-mark operator\<close>

datatype ('a, 'e) result = Ok 'a | Err 'e

text \<open>\<open>and_then m f\<close> is \<open>let x = m?; f(x)\<close>.\<close>

fun and_then :: "('a, 'e) result \<Rightarrow> ('a \<Rightarrow> ('b, 'e) result) \<Rightarrow> ('b, 'e) result" where
  "and_then (Ok x) f = f x"
| "and_then (Err e) f = Err e"

fun map_err :: "('e \<Rightarrow> 'f) \<Rightarrow> ('a, 'e) result \<Rightarrow> ('a, 'f) result" where
  "map_err g (Ok x) = Ok x"
| "map_err g (Err e) = Err (g e)"

fun map_ok :: "('a \<Rightarrow> 'b) \<Rightarrow> ('a, 'e) result \<Rightarrow> ('b, 'e) result" where
  "map_ok g (Ok x) = Ok (g x)"
| "map_ok g (Err e) = Err e"

fun ok_or :: "'e \<Rightarrow> 'a option \<Rightarrow> ('a, 'e) result" where
  "ok_or e None = Err e"
| "ok_or e (Some x) = Ok x"

fun res_ok :: "('a, 'e) result \<Rightarrow> 'a option" where
  "res_ok (Ok x) = Some x"
| "res_ok (Err e) = None"

fun is_ok :: "('a, 'e) result \<Rightarrow> bool" where
  "is_ok (Ok x) = True"
| "is_ok (Err e) = False"

text \<open>\<open>ensure b e\<close> is \<open>if !b { return Err(e) }\<close>.\<close>

definition ensure :: "bool \<Rightarrow> 'e \<Rightarrow> (unit, 'e) result" where
  "ensure b e = (if b then Ok () else Err e)"

text \<open>\<open>for x in xs { f(x)? }\<close>, and \<open>iter.map(f).collect::<Result<Vec<_>, _>>()\<close>.\<close>

fun for_each :: "('a \<Rightarrow> (unit, 'e) result) \<Rightarrow> 'a list \<Rightarrow> (unit, 'e) result" where
  "for_each f [] = Ok ()"
| "for_each f (x # xs) = and_then (f x) (\<lambda>_. for_each f xs)"

fun collect_res :: "('a \<Rightarrow> ('b, 'e) result) \<Rightarrow> 'a list \<Rightarrow> ('b list, 'e) result" where
  "collect_res f [] = Ok []"
| "collect_res f (x # xs) = and_then (f x) (\<lambda>y. map_ok ((#) y) (collect_res f xs))"

lemma and_then_Ok [res_simps]:
  "and_then m f = Ok y \<longleftrightarrow> (\<exists>x. m = Ok x \<and> f x = Ok y)"
  by (cases m) auto

lemma map_err_Ok [res_simps]: "map_err g m = Ok y \<longleftrightarrow> m = Ok y"
  by (cases m) auto

lemma map_ok_Ok [res_simps]: "map_ok g m = Ok y \<longleftrightarrow> (\<exists>x. m = Ok x \<and> y = g x)"
  by (cases m) auto

lemma ok_or_Ok [res_simps]: "ok_or e m = Ok y \<longleftrightarrow> m = Some y"
  by (cases m) auto

lemma ensure_Ok [res_simps]: "ensure b e = Ok u \<longleftrightarrow> b"
  by (simp add: ensure_def)

lemma ensure_True [simp]: "ensure True e = Ok ()"
  by (simp add: ensure_def)

lemma ensure_False [simp]: "ensure False e = Err e"
  by (simp add: ensure_def)

lemma for_each_Ok [res_simps]: "for_each f xs = Ok u \<longleftrightarrow> (\<forall>x\<in>set xs. f x = Ok ())"
  by (induction xs) (auto simp: and_then_Ok)

lemma collect_res_Ok_iff [res_simps]:
  "collect_res f xs = Ok ys \<longleftrightarrow> list_all2 (\<lambda>x y. f x = Ok y) xs ys"
  by (induction xs arbitrary: ys) (auto simp: res_simps list_all2_Cons1)

lemma is_ok_iff: "is_ok m \<longleftrightarrow> (\<exists>x. m = Ok x)"
  by (cases m) auto

section \<open>Bytes and characters\<close>

abbreviation code_of :: "char \<Rightarrow> nat" where
  "code_of c \<equiv> of_char c"

definition is_ascii_control :: "char \<Rightarrow> bool" where
  "is_ascii_control c \<longleftrightarrow> code_of c < 32 \<or> code_of c = 127"

definition is_ascii_digit :: "char \<Rightarrow> bool" where
  "is_ascii_digit c \<longleftrightarrow> 48 \<le> code_of c \<and> code_of c \<le> 57"

definition is_ascii_uppercase :: "char \<Rightarrow> bool" where
  "is_ascii_uppercase c \<longleftrightarrow> 65 \<le> code_of c \<and> code_of c \<le> 90"

definition is_ascii_lowercase :: "char \<Rightarrow> bool" where
  "is_ascii_lowercase c \<longleftrightarrow> 97 \<le> code_of c \<and> code_of c \<le> 122"

definition is_ascii_hexdigit :: "char \<Rightarrow> bool" where
  "is_ascii_hexdigit c \<longleftrightarrow> is_ascii_digit c \<or> (65 \<le> code_of c \<and> code_of c \<le> 70)
     \<or> (97 \<le> code_of c \<and> code_of c \<le> 102)"

text \<open>\<open>u8::is_ascii_whitespace\<close>: space, tab, line feed, form feed, carriage return.\<close>

definition is_ascii_whitespace :: "char \<Rightarrow> bool" where
  "is_ascii_whitespace c \<longleftrightarrow> code_of c \<in> {9, 10, 12, 13, 32}"

text \<open>A digit or \<open>b'a'..=b'f'\<close>: the alphabet of a lowercase hexadecimal digest.\<close>

definition is_lower_hex :: "char \<Rightarrow> bool" where
  "is_lower_hex c \<longleftrightarrow> is_ascii_digit c \<or> (97 \<le> code_of c \<and> code_of c \<le> 102)"

definition ascii_lower :: "char \<Rightarrow> char" where
  "ascii_lower c = (if is_ascii_uppercase c then char_of (code_of c + 32) else c)"

definition ascii_upper :: "char \<Rightarrow> char" where
  "ascii_upper c = (if is_ascii_lowercase c then char_of (code_of c - 32) else c)"

definition to_ascii_lowercase :: "string \<Rightarrow> string" where
  "to_ascii_lowercase = map ascii_lower"

definition to_ascii_uppercase :: "string \<Rightarrow> string" where
  "to_ascii_uppercase = map ascii_upper"

definition eq_ignore_ascii_case :: "string \<Rightarrow> string \<Rightarrow> bool" where
  "eq_ignore_ascii_case a b \<longleftrightarrow> to_ascii_lowercase a = to_ascii_lowercase b"

lemma ascii_lower_idem [simp]: "ascii_lower (ascii_lower c) = ascii_lower c"
  by (auto simp: ascii_lower_def is_ascii_uppercase_def)

lemma length_to_ascii_lowercase [simp]: "length (to_ascii_lowercase s) = length s"
  by (simp add: to_ascii_lowercase_def)

lemma to_ascii_lowercase_idem [simp]:
  "to_ascii_lowercase (to_ascii_lowercase s) = to_ascii_lowercase s"
  by (simp add: to_ascii_lowercase_def)

lemma to_ascii_lowercase_append:
  "to_ascii_lowercase (a @ b) = to_ascii_lowercase a @ to_ascii_lowercase b"
  by (simp add: to_ascii_lowercase_def)

section \<open>The operations of str\<close>

fun starts_with :: "string \<Rightarrow> string \<Rightarrow> bool" where
  "starts_with s [] = True"
| "starts_with [] (p # ps) = False"
| "starts_with (c # s) (p # ps) = (c = p \<and> starts_with s ps)"

fun strip_prefix :: "string \<Rightarrow> string \<Rightarrow> string option" where
  "strip_prefix [] s = Some s"
| "strip_prefix (p # ps) [] = None"
| "strip_prefix (p # ps) (c # s) = (if c = p then strip_prefix ps s else None)"

definition strip_suffix :: "string \<Rightarrow> string \<Rightarrow> string option" where
  "strip_suffix p s = map_option rev (strip_prefix (rev p) (rev s))"

text \<open>\<open>s.split_once(c)\<close>: the text before and after the first occurrence of \<open>c\<close>.\<close>

fun split_once :: "char \<Rightarrow> string \<Rightarrow> (string \<times> string) option" where
  "split_once c [] = None"
| "split_once c (x # xs) =
     (if x = c then Some ([], xs) else map_option (\<lambda>(a, b). (x # a, b)) (split_once c xs))"

text \<open>\<open>s.split(c)\<close>: never empty, one piece more than there are separators.\<close>

fun split_on :: "char \<Rightarrow> string \<Rightarrow> string list" where
  "split_on c [] = [[]]"
| "split_on c (x # xs) =
     (if x = c then [] # split_on c xs
      else (case split_on c xs of [] \<Rightarrow> [[x]] | y # ys \<Rightarrow> (x # y) # ys))"

text \<open>\<open>pieces.join(sep)\<close>.\<close>

fun join_with :: "string \<Rightarrow> string list \<Rightarrow> string" where
  "join_with sep [] = []"
| "join_with sep [x] = x"
| "join_with sep (x # y # ys) = x @ sep @ join_with sep (y # ys)"

text \<open>
  \<open>str::trim\<close> removes the characters with Unicode property \<open>White_Space\<close>. In UTF-8 they
  are six one-byte, two two-byte and seventeen three-byte sequences.
\<close>

definition ws1 :: "char \<Rightarrow> bool" where
  "ws1 a \<longleftrightarrow> (9 \<le> code_of a \<and> code_of a \<le> 13) \<or> code_of a = 32"

definition ws2 :: "char \<Rightarrow> char \<Rightarrow> bool" where
  "ws2 a b \<longleftrightarrow> code_of a = 0xC2 \<and> (code_of b = 0x85 \<or> code_of b = 0xA0)"

definition ws3 :: "char \<Rightarrow> char \<Rightarrow> char \<Rightarrow> bool" where
  "ws3 a b c \<longleftrightarrow>
     (code_of a = 0xE1 \<and> code_of b = 0x9A \<and> code_of c = 0x80)
   \<or> (code_of a = 0xE2 \<and> code_of b = 0x80 \<and>
        ((0x80 \<le> code_of c \<and> code_of c \<le> 0x8A) \<or> code_of c = 0xA8 \<or> code_of c = 0xA9
         \<or> code_of c = 0xAF))
   \<or> (code_of a = 0xE2 \<and> code_of b = 0x81 \<and> code_of c = 0x9F)
   \<or> (code_of a = 0xE3 \<and> code_of b = 0x80 \<and> code_of c = 0x80)"

fun skip_ws :: "(char \<Rightarrow> char \<Rightarrow> bool) \<Rightarrow> (char \<Rightarrow> char \<Rightarrow> char \<Rightarrow> bool) \<Rightarrow> string \<Rightarrow> string" where
  "skip_ws w2 w3 [] = []"
| "skip_ws w2 w3 [a] = (if ws1 a then [] else [a])"
| "skip_ws w2 w3 [a, b] =
     (if ws1 a then skip_ws w2 w3 [b] else if w2 a b then [] else [a, b])"
| "skip_ws w2 w3 (a # b # c # s) =
     (if ws1 a then skip_ws w2 w3 (b # c # s)
      else if w2 a b then skip_ws w2 w3 (c # s)
      else if w3 a b c then skip_ws w2 w3 s
      else a # b # c # s)"

definition trim_start :: "string \<Rightarrow> string" where
  "trim_start = skip_ws ws2 ws3"

definition trim_end :: "string \<Rightarrow> string" where
  "trim_end s = rev (skip_ws (\<lambda>b a. ws2 a b) (\<lambda>c b a. ws3 a b c) (rev s))"

definition trim :: "string \<Rightarrow> string" where
  "trim s = trim_end (trim_start s)"

text \<open>\<open>s.windows(2).position(|w| w == b"\r\n")\<close>.\<close>

abbreviation CR :: char where "CR \<equiv> CHR 0x0D"
abbreviation LF :: char where "LF \<equiv> CHR 0x0A"
abbreviation CRLF :: bytes where "CRLF \<equiv> [CR, LF]"
abbreviation DQ :: char where "DQ \<equiv> CHR 0x22"

fun find_crlf :: "bytes \<Rightarrow> nat option" where
  "find_crlf [] = None"
| "find_crlf [a] = None"
| "find_crlf (a # b # s) =
     (if a = CR \<and> b = LF then Some 0 else map_option Suc (find_crlf (b # s)))"

section \<open>Unsigned integers\<close>

text \<open>
  A \<open>u16\<close>, \<open>u32\<close>, \<open>u64\<close> or \<open>usize\<close> (64-bit targets) is a natural number with its
  bound written out at the operations that can leave the range.
\<close>

abbreviation u64_max :: nat where "u64_max \<equiv> 2 ^ 64 - 1"

definition u64_saturating_add :: "nat \<Rightarrow> nat \<Rightarrow> nat" where
  "u64_saturating_add a b = min (a + b) u64_max"

definition u64_wrapping_add :: "nat \<Rightarrow> nat \<Rightarrow> nat" where
  "u64_wrapping_add a b = (a + b) mod 2 ^ 64"

fun hex_digit_val :: "char \<Rightarrow> nat option" where
  "hex_digit_val c =
     (if is_ascii_digit c then Some (code_of c - 48)
      else if 65 \<le> code_of c \<and> code_of c \<le> 70 then Some (code_of c - 55)
      else if 97 \<le> code_of c \<and> code_of c \<le> 102 then Some (code_of c - 87)
      else None)"

fun digit_in_radix :: "nat \<Rightarrow> char \<Rightarrow> nat option" where
  "digit_in_radix r c =
     (case hex_digit_val c of None \<Rightarrow> None | Some d \<Rightarrow> if d < r then Some d else None)"

fun digits_val :: "nat \<Rightarrow> nat \<Rightarrow> string \<Rightarrow> nat option" where
  "digits_val r acc [] = Some acc"
| "digits_val r acc (c # s) =
     (case digit_in_radix r c of None \<Rightarrow> None | Some d \<Rightarrow> digits_val r (acc * r + d) s)"

text \<open>
  \<open>uN::from_str_radix\<close> for radix at most 16: an optional plus sign and at least one digit;
  \<open>None\<close> for anything else and for a value that does not fit in \<open>N\<close> bits.
\<close>

definition from_str_radix :: "nat \<Rightarrow> nat \<Rightarrow> string \<Rightarrow> nat option" where
  "from_str_radix bits r s =
     (let ds = (case s of [] \<Rightarrow> [] | c # cs \<Rightarrow> if c = CHR ''+'' then cs else s)
      in if ds = [] then None
         else (case digits_val r 0 ds of
                 None \<Rightarrow> None
               | Some n \<Rightarrow> if n < 2 ^ bits then Some n else None))"

definition parse_u16 :: "string \<Rightarrow> nat option" where
  "parse_u16 = from_str_radix 16 10"

definition parse_u32 :: "string \<Rightarrow> nat option" where
  "parse_u32 = from_str_radix 32 10"

definition parse_u64 :: "string \<Rightarrow> nat option" where
  "parse_u64 = from_str_radix 64 10"

lemma from_str_radix_bound: "from_str_radix bits r s = Some n \<Longrightarrow> n < 2 ^ bits"
  by (auto simp: from_str_radix_def Let_def split: if_splits option.splits)

lemmas parse_bounds =
  from_str_radix_bound [where bits = 16 and r = 10, folded parse_u16_def]
  from_str_radix_bound [where bits = 32 and r = 10, folded parse_u32_def]
  from_str_radix_bound [where bits = 64 and r = 10, folded parse_u64_def]

text \<open>Decimal and lowercase hexadecimal display of a number.\<close>

definition digit_char :: "nat \<Rightarrow> char" where
  "digit_char d = (if d < 10 then char_of (48 + d) else char_of (87 + d))"

function show_radix :: "nat \<Rightarrow> nat \<Rightarrow> string" where
  "show_radix r n =
     (if n < r \<or> r < 2 then [digit_char n]
      else show_radix r (n div r) @ [digit_char (n mod r)])"
  by pat_completeness auto
termination
  by (relation "measure snd") (auto intro: div_less_dividend)

declare show_radix.simps [simp del]

definition show_nat :: "nat \<Rightarrow> string" where
  "show_nat = show_radix 10"

text \<open>\<open>format!("{n:05}")\<close>: decimal, padded on the left with zeros to five places.\<close>

definition show_pad5 :: "nat \<Rightarrow> string" where
  "show_pad5 n = replicate (5 - length (show_nat n)) (CHR ''0'') @ show_nat n"

section \<open>UTF-8 validity\<close>

definition utf8_cont :: "char \<Rightarrow> bool" where
  "utf8_cont c \<longleftrightarrow> 0x80 \<le> code_of c \<and> code_of c \<le> 0xBF"

definition byte_in :: "nat \<Rightarrow> nat \<Rightarrow> char \<Rightarrow> bool" where
  "byte_in lo hi c \<longleftrightarrow> lo \<le> code_of c \<and> code_of c \<le> hi"

text \<open>Well-formed UTF-8 byte sequences: what \<open>std::str::from_utf8\<close> accepts.\<close>

fun utf8_valid :: "bytes \<Rightarrow> bool" where
  "utf8_valid [] = True"
| "utf8_valid (a # s) =
     (if code_of a < 0x80 then utf8_valid s
      else if byte_in 0xC2 0xDF a then
        (case s of b # t \<Rightarrow> utf8_cont b \<and> utf8_valid t | [] \<Rightarrow> False)
      else if byte_in 0xE0 0xEF a then
        (case s of
           b # c # t \<Rightarrow>
             (if code_of a = 0xE0 then byte_in 0xA0 0xBF b
              else if code_of a = 0xED then byte_in 0x80 0x9F b
              else utf8_cont b) \<and> utf8_cont c \<and> utf8_valid t
         | _ \<Rightarrow> False)
      else if byte_in 0xF0 0xF4 a then
        (case s of
           b # c # d # t \<Rightarrow>
             (if code_of a = 0xF0 then byte_in 0x90 0xBF b
              else if code_of a = 0xF4 then byte_in 0x80 0x8F b
              else utf8_cont b) \<and> utf8_cont c \<and> utf8_cont d \<and> utf8_valid t
         | _ \<Rightarrow> False)
      else False)"

definition is_ascii :: "string \<Rightarrow> bool" where
  "is_ascii s \<longleftrightarrow> list_all (\<lambda>c. code_of c < 0x80) s"

lemma ascii_utf8_valid: "is_ascii s \<Longrightarrow> utf8_valid s"
  by (induction s) (auto simp: is_ascii_def)

section \<open>Facts about the string operations\<close>

lemma starts_with_iff [str_simps]: "starts_with s p \<longleftrightarrow> (\<exists>r. s = p @ r)"
  by (induction s p rule: starts_with.induct) auto

lemma strip_prefix_Some [str_simps]: "strip_prefix p s = Some r \<longleftrightarrow> s = p @ r"
  by (induction p s rule: strip_prefix.induct) auto

lemma strip_suffix_Some [str_simps]: "strip_suffix p s = Some r \<longleftrightarrow> s = r @ p"
proof -
  have "strip_suffix p s = Some r \<longleftrightarrow> rev s = rev p @ rev r"
    by (auto simp: strip_suffix_def strip_prefix_Some)
  also have "\<dots> \<longleftrightarrow> s = r @ p"
    by (metis rev_append rev_rev_ident)
  finally show ?thesis .
qed

lemma split_once_None [str_simps]: "split_once c s = None \<longleftrightarrow> c \<notin> set s"
  by (induction s) auto

lemma split_once_Some [str_simps]:
  "split_once c s = Some (a, b) \<longleftrightarrow> s = a @ c # b \<and> c \<notin> set a"
proof (induction s arbitrary: a)
  case Nil
  then show ?case by simp
next
  case (Cons x xs)
  show ?case
  proof (cases a)
    case Nil
    then show ?thesis by auto
  next
    case (Cons y ys)
    with Cons.IH [of ys] show ?thesis by auto
  qed
qed

lemma split_once_append [simp]: "c \<notin> set a \<Longrightarrow> split_once c (a @ c # b) = Some (a, b)"
  by (simp add: split_once_Some)

lemma split_on_not_Nil [simp]: "split_on c s \<noteq> []"
  by (cases s) (auto split: list.split)

lemma split_on_append_sep:
  "c \<notin> set a \<Longrightarrow> split_on c (a @ c # b) = a # split_on c b"
  by (induction a) auto

lemma split_on_absent [simp]: "c \<notin> set s \<Longrightarrow> split_on c s = [s]"
  by (induction s) auto

lemma split_on_no_sep: "p \<in> set (split_on c s) \<Longrightarrow> c \<notin> set p"
  by (induction s arbitrary: p) (fastforce split: if_splits list.splits)+

lemma join_split_on [simp]: "join_with [c] (split_on c s) = s"
proof (induction s)
  case Nil
  then show ?case by simp
next
  case (Cons x xs)
  obtain y ys where y: "split_on c xs = y # ys"
    by (meson neq_Nil_conv split_on_not_Nil)
  with Cons show ?case by (cases ys) auto
qed

lemma split_on_join_with:
  "ps \<noteq> [] \<Longrightarrow> (\<And>p. p \<in> set ps \<Longrightarrow> c \<notin> set p) \<Longrightarrow> split_on c (join_with [c] ps) = ps"
proof (induction ps)
  case Nil
  then show ?case by simp
next
  case (Cons x ps)
  then show ?case by (cases ps) (simp_all add: split_on_append_sep)
qed

lemma find_crlf_None: "find_crlf s = None \<longleftrightarrow> (\<nexists>a b. s = a @ CRLF @ b)"
proof (induction s rule: find_crlf.induct)
  case (3 a b s)
  then show ?case
    by (auto simp: Cons_eq_append_conv)
qed (auto simp: Cons_eq_append_conv)

lemma find_crlf_bound: "find_crlf s = Some n \<Longrightarrow> n + 2 \<le> length s"
  by (induction s arbitrary: n rule: find_crlf.induct) (auto split: if_splits)

lemma find_crlf_split:
  "find_crlf s = Some n \<Longrightarrow> s = take n s @ CRLF @ drop (n + 2) s"
proof (induction s arbitrary: n rule: find_crlf.induct)
  case (3 a b s)
  then show ?case
    by (auto split: if_splits)
qed simp_all

text \<open>A line that holds no carriage return ends at the first \<open>CRLF\<close> after it.\<close>

lemma find_crlf_line: "CR \<notin> set l \<Longrightarrow> find_crlf (l @ CRLF @ r) = Some (length l)"
proof (induction l)
  case Nil
  then show ?case by simp
next
  case (Cons x xs)
  then show ?case by (cases xs) auto
qed

lemma find_crlf_append: "find_crlf s = Some n \<Longrightarrow> find_crlf (s @ t) = Some n"
  by (induction s arbitrary: n rule: find_crlf.induct) (auto split: if_splits)

section \<open>Reading back a displayed number\<close>

lemma show_radix_nonempty [simp]: "show_radix r n \<noteq> []"
  by (subst show_radix.simps) simp

lemma digit_in_radix_digit_char:
  assumes "d < r" "r \<le> 16"
  shows "digit_in_radix r (digit_char d) = Some d"
proof -
  have "d < 16" using assms by simp
  then have "hex_digit_val (digit_char d) = Some d"
    by (auto simp: digit_char_def is_ascii_digit_def)
  with assms show ?thesis by simp
qed

lemma digits_val_append:
  "digits_val r acc (a @ b) = (case digits_val r acc a of None \<Rightarrow> None | Some v \<Rightarrow> digits_val r v b)"
  by (induction a arbitrary: acc) (auto split: option.splits)

lemma digits_val_show_radix:
  "2 \<le> r \<Longrightarrow> r \<le> 16 \<Longrightarrow> digits_val r 0 (show_radix r n) = Some n"
proof (induction r n rule: show_radix.induct)
  case (1 r n)
  show ?case
  proof (cases "n < r")
    case True
    with "1.prems" show ?thesis
      by (subst show_radix.simps) (simp del: digit_in_radix.simps add: digit_in_radix_digit_char)
  next
    case False
    with 1 have "digits_val r 0 (show_radix r (n div r)) = Some (n div r)" by simp
    with False "1.prems" show ?thesis
      by (subst show_radix.simps)
        (simp del: digit_in_radix.simps add: digits_val_append digit_in_radix_digit_char)
  qed
qed

lemma set_show_radix:
  "2 \<le> r \<Longrightarrow> set (show_radix r n) \<subseteq> digit_char ` {d. d < r}"
proof (induction r n rule: show_radix.induct)
  case (1 r n)
  show ?case
  proof (cases "n < r")
    case True
    then show ?thesis by (subst show_radix.simps) auto
  next
    case False
    with 1 show ?thesis by (subst show_radix.simps) auto
  qed
qed

lemma digit_char_code:
  "d < 16 \<Longrightarrow> code_of (digit_char d) = (if d < 10 then 48 + d else 87 + d)"
  by (auto simp: digit_char_def)

lemma show_radix_codes:
  assumes "2 \<le> r" "r \<le> 16" "c \<in> set (show_radix r n)"
  shows "48 \<le> code_of c \<and> code_of c \<le> 102"
proof -
  from assms set_show_radix [of r n] obtain d where "d < r" "c = digit_char d" by auto
  with assms show ?thesis by (auto simp: digit_char_code)
qed

text \<open>Parsing is a left inverse of display, within the width.\<close>

lemma from_str_radix_show:
  assumes "2 \<le> r" "r \<le> 16" "n < 2 ^ bits"
  shows "from_str_radix bits r (show_radix r n) = Some n"
proof -
  have "CHR ''+'' \<notin> set (show_radix r n)"
    using show_radix_codes [OF assms(1,2), of "CHR ''+''" n] by auto
  then have "(case show_radix r n of [] \<Rightarrow> [] | c # cs \<Rightarrow> if c = CHR ''+'' then cs else show_radix r n)
      = show_radix r n"
    by (auto split: list.split)
  with assms show ?thesis
    by (simp add: from_str_radix_def Let_def digits_val_show_radix)
qed

section \<open>Evaluation of string code on literals\<close>

lemmas ascii_defs = is_ascii_control_def is_ascii_digit_def is_ascii_uppercase_def
  is_ascii_lowercase_def is_ascii_hexdigit_def is_ascii_whitespace_def is_lower_hex_def
  ascii_lower_def ascii_upper_def

lemmas str_eval = ascii_defs to_ascii_lowercase_def to_ascii_uppercase_def
  eq_ignore_ascii_case_def ws1_def ws2_def ws3_def trim_def trim_start_def trim_end_def
  strip_suffix_def from_str_radix_def parse_u16_def parse_u32_def parse_u64_def utf8_cont_def
  byte_in_def

end
