(* ===== verification/BTree_Map.thy ===== *)
theory BTree_Map
  imports S3_Prelude
begin

text \<open>
  Rust's \<open>BTreeMap\<close>, as far as the sources observe it: a finite map whose iteration visits
  the keys in strictly increasing order. The locale \<open>ordered_map\<close> is the contract the
  clients rely on (persisted metadata, checksum headers, signed trailers, multipart part
  tables); \<open>bt_insert\<close>, \<open>bt_get\<close> and \<open>bt_remove\<close> on sorted association lists interpret it.
\<close>

section \<open>Sorted association lists\<close>

type_synonym ('k, 'v) btmap = "('k \<times> 'v) list"

abbreviation bt_empty :: "('k, 'v) btmap" where
  "bt_empty \<equiv> []"

fun bt_insert :: "'k::linorder \<Rightarrow> 'v \<Rightarrow> ('k, 'v) btmap \<Rightarrow> ('k, 'v) btmap" where
  "bt_insert k v [] = [(k, v)]"
| "bt_insert k v ((k', v') # m) =
     (if k < k' then (k, v) # (k', v') # m
      else if k = k' then (k, v) # m
      else (k', v') # bt_insert k v m)"

definition bt_get :: "('k, 'v) btmap \<Rightarrow> 'k \<Rightarrow> 'v option" where
  "bt_get m k = map_of m k"

definition bt_remove :: "'k \<Rightarrow> ('k, 'v) btmap \<Rightarrow> ('k, 'v) btmap" where
  "bt_remove k m = filter (\<lambda>p. fst p \<noteq> k) m"

definition bt_contains :: "('k, 'v) btmap \<Rightarrow> 'k \<Rightarrow> bool" where
  "bt_contains m k \<longleftrightarrow> bt_get m k \<noteq> None"

definition bt_invar :: "('k::linorder, 'v) btmap \<Rightarrow> bool" where
  "bt_invar m \<longleftrightarrow> sorted_wrt (<) (map fst m)"

lemma bt_invar_Nil [simp]: "bt_invar []"
  by (simp add: bt_invar_def)

lemma bt_get_Nil [simp]: "bt_get [] k = None"
  by (simp add: bt_get_def)

lemma set_bt_insert: "set (bt_insert k v m) \<subseteq> insert (k, v) (set m)"
  by (induction k v m rule: bt_insert.induct) auto

lemma bt_invar_insert [simp]: "bt_invar m \<Longrightarrow> bt_invar (bt_insert k v m)"
proof (induction k v m rule: bt_insert.induct)
  case (1 k v)
  then show ?case by (simp add: bt_invar_def)
next
  case (2 k v k' v' m)
  then show ?case
    using set_bt_insert [of k v m] by (fastforce simp: bt_invar_def)
qed

lemma map_of_bt_insert: "map_of (bt_insert k v m) = (map_of m)(k \<mapsto> v)"
  by (induction k v m rule: bt_insert.induct) (auto simp: fun_eq_iff)

lemma bt_get_insert [simp]:
  "bt_get (bt_insert k v m) = (bt_get m)(k \<mapsto> v)"
  by (simp add: bt_get_def map_of_bt_insert fun_eq_iff)

lemma bt_invar_remove [simp]: "bt_invar m \<Longrightarrow> bt_invar (bt_remove k m)"
  by (induction m) (auto simp: bt_invar_def bt_remove_def)

lemma bt_get_remove [simp]: "bt_get (bt_remove k m) = (bt_get m)(k := None)"
  by (induction m) (auto simp: bt_get_def bt_remove_def fun_eq_iff)

lemma bt_contains_insert [simp]: "bt_contains (bt_insert k v m) j \<longleftrightarrow> j = k \<or> bt_contains m j"
  by (simp add: bt_contains_def)

section \<open>The contract of an ordered map\<close>

locale ordered_map =
  fixes empty :: 'm
    and ins :: "'k::linorder \<Rightarrow> 'v \<Rightarrow> 'm \<Rightarrow> 'm"
    and del :: "'k \<Rightarrow> 'm \<Rightarrow> 'm"
    and lookup :: "'m \<Rightarrow> 'k \<Rightarrow> 'v option"
    and entries :: "'m \<Rightarrow> ('k \<times> 'v) list"
    and invar :: "'m \<Rightarrow> bool"
  assumes lookup_empty: "lookup empty k = None"
    and lookup_ins: "invar m \<Longrightarrow> lookup (ins k v m) = (lookup m)(k \<mapsto> v)"
    and lookup_del: "invar m \<Longrightarrow> lookup (del k m) = (lookup m)(k := None)"
    and lookup_entries: "invar m \<Longrightarrow> lookup m = map_of (entries m)"
    and entries_sorted: "invar m \<Longrightarrow> sorted_wrt (<) (map fst (entries m))"
    and invar_empty: "invar empty"
    and invar_ins: "invar m \<Longrightarrow> invar (ins k v m)"
    and invar_del: "invar m \<Longrightarrow> invar (del k m)"
begin

lemma entries_distinct: "invar m \<Longrightarrow> distinct (map fst (entries m))"
  using entries_sorted [of m] by (simp add: strict_sorted_iff)

lemma entry_iff: "invar m \<Longrightarrow> (k, v) \<in> set (entries m) \<longleftrightarrow> lookup m k = Some v"
  by (simp add: entries_distinct lookup_entries)

text \<open>The entries depend only on the mapping, never on the order of the insertions.\<close>

lemma entries_eqI:
  assumes "invar m" "invar n" "lookup m = lookup n"
  shows "entries m = entries n"
proof -
  have "set (entries m) = set (entries n)"
    using assms entry_iff by auto
  moreover have "sorted (map fst (entries m))" "sorted (map fst (entries n))"
    using assms(1,2) entries_sorted strict_sorted_imp_sorted by blast+
  moreover have "distinct (map fst (entries m))" "distinct (map fst (entries n))"
    using assms(1,2) entries_distinct by blast+
  ultimately show ?thesis
    by (intro map_sorted_distinct_set_unique [of fst]) (auto simp: distinct_map)
qed

lemma entries_ins_commute:
  assumes "invar m" "k \<noteq> j"
  shows "entries (ins k v (ins j w m)) = entries (ins j w (ins k v m))"
  using assms by (intro entries_eqI) (auto simp: invar_ins lookup_ins)

lemma entries_ins_overwrite:
  assumes "invar m"
  shows "entries (ins k v (ins k w m)) = entries (ins k v m)"
  using assms by (intro entries_eqI) (auto simp: invar_ins lookup_ins)

lemma ins_same_entries:
  assumes "invar m" "lookup m k = Some v"
  shows "entries (ins k v m) = entries m"
  using assms by (intro entries_eqI) (auto simp: invar_ins lookup_ins)

lemma del_ins_entries:
  assumes "invar m" "lookup m k = None"
  shows "entries (del k (ins k v m)) = entries m"
  using assms by (intro entries_eqI) (auto simp: invar_ins invar_del lookup_ins lookup_del fun_upd_idem)

end

interpretation btm: ordered_map bt_empty bt_insert bt_remove bt_get "\<lambda>m. m" bt_invar
proof (unfold_locales, goal_cases)
  case (4 m)
  show ?case by (rule ext) (rule bt_get_def)
next
  case (5 m)
  then show ?case by (simp only: bt_invar_def)
qed simp_all

lemmas bt_entry_iff = btm.entry_iff
lemmas bt_eqI = btm.entries_eqI
lemmas bt_insert_commute = btm.entries_ins_commute
lemmas bt_insert_same = btm.ins_same_entries
lemmas bt_remove_insert = btm.del_ins_entries

lemma bt_contains_keys: "bt_contains m k \<longleftrightarrow> k \<in> fst ` set m"
  by (auto simp: bt_contains_def bt_get_def map_of_eq_None_iff)

text \<open>Collecting pairs into a map: \<open>iter.collect::<BTreeMap<_, _>>()\<close>, later pairs win.\<close>

definition bt_of_list :: "('k::linorder \<times> 'v) list \<Rightarrow> ('k, 'v) btmap" where
  "bt_of_list ps = fold (\<lambda>(k, v). bt_insert k v) ps bt_empty"

lemma bt_invar_fold_insert: "bt_invar m \<Longrightarrow> bt_invar (fold (\<lambda>(k, v). bt_insert k v) ps m)"
  by (induction ps arbitrary: m) auto

lemma bt_invar_of_list [simp]: "bt_invar (bt_of_list ps)"
  by (simp add: bt_of_list_def bt_invar_fold_insert)

lemma bt_get_fold_insert:
  "bt_get (fold (\<lambda>(k, v). bt_insert k v) ps m) k =
     (case map_of (rev ps) k of None \<Rightarrow> bt_get m k | Some v \<Rightarrow> Some v)"
  by (induction ps arbitrary: m) (auto split: option.splits simp: map_add_def)

lemma bt_get_of_list: "bt_get (bt_of_list ps) k = map_of (rev ps) k"
  by (simp add: bt_of_list_def bt_get_fold_insert split: option.split)

lemma map_of_rev_distinct: "distinct (map fst ps) \<Longrightarrow> map_of (rev ps) = map_of ps"
  by (subst map_of_inject_set) (simp_all add: rev_map [symmetric])

end
