(* ===== verification/Ext_Model.thy ===== *)
theory Ext_Model
  imports BTree_Map
begin

text \<open>
  The data that reaches the endpoint from third-party crates, and the third-party functions
  it calls.

  An \<open>http::HeaderMap\<close> is the list of its (name, value) pairs: names are lowercase, a name
  may repeat, values are bytes. \<open>hdr_get\<close> returns the first value of a name, \<open>hdr_get_all\<close>
  all of them in order; \<open>hdr_insert\<close> replaces every value of the name and \<open>hdr_append\<close>
  (the response builder's \<open>header\<close>) adds one.

  The record \<open>ext\<close> collects the functions of the crates http, percent-encoding, hex,
  base64, md-5, sha1, sha2, crc, hmac, uuid and chrono that the sources call. Instants and
  durations are whole nanoseconds, an instant counted from the Unix epoch; \<open>None\<close> as the
  value of \<open>x_duration_seconds\<close> or \<open>x_time_add\<close> is the panic that chrono documents for
  values out of range. They are parameters of
  the model: what a property needs of them is a named hypothesis below.
\<close>

section \<open>Header maps\<close>

type_synonym headers = "(string \<times> bytes) list"

definition hdr_get :: "headers \<Rightarrow> string \<Rightarrow> bytes option" where
  "hdr_get hs n = map_of hs n"

definition hdr_get_all :: "headers \<Rightarrow> string \<Rightarrow> bytes list" where
  "hdr_get_all hs n = map snd (filter (\<lambda>p. fst p = n) hs)"

definition hdr_contains :: "headers \<Rightarrow> string \<Rightarrow> bool" where
  "hdr_contains hs n \<longleftrightarrow> hdr_get hs n \<noteq> None"

definition hdr_insert :: "string \<Rightarrow> bytes \<Rightarrow> headers \<Rightarrow> headers" where
  "hdr_insert n v hs = filter (\<lambda>p. fst p \<noteq> n) hs @ [(n, v)]"

definition hdr_append :: "string \<Rightarrow> bytes \<Rightarrow> headers \<Rightarrow> headers" where
  "hdr_append n v hs = hs @ [(n, v)]"

lemma hdr_get_all_Nil: "hdr_get_all hs n = [] \<longleftrightarrow> hdr_get hs n = None"
  by (induction hs) (auto simp: hdr_get_all_def hdr_get_def)

lemma hdr_get_hd: "hdr_get hs n = (case hdr_get_all hs n of [] \<Rightarrow> None | v # _ \<Rightarrow> Some v)"
  by (induction hs) (auto simp: hdr_get_all_def hdr_get_def)

lemma hdr_contains_get_all: "hdr_contains hs n \<longleftrightarrow> hdr_get_all hs n \<noteq> []"
  by (simp add: hdr_contains_def hdr_get_all_Nil)

lemma hdr_get_insert: "hdr_get (hdr_insert n v hs) m = (if m = n then Some v else hdr_get hs m)"
  by (induction hs) (auto simp: hdr_insert_def hdr_get_def)

lemma hdr_get_all_insert_same [simp]: "hdr_get_all (hdr_insert n v hs) n = [v]"
  by (simp add: hdr_insert_def hdr_get_all_def filter_empty_conv)

section \<open>Third-party functions\<close>

record ext =
  x_to_str :: "bytes \<Rightarrow> string option"  \<comment> \<open>\<open>HeaderValue::to_str\<close>\<close>
  x_header_value_ok :: "string \<Rightarrow> bool"  \<comment> \<open>\<open>HeaderValue::from_str\<close> succeeds\<close>
  x_percent_decode :: "string \<Rightarrow> string option"  \<comment> \<open>\<open>percent_decode_str(_).decode_utf8()\<close>\<close>
  x_hex_encode :: "bytes \<Rightarrow> string"
  x_hex_decode :: "string \<Rightarrow> bytes option"
  x_base64_encode :: "bytes \<Rightarrow> string"
  x_base64_decode :: "string \<Rightarrow> bytes option"
  x_md5 :: "bytes \<Rightarrow> bytes"
  x_sha1 :: "bytes \<Rightarrow> bytes"
  x_sha256 :: "bytes \<Rightarrow> bytes"
  x_sha512 :: "bytes \<Rightarrow> bytes"
  x_crc32 :: "bytes \<Rightarrow> 32 word"
  x_crc32c :: "bytes \<Rightarrow> 32 word"
  x_hmac_sha256 :: "bytes \<Rightarrow> bytes \<Rightarrow> bytes option"  \<comment> \<open>key, data\<close>
  x_uuid_canonical :: "string \<Rightarrow> string option"  \<comment> \<open>\<open>Uuid::parse_str(_)\<close>, then \<open>to_string\<close>\<close>
  x_parse_amz_date :: "string \<Rightarrow> int option"
    \<comment> \<open>\<open>NaiveDateTime::parse_from_str(_, "%Y%m%dT%H%M%SZ")\<close>\<close>
  x_duration_seconds :: "int \<Rightarrow> int option"  \<comment> \<open>\<open>Duration::seconds\<close>\<close>
  x_time_add :: "int \<Rightarrow> int \<Rightarrow> int option"  \<comment> \<open>\<open>DateTime<Utc> + Duration\<close>\<close>

text \<open>\<open>u32::to_be_bytes\<close>.\<close>

definition u32_to_be_bytes :: "32 word \<Rightarrow> bytes" where
  "u32_to_be_bytes w =
     map (\<lambda>i. char_of (unat (drop_bit (8 * i) w) mod 256)) [3, 2, 1, 0]"

lemma length_u32_to_be_bytes [simp]: "length (u32_to_be_bytes w) = 4"
  by (simp add: u32_to_be_bytes_def)

section \<open>Documented behaviour that properties rely on\<close>

text \<open>\<open>to_str\<close> returns the value itself, and only when it is visible ASCII or tab.\<close>

definition to_str_law :: "ext \<Rightarrow> bool" where
  "to_str_law E \<longleftrightarrow>
     (\<forall>v s. x_to_str E v = Some s \<longrightarrow>
        s = v \<and> list_all (\<lambda>c. code_of c = 9 \<or> (32 \<le> code_of c \<and> code_of c < 127)) v)"

text \<open>Percent-decoding leaves text without a percent sign as it is.\<close>

definition percent_decode_law :: "ext \<Rightarrow> bool" where
  "percent_decode_law E \<longleftrightarrow>
     (\<forall>s. CHR ''%'' \<notin> set s \<and> utf8_valid s \<longrightarrow> x_percent_decode E s = Some s)"

text \<open>Hexadecimal encoding: two lowercase digits for each byte, injective.\<close>

definition hex_law :: "ext \<Rightarrow> bool" where
  "hex_law E \<longleftrightarrow> inj (x_hex_encode E)
     \<and> (\<forall>b. length (x_hex_encode E b) = 2 * length b \<and> list_all is_lower_hex (x_hex_encode E b))"

text \<open>\<open>Hmac::new_from_slice\<close> accepts keys of every length.\<close>

definition hmac_law :: "ext \<Rightarrow> bool" where
  "hmac_law E \<longleftrightarrow> (\<forall>k d. x_hmac_sha256 E k d \<noteq> None)"

text \<open>
  \<open>Duration::seconds\<close> is exact up to \<open>i64::MAX / 1000\<close> seconds and panics beyond; adding
  a duration to an instant is exact within chrono's range, which ends in the year 262142; and \<open>%Y\<close> reads
  four digits unless the text starts with a sign, so such dates lie in the years 0 to 9999.
\<close>

abbreviation nanos :: "int \<Rightarrow> int" where "nanos s \<equiv> s * 1000000000"

abbreviation max_duration_seconds :: int where
  "max_duration_seconds \<equiv> 9223372036854775"

abbreviation max_time_seconds :: int where
  "max_time_seconds \<equiv> 8000000000000"  \<comment> \<open>about the year 255000\<close>

abbreviation min_time_seconds :: int where
  "min_time_seconds \<equiv> - 62167219200"  \<comment> \<open>the start of the year 0\<close>

definition chrono_law :: "ext \<Rightarrow> bool" where
  "chrono_law E \<longleftrightarrow>
     (\<forall>n. 0 \<le> n \<longrightarrow> x_duration_seconds E n = (if n \<le> max_duration_seconds then Some (nanos n) else None))
     \<and> (\<forall>t d. nanos min_time_seconds \<le> t \<and> 0 \<le> d \<and> t + d \<le> nanos max_time_seconds
          \<longrightarrow> x_time_add E t d = Some (t + d))
     \<and> (\<forall>s t. x_parse_amz_date E s = Some t \<and> s \<noteq> [] \<and> is_ascii_digit (hd s)
          \<longrightarrow> nanos min_time_seconds \<le> t \<and> t \<le> nanos 253402300800)"

section \<open>A concrete instance for witnesses\<close>

text \<open>
  \<open>ext0\<close> gives every parameter an executable function: header and percent-coding functions
  as documented, hexadecimal coding as documented, and in place of each digest a simple
  function of the same output length.
\<close>

definition hex_byte :: "char \<Rightarrow> string" where
  "hex_byte c = [digit_char (code_of c div 16), digit_char (code_of c mod 16)]"

definition hex_encode0 :: "bytes \<Rightarrow> string" where
  "hex_encode0 b = concat (map hex_byte b)"

fun hex_decode0 :: "string \<Rightarrow> bytes option" where
  "hex_decode0 [] = Some []"
| "hex_decode0 [c] = None"
| "hex_decode0 (c # d # s) =
     (case (hex_digit_val c, hex_digit_val d, hex_decode0 s) of
        (Some x, Some y, Some t) \<Rightarrow> Some (char_of (16 * x + y) # t)
      | _ \<Rightarrow> None)"

fun percent_decode_bytes0 :: "string \<Rightarrow> bytes" where
  "percent_decode_bytes0 [] = []"
| "percent_decode_bytes0 [a] = [a]"
| "percent_decode_bytes0 [a, b] = [a, b]"
| "percent_decode_bytes0 (a # b # c # s) =
     (if a = CHR ''%'' then
        (case (hex_digit_val b, hex_digit_val c) of
           (Some x, Some y) \<Rightarrow> char_of (16 * x + y) # percent_decode_bytes0 s
         | _ \<Rightarrow> a # percent_decode_bytes0 (b # c # s))
      else a # percent_decode_bytes0 (b # c # s))"

definition percent_decode0 :: "string \<Rightarrow> string option" where
  "percent_decode0 s =
     (let b = percent_decode_bytes0 s in if utf8_valid b then Some b else None)"

definition to_str0 :: "bytes \<Rightarrow> string option" where
  "to_str0 v =
     (if list_all (\<lambda>c. code_of c = 9 \<or> (32 \<le> code_of c \<and> code_of c < 127)) v
      then Some v else None)"

definition toy_digest :: "nat \<Rightarrow> bytes \<Rightarrow> bytes" where
  "toy_digest n b = take n (b @ replicate n (char_of (length b)))"

definition ext0 :: ext where
  "ext0 = \<lparr>
     x_to_str = to_str0,
     x_header_value_ok =
       list_all (\<lambda>c. code_of c = 9 \<or> (32 \<le> code_of c \<and> code_of c \<noteq> 127)),
     x_percent_decode = percent_decode0,
     x_hex_encode = hex_encode0,
     x_hex_decode = hex_decode0,
     x_base64_encode = (\<lambda>b. b),
     x_base64_decode = Some,
     x_md5 = toy_digest 16,
     x_sha1 = toy_digest 20,
     x_sha256 = toy_digest 32,
     x_sha512 = toy_digest 64,
     x_crc32 = (\<lambda>b. of_nat (length b)),
     x_crc32c = (\<lambda>b. of_nat (length b)),
     x_hmac_sha256 = (\<lambda>k d. Some (toy_digest 32 d)),
     x_uuid_canonical = Some,
     x_parse_amz_date = (\<lambda>s. if length s = 16 then Some (nanos 1700000000) else None),
     x_duration_seconds = (\<lambda>n. if n \<le> max_duration_seconds then Some (nanos n) else None),
     x_time_add = (\<lambda>t d. if t + d \<le> nanos max_time_seconds then Some (t + d) else None) \<rparr>"

lemma to_str_law_ext0: "to_str_law ext0"
  by (simp add: to_str_law_def ext0_def to_str0_def)

lemma percent_decode_bytes0_id: "CHR ''%'' \<notin> set s \<Longrightarrow> percent_decode_bytes0 s = s"
  by (induction s rule: percent_decode_bytes0.induct) auto

lemma percent_decode_law_ext0: "percent_decode_law ext0"
  by (simp add: percent_decode_law_def ext0_def percent_decode0_def percent_decode_bytes0_id)

lemma hmac_law_ext0: "hmac_law ext0"
  by (simp add: hmac_law_def ext0_def)

lemma chrono_law_ext0: "chrono_law ext0"
  by (simp add: chrono_law_def ext0_def)

lemma digit_char_inj: "a < 16 \<Longrightarrow> b < 16 \<Longrightarrow> digit_char a = digit_char b \<Longrightarrow> a = b"
  by (drule arg_cong [where f = code_of]) (simp add: digit_char_code split: if_splits)

lemma hex_byte_inj: "hex_byte c = hex_byte d \<Longrightarrow> c = d"
proof -
  assume "hex_byte c = hex_byte d"
  then have "digit_char (code_of c div 16) = digit_char (code_of d div 16)"
    and "digit_char (code_of c mod 16) = digit_char (code_of d mod 16)"
    by (simp_all add: hex_byte_def)
  moreover have "code_of c div 16 < 16" "code_of d div 16 < 16"
    by (simp_all add: less_mult_imp_div_less)
  ultimately have "code_of c div 16 = code_of d div 16" "code_of c mod 16 = code_of d mod 16"
    using digit_char_inj by simp_all
  then have "code_of c = code_of d" by (metis div_mult_mod_eq)
  then show "c = d" by simp
qed

lemma hex_encode0_inj: "hex_encode0 a = hex_encode0 b \<Longrightarrow> a = b"
proof (induction a arbitrary: b)
  case Nil
  then show ?case by (cases b) (auto simp: hex_encode0_def hex_byte_def)
next
  case (Cons x xs)
  then obtain y ys where b: "b = y # ys"
    by (cases b) (auto simp: hex_encode0_def hex_byte_def)
  with Cons.prems have "hex_byte x @ hex_encode0 xs = hex_byte y @ hex_encode0 ys"
    by (simp add: hex_encode0_def)
  then have "hex_byte x = hex_byte y" "hex_encode0 xs = hex_encode0 ys"
    by (simp_all add: hex_byte_def)
  with Cons.IH b hex_byte_inj show ?case by blast
qed

lemma hex_byte_alphabet: "list_all is_lower_hex (hex_byte c)"
proof -
  have "code_of c div 16 < 16" by (simp add: less_mult_imp_div_less)
  then show ?thesis
    by (auto simp: hex_byte_def is_lower_hex_def is_ascii_digit_def digit_char_code)
qed

lemma hex_law_ext0: "hex_law ext0"
proof -
  have "length (hex_encode0 b) = 2 * length b \<and> list_all is_lower_hex (hex_encode0 b)" for b
  proof (induction b)
    case Nil
    show ?case by (simp add: hex_encode0_def)
  next
    case (Cons c b)
    with hex_byte_alphabet [of c] show ?case
      by (simp add: hex_encode0_def hex_byte_def)
  qed
  then show ?thesis
    by (simp add: hex_law_def ext0_def inj_def hex_encode0_inj)
qed

lemmas hdr_eval = hdr_get_def hdr_get_all_def hdr_contains_def

lemmas ext0_laws = to_str_law_ext0 percent_decode_law_ext0 hex_law_ext0 hmac_law_ext0
  chrono_law_ext0

end
