(* ===== verification/S3_Error.thy ===== *)
theory S3_Error
  imports Ext_Model
begin

text \<open>
  S3 XML errors (\<open>src/error.rs\<close>): the value \<open>S3Error\<close> with one constructor function per
  S3 error code, and its conversion to an HTTP response. The response is the record
  \<open>response\<close>, shared by every handler.
\<close>

section \<open>The error value\<close>

record s3_error =
  err_status :: nat
  err_code :: string
  err_message :: string
  err_resource :: "string option"
  err_headers :: headers

type_synonym 'a s3res = "('a, s3_error) result"

definition S3Error_new :: "nat \<Rightarrow> string \<Rightarrow> string \<Rightarrow> s3_error" where
  "S3Error_new status code message =
     \<lparr>err_status = status, err_code = code, err_message = message,
      err_resource = None, err_headers = []\<rparr>"

definition invalid_request :: "string \<Rightarrow> s3_error" where
  "invalid_request m = S3Error_new 400 ''InvalidRequest'' m"

definition invalid_argument :: "string \<Rightarrow> s3_error" where
  "invalid_argument m = S3Error_new 400 ''InvalidArgument'' m"

definition malformed_xml :: "string \<Rightarrow> s3_error" where
  "malformed_xml m = S3Error_new 400 ''MalformedXML'' m"

definition no_such_bucket :: "string \<Rightarrow> s3_error" where
  "no_such_bucket b =
     S3Error_new 404 ''NoSuchBucket'' (''The specified bucket does not exist: '' @ b)"

definition no_such_key :: s3_error where
  "no_such_key = S3Error_new 404 ''NoSuchKey'' ''The specified key does not exist.''"

definition access_denied :: "string \<Rightarrow> s3_error" where
  "access_denied m = S3Error_new 403 ''AccessDenied'' m"

definition authorization_header_malformed :: "string \<Rightarrow> s3_error" where
  "authorization_header_malformed m = S3Error_new 400 ''AuthorizationHeaderMalformed'' m"

definition signature_does_not_match :: s3_error where
  "signature_does_not_match = S3Error_new 403 ''SignatureDoesNotMatch''
     ''The request signature we calculated does not match the signature you provided.''"

definition request_time_too_skewed :: s3_error where
  \<open>request_time_too_skewed = S3Error_new 403 ''RequestTimeTooSkewed''
     (''The difference between the request time and the server'' @ [CHR 0x27] @
      ''s time is too large.'')\<close>

definition missing_content_length :: s3_error where
  "missing_content_length = S3Error_new 411 ''MissingContentLength''
     ''You must provide the Content-Length HTTP header.''"

definition bad_digest :: "string \<Rightarrow> s3_error" where
  "bad_digest m = S3Error_new 400 ''BadDigest'' m"

definition no_such_upload :: s3_error where
  "no_such_upload = S3Error_new 404 ''NoSuchUpload''
     ''The specified multipart upload does not exist.''"

definition invalid_part :: "string \<Rightarrow> s3_error" where
  "invalid_part m = S3Error_new 400 ''InvalidPart'' m"

definition entity_too_small :: "string \<Rightarrow> s3_error" where
  "entity_too_small m = S3Error_new 400 ''EntityTooSmall'' m"

definition entity_too_large :: "string \<Rightarrow> s3_error" where
  "entity_too_large m = S3Error_new 413 ''EntityTooLarge'' m"

definition slow_down :: "string \<Rightarrow> s3_error" where
  "slow_down m = S3Error_new 503 ''SlowDown'' m"

definition invalid_range :: "string \<Rightarrow> s3_error" where
  "invalid_range m = S3Error_new 416 ''InvalidRange'' m"

definition precondition_failed :: "string \<Rightarrow> s3_error" where
  "precondition_failed m = S3Error_new 412 ''PreconditionFailed'' m"

definition not_implemented :: "string \<Rightarrow> s3_error" where
  "not_implemented m = S3Error_new 501 ''NotImplemented'' m"

definition internal_error :: "string \<Rightarrow> s3_error" where
  "internal_error m = S3Error_new 500 ''InternalError'' m"

definition with_resource :: "s3_error \<Rightarrow> string \<Rightarrow> s3_error" where
  "with_resource e r = e\<lparr>err_resource := Some r\<rparr>"

definition with_header :: "s3_error \<Rightarrow> string \<Rightarrow> bytes \<Rightarrow> s3_error" where
  "with_header e n v = e\<lparr>err_headers := err_headers e @ [(n, v)]\<rparr>"

definition method_not_allowed :: s3_error where
  "method_not_allowed =
     with_header
       (S3Error_new 405 ''MethodNotAllowed''
          ''The specified method is not allowed against this resource.'')
       ''allow'' ''DELETE, GET, HEAD, POST, PUT''"

lemmas s3_error_defs =
  S3Error_new_def invalid_request_def invalid_argument_def malformed_xml_def no_such_bucket_def
  no_such_key_def access_denied_def authorization_header_malformed_def
  signature_does_not_match_def request_time_too_skewed_def missing_content_length_def
  bad_digest_def no_such_upload_def invalid_part_def entity_too_small_def entity_too_large_def
  slow_down_def invalid_range_def precondition_failed_def not_implemented_def internal_error_def
  with_resource_def with_header_def method_not_allowed_def

section \<open>XML escaping\<close>

text \<open>\<open>str::replace\<close> with a one-character pattern.\<close>

definition replace_char :: "char \<Rightarrow> string \<Rightarrow> string \<Rightarrow> string" where
  "replace_char c r s = concat (map (\<lambda>x. if x = c then r else [x]) s)"

definition escape_xml :: "string \<Rightarrow> string" where
  "escape_xml s =
     replace_char (CHR 0x27) ''&apos;''
       (replace_char DQ ''&quot;''
         (replace_char (CHR ''>'') ''&gt;''
           (replace_char (CHR ''<'') ''&lt;''
             (replace_char (CHR ''&'') ''&amp;'' s))))"

section \<open>Responses\<close>

record response =
  rsp_status :: nat
  rsp_headers :: headers
  rsp_body :: bytes
  rsp_decoded_bytes :: "nat option"  \<comment> \<open>the \<open>DecodedBodyBytes\<close> extension\<close>

definition to_xml :: "s3_error \<Rightarrow> string \<Rightarrow> string" where
  \<open>to_xml e request_id =
     ''<?xml version="1.0" encoding="UTF-8"?>'' @ [LF] @
     ''<Error>'' @ [LF] @
     ''  <Code>'' @ err_code e @ ''</Code>'' @ [LF] @
     ''  <Message>'' @ escape_xml (err_message e) @ ''</Message>'' @ [LF] @
     (case err_resource e of None \<Rightarrow> []
      | Some r \<Rightarrow> ''  <Resource>'' @ escape_xml r @ ''</Resource>'' @ [LF]) @
     ''  <RequestId>'' @ request_id @ ''</RequestId>'' @ [LF] @
     ''</Error>'' @ [LF]\<close>

definition into_response_with_request_id :: "ext \<Rightarrow> s3_error \<Rightarrow> string \<Rightarrow> response" where
  "into_response_with_request_id E e request_id =
     (let hs0 = hdr_insert ''content-type'' ''application/xml; charset=utf-8'' [];
          hs1 = fold (\<lambda>(n, v). hdr_insert n v) (err_headers e) hs0;
          hs2 = (if x_header_value_ok E request_id
                 then hdr_insert ''x-amz-request-id'' request_id hs1 else hs1)
      in \<lparr>rsp_status = err_status e, rsp_headers = hs2, rsp_body = to_xml e request_id,
          rsp_decoded_bytes = None\<rparr>)"

section \<open>Escaping is a one-pass, reversible encoding\<close>

fun escape_char :: "char \<Rightarrow> string" where
  "escape_char c =
     (if c = CHR ''&'' then ''&amp;'' else if c = CHR ''<'' then ''&lt;''
      else if c = CHR ''>'' then ''&gt;'' else if c = DQ then ''&quot;''
      else if c = CHR 0x27 then ''&apos;'' else [c])"

text \<open>An XML reader's treatment of the five predefined entities.\<close>

fun unescape_xml :: "string \<Rightarrow> string" where
  "unescape_xml [] = []"
| "unescape_xml (c # s) =
     (if c \<noteq> CHR ''&'' then c # unescape_xml s
      else if starts_with s ''amp;'' then CHR ''&'' # unescape_xml (drop 4 s)
      else if starts_with s ''lt;'' then CHR ''<'' # unescape_xml (drop 3 s)
      else if starts_with s ''gt;'' then CHR ''>'' # unescape_xml (drop 3 s)
      else if starts_with s ''quot;'' then DQ # unescape_xml (drop 5 s)
      else if starts_with s ''apos;'' then CHR 0x27 # unescape_xml (drop 5 s)
      else c # unescape_xml s)"

lemma replace_char_Nil [simp]: "replace_char c r [] = []"
  by (simp add: replace_char_def)

lemma replace_char_Cons [simp]:
  "replace_char c r (x # s) = (if x = c then r else [x]) @ replace_char c r s"
  by (simp add: replace_char_def)

lemma replace_char_append [simp]:
  "replace_char c r (s @ t) = replace_char c r s @ replace_char c r t"
  by (simp add: replace_char_def)

lemma escape_xml_one_pass: "escape_xml s = concat (map escape_char s)"
  by (induction s) (simp_all add: escape_xml_def)

lemma unescape_escape_char: "unescape_xml (escape_char c @ s) = c # unescape_xml s"
  by simp

lemma unescape_escape_xml: "unescape_xml (escape_xml s) = s"
  by (induction s) (simp_all add: escape_xml_one_pass unescape_escape_char
      del: escape_char.simps unescape_xml.simps(2))

lemma escape_xml_no_markup:
  "set (escape_xml s) \<inter> {CHR ''<'', CHR ''>'', DQ, CHR 0x27} = {}"
  by (induction s) (auto simp: escape_xml_one_pass)

text \<open>
  C37. Text escaped for XML contains none of the characters that open or close markup or an
  attribute value, and an XML reader gets the original text back; so no error message,
  resource path, key or upload id can inject markup into a response body.
\<close>

theorem escape_xml_safe_and_reversible:
  "set (escape_xml s) \<inter> {CHR ''<'', CHR ''>'', DQ, CHR 0x27} = {}
   \<and> unescape_xml (escape_xml s) = s"
  by (rule conjI [OF escape_xml_no_markup unescape_escape_xml])

end
