(* ===== verification/S3_Types.thy ===== *)
theory S3_Types
  imports S3_Error
begin

text \<open>
  The validated domain values of \<open>src/s3/types.rs\<close>. Each newtype is the string or number it
  wraps; its \<open>parse\<close> function is the only way the endpoint builds one from request input, and
  the predicates \<open>valid_bucket\<close>, \<open>valid_key\<close>, \<open>valid_etag\<close> and \<open>valid_part_number\<close>
  say what a parsed value satisfies.
\<close>

section \<open>Domain errors\<close>

datatype domain_error =
    EmptyBucketName | InvalidBucketName | EmptyObjectKey | InvalidObjectKey | InvalidPartNumber
  | InvalidContentLength | InvalidETag | InvalidRequestId | InvalidUploadId
  | InvalidPayloadHashMode

fun domain_error_display :: "domain_error \<Rightarrow> string" where
  "domain_error_display EmptyBucketName = ''bucket name must not be empty''"
| "domain_error_display InvalidBucketName = ''bucket name contains invalid characters''"
| "domain_error_display EmptyObjectKey = ''object key must not be empty''"
| "domain_error_display InvalidObjectKey = ''object key contains invalid characters''"
| "domain_error_display InvalidPartNumber = ''part number must be in the range 1..=10000''"
| "domain_error_display InvalidContentLength = ''content length must be an integer''"
| "domain_error_display InvalidETag = ''ETag contains invalid characters''"
| "domain_error_display InvalidRequestId = ''request ID contains invalid characters''"
| "domain_error_display InvalidUploadId = ''upload ID must be a canonical lowercase UUID''"
| "domain_error_display InvalidPayloadHashMode = ''payload hash mode is invalid''"

section \<open>String newtypes\<close>

type_synonym bucket_name = string
type_synonym object_key = string
type_synonym etag = string
type_synonym request_id = string
type_synonym upload_id = string
type_synonym content_length = nat
type_synonym part_number = nat

definition BucketName_parse :: "string \<Rightarrow> (bucket_name, domain_error) result" where
  "BucketName_parse v =
     (if v = [] then Err EmptyBucketName
      else if list_ex (\<lambda>c. c = CHR ''/'' \<or> c = CHR 0x5C \<or> is_ascii_control c) v
      then Err InvalidBucketName
      else Ok v)"

definition ObjectKey_parse :: "string \<Rightarrow> (object_key, domain_error) result" where
  "ObjectKey_parse v =
     (if v = [] then Err EmptyObjectKey
      else if list_ex is_ascii_control v then Err InvalidObjectKey
      else Ok v)"

definition ETag_parse :: "string \<Rightarrow> (etag, domain_error) result" where
  "ETag_parse v =
     (if v = [] \<or> list_ex is_ascii_control v then Err InvalidETag else Ok v)"

definition ETag_from_hex_md5 :: "string \<Rightarrow> etag" where
  "ETag_from_hex_md5 h = [DQ] @ h @ [DQ]"

definition ETag_from_multipart_md5 :: "string \<Rightarrow> nat \<Rightarrow> etag" where
  "ETag_from_multipart_md5 h n = [DQ] @ h @ ''-'' @ show_nat n @ [DQ]"

definition RequestId_parse :: "string \<Rightarrow> (request_id, domain_error) result" where
  "RequestId_parse v =
     (if v = [] \<or> list_ex is_ascii_control v then Err InvalidRequestId else Ok v)"

definition UploadId_parse :: "ext \<Rightarrow> string \<Rightarrow> (upload_id, domain_error) result" where
  "UploadId_parse E v =
     (case x_uuid_canonical E v of
        None \<Rightarrow> Err InvalidUploadId
      | Some canonical \<Rightarrow> if canonical \<noteq> v then Err InvalidUploadId else Ok v)"

section \<open>Number newtypes\<close>

definition ContentLength_from_str :: "string \<Rightarrow> (content_length, domain_error) result" where
  "ContentLength_from_str v = ok_or InvalidContentLength (parse_u64 v)"

definition PartNumber_parse :: "nat \<Rightarrow> (part_number, domain_error) result" where
  "PartNumber_parse v =
     (if v = 0 then Err InvalidPartNumber
      else if v > 10000 then Err InvalidPartNumber
      else Ok v)"

definition PartNumber_from_str :: "string \<Rightarrow> (part_number, domain_error) result" where
  "PartNumber_from_str v = and_then (ok_or InvalidPartNumber (parse_u16 v)) PartNumber_parse"

section \<open>Operations and actions\<close>

text \<open>\<open>S3Action\<close> is declared in \<open>src/config.rs\<close>.\<close>

datatype s3_action =
    Act_PutObject | Act_GetObject | Act_HeadObject | Act_DeleteObject
  | Act_CreateMultipartUpload | Act_UploadPart | Act_CompleteMultipartUpload
  | Act_AbortMultipartUpload | Act_ListMultipartUploadParts | Act_HeadBucket

datatype s3_operation =
    Op_PutObject
  | Op_CreateMultipartUpload
  | Op_UploadPart upload_id part_number
  | Op_CompleteMultipartUpload upload_id
  | Op_AbortMultipartUpload upload_id
  | Op_ListParts upload_id
  | Op_HeadBucket
  | Op_HeadObject
  | Op_GetObject
  | Op_DeleteObject

fun S3Operation_name :: "s3_operation \<Rightarrow> string" where
  "S3Operation_name Op_PutObject = ''PutObject''"
| "S3Operation_name Op_CreateMultipartUpload = ''CreateMultipartUpload''"
| "S3Operation_name (Op_UploadPart u p) = ''UploadPart''"
| "S3Operation_name (Op_CompleteMultipartUpload u) = ''CompleteMultipartUpload''"
| "S3Operation_name (Op_AbortMultipartUpload u) = ''AbortMultipartUpload''"
| "S3Operation_name (Op_ListParts u) = ''ListParts''"
| "S3Operation_name Op_HeadBucket = ''HeadBucket''"
| "S3Operation_name Op_HeadObject = ''HeadObject''"
| "S3Operation_name Op_GetObject = ''GetObject''"
| "S3Operation_name Op_DeleteObject = ''DeleteObject''"

fun S3Operation_action :: "s3_operation \<Rightarrow> s3_action" where
  "S3Operation_action Op_PutObject = Act_PutObject"
| "S3Operation_action Op_CreateMultipartUpload = Act_CreateMultipartUpload"
| "S3Operation_action (Op_UploadPart u p) = Act_UploadPart"
| "S3Operation_action (Op_CompleteMultipartUpload u) = Act_CompleteMultipartUpload"
| "S3Operation_action (Op_AbortMultipartUpload u) = Act_AbortMultipartUpload"
| "S3Operation_action (Op_ListParts u) = Act_ListMultipartUploadParts"
| "S3Operation_action Op_HeadBucket = Act_HeadBucket"
| "S3Operation_action Op_HeadObject = Act_HeadObject"
| "S3Operation_action Op_GetObject = Act_GetObject"
| "S3Operation_action Op_DeleteObject = Act_DeleteObject"

section \<open>Payload hash modes\<close>

datatype payload_mode =
    PH_Missing
  | PH_UnsignedPayload
  | PH_FixedSha256 (fixed_hex: string) (fixed_digest: bytes)
  | PH_StreamingSignedPayload
  | PH_StreamingSignedPayloadTrailer
  | PH_StreamingUnsignedPayloadTrailer

definition is_lowercase_sha256_hex :: "string \<Rightarrow> bool" where
  "is_lowercase_sha256_hex v \<longleftrightarrow> length v = 64 \<and> list_all is_lower_hex v"

definition PayloadHashMode_parse ::
  "ext \<Rightarrow> string option \<Rightarrow> (payload_mode, domain_error) result" where
  "PayloadHashMode_parse E value =
     (case value of
        None \<Rightarrow> Ok PH_Missing
      | Some v \<Rightarrow>
          if v = ''UNSIGNED-PAYLOAD'' then Ok PH_UnsignedPayload
          else if v = ''STREAMING-AWS4-HMAC-SHA256-PAYLOAD'' then Ok PH_StreamingSignedPayload
          else if v = ''STREAMING-AWS4-HMAC-SHA256-PAYLOAD-TRAILER''
            then Ok PH_StreamingSignedPayloadTrailer
          else if v = ''STREAMING-UNSIGNED-PAYLOAD-TRAILER''
            then Ok PH_StreamingUnsignedPayloadTrailer
          else if is_lowercase_sha256_hex v then
            map_ok (PH_FixedSha256 v) (ok_or InvalidPayloadHashMode (x_hex_decode E v))
          else Err InvalidPayloadHashMode)"

fun PayloadHashMode_canonical_value :: "payload_mode \<Rightarrow> string option" where
  "PayloadHashMode_canonical_value PH_Missing = None"
| "PayloadHashMode_canonical_value PH_UnsignedPayload = Some ''UNSIGNED-PAYLOAD''"
| "PayloadHashMode_canonical_value (PH_FixedSha256 h d) = Some h"
| "PayloadHashMode_canonical_value PH_StreamingSignedPayload =
     Some ''STREAMING-AWS4-HMAC-SHA256-PAYLOAD''"
| "PayloadHashMode_canonical_value PH_StreamingSignedPayloadTrailer =
     Some ''STREAMING-AWS4-HMAC-SHA256-PAYLOAD-TRAILER''"
| "PayloadHashMode_canonical_value PH_StreamingUnsignedPayloadTrailer =
     Some ''STREAMING-UNSIGNED-PAYLOAD-TRAILER''"

section \<open>Resolved targets\<close>

record s3_target =
  tgt_bucket :: bucket_name
  tgt_key :: object_key
  tgt_virtual_hosted :: bool

section \<open>What parsed values satisfy\<close>

definition valid_bucket :: "string \<Rightarrow> bool" where
  "valid_bucket b \<longleftrightarrow> b \<noteq> [] \<and> (\<forall>c\<in>set b. c \<noteq> CHR ''/'' \<and> c \<noteq> CHR 0x5C \<and> \<not> is_ascii_control c)"

definition valid_key :: "string \<Rightarrow> bool" where
  "valid_key k \<longleftrightarrow> k \<noteq> [] \<and> (\<forall>c\<in>set k. \<not> is_ascii_control c)"

definition valid_part_number :: "nat \<Rightarrow> bool" where
  "valid_part_number n \<longleftrightarrow> 1 \<le> n \<and> n \<le> 10000"

lemma BucketName_parse_Ok [res_simps]: "BucketName_parse v = Ok b \<longleftrightarrow> b = v \<and> valid_bucket v"
  by (auto simp: BucketName_parse_def valid_bucket_def list_ex_iff)

lemma ObjectKey_parse_Ok [res_simps]: "ObjectKey_parse v = Ok k \<longleftrightarrow> k = v \<and> valid_key v"
  by (auto simp: ObjectKey_parse_def valid_key_def list_ex_iff)

lemma ETag_parse_Ok [res_simps]: "ETag_parse v = Ok e \<longleftrightarrow> e = v \<and> valid_key v"
  by (auto simp: ETag_parse_def valid_key_def list_ex_iff)

lemma UploadId_parse_Ok [res_simps]:
  "UploadId_parse E v = Ok u \<longleftrightarrow> u = v \<and> x_uuid_canonical E v = Some v"
  by (auto simp: UploadId_parse_def split: option.splits)

lemma PartNumber_parse_Ok [res_simps]:
  "PartNumber_parse v = Ok n \<longleftrightarrow> n = v \<and> valid_part_number v"
  by (auto simp: PartNumber_parse_def valid_part_number_def)

lemma nul_is_control: "is_ascii_control (CHR 0x00)"
  by (simp add: is_ascii_control_def)

lemma valid_bucket_no_nul: "valid_bucket b \<Longrightarrow> CHR 0x00 \<notin> set b"
  using nul_is_control unfolding valid_bucket_def by blast

text \<open>The mode a header value parses to is the mode whose canonical value it is.\<close>

lemma PayloadHashMode_parse_canonical:
  "PayloadHashMode_parse E v = Ok m \<Longrightarrow> PayloadHashMode_canonical_value m = v"
  by (simp add: PayloadHashMode_parse_def split: option.splits if_splits) (auto simp: res_simps)

lemma PayloadHashMode_parse_fixed:
  "PayloadHashMode_parse E v = Ok (PH_FixedSha256 h d) \<Longrightarrow>
     v = Some h \<and> is_lowercase_sha256_hex h \<and> x_hex_decode E h = Some d"
  by (simp add: PayloadHashMode_parse_def split: option.splits if_splits) (auto simp: res_simps)

text \<open>
  A part number read from a query string is accepted exactly when its decimal value is
  in the range 1..=10000, and displaying an accepted number and parsing it again returns it.
\<close>

lemma PartNumber_roundtrip:
  "(PartNumber_from_str v = Ok n \<longrightarrow> valid_part_number n)
   \<and> (valid_part_number n \<longrightarrow> PartNumber_from_str (show_nat n) = Ok n)"
proof -
  have "valid_part_number n \<Longrightarrow> PartNumber_from_str (show_nat n) = Ok n"
    using from_str_radix_show [of 10 n 16]
    by (simp add: PartNumber_from_str_def parse_u16_def show_nat_def res_simps valid_part_number_def)
  then show ?thesis
    by (auto simp: PartNumber_from_str_def res_simps)
qed

end
