(* ===== verification/S3_Target.thy ===== *)
theory S3_Target
  imports S3_Types
begin

text \<open>
  Bucket and key resolution (\<open>src/s3/target.rs\<close>) for path-style and virtual-hosted-style
  requests. Percent-decoding is the third-party function \<open>x_percent_decode\<close>.
\<close>

datatype target_error =
    MissingBucket | MissingKey | InvalidPercentEncoding | InvalidDomain domain_error

fun target_error_display :: "target_error \<Rightarrow> string" where
  "target_error_display MissingBucket = ''request path must include bucket''"
| "target_error_display MissingKey = ''request path must include bucket and key''"
| "target_error_display InvalidPercentEncoding = ''path contains invalid percent-encoded UTF-8''"
| "target_error_display (InvalidDomain e) = ''invalid target: '' @ domain_error_display e"

definition target_percent_decode :: "ext \<Rightarrow> string \<Rightarrow> (string, target_error) result" where
  "target_percent_decode E v = ok_or InvalidPercentEncoding (x_percent_decode E v)"

text \<open>\<open>value.split_once(':').map_or(value, |(host, _)| host)\<close>.\<close>

definition without_port :: "string \<Rightarrow> string" where
  "without_port h = (case split_once (CHR '':'') h of None \<Rightarrow> h | Some (a, _) \<Rightarrow> a)"

definition virtual_host_bucket :: "string \<Rightarrow> string \<Rightarrow> string option" where
  "virtual_host_bucket host base_domain =
     (let host_without_port = without_port host;
          base_without_port = without_port base_domain;
          host_lower = to_ascii_lowercase host_without_port;
          suffix = ''.'' @ to_ascii_lowercase base_without_port
      in case strip_suffix suffix host_lower of
           None \<Rightarrow> None
         | Some lower_bucket \<Rightarrow>
             let bucket = take (length lower_bucket) host_without_port
             in if bucket = [] then None else Some bucket)"

definition has_virtual_hosted_bucket :: "string \<Rightarrow> string \<Rightarrow> bool" where
  "has_virtual_hosted_bucket host base_domain \<longleftrightarrow> virtual_host_bucket host base_domain \<noteq> None"

text \<open>The bucket in the host name, when both a host and a base domain are known.\<close>

definition host_bucket :: "string option \<Rightarrow> string option \<Rightarrow> string option" where
  "host_bucket host base =
     (case (host, base) of (Some h, Some b) \<Rightarrow> virtual_host_bucket h b | _ \<Rightarrow> None)"

text \<open>\<open>path.strip_prefix('/').unwrap_or(path)\<close>.\<close>

definition strip_slash :: "string \<Rightarrow> string" where
  "strip_slash path = (case strip_prefix ''/'' path of None \<Rightarrow> path | Some r \<Rightarrow> r)"

definition parse_bucket :: "ext \<Rightarrow> string \<Rightarrow> (bucket_name, target_error) result" where
  "parse_bucket E raw =
     and_then (target_percent_decode E raw) (\<lambda>d. map_err InvalidDomain (BucketName_parse d))"

definition parse_key :: "ext \<Rightarrow> string \<Rightarrow> (object_key, target_error) result" where
  "parse_key E raw =
     and_then (target_percent_decode E raw) (\<lambda>d. map_err InvalidDomain (ObjectKey_parse d))"

definition resolve_path_style_bucket :: "ext \<Rightarrow> string \<Rightarrow> (bucket_name, target_error) result" where
  "resolve_path_style_bucket E path0 =
     (let path = strip_slash path0
      in if path = [] then Err MissingBucket
         else case split_once (CHR ''/'') path of
                Some (bucket, []) \<Rightarrow> parse_bucket E bucket
              | Some (bucket, _ # _) \<Rightarrow> Err MissingKey
              | None \<Rightarrow> parse_bucket E path)"

definition resolve_path_style :: "ext \<Rightarrow> string \<Rightarrow> (s3_target, target_error) result" where
  "resolve_path_style E path0 =
     (case split_once (CHR ''/'') (strip_slash path0) of
        None \<Rightarrow> Err MissingKey
      | Some (bucket, key) \<Rightarrow>
          and_then (parse_bucket E bucket) (\<lambda>b.
          and_then (parse_key E key) (\<lambda>k.
          Ok \<lparr>tgt_bucket = b, tgt_key = k, tgt_virtual_hosted = False\<rparr>)))"

definition resolve_bucket_name ::
  "ext \<Rightarrow> string \<Rightarrow> string option \<Rightarrow> string option \<Rightarrow> (bucket_name, target_error) result" where
  "resolve_bucket_name E path host base =
     (case host_bucket host base of
        Some bucket \<Rightarrow>
          if strip_slash path \<noteq> [] then Err MissingKey else parse_bucket E bucket
      | None \<Rightarrow> resolve_path_style_bucket E path)"

definition resolve_s3_target ::
  "ext \<Rightarrow> string \<Rightarrow> string option \<Rightarrow> string option \<Rightarrow> (s3_target, target_error) result" where
  "resolve_s3_target E path host base =
     (case host_bucket host base of
        Some bucket \<Rightarrow>
          and_then (parse_bucket E bucket) (\<lambda>b.
          and_then (parse_key E (strip_slash path)) (\<lambda>k.
          Ok \<lparr>tgt_bucket = b, tgt_key = k, tgt_virtual_hosted = True\<rparr>))
      | None \<Rightarrow> resolve_path_style E path)"

section \<open>Resolved targets are valid\<close>

lemma parse_bucket_Ok [res_simps]:
  "parse_bucket E raw = Ok b \<longleftrightarrow> x_percent_decode E raw = Some b \<and> valid_bucket b"
  by (auto simp: parse_bucket_def target_percent_decode_def res_simps)

lemma parse_key_Ok [res_simps]:
  "parse_key E raw = Ok k \<longleftrightarrow> x_percent_decode E raw = Some k \<and> valid_key k"
  by (auto simp: parse_key_def target_percent_decode_def res_simps)

lemma resolve_path_style_Ok:
  "resolve_path_style E path = Ok t \<longleftrightarrow>
     (\<exists>rb rk. split_once (CHR ''/'') (strip_slash path) = Some (rb, rk)
        \<and> x_percent_decode E rb = Some (tgt_bucket t) \<and> valid_bucket (tgt_bucket t)
        \<and> x_percent_decode E rk = Some (tgt_key t) \<and> valid_key (tgt_key t)
        \<and> \<not> tgt_virtual_hosted t)"
  by (cases t) (auto simp: resolve_path_style_def res_simps split: option.splits)

lemma resolve_s3_target_valid:
  "resolve_s3_target E path host base = Ok t \<Longrightarrow>
     valid_bucket (tgt_bucket t) \<and> valid_key (tgt_key t)"
  by (auto simp: resolve_s3_target_def resolve_path_style_Ok res_simps split: option.splits)

lemma resolve_bucket_name_valid:
  "resolve_bucket_name E path host base = Ok b \<Longrightarrow> valid_bucket b"
  by (auto simp: resolve_bucket_name_def resolve_path_style_bucket_def res_simps Let_def
      split: option.splits if_splits list.splits)

text \<open>Virtual-host matching: the host is the bucket, a dot and the base domain, up to case.\<close>

lemma virtual_host_bucket_Some:
  "virtual_host_bucket host base = Some b \<longleftrightarrow>
     b \<noteq> [] \<and> (\<exists>rest. without_port host = b @ rest
        \<and> to_ascii_lowercase rest = ''.'' @ to_ascii_lowercase (without_port base))"
proof
  assume "virtual_host_bucket host base = Some b"
  then obtain l where l: "to_ascii_lowercase (without_port host)
      = l @ ''.'' @ to_ascii_lowercase (without_port base)"
    and b: "b = take (length l) (without_port host)" "b \<noteq> []"
    by (auto simp: virtual_host_bucket_def Let_def strip_suffix_Some split: option.splits if_splits)
  define rest where "rest = drop (length l) (without_port host)"
  have "to_ascii_lowercase b @ to_ascii_lowercase rest
      = l @ ''.'' @ to_ascii_lowercase (without_port base)"
    using l b by (simp add: rest_def flip: to_ascii_lowercase_append)
  moreover have "length (to_ascii_lowercase b) = length l"
    using l b by (metis append_eq_conv_conj length_append length_take
        length_to_ascii_lowercase min.absorb2 le_add1)
  ultimately have "to_ascii_lowercase rest = ''.'' @ to_ascii_lowercase (without_port base)"
    by simp
  with b show "b \<noteq> [] \<and> (\<exists>rest. without_port host = b @ rest
        \<and> to_ascii_lowercase rest = ''.'' @ to_ascii_lowercase (without_port base))"
    by (metis append_take_drop_id rest_def)
next
  assume "b \<noteq> [] \<and> (\<exists>rest. without_port host = b @ rest
        \<and> to_ascii_lowercase rest = ''.'' @ to_ascii_lowercase (without_port base))"
  then obtain rest where b: "b \<noteq> []" "without_port host = b @ rest"
    and r: "to_ascii_lowercase rest = ''.'' @ to_ascii_lowercase (without_port base)"
    by blast
  have "strip_suffix (''.'' @ to_ascii_lowercase (without_port base))
      (to_ascii_lowercase (without_port host)) = Some (to_ascii_lowercase b)"
    using b r by (simp add: strip_suffix_Some to_ascii_lowercase_append)
  with b show "virtual_host_bucket host base = Some b"
    by (simp add: virtual_host_bucket_def Let_def)
qed


text \<open>
  Path-style addressing is complete for plain names: for every valid bucket and key that
  contain no percent sign and are valid UTF-8, the path \<open>/bucket/key\<close> resolves to exactly
  that bucket and key, slashes in the key preserved.
\<close>

lemma path_style_roundtrip:
  assumes "percent_decode_law E" "host_bucket host base = None"
    and "valid_bucket b" "valid_key k"
    and "utf8_valid b" "utf8_valid k" "CHR ''%'' \<notin> set b" "CHR ''%'' \<notin> set k"
  shows "resolve_s3_target E (''/'' @ b @ ''/'' @ k) host base =
           Ok \<lparr>tgt_bucket = b, tgt_key = k, tgt_virtual_hosted = False\<rparr>"
proof -
  have "x_percent_decode E b = Some b" "x_percent_decode E k = Some k"
    using assms by (simp_all add: percent_decode_law_def)
  moreover have "CHR ''/'' \<notin> set b"
    using assms(3) by (auto simp: valid_bucket_def)
  ultimately have "resolve_path_style E (''/'' @ b @ ''/'' @ k) =
      Ok \<lparr>tgt_bucket = b, tgt_key = k, tgt_virtual_hosted = False\<rparr>"
    using assms(3,4) by (simp add: resolve_path_style_Ok strip_slash_def)
  with assms(2) show ?thesis by (simp add: resolve_s3_target_def)
qed

end
