(* ===== verification/Fs_Model.thy ===== *)
theory Fs_Model
  imports S3_Error
begin

text \<open>
  The file system below the storage root, as \<open>tokio::fs\<close> shows it to the stores.

  A path is the list of its components below the root. The tree is an ordered map from paths
  to nodes. Every call may fail: the state carries a schedule with one entry per call, where
  \<open>Some (msg, n)\<close> makes the call fail with \<open>msg\<close> and \<open>None\<close>, or the end of the schedule,
  lets it run. A rename is atomic. A failing \<open>fs::write\<close> may leave the first \<open>n\<close> bytes, and a
  failing \<open>remove_dir_all\<close> may have removed the first \<open>n\<close> entries. A hard link is a second
  name for the same content; the stores never write to a linked file in place, so a copy of
  the content models it.
\<close>

section \<open>Computations with state and errors\<close>

type_synonym ('s, 'a, 'e) io = "'s \<Rightarrow> ('a, 'e) result \<times> 's"

definition io_return :: "'a \<Rightarrow> ('s, 'a, 'e) io" where
  "io_return x s = (Ok x, s)"

definition io_fail :: "'e \<Rightarrow> ('s, 'a, 'e) io" where
  "io_fail e s = (Err e, s)"

text \<open>\<open>let x = m.await?; f(x)\<close>.\<close>

definition io_bind :: "('s, 'a, 'e) io \<Rightarrow> ('a \<Rightarrow> ('s, 'b, 'e) io) \<Rightarrow> ('s, 'b, 'e) io" where
  "io_bind m f s = (case m s of (Ok x, s') \<Rightarrow> f x s' | (Err e, s') \<Rightarrow> (Err e, s'))"

text \<open>\<open>match m.await\<close>: the result as a value.\<close>

definition io_match :: "('s, 'a, 'e) io \<Rightarrow> (('a, 'e) result \<Rightarrow> ('s, 'b, 'f) io) \<Rightarrow> ('s, 'b, 'f) io" where
  "io_match m f s = (case m s of (r, s') \<Rightarrow> f r s')"

text \<open>\<open>let _ = m.await; rest\<close>.\<close>

definition io_ignore :: "('s, 'a, 'e) io \<Rightarrow> ('s, 'b, 'f) io \<Rightarrow> ('s, 'b, 'f) io" where
  "io_ignore m rest = io_match m (\<lambda>_. rest)"

definition io_lift :: "('a, 'e) result \<Rightarrow> ('s, 'a, 'e) io" where
  "io_lift r s = (r, s)"

definition io_map_err :: "('e \<Rightarrow> 'f) \<Rightarrow> ('s, 'a, 'e) io \<Rightarrow> ('s, 'a, 'f) io" where
  "io_map_err f m s = (case m s of (r, s') \<Rightarrow> (map_err f r, s'))"

text \<open>\<open>for x in xs { f(x).await? }\<close>.\<close>

fun io_for :: "('a \<Rightarrow> ('s, unit, 'e) io) \<Rightarrow> 'a list \<Rightarrow> ('s, unit, 'e) io" where
  "io_for f [] = io_return ()"
| "io_for f (x # xs) = io_bind (f x) (\<lambda>_. io_for f xs)"

named_theorems io_simps "unfolding of io combinators"

lemmas [io_simps] = io_return_def io_fail_def io_bind_def io_match_def io_ignore_def io_lift_def
  io_map_err_def

section \<open>Preservation of an invariant\<close>

text \<open>\<open>preserved I m s\<close>: running \<open>m\<close> from \<open>s\<close> keeps \<open>I\<close>, whatever the result.\<close>

definition preserved :: "('s \<Rightarrow> bool) \<Rightarrow> ('s, 'a, 'e) io \<Rightarrow> 's \<Rightarrow> bool" where
  "preserved I m s \<longleftrightarrow> (I s \<longrightarrow> I (snd (m s)))"

lemma preservedD: "preserved I m s \<Longrightarrow> m s = (r, s') \<Longrightarrow> I s \<Longrightarrow> I s'"
  by (simp add: preserved_def)

lemma preservedI: "(\<And>r s'. m s = (r, s') \<Longrightarrow> I s \<Longrightarrow> I s') \<Longrightarrow> preserved I m s"
  by (cases "m s") (simp add: preserved_def)

lemma preserved_basics:
  "preserved I (io_return x) s" "preserved I (io_fail e) s" "preserved I (io_lift r) s"
  by (simp_all add: preserved_def io_simps)

lemma preserved_match:
  assumes "preserved I m s" "\<And>r s'. m s = (r, s') \<Longrightarrow> I s \<Longrightarrow> preserved I (k r) s'"
  shows "preserved I (io_match m k) s"
proof (rule preservedI)
  fix r s'
  assume run: "io_match m k s = (r, s')" and "I s"
  obtain q s1 where m: "m s = (q, s1)" by force
  with run have "k q s1 = (r, s')" by (simp add: io_match_def)
  with assms(2) [OF m \<open>I s\<close>] preservedD [OF assms(1) m \<open>I s\<close>] show "I s'" by (blast dest: preservedD)
qed

lemma bind_as_match: "io_bind m k = io_match m (\<lambda>r. case r of Ok x \<Rightarrow> k x | Err e \<Rightarrow> io_fail e)"
  by (auto simp: fun_eq_iff io_simps split: prod.split result.split)

lemma preserved_bind:
  assumes "preserved I m s" "\<And>x s'. m s = (Ok x, s') \<Longrightarrow> I s \<Longrightarrow> preserved I (k x) s'"
  shows "preserved I (io_bind m k) s"
  unfolding bind_as_match
  by (rule preserved_match [OF assms(1)]) (auto intro: assms(2) preserved_basics split: result.split)

lemma preserved_ignore: "preserved I m s \<Longrightarrow> (\<And>s'. preserved I n s') \<Longrightarrow> preserved I (io_ignore m n) s"
  unfolding io_ignore_def by (rule preserved_match)

lemma preserved_map_err: "preserved I m s \<Longrightarrow> preserved I (io_map_err f m) s"
  by (cases "m s") (simp add: preserved_def io_map_err_def)

lemma preserved_cases:
  "(b \<Longrightarrow> preserved I m s) \<Longrightarrow> (\<not> b \<Longrightarrow> preserved I n s) \<Longrightarrow> preserved I (if b then m else n) s"
  "preserved I m1 s \<Longrightarrow> (\<And>x. y1 = Some x \<Longrightarrow> preserved I (k1 x) s) \<Longrightarrow> preserved I (case y1 of None \<Rightarrow> m1 | Some x \<Rightarrow> k1 x) s"
  "(\<And>x. preserved I (k2 x) s) \<Longrightarrow> (\<And>e. preserved I (h2 e) s) \<Longrightarrow> preserved I (case y2 of Ok x \<Rightarrow> k2 x | Err e \<Rightarrow> h2 e) s"
  by (simp_all split: option.split result.split)

lemma preserved_for: "(\<And>x s. x \<in> set xs \<Longrightarrow> preserved I (f x) s) \<Longrightarrow> preserved I (io_for f xs) s"
  by (induction xs arbitrary: s) (auto intro!: preserved_basics preserved_bind)

section \<open>The tree\<close>

type_synonym path = "string list"

datatype node = FileNode bytes | DirNode

type_synonym nodes = "(path, node) btmap"

datatype io_error = NotFound | OtherIo string

record fs =
  fs_nodes :: nodes
  fs_faults :: "(string \<times> nat) option list"

definition is_dir :: "nodes \<Rightarrow> path \<Rightarrow> bool" where
  "is_dir n p \<longleftrightarrow> p = [] \<or> bt_get n p = Some DirNode"

definition file_at :: "nodes \<Rightarrow> path \<Rightarrow> bytes option" where
  "file_at n p = (case bt_get n p of Some (FileNode b) \<Rightarrow> Some b | _ \<Rightarrow> None)"

section \<open>The calls without faults\<close>

fun mkdirs :: "path \<Rightarrow> path \<Rightarrow> nodes \<Rightarrow> (unit, io_error) result \<times> nodes" where
  "mkdirs done [] n = (Ok (), n)"
| "mkdirs done (c # cs) n =
     (let p = done @ [c]
      in case bt_get n p of
           None \<Rightarrow> mkdirs p cs (bt_insert p DirNode n)
         | Some DirNode \<Rightarrow> mkdirs p cs n
         | Some (FileNode _) \<Rightarrow> (Err (OtherIo ''not a directory''), n))"

definition create_dir_all_i :: "path \<Rightarrow> nodes \<Rightarrow> (unit, io_error) result \<times> nodes" where
  "create_dir_all_i p n = mkdirs [] p n"

text \<open>Opening \<open>p\<close> for writing succeeds.\<close>

definition can_create :: "nodes \<Rightarrow> path \<Rightarrow> (unit, io_error) result" where
  "can_create n p =
     (if p = [] \<or> bt_get n p = Some DirNode then Err (OtherIo ''is a directory'')
      else if \<not> is_dir n (butlast p) then Err NotFound
      else Ok ())"

definition write_i :: "path \<Rightarrow> bytes \<Rightarrow> nodes \<Rightarrow> (unit, io_error) result \<times> nodes" where
  "write_i p b n =
     (case can_create n p of Err e \<Rightarrow> (Err e, n) | Ok _ \<Rightarrow> (Ok (), bt_insert p (FileNode b) n))"

definition rename_i :: "path \<Rightarrow> path \<Rightarrow> nodes \<Rightarrow> (unit, io_error) result \<times> nodes" where
  "rename_i a b n =
     (case bt_get n a of
        None \<Rightarrow> (Err NotFound, n)
      | Some DirNode \<Rightarrow> (Err (OtherIo ''is a directory''), n)
      | Some (FileNode c) \<Rightarrow>
          (case can_create n b of
             Err e \<Rightarrow> (Err e, n)
           | Ok _ \<Rightarrow> (Ok (), bt_insert b (FileNode c) (bt_remove a n))))"

definition hard_link_i :: "path \<Rightarrow> path \<Rightarrow> nodes \<Rightarrow> (unit, io_error) result \<times> nodes" where
  "hard_link_i a b n =
     (case bt_get n a of
        None \<Rightarrow> (Err NotFound, n)
      | Some DirNode \<Rightarrow> (Err (OtherIo ''operation not permitted''), n)
      | Some (FileNode c) \<Rightarrow>
          (if bt_contains n b then (Err (OtherIo ''file exists''), n)
           else case can_create n b of
                  Err e \<Rightarrow> (Err e, n)
                | Ok _ \<Rightarrow> (Ok (), bt_insert b (FileNode c) n)))"

definition remove_file_i :: "path \<Rightarrow> nodes \<Rightarrow> (unit, io_error) result \<times> nodes" where
  "remove_file_i p n =
     (case bt_get n p of
        None \<Rightarrow> (Err NotFound, n)
      | Some DirNode \<Rightarrow> (Err (OtherIo ''is a directory''), n)
      | Some (FileNode _) \<Rightarrow> (Ok (), bt_remove p n))"

definition read_i :: "path \<Rightarrow> nodes \<Rightarrow> (bytes, io_error) result \<times> nodes" where
  "read_i p n =
     (case bt_get n p of
        None \<Rightarrow> (Err NotFound, n)
      | Some DirNode \<Rightarrow> (Err (OtherIo ''is a directory''), n)
      | Some (FileNode b) \<Rightarrow> (Ok b, n))"

text \<open>\<open>fs::metadata(p)\<close>, as far as the stores look at it: is it a file?\<close>

definition metadata_i :: "path \<Rightarrow> nodes \<Rightarrow> (bool, io_error) result \<times> nodes" where
  "metadata_i p n =
     (case bt_get n p of
        None \<Rightarrow> if p = [] then (Ok False, n) else (Err NotFound, n)
      | Some DirNode \<Rightarrow> (Ok False, n)
      | Some (FileNode _) \<Rightarrow> (Ok True, n))"

text \<open>The entries of a directory: name and whether it is a directory.\<close>

definition children :: "path \<Rightarrow> nodes \<Rightarrow> (string \<times> bool) list" where
  "children p n =
     map (\<lambda>(q, nd). (last q, nd = DirNode)) (filter (\<lambda>(q, _). q \<noteq> [] \<and> butlast q = p) n)"

definition read_dir_i :: "path \<Rightarrow> nodes \<Rightarrow> ((string \<times> bool) list, io_error) result \<times> nodes" where
  "read_dir_i p n =
     (if is_dir n p then (Ok (children p n), n)
      else if bt_contains n p then (Err (OtherIo ''not a directory''), n)
      else (Err NotFound, n))"

definition under :: "path \<Rightarrow> path \<Rightarrow> bool" where
  "under p q \<longleftrightarrow> take (length p) q = p"

definition remove_dir_all_i :: "path \<Rightarrow> nodes \<Rightarrow> (unit, io_error) result \<times> nodes" where
  "remove_dir_all_i p n =
     (if is_dir n p then (Ok (), filter (\<lambda>(q, _). \<not> under p q) n)
      else if bt_contains n p then (Err (OtherIo ''not a directory''), n)
      else (Err NotFound, n))"

section \<open>The calls with faults\<close>

text \<open>\<open>faulty part call\<close>: the call, or its failure with the partial effect \<open>part n\<close>.\<close>

definition faulty ::
  "(nat \<Rightarrow> nodes \<Rightarrow> nodes) \<Rightarrow> (nodes \<Rightarrow> ('a, io_error) result \<times> nodes) \<Rightarrow> (fs, 'a, io_error) io" where
  "faulty part call s =
     (case fs_faults s of
        Some (msg, k) # fs \<Rightarrow>
          (Err (OtherIo msg), s\<lparr>fs_nodes := part k (fs_nodes s), fs_faults := fs\<rparr>)
      | fs \<Rightarrow>
          (case call (fs_nodes s) of
             (r, n) \<Rightarrow> (r, s\<lparr>fs_nodes := n, fs_faults := tl fs\<rparr>)))"

definition fs_create_dir_all :: "path \<Rightarrow> (fs, unit, io_error) io" where
  "fs_create_dir_all p = faulty (\<lambda>_ n. n) (create_dir_all_i p)"

definition fs_write :: "path \<Rightarrow> bytes \<Rightarrow> (fs, unit, io_error) io" where
  "fs_write p b = faulty (\<lambda>k n. snd (write_i p (take k b) n)) (write_i p b)"

definition fs_create :: "path \<Rightarrow> (fs, unit, io_error) io" where
  "fs_create p = faulty (\<lambda>_ n. n) (write_i p [])"

definition fs_rename :: "path \<Rightarrow> path \<Rightarrow> (fs, unit, io_error) io" where
  "fs_rename a b = faulty (\<lambda>_ n. n) (rename_i a b)"

definition fs_hard_link :: "path \<Rightarrow> path \<Rightarrow> (fs, unit, io_error) io" where
  "fs_hard_link a b = faulty (\<lambda>_ n. n) (hard_link_i a b)"

definition fs_remove_file :: "path \<Rightarrow> (fs, unit, io_error) io" where
  "fs_remove_file p = faulty (\<lambda>_ n. n) (remove_file_i p)"

definition fs_read :: "path \<Rightarrow> (fs, bytes, io_error) io" where
  "fs_read p = faulty (\<lambda>_ n. n) (read_i p)"

definition fs_metadata :: "path \<Rightarrow> (fs, bool, io_error) io" where
  "fs_metadata p = faulty (\<lambda>_ n. n) (metadata_i p)"

definition fs_read_dir :: "path \<Rightarrow> (fs, (string \<times> bool) list, io_error) io" where
  "fs_read_dir p = faulty (\<lambda>_ n. n) (read_dir_i p)"

definition fs_remove_dir_all :: "path \<Rightarrow> (fs, unit, io_error) io" where
  "fs_remove_dir_all p =
     faulty (\<lambda>k n. let gone = set (take k (filter (under p) (map fst n)))
                   in filter (\<lambda>(q, _). q \<notin> gone) n)
       (remove_dir_all_i p)"

lemmas fs_call_defs = fs_create_dir_all_def fs_write_def fs_create_def fs_rename_def
  fs_hard_link_def fs_remove_file_def fs_read_def fs_metadata_def fs_read_dir_def
  fs_remove_dir_all_def

section \<open>Counting faults\<close>

text \<open>The faults still to come.\<close>

definition faults_left :: "fs \<Rightarrow> nat" where
  "faults_left s = length (filter (\<lambda>f. f \<noteq> None) (fs_faults s))"

lemma faulty_cases:
  assumes "faulty part call s = (r, s')"
  obtains (ok) "call (fs_nodes s) = (r, fs_nodes s')" "faults_left s' = faults_left s"
  | (fault) msg k where "r = Err (OtherIo msg)" "fs_nodes s' = part k (fs_nodes s)"
      "faults_left s = Suc (faults_left s')"
  using assms
  by (auto simp: faulty_def faults_left_def split: list.splits option.splits prod.splits)

lemma faulty_no_faults:
  "faults_left s = 0 \<Longrightarrow> faulty part call s = (r, s') \<Longrightarrow>
     call (fs_nodes s) = (r, fs_nodes s') \<and> faults_left s' = 0"
  by (erule faulty_cases) simp_all

section \<open>What the calls change\<close>

lemma file_at_insert: "file_at (bt_insert p (FileNode b) n) = (file_at n)(p \<mapsto> b)"
  by (simp add: file_at_def fun_eq_iff)

lemma file_at_remove: "file_at (bt_remove p n) = (file_at n)(p := None)"
  by (simp add: file_at_def fun_eq_iff)

lemma is_dir_insert_file:
  "bt_get n p \<noteq> Some DirNode \<Longrightarrow> p \<noteq> [] \<Longrightarrow> is_dir (bt_insert p (FileNode b) n) = is_dir n"
  by (auto simp: is_dir_def fun_eq_iff)

lemma is_dir_remove_file:
  "bt_get n p \<noteq> Some DirNode \<Longrightarrow> is_dir (bt_remove p n) = is_dir n"
  by (auto simp: is_dir_def fun_eq_iff)

lemma can_create_Ok:
  "can_create n p = Ok u \<longleftrightarrow> p \<noteq> [] \<and> bt_get n p \<noteq> Some DirNode \<and> is_dir n (butlast p)"
  by (auto simp: can_create_def)

lemma file_at_Some: "file_at n p = Some b \<longleftrightarrow> bt_get n p = Some (FileNode b)"
  by (auto simp: file_at_def split: option.splits node.splits)

lemma mkdirs_files:
  "mkdirs pre cs n = (r, n') \<Longrightarrow>
     file_at n' = file_at n \<and> (\<forall>q. is_dir n q \<longrightarrow> is_dir n' q)
     \<and> (is_dir n pre \<longrightarrow> r = Ok () \<longrightarrow> is_dir n' (pre @ cs))
     \<and> (\<forall>q. bt_get n' q \<noteq> bt_get n q \<longrightarrow> bt_get n q = None \<and> (\<exists>k. q = take k (pre @ cs)))"
proof (induction pre cs n rule: mkdirs.induct)
  case (2 pre c cs n)
  show ?case
  proof (cases "bt_get n (pre @ [c])")
    case None
    let ?n = "bt_insert (pre @ [c]) DirNode n"
    have "file_at ?n = file_at n" "\<forall>q. is_dir n q \<longrightarrow> is_dir ?n q" "is_dir ?n (pre @ [c])"
      using None by (auto simp: file_at_def is_dir_def fun_eq_iff)
    moreover have "\<forall>q. bt_get ?n q \<noteq> bt_get n q \<longrightarrow> bt_get n q = None \<and> q = pre @ [c]"
      using None by simp
    moreover have "pre @ [c] = take (Suc (length pre)) (pre @ c # cs)" by simp
    moreover have "mkdirs (pre @ [c]) cs ?n = (r, n')"
      using 2(3) None by (simp add: Let_def)
    note IH = 2(1) [OF refl None this]
    ultimately show ?thesis
      using IH by (metis append.assoc append_Cons append_Nil)
  next
    case (Some nd)
    show ?thesis
    proof (cases nd)
      case DirNode
      then have "mkdirs (pre @ [c]) cs n = (r, n')"
        using 2(3) Some by (simp add: Let_def)
      from 2(2) [OF refl Some DirNode this] Some DirNode show ?thesis
        by (auto simp: is_dir_def)
    qed (use 2(3) Some in \<open>auto simp: Let_def\<close>)
  qed
qed simp

text \<open>The content of every file, and the directories, of a state.\<close>

abbreviation files :: "fs \<Rightarrow> path \<Rightarrow> bytes option" where
  "files s \<equiv> file_at (fs_nodes s)"

abbreviation dir_in :: "fs \<Rightarrow> path \<Rightarrow> bool" where
  "dir_in s \<equiv> is_dir (fs_nodes s)"

lemma write_i_cases:
  assumes "write_i p b n = (r, n')"
  shows "r = Ok () \<and> file_at n' = (file_at n)(p \<mapsto> b) \<and> is_dir n' = is_dir n
    \<or> (\<exists>e. r = Err e) \<and> n' = n"
  using assms
  by (auto simp: write_i_def can_create_def file_at_insert is_dir_insert_file
      split: result.splits if_splits)

lemma rename_i_cases:
  assumes "rename_i a b n = (r, n')"
  shows "r = Ok () \<and> (\<exists>c. file_at n a = Some c \<and> file_at n' = (file_at n)(a := None, b \<mapsto> c))
       \<and> is_dir n' = is_dir n
    \<or> (\<exists>e. r = Err e) \<and> n' = n"
  using assms
  by (auto simp: rename_i_def can_create_def file_at_insert file_at_remove is_dir_insert_file
      is_dir_remove_file file_at_Some split: result.splits option.splits node.splits if_splits)

lemma rename_i_Ok:
  "file_at n a = Some c \<Longrightarrow> b \<noteq> [] \<Longrightarrow> is_dir n (butlast b) \<Longrightarrow> \<not> is_dir n b \<Longrightarrow>
     \<exists>n'. rename_i a b n = (Ok (), n') \<and> file_at n' = (file_at n)(a := None, b \<mapsto> c)
       \<and> is_dir n' = is_dir n"
  by (auto simp: rename_i_def can_create_def file_at_insert file_at_remove is_dir_insert_file
      is_dir_remove_file file_at_Some is_dir_def split: result.splits)

lemma hard_link_i_cases:
  assumes "hard_link_i a b n = (r, n')"
  shows "r = Ok () \<and> (\<exists>c. file_at n a = Some c \<and> file_at n' = (file_at n)(b \<mapsto> c) \<and> \<not> bt_contains n b)
       \<and> is_dir n' = is_dir n
    \<or> (\<exists>e. r = Err e \<and> (e = NotFound \<longrightarrow> bt_get n a = None \<or> \<not> is_dir n (butlast b))) \<and> n' = n"
  using assms
  by (auto simp: hard_link_i_def can_create_def file_at_insert is_dir_insert_file file_at_Some
      split: result.splits option.splits node.splits if_splits)

lemma remove_file_i_cases:
  assumes "remove_file_i p n = (r, n')"
  shows "r = Ok () \<and> file_at n p \<noteq> None \<and> file_at n' = (file_at n)(p := None) \<and> is_dir n' = is_dir n
    \<or> (\<exists>e. r = Err e \<and> (e = NotFound \<longrightarrow> bt_get n p = None)) \<and> n' = n \<and> file_at n p = None"
  using assms
  by (auto simp: remove_file_i_def file_at_remove is_dir_remove_file file_at_def
      split: option.splits node.splits)

lemma map_of_filter_keys:
  "map_of (filter (\<lambda>(q, _). P q) n) p = (if P p then map_of n p else None)"
  by (induction n) auto

lemma bt_get_filter: "bt_get (filter (\<lambda>(q, _). P q) n) p = (if P p then bt_get n p else None)"
  by (simp add: bt_get_def map_of_filter_keys)

lemma file_at_filter: "file_at (filter (\<lambda>(q, _). P q) n) p = (if P p then file_at n p else None)"
  by (simp add: file_at_def bt_get_filter)

text \<open>Removing a directory tree changes no file outside it, and leaves none in it on success.\<close>

lemma fs_remove_dir_all_files:
  assumes "fs_remove_dir_all d s = (r, s')"
  shows "(\<forall>p. \<not> under d p \<longrightarrow> files s' p = files s p) \<and> (r = Ok () \<longrightarrow> (\<forall>p. under d p \<longrightarrow> files s' p = None))
    \<and> faults_left s' \<le> faults_left s"
proof -
  from assms have "faulty (\<lambda>k n. let gone = set (take k (filter (under d) (map fst n)))
      in filter (\<lambda>(q, _). q \<notin> gone) n) (remove_dir_all_i d) s = (r, s')"
    by (simp add: fs_remove_dir_all_def)
  then show ?thesis
  proof (cases rule: faulty_cases)
    case ok
    show ?thesis
    proof (cases "dir_in s d")
      case True
      with ok have "r = Ok ()" "fs_nodes s' = filter (\<lambda>(q, _). \<not> under d q) (fs_nodes s)"
        by (simp_all add: remove_dir_all_i_def)
      with ok(2) show ?thesis by (simp add: file_at_filter)
    next
      case False
      with ok show ?thesis by (auto simp: remove_dir_all_i_def split: if_splits)
    qed
  next
    case (fault msg k)
    then have "files s' p = files s p" if "\<not> under d p" for p
      using that by (auto simp: Let_def file_at_filter dest: in_set_takeD)
    with fault show ?thesis by simp
  qed
qed

end
