(* ===== verification/S3_Checksum.thy ===== *)
theory S3_Checksum
  imports S3_Types
begin

text \<open>
  Request checksums (\<open>src/body/checksum.rs\<close>): the algorithms, the parsing of checksum headers
  and trailers into a \<open>ChecksumRequest\<close>, its validation against computed digests, and the
  checksum values echoed in responses.
\<close>

section \<open>Algorithms\<close>

datatype checksum_name = Crc32 | Crc32c | Sha1 | Sha256 | Sha512

definition CHECKSUM_NAMES :: "checksum_name list" where
  "CHECKSUM_NAMES = [Crc32, Crc32c, Sha1, Sha256, Sha512]"

definition UNSUPPORTED_CHECKSUM_HEADERS :: "string list" where
  "UNSUPPORTED_CHECKSUM_HEADERS =
     [''x-amz-checksum-crc64nvme'', ''x-amz-checksum-xxhash64'', ''x-amz-checksum-xxhash3'',
      ''x-amz-checksum-xxhash128'']"

definition CHECKSUM_HEADERS :: "string list" where
  "CHECKSUM_HEADERS = [''content-md5'']"

definition SDK_CHECKSUM_ALGORITHM_HEADER :: string where
  "SDK_CHECKSUM_ALGORITHM_HEADER = ''x-amz-sdk-checksum-algorithm''"

fun header_name :: "checksum_name \<Rightarrow> string" where
  "header_name Crc32 = ''x-amz-checksum-crc32''"
| "header_name Crc32c = ''x-amz-checksum-crc32c''"
| "header_name Sha1 = ''x-amz-checksum-sha1''"
| "header_name Sha256 = ''x-amz-checksum-sha256''"
| "header_name Sha512 = ''x-amz-checksum-sha512''"

fun xml_element_name :: "checksum_name \<Rightarrow> string" where
  "xml_element_name Crc32 = ''ChecksumCRC32''"
| "xml_element_name Crc32c = ''ChecksumCRC32C''"
| "xml_element_name Sha1 = ''ChecksumSHA1''"
| "xml_element_name Sha256 = ''ChecksumSHA256''"
| "xml_element_name Sha512 = ''ChecksumSHA512''"

fun expected_len :: "checksum_name \<Rightarrow> nat" where
  "expected_len Crc32 = 4"
| "expected_len Crc32c = 4"
| "expected_len Sha1 = 20"
| "expected_len Sha256 = 32"
| "expected_len Sha512 = 64"

definition from_header_name :: "string \<Rightarrow> checksum_name option" where
  "from_header_name name = List.find (\<lambda>c. header_name c = name) CHECKSUM_NAMES"

definition from_sdk_algorithm :: "string \<Rightarrow> checksum_name option" where
  "from_sdk_algorithm algorithm =
     (let a = to_ascii_uppercase algorithm
      in if a = ''CRC32'' then Some Crc32
         else if a = ''CRC32C'' then Some Crc32c
         else if a = ''SHA1'' then Some Sha1
         else if a = ''SHA256'' then Some Sha256
         else if a = ''SHA512'' then Some Sha512
         else None)"

record checksum_digests =
  dg_md5 :: bytes
  dg_sha1 :: bytes
  dg_sha256 :: bytes
  dg_sha512 :: bytes
  dg_crc32 :: "32 word"
  dg_crc32c :: "32 word"

text \<open>The bytes of one algorithm's digest, as \<open>encode_digest\<close> and \<open>validate\<close> read them.\<close>

fun digest_bytes :: "checksum_name \<Rightarrow> checksum_digests \<Rightarrow> bytes" where
  "digest_bytes Crc32 d = u32_to_be_bytes (dg_crc32 d)"
| "digest_bytes Crc32c d = u32_to_be_bytes (dg_crc32c d)"
| "digest_bytes Sha1 d = dg_sha1 d"
| "digest_bytes Sha256 d = dg_sha256 d"
| "digest_bytes Sha512 d = dg_sha512 d"

definition encode_digest :: "ext \<Rightarrow> checksum_name \<Rightarrow> checksum_digests \<Rightarrow> string" where
  "encode_digest E c d = x_base64_encode E (digest_bytes c d)"

section \<open>Parsing checksum headers and trailers\<close>

type_synonym trailers = "(string, string) btmap"

record checksum_request =
  rq_content_md5 :: "bytes option"
  rq_crc32 :: "bytes option"
  rq_crc32c :: "bytes option"
  rq_sha1 :: "bytes option"
  rq_sha256 :: "bytes option"
  rq_sha512 :: "bytes option"
  rq_checksum_values :: "(string, string) btmap"

text \<open>The text of a checksum: the header if there is one, otherwise the trailer.\<close>

definition checksum_text :: "ext \<Rightarrow> headers \<Rightarrow> trailers \<Rightarrow> string \<Rightarrow> string option s3res" where
  "checksum_text E hs ts name =
     (case hdr_get hs name of
        Some v \<Rightarrow>
          map_ok Some (ok_or (invalid_request (name @ '' must be valid ASCII'')) (x_to_str E v))
      | None \<Rightarrow> Ok (bt_get ts name))"

fun checksum_values_loop ::
  "ext \<Rightarrow> headers \<Rightarrow> trailers \<Rightarrow> checksum_name list \<Rightarrow> (string \<times> string) list s3res" where
  "checksum_values_loop E hs ts [] = Ok []"
| "checksum_values_loop E hs ts (c # cs) =
     and_then (checksum_text E hs ts (header_name c)) (\<lambda>v.
       case v of
         None \<Rightarrow> checksum_values_loop E hs ts cs
       | Some s \<Rightarrow> map_ok ((#) (header_name c, s)) (checksum_values_loop E hs ts cs))"

definition checksum_values :: "ext \<Rightarrow> headers \<Rightarrow> trailers \<Rightarrow> (string, string) btmap s3res" where
  "checksum_values E hs ts = map_ok bt_of_list (checksum_values_loop E hs ts CHECKSUM_NAMES)"

definition optional_base64_header ::
  "ext \<Rightarrow> headers \<Rightarrow> trailers \<Rightarrow> string \<Rightarrow> nat \<Rightarrow> bytes option s3res" where
  "optional_base64_header E hs ts name len =
     and_then (checksum_text E hs ts name) (\<lambda>v.
       case v of
         None \<Rightarrow> Ok None
       | Some value \<Rightarrow>
           and_then (ok_or (invalid_request (name @ '' must be base64-encoded''))
                       (x_base64_decode E value)) (\<lambda>decoded.
           if length decoded \<noteq> len
           then Err (invalid_request (name @ '' must decode to '' @ show_nat len @ '' bytes''))
           else Ok (Some decoded)))"

definition optional_checksum ::
  "ext \<Rightarrow> headers \<Rightarrow> trailers \<Rightarrow> checksum_name \<Rightarrow> bytes option s3res" where
  "optional_checksum E hs ts c =
     optional_base64_header E hs ts (header_name c) (expected_len c)"

definition validate_sdk_checksum_algorithm :: "ext \<Rightarrow> headers \<Rightarrow> trailers \<Rightarrow> unit s3res" where
  "validate_sdk_checksum_algorithm E hs ts =
     (case hdr_get_all hs SDK_CHECKSUM_ALGORITHM_HEADER of
        [] \<Rightarrow> Ok ()
      | v # rest \<Rightarrow>
          and_then (ensure (rest = []) (invalid_request
            (SDK_CHECKSUM_ALGORITHM_HEADER @ '' must not appear more than once''))) (\<lambda>_.
          and_then (ok_or (invalid_request
            (SDK_CHECKSUM_ALGORITHM_HEADER @ '' must be valid ASCII'')) (x_to_str E v)) (\<lambda>algorithm.
          and_then (ok_or (invalid_request ''Checksum algorithm not supported'')
            (from_sdk_algorithm algorithm)) (\<lambda>c.
          ensure (hdr_get hs (header_name c) \<noteq> None \<or> bt_contains ts (header_name c))
            (invalid_request (SDK_CHECKSUM_ALGORITHM_HEADER @
               '' requires a matching checksum header or trailer''))))))"

definition reject_unsupported_checksum_inputs :: "headers \<Rightarrow> trailers \<Rightarrow> unit s3res" where
  "reject_unsupported_checksum_inputs hs ts =
     for_each (\<lambda>name. ensure (\<not> (hdr_contains hs name \<or> bt_contains ts name))
         (invalid_request ''Checksum algorithm not supported''))
       UNSUPPORTED_CHECKSUM_HEADERS"

definition reject_duplicate_checksum_inputs :: "headers \<Rightarrow> trailers \<Rightarrow> unit s3res" where
  "reject_duplicate_checksum_inputs hs ts =
     and_then
       (for_each (\<lambda>name. ensure (\<not> length (hdr_get_all hs name) > 1)
           (invalid_request (name @ '' must not appear more than once'')))
         (CHECKSUM_HEADERS @ map header_name CHECKSUM_NAMES)) (\<lambda>_.
     for_each (\<lambda>c. ensure (\<not> (hdr_contains hs (header_name c) \<and> bt_contains ts (header_name c)))
         (invalid_request (header_name c @ '' must not be supplied as both header and trailer'')))
       CHECKSUM_NAMES)"

definition reject_undeclared_checksum_trailers :: "string list \<Rightarrow> trailers \<Rightarrow> unit s3res" where
  "reject_undeclared_checksum_trailers declared ts =
     for_each (\<lambda>c. ensure (\<not> (bt_contains ts (header_name c) \<and> header_name c \<notin> set declared))
         (invalid_request (''Checksum trailer was not declared: '' @ header_name c)))
       CHECKSUM_NAMES"

text \<open>The loop over the declared names; the \<open>BTreeSet\<close> of names is the list of them so far.\<close>

fun declared_trailer_loop :: "trailers \<Rightarrow> string list \<Rightarrow> string list \<Rightarrow> string list s3res" where
  "declared_trailer_loop ts declared [] = Ok declared"
| "declared_trailer_loop ts declared (p # ps) =
     (let n = to_ascii_lowercase (trim p)
      in if n = [] then Err (invalid_request ''x-amz-trailer contains an empty trailer name'')
         else if n \<in> set declared
         then Err (invalid_request (''x-amz-trailer declares trailer more than once: '' @ n))
         else if n \<in> set UNSUPPORTED_CHECKSUM_HEADERS
         then Err (invalid_request ''Checksum algorithm not supported'')
         else if from_header_name n = None
         then Err (invalid_request (''x-amz-trailer contains unsupported trailer name: '' @ n))
         else if \<not> bt_contains ts n
         then Err (invalid_request (''Declared checksum trailer was not received: '' @ n))
         else declared_trailer_loop ts (n # declared) ps)"

definition validate_declared_checksum_trailers :: "ext \<Rightarrow> headers \<Rightarrow> trailers \<Rightarrow> unit s3res" where
  "validate_declared_checksum_trailers E hs ts =
     (case hdr_get_all hs ''x-amz-trailer'' of
        [] \<Rightarrow> reject_undeclared_checksum_trailers [] ts
      | v # rest \<Rightarrow>
          and_then (ensure (rest = [])
            (invalid_request ''x-amz-trailer must not appear more than once'')) (\<lambda>_.
          and_then (ok_or (invalid_request ''x-amz-trailer must be valid ASCII'') (x_to_str E v))
            (\<lambda>value.
          and_then (declared_trailer_loop ts [] (split_on (CHR '','') value)) (\<lambda>declared.
          reject_undeclared_checksum_trailers declared ts))))"

definition ChecksumRequest_from_headers_and_trailers ::
  "ext \<Rightarrow> headers \<Rightarrow> trailers \<Rightarrow> checksum_request s3res" where
  "ChecksumRequest_from_headers_and_trailers E hs ts =
     and_then (reject_unsupported_checksum_inputs hs ts) (\<lambda>_.
     and_then (reject_duplicate_checksum_inputs hs ts) (\<lambda>_.
     and_then (validate_declared_checksum_trailers E hs ts) (\<lambda>_.
     and_then (optional_base64_header E hs ts ''content-md5'' 16) (\<lambda>md5.
     and_then (optional_checksum E hs ts Crc32) (\<lambda>crc32.
     and_then (optional_checksum E hs ts Crc32c) (\<lambda>crc32c.
     and_then (optional_checksum E hs ts Sha1) (\<lambda>sha1.
     and_then (optional_checksum E hs ts Sha256) (\<lambda>sha256.
     and_then (optional_checksum E hs ts Sha512) (\<lambda>sha512.
     and_then (checksum_values E hs ts) (\<lambda>values.
     and_then (validate_sdk_checksum_algorithm E hs ts) (\<lambda>_.
     Ok \<lparr>rq_content_md5 = md5, rq_crc32 = crc32, rq_crc32c = crc32c, rq_sha1 = sha1,
         rq_sha256 = sha256, rq_sha512 = sha512, rq_checksum_values = values\<rparr>)))))))))))"

definition ChecksumRequest_from_headers :: "ext \<Rightarrow> headers \<Rightarrow> checksum_request s3res" where
  "ChecksumRequest_from_headers E hs = ChecksumRequest_from_headers_and_trailers E hs bt_empty"

section \<open>Validation and response values\<close>

text \<open>\<open>if let Some(expected) = opt && expected != actual { return Err(e) }\<close>.\<close>

definition expect_digest :: "bytes option \<Rightarrow> bytes \<Rightarrow> s3_error \<Rightarrow> unit s3res" where
  "expect_digest expected actual e =
     (case expected of None \<Rightarrow> Ok () | Some x \<Rightarrow> if x \<noteq> actual then Err e else Ok ())"

definition checksum_mismatch :: s3_error where
  "checksum_mismatch =
     bad_digest ''The provided x-amz-checksum header does not match what was computed.''"

definition ChecksumRequest_validate :: "checksum_request \<Rightarrow> checksum_digests \<Rightarrow> unit s3res" where
  "ChecksumRequest_validate r d =
     and_then (expect_digest (rq_content_md5 r) (dg_md5 d)
       (bad_digest ''The Content-MD5 you specified did not match what we received.'')) (\<lambda>_.
     and_then (expect_digest (rq_crc32 r) (u32_to_be_bytes (dg_crc32 d)) checksum_mismatch) (\<lambda>_.
     and_then (expect_digest (rq_crc32c r) (u32_to_be_bytes (dg_crc32c d)) checksum_mismatch) (\<lambda>_.
     and_then (expect_digest (rq_sha1 r) (dg_sha1 d) checksum_mismatch) (\<lambda>_.
     and_then (expect_digest (rq_sha256 r) (dg_sha256 d) checksum_mismatch) (\<lambda>_.
     expect_digest (rq_sha512 r) (dg_sha512 d) checksum_mismatch)))))"

definition insert_if :: "bool \<Rightarrow> 'k::linorder \<Rightarrow> 'v \<Rightarrow> ('k, 'v) btmap \<Rightarrow> ('k, 'v) btmap" where
  "insert_if b k v m = (if b then bt_insert k v m else m)"

definition checksum_values_for_digests ::
  "ext \<Rightarrow> checksum_request \<Rightarrow> checksum_digests \<Rightarrow> (string, string) btmap" where
  "checksum_values_for_digests E r d =
     insert_if (rq_sha512 r \<noteq> None) (header_name Sha512) (encode_digest E Sha512 d)
    (insert_if (rq_sha256 r \<noteq> None) (header_name Sha256) (encode_digest E Sha256 d)
    (insert_if (rq_sha1 r \<noteq> None) (header_name Sha1) (encode_digest E Sha1 d)
    (insert_if (rq_crc32c r \<noteq> None) (header_name Crc32c) (encode_digest E Crc32c d)
    (insert_if (rq_crc32 r \<noteq> None) (header_name Crc32) (encode_digest E Crc32 d)
     bt_empty))))"

definition requires_md5 :: "checksum_request \<Rightarrow> bool" where
  "requires_md5 r \<longleftrightarrow> rq_content_md5 r \<noteq> None"

definition requires_crc32 :: "checksum_request \<Rightarrow> bool" where
  "requires_crc32 r \<longleftrightarrow> rq_crc32 r \<noteq> None"

definition requires_crc32c :: "checksum_request \<Rightarrow> bool" where
  "requires_crc32c r \<longleftrightarrow> rq_crc32c r \<noteq> None"

definition requires_sha1 :: "checksum_request \<Rightarrow> bool" where
  "requires_sha1 r \<longleftrightarrow> rq_sha1 r \<noteq> None"

definition requires_sha256 :: "checksum_request \<Rightarrow> bool" where
  "requires_sha256 r \<longleftrightarrow> rq_sha256 r \<noteq> None"

definition requires_sha512 :: "checksum_request \<Rightarrow> bool" where
  "requires_sha512 r \<longleftrightarrow> rq_sha512 r \<noteq> None"

lemmas requires_defs = requires_md5_def requires_crc32_def requires_crc32c_def requires_sha1_def
  requires_sha256_def requires_sha512_def

definition checksum_values_for_requested_headers ::
  "ext \<Rightarrow> (string, string) btmap \<Rightarrow> checksum_digests \<Rightarrow> (string, string) btmap" where
  "checksum_values_for_requested_headers E requested d =
     bt_of_list (List.map_filter (\<lambda>(name, _).
        map_option (\<lambda>c. (name, encode_digest E c d)) (from_header_name name)) requested)"

section \<open>Facts about parsed requests\<close>

fun rq_of :: "checksum_name \<Rightarrow> checksum_request \<Rightarrow> bytes option" where
  "rq_of Crc32 r = rq_crc32 r"
| "rq_of Crc32c r = rq_crc32c r"
| "rq_of Sha1 r = rq_sha1 r"
| "rq_of Sha256 r = rq_sha256 r"
| "rq_of Sha512 r = rq_sha512 r"

lemma set_CHECKSUM_NAMES [simp]: "c \<in> set CHECKSUM_NAMES"
  by (cases c) (simp_all add: CHECKSUM_NAMES_def)

lemma header_name_inj [simp]: "header_name a = header_name b \<longleftrightarrow> a = b"
  by (cases a; cases b) simp_all

lemma from_header_name_header_name [simp]: "from_header_name (header_name c) = Some c"
  by (cases c) (simp_all add: from_header_name_def CHECKSUM_NAMES_def)

lemma from_header_name_Some: "from_header_name n = Some c \<longleftrightarrow> n = header_name c"
proof
  assume "from_header_name n = Some c"
  then show "n = header_name c"
    by (auto simp: from_header_name_def CHECKSUM_NAMES_def simp del: header_name.simps
        split: if_splits)
qed simp

lemma header_name_lower [simp]: "to_ascii_lowercase (header_name c) = header_name c"
  by (cases c) (simp_all add: to_ascii_lowercase_def ascii_lower_def is_ascii_uppercase_def)

lemma from_headers_and_trailers_Ok:
  assumes "ChecksumRequest_from_headers_and_trailers E hs ts = Ok r"
  shows "validate_declared_checksum_trailers E hs ts = Ok ()"
    and "optional_base64_header E hs ts ''content-md5'' 16 = Ok (rq_content_md5 r)"
    and "optional_checksum E hs ts c = Ok (rq_of c r)"
    and "checksum_values E hs ts = Ok (rq_checksum_values r)"
  using assms
  by (cases c; fastforce simp: ChecksumRequest_from_headers_and_trailers_def res_simps)+

lemma expect_digest_Ok [res_simps]:
  "expect_digest x d e = Ok u \<longleftrightarrow> x = None \<or> x = Some d"
  by (auto simp: expect_digest_def split: option.splits)

lemma validate_Ok:
  "ChecksumRequest_validate r d = Ok u \<longleftrightarrow>
     (rq_content_md5 r = None \<or> rq_content_md5 r = Some (dg_md5 d))
     \<and> (\<forall>c. rq_of c r = None \<or> rq_of c r = Some (digest_bytes c d))"
proof -
  have "(\<forall>c. P c) \<longleftrightarrow> P Crc32 \<and> P Crc32c \<and> P Sha1 \<and> P Sha256 \<and> P Sha512" for P
    by (metis checksum_name.exhaust)
  then show ?thesis
    by (auto simp: ChecksumRequest_validate_def res_simps)
qed

text \<open>A checksum that is parsed is the decoded text of its header or trailer.\<close>

lemma optional_checksum_Some:
  "optional_checksum E hs ts c = Ok (Some b) \<longleftrightarrow>
     (\<exists>t. checksum_text E hs ts (header_name c) = Ok (Some t) \<and> x_base64_decode E t = Some b
        \<and> length b = expected_len c)"
  by (auto simp: optional_checksum_def optional_base64_header_def res_simps split: option.splits)

lemma optional_checksum_None:
  "optional_checksum E hs ts c = Ok None \<longleftrightarrow> checksum_text E hs ts (header_name c) = Ok None"
  by (auto simp: optional_checksum_def optional_base64_header_def res_simps split: option.splits)

lemma checksum_text_present:
  "checksum_text E hs ts n = Ok (Some t) \<Longrightarrow> hdr_contains hs n \<or> bt_contains ts n"
  by (auto simp: checksum_text_def hdr_contains_def bt_contains_def split: option.splits)

lemma checksum_values_loop_Ok:
  "checksum_values_loop E hs ts cs = Ok ps \<Longrightarrow> distinct cs \<Longrightarrow>
     distinct (map fst ps) \<and> fst ` set ps \<subseteq> header_name ` set cs
     \<and> (\<forall>c\<in>set cs. checksum_text E hs ts (header_name c) = Ok (map_of ps (header_name c)))"
proof (induction cs arbitrary: ps)
  case (Cons c cs)
  from Cons.prems(1) obtain v where v: "checksum_text E hs ts (header_name c) = Ok v"
    by (auto simp: res_simps)
  show ?case
  proof (cases v)
    case None
    with Cons.prems(1) v have "checksum_values_loop E hs ts cs = Ok ps" by simp
    note IH = Cons.IH [OF this]
    have "map_of ps (header_name c) = None"
      using IH Cons.prems(2) by (auto simp: map_of_eq_None_iff)
    with IH Cons.prems(2) v None show ?thesis by auto
  next
    case (Some t)
    with Cons.prems(1) v obtain qs where qs: "checksum_values_loop E hs ts cs = Ok qs"
      "ps = (header_name c, t) # qs" by (auto simp: res_simps)
    from Cons.IH [OF qs(1)] qs(2) v Some Cons.prems(2) show ?thesis by auto
  qed
qed simp

lemma checksum_values_Ok:
  assumes "checksum_values E hs ts = Ok m"
  shows "checksum_text E hs ts (header_name c) = Ok (bt_get m (header_name c))"
    and "bt_contains m n \<Longrightarrow> from_header_name n \<noteq> None"
proof -
  from assms obtain ps where ps: "checksum_values_loop E hs ts CHECKSUM_NAMES = Ok ps"
    and m: "m = bt_of_list ps" by (auto simp: checksum_values_def res_simps)
  have "distinct CHECKSUM_NAMES" by (simp add: CHECKSUM_NAMES_def)
  note * = checksum_values_loop_Ok [OF ps this]
  then have get: "bt_get m n = map_of ps n" for n
    by (simp add: m bt_get_of_list map_of_rev_distinct)
  with * show "checksum_text E hs ts (header_name c) = Ok (bt_get m (header_name c))" by simp
  show "from_header_name n \<noteq> None" if "bt_contains m n"
  proof -
    from that get have "n \<in> fst ` set ps"
      by (auto simp: bt_contains_def map_of_eq_None_iff)
    with * obtain c where "n = header_name c" by blast
    then show ?thesis by simp
  qed
qed

text \<open>
  A checksum trailer that survives validation was declared in the \<open>x-amz-trailer\<close> header.
\<close>

lemma declared_trailer_loop_Ok:
  "declared_trailer_loop ts ds ps = Ok ds' \<Longrightarrow>
     set ds' = set ds \<union> (\<lambda>p. to_ascii_lowercase (trim p)) ` set ps"
  by (induction ts ds ps rule: declared_trailer_loop.induct) (auto simp: Let_def split: if_splits)

lemma declared_trailers:
  assumes "validate_declared_checksum_trailers E hs ts = Ok u" "bt_contains ts (header_name c)"
  obtains v s p where "hdr_get hs ''x-amz-trailer'' = Some v" "x_to_str E v = Some s"
    "p \<in> set (split_on (CHR '','') s)" "eq_ignore_ascii_case (trim p) (header_name c)"
proof (cases "hdr_get_all hs ''x-amz-trailer''")
  case Nil
  with assms show ?thesis
    by (auto simp: validate_declared_checksum_trailers_def reject_undeclared_checksum_trailers_def
        res_simps)
next
  case (Cons v rest)
  with assms obtain s ds where s: "x_to_str E v = Some s"
    and ds: "declared_trailer_loop ts [] (split_on (CHR '','') s) = Ok ds"
    and "header_name c \<in> set ds"
    by (auto simp: validate_declared_checksum_trailers_def reject_undeclared_checksum_trailers_def
        res_simps)
  then obtain p where "p \<in> set (split_on (CHR '','') s)" "header_name c = to_ascii_lowercase (trim p)"
    using declared_trailer_loop_Ok [OF ds] by auto
  moreover from this(2) have "eq_ignore_ascii_case (trim p) (header_name c)"
    by (simp add: eq_ignore_ascii_case_def)
  moreover have "hdr_get hs ''x-amz-trailer'' = Some v"
    using Cons by (simp add: hdr_get_hd)
  ultimately show ?thesis using that s by blast
qed

end
