(* ===== verification/S3_Config.thy ===== *)
theory S3_Config
  imports S3_Types
begin

text \<open>
  The configuration (\<open>src/config.rs\<close>): upload limits, I/O tuning, multipart lifecycle,
  credentials, their fluent builders and validation, and the request-time authentication
  state built from them. A \<open>BTreeSet\<close> is a \<open>BTreeMap\<close> to the unit type; the \<open>HashMap\<close> of
  credentials is only read by key, so the same maps stand for it. A \<open>Duration\<close> is an
  integer.
\<close>

type_synonym access_key_id = string
type_synonym secret_key = string

section \<open>Actions\<close>

text \<open>The derived order of \<open>S3Action\<close> is the order of its declaration.\<close>

fun action_index :: "s3_action \<Rightarrow> nat" where
  "action_index Act_PutObject = 0"
| "action_index Act_GetObject = 1"
| "action_index Act_HeadObject = 2"
| "action_index Act_DeleteObject = 3"
| "action_index Act_CreateMultipartUpload = 4"
| "action_index Act_UploadPart = 5"
| "action_index Act_CompleteMultipartUpload = 6"
| "action_index Act_AbortMultipartUpload = 7"
| "action_index Act_ListMultipartUploadParts = 8"
| "action_index Act_HeadBucket = 9"

lemma action_index_inj: "action_index a = action_index b \<Longrightarrow> a = b"
  by (cases a; cases b) simp_all

instantiation s3_action :: linorder
begin

definition less_eq_s3_action :: "s3_action \<Rightarrow> s3_action \<Rightarrow> bool" where
  "less_eq_s3_action a b = (action_index a \<le> action_index b)"

definition less_s3_action :: "s3_action \<Rightarrow> s3_action \<Rightarrow> bool" where
  "less_s3_action a b = (action_index a < action_index b)"

instance
  by standard (auto simp: less_eq_s3_action_def less_s3_action_def intro: action_index_inj)

end

datatype config_error =
    InvalidUploadLimit string
  | InvalidIoTuning string
  | InvalidAuthConfig string

fun S3Action_as_str :: "s3_action \<Rightarrow> string" where
  "S3Action_as_str Act_PutObject = ''s3:PutObject''"
| "S3Action_as_str Act_GetObject = ''s3:GetObject''"
| "S3Action_as_str Act_HeadObject = ''s3:HeadObject''"
| "S3Action_as_str Act_DeleteObject = ''s3:DeleteObject''"
| "S3Action_as_str Act_CreateMultipartUpload = ''s3:CreateMultipartUpload''"
| "S3Action_as_str Act_UploadPart = ''s3:UploadPart''"
| "S3Action_as_str Act_CompleteMultipartUpload = ''s3:CompleteMultipartUpload''"
| "S3Action_as_str Act_AbortMultipartUpload = ''s3:AbortMultipartUpload''"
| "S3Action_as_str Act_ListMultipartUploadParts = ''s3:ListMultipartUploadParts''"
| "S3Action_as_str Act_HeadBucket = ''s3:HeadBucket''"

definition S3Action_from_str :: "string \<Rightarrow> (s3_action, config_error) result" where
  "S3Action_from_str v =
     (if v = ''s3:PutObject'' \<or> v = ''PutObject'' \<or> v = ''put-object'' then Ok Act_PutObject
      else if v = ''s3:GetObject'' \<or> v = ''GetObject'' \<or> v = ''get-object'' then Ok Act_GetObject
      else if v = ''s3:HeadObject'' \<or> v = ''HeadObject'' \<or> v = ''head-object'' then Ok Act_HeadObject
      else if v = ''s3:DeleteObject'' \<or> v = ''DeleteObject'' \<or> v = ''delete-object''
        then Ok Act_DeleteObject
      else if v = ''s3:CreateMultipartUpload'' \<or> v = ''CreateMultipartUpload''
        \<or> v = ''create-multipart-upload'' then Ok Act_CreateMultipartUpload
      else if v = ''s3:UploadPart'' \<or> v = ''UploadPart'' \<or> v = ''upload-part'' then Ok Act_UploadPart
      else if v = ''s3:CompleteMultipartUpload'' \<or> v = ''CompleteMultipartUpload''
        \<or> v = ''complete-multipart-upload'' then Ok Act_CompleteMultipartUpload
      else if v = ''s3:AbortMultipartUpload'' \<or> v = ''AbortMultipartUpload''
        \<or> v = ''abort-multipart-upload'' then Ok Act_AbortMultipartUpload
      else if v = ''s3:ListMultipartUploadParts'' \<or> v = ''ListMultipartUploadParts''
        \<or> v = ''list-multipart-upload-parts'' then Ok Act_ListMultipartUploadParts
      else if v = ''s3:HeadBucket'' \<or> v = ''HeadBucket'' \<or> v = ''head-bucket'' then Ok Act_HeadBucket
      else Err (InvalidAuthConfig ''allowed_actions must contain supported S3 action names''))"

section \<open>Upload limits\<close>

record upload_limits =
  ul_max_object_size :: nat
  ul_max_part_size :: nat
  ul_min_non_final_part_size :: nat
  ul_max_concurrent_s3_requests :: nat
  ul_max_active_object_writers :: nat
  ul_max_active_multipart_part_writers :: nat
  ul_max_active_aws_chunked_decoders :: nat

abbreviation MIB :: nat where
  "MIB \<equiv> 1024 * 1024"

abbreviation GIB :: nat where
  "GIB \<equiv> 1024 * 1024 * 1024"

definition UploadLimits_default :: upload_limits where
  "UploadLimits_default =
     \<lparr>ul_max_object_size = 10000 * 5 * GIB, ul_max_part_size = 5 * GIB,
      ul_min_non_final_part_size = 5 * MIB, ul_max_concurrent_s3_requests = 256,
      ul_max_active_object_writers = 64, ul_max_active_multipart_part_writers = 128,
      ul_max_active_aws_chunked_decoders = 64\<rparr>"

definition UploadLimits_local_development :: upload_limits where
  "UploadLimits_local_development =
     \<lparr>ul_max_object_size = 1024 * MIB, ul_max_part_size = 512 * MIB,
      ul_min_non_final_part_size = 5 * MIB, ul_max_concurrent_s3_requests = 64,
      ul_max_active_object_writers = 16, ul_max_active_multipart_part_writers = 32,
      ul_max_active_aws_chunked_decoders = 16\<rparr>"

text \<open>Both newtypes of non-zero limits are the number they wrap.\<close>

definition PositiveUploadLimit_new :: "nat \<Rightarrow> string \<Rightarrow> (nat, config_error) result" where
  "PositiveUploadLimit_new v e = (if v = 0 then Err (InvalidUploadLimit e) else Ok v)"

definition PositiveAdmissionLimit_new :: "nat \<Rightarrow> string \<Rightarrow> (nat, config_error) result" where
  "PositiveAdmissionLimit_new v e = (if v = 0 then Err (InvalidUploadLimit e) else Ok v)"

record validated_upload_limits =
  vl_max_object_size :: nat
  vl_max_part_size :: nat
  vl_min_non_final_part_size :: nat
  vl_max_concurrent_s3_requests :: nat
  vl_max_active_object_writers :: nat
  vl_max_active_multipart_part_writers :: nat
  vl_max_active_aws_chunked_decoders :: nat

definition UploadLimits_validated :: "upload_limits \<Rightarrow> (validated_upload_limits, config_error) result" where
  "UploadLimits_validated L =
     and_then (PositiveUploadLimit_new (ul_max_object_size L)
       ''max_object_size must be greater than 0'') (\<lambda>a.
     and_then (PositiveUploadLimit_new (ul_max_part_size L)
       ''max_part_size must be greater than 0'') (\<lambda>b.
     and_then (PositiveUploadLimit_new (ul_min_non_final_part_size L)
       ''min_non_final_part_size must be greater than 0'') (\<lambda>c.
     and_then (PositiveAdmissionLimit_new (ul_max_concurrent_s3_requests L)
       ''max_concurrent_s3_requests must be greater than 0'') (\<lambda>d.
     and_then (PositiveAdmissionLimit_new (ul_max_active_object_writers L)
       ''max_active_object_writers must be greater than 0'') (\<lambda>e.
     and_then (PositiveAdmissionLimit_new (ul_max_active_multipart_part_writers L)
       ''max_active_multipart_part_writers must be greater than 0'') (\<lambda>f.
     and_then (PositiveAdmissionLimit_new (ul_max_active_aws_chunked_decoders L)
       ''max_active_aws_chunked_decoders must be greater than 0'') (\<lambda>g.
     Ok \<lparr>vl_max_object_size = a, vl_max_part_size = b, vl_min_non_final_part_size = c,
         vl_max_concurrent_s3_requests = d, vl_max_active_object_writers = e,
         vl_max_active_multipart_part_writers = f, vl_max_active_aws_chunked_decoders = g\<rparr>)))))))"

definition UploadLimits_validate :: "upload_limits \<Rightarrow> (unit, config_error) result" where
  "UploadLimits_validate L =
     and_then (UploadLimits_validated L) (\<lambda>v.
     ensure (\<not> vl_min_non_final_part_size v > vl_max_part_size v)
       (InvalidUploadLimit ''min_non_final_part_size must be less than or equal to max_part_size''))"

section \<open>I/O tuning and multipart lifecycle\<close>

record io_tuning =
  io_upload_summary_buffer_size :: nat
  io_multipart_complete_buffer_size :: nat
  io_object_stream_buffer_size :: nat

definition IoTuning_default :: io_tuning where
  "IoTuning_default =
     \<lparr>io_upload_summary_buffer_size = 64 * 1024, io_multipart_complete_buffer_size = 64 * 1024,
      io_object_stream_buffer_size = 64 * 1024\<rparr>"

definition IoTuning_validate :: "io_tuning \<Rightarrow> (unit, config_error) result" where
  "IoTuning_validate t =
     and_then (ensure (io_upload_summary_buffer_size t \<noteq> 0)
       (InvalidIoTuning ''upload_summary_buffer_size must be greater than 0'')) (\<lambda>_.
     and_then (ensure (io_multipart_complete_buffer_size t \<noteq> 0)
       (InvalidIoTuning ''multipart_complete_buffer_size must be greater than 0'')) (\<lambda>_.
     ensure (io_object_stream_buffer_size t \<noteq> 0)
       (InvalidIoTuning ''object_stream_buffer_size must be greater than 0'')))"

record multipart_lifecycle =
  lc_cleanup_on_startup :: bool
  lc_remove_terminal_uploads_on_startup :: bool
  lc_remove_stale_temp_files_on_startup :: bool
  lc_abort_incomplete_after :: "int option"

definition MultipartLifecycle_default :: multipart_lifecycle where
  "MultipartLifecycle_default =
     \<lparr>lc_cleanup_on_startup = True, lc_remove_terminal_uploads_on_startup = True,
      lc_remove_stale_temp_files_on_startup = True, lc_abort_incomplete_after = None\<rparr>"

section \<open>Credentials\<close>

type_synonym 'a btset = "('a, unit) btmap"

definition is_valid_region :: "string \<Rightarrow> bool" where
  "is_valid_region r =
     (case r of
        [] \<Rightarrow> False
      | first # rest \<Rightarrow>
          (is_ascii_lowercase first \<or> is_ascii_digit first)
          \<and> (\<forall>c\<in>set rest. is_ascii_lowercase c \<or> is_ascii_digit c \<or> c = CHR ''-'')
          \<and> (is_ascii_lowercase (last r) \<or> is_ascii_digit (last r)))"

definition validate_access_key_id :: "string \<Rightarrow> (unit, config_error) result" where
  "validate_access_key_id v =
     and_then (ensure (v \<noteq> []) (InvalidAuthConfig ''access_key_id must not be empty'')) (\<lambda>_.
     ensure (\<not> (\<exists>c\<in>set v. is_ascii_control c \<or> is_ascii_whitespace c))
       (InvalidAuthConfig ''access_key_id must not contain whitespace or control characters''))"

definition validate_secret_key :: "string \<Rightarrow> (unit, config_error) result" where
  "validate_secret_key v =
     and_then (ensure (v \<noteq> []) (InvalidAuthConfig ''secret_key must not be empty'')) (\<lambda>_.
     ensure (\<not> (\<exists>c\<in>set v. is_ascii_control c))
       (InvalidAuthConfig ''secret_key must not contain control characters''))"

definition validate_session_token :: "string option \<Rightarrow> (unit, config_error) result" where
  "validate_session_token v =
     ensure (v \<noteq> Some []) (InvalidAuthConfig ''session_token must not be empty when configured'')"

definition AccessKeyId_parse :: "string \<Rightarrow> (access_key_id, config_error) result" where
  "AccessKeyId_parse v = and_then (validate_access_key_id v) (\<lambda>_. Ok v)"

definition SecretKey_parse :: "string \<Rightarrow> (secret_key, config_error) result" where
  "SecretKey_parse v = and_then (validate_secret_key v) (\<lambda>_. Ok v)"

definition validate_allowed_buckets :: "string btset \<Rightarrow> (unit, config_error) result" where
  "validate_allowed_buckets bs =
     for_each (\<lambda>(b, _). map_ok (\<lambda>_. ()) (map_err
         (\<lambda>_. InvalidAuthConfig ''allowed_buckets must contain valid bucket names'')
         (BucketName_parse b)))
       bs"

record access_key_config =
  ak_access_key_id :: string
  ak_secret_key :: string
  ak_session_token :: "string option"
  ak_active :: bool
  ak_allowed_buckets :: "string btset"
  ak_allowed_actions :: "s3_action btset"

definition AccessKeyConfig_validate :: "access_key_config \<Rightarrow> (unit, config_error) result" where
  "AccessKeyConfig_validate k =
     and_then (validate_access_key_id (ak_access_key_id k)) (\<lambda>_.
     and_then (validate_secret_key (ak_secret_key k)) (\<lambda>_.
     and_then (validate_session_token (ak_session_token k)) (\<lambda>_.
     validate_allowed_buckets (ak_allowed_buckets k))))"

record auth_config =
  ac_allow_anonymous :: bool
  ac_access_key_id :: string
  ac_secret_key :: string
  ac_session_token :: "string option"
  ac_region :: string
  ac_max_skew_seconds :: int
  ac_allowed_buckets :: "string btset"
  ac_allowed_actions :: "s3_action btset"
  ac_credentials :: "access_key_config list"

definition AuthConfig_default :: auth_config where
  "AuthConfig_default =
     \<lparr>ac_allow_anonymous = False, ac_access_key_id = ''test'', ac_secret_key = ''testsecret'',
      ac_session_token = None, ac_region = ''us-east-1'', ac_max_skew_seconds = 900,
      ac_allowed_buckets = bt_empty, ac_allowed_actions = bt_empty, ac_credentials = []\<rparr>"

text \<open>The loop over the additional credentials, with the set of identifiers seen so far.\<close>

fun validate_credentials ::
  "string btset \<Rightarrow> access_key_config list \<Rightarrow> (unit, config_error) result" where
  "validate_credentials seen [] = Ok ()"
| "validate_credentials seen (k # ks) =
     and_then (AccessKeyConfig_validate k) (\<lambda>_.
     and_then (ensure (\<not> bt_contains seen (ak_access_key_id k))
       (InvalidAuthConfig ''credential access_key_id values must be unique'')) (\<lambda>_.
     validate_credentials (bt_insert (ak_access_key_id k) () seen) ks))"

definition AuthConfig_validate :: "auth_config \<Rightarrow> (unit, config_error) result" where
  "AuthConfig_validate c =
     and_then (validate_access_key_id (ac_access_key_id c)) (\<lambda>_.
     and_then (validate_secret_key (ac_secret_key c)) (\<lambda>_.
     and_then (validate_session_token (ac_session_token c)) (\<lambda>_.
     and_then (ensure (is_valid_region (ac_region c))
       (InvalidAuthConfig ''region must be a non-empty lowercase AWS region identifier'')) (\<lambda>_.
     and_then (ensure (\<not> ac_max_skew_seconds c < 0)
       (InvalidAuthConfig ''max_skew_seconds must be greater than or equal to 0'')) (\<lambda>_.
     and_then (validate_allowed_buckets (ac_allowed_buckets c)) (\<lambda>_.
     validate_credentials [(ac_access_key_id c, ())] (ac_credentials c)))))))"

definition AuthConfig_permits :: "auth_config \<Rightarrow> bucket_name \<Rightarrow> s3_action \<Rightarrow> bool" where
  "AuthConfig_permits c b a \<longleftrightarrow>
     (ac_allowed_buckets c = bt_empty \<or> bt_contains (ac_allowed_buckets c) b)
     \<and> (ac_allowed_actions c = bt_empty \<or> bt_contains (ac_allowed_actions c) a)"

section \<open>Request-time authentication state\<close>

record stored_access_key =
  sk_access_key_id :: access_key_id
  sk_secret_key :: secret_key
  sk_session_token :: "string option"
  sk_active :: bool
  sk_allowed_buckets :: "string btset"
  sk_allowed_actions :: "s3_action btset"

record auth_state =
  au_allow_anonymous :: bool
  au_region :: string
  au_max_skew_seconds :: int
  au_anonymous_allowed_buckets :: "string btset"
  au_credentials :: "(string, stored_access_key) btmap"

definition primary_access_key :: "auth_config \<Rightarrow> (stored_access_key, config_error) result" where
  "primary_access_key c =
     and_then (AccessKeyId_parse (ac_access_key_id c)) (\<lambda>i.
     and_then (SecretKey_parse (ac_secret_key c)) (\<lambda>s.
     Ok \<lparr>sk_access_key_id = i, sk_secret_key = s, sk_session_token = ac_session_token c,
         sk_active = True, sk_allowed_buckets = ac_allowed_buckets c,
         sk_allowed_actions = ac_allowed_actions c\<rparr>))"

definition additional_access_key :: "access_key_config \<Rightarrow> (stored_access_key, config_error) result" where
  "additional_access_key k =
     and_then (AccessKeyId_parse (ak_access_key_id k)) (\<lambda>i.
     and_then (SecretKey_parse (ak_secret_key k)) (\<lambda>s.
     Ok \<lparr>sk_access_key_id = i, sk_secret_key = s, sk_session_token = ak_session_token k,
         sk_active = ak_active k, sk_allowed_buckets = ak_allowed_buckets k,
         sk_allowed_actions = ak_allowed_actions k\<rparr>))"

fun insert_credentials ::
  "access_key_config list \<Rightarrow> (string, stored_access_key) btmap \<Rightarrow>
     ((string, stored_access_key) btmap, config_error) result" where
  "insert_credentials [] m = Ok m"
| "insert_credentials (k # ks) m =
     and_then (additional_access_key k) (\<lambda>s.
     insert_credentials ks (bt_insert (sk_access_key_id s) s m))"

definition AuthState_new :: "auth_config \<Rightarrow> (auth_state, config_error) result" where
  "AuthState_new c =
     and_then (AuthConfig_validate c) (\<lambda>_.
     and_then (primary_access_key c) (\<lambda>p.
     and_then (insert_credentials (ac_credentials c) (bt_insert (sk_access_key_id p) p bt_empty)) (\<lambda>m.
     Ok \<lparr>au_allow_anonymous = ac_allow_anonymous c, au_region = ac_region c,
         au_max_skew_seconds = ac_max_skew_seconds c,
         au_anonymous_allowed_buckets = ac_allowed_buckets c, au_credentials = m\<rparr>)))"

definition permits_anonymous_bucket :: "auth_state \<Rightarrow> bucket_name \<Rightarrow> bool" where
  "permits_anonymous_bucket st b \<longleftrightarrow>
     au_anonymous_allowed_buckets st = bt_empty \<or> bt_contains (au_anonymous_allowed_buckets st) b"

text \<open>\<open>as_configured\<close> borrows the stored key field by field.\<close>

definition AuthState_credential :: "auth_state \<Rightarrow> string \<Rightarrow> stored_access_key option" where
  "AuthState_credential st i = bt_get (au_credentials st) i"

definition permits_credential :: "auth_state \<Rightarrow> string \<Rightarrow> bucket_name \<Rightarrow> s3_action \<Rightarrow> bool" where
  "permits_credential st i b a =
     (case AuthState_credential st i of
        None \<Rightarrow> False
      | Some k \<Rightarrow>
          (sk_allowed_buckets k = bt_empty \<or> bt_contains (sk_allowed_buckets k) b)
          \<and> (sk_allowed_actions k = bt_empty \<or> bt_contains (sk_allowed_actions k) a))"

section \<open>The configuration\<close>

record config =
  cf_storage_root :: string
  cf_auth :: auth_config
  cf_virtual_host_base_domain :: "string option"
  cf_upload_limits :: upload_limits

definition Config_new :: "string \<Rightarrow> config" where
  "Config_new root =
     \<lparr>cf_storage_root = root, cf_auth = AuthConfig_default, cf_virtual_host_base_domain = None,
      cf_upload_limits = UploadLimits_default\<rparr>"

definition Config_validate :: "config \<Rightarrow> (unit, config_error) result" where
  "Config_validate c =
     and_then (UploadLimits_validate (cf_upload_limits c)) (\<lambda>_. AuthConfig_validate (cf_auth c))"

section \<open>Builders\<close>

text \<open>Each fluent builder wraps the value it builds; its setters replace one field of it.\<close>

definition ConfigBuilder_auth :: "auth_config \<Rightarrow> config \<Rightarrow> config" where
  "ConfigBuilder_auth v b = b\<lparr>cf_auth := v\<rparr>"

definition ConfigBuilder_allow_anonymous :: "bool \<Rightarrow> config \<Rightarrow> config" where
  "ConfigBuilder_allow_anonymous v b = b\<lparr>cf_auth := (cf_auth b)\<lparr>ac_allow_anonymous := v\<rparr>\<rparr>"

definition ConfigBuilder_region :: "string \<Rightarrow> config \<Rightarrow> config" where
  "ConfigBuilder_region v b = b\<lparr>cf_auth := (cf_auth b)\<lparr>ac_region := v\<rparr>\<rparr>"

definition ConfigBuilder_virtual_host_base_domain :: "string \<Rightarrow> config \<Rightarrow> config" where
  "ConfigBuilder_virtual_host_base_domain v b = b\<lparr>cf_virtual_host_base_domain := Some v\<rparr>"

definition ConfigBuilder_without_virtual_host_base_domain :: "config \<Rightarrow> config" where
  "ConfigBuilder_without_virtual_host_base_domain b = b\<lparr>cf_virtual_host_base_domain := None\<rparr>"

definition ConfigBuilder_upload_limits :: "upload_limits \<Rightarrow> config \<Rightarrow> config" where
  "ConfigBuilder_upload_limits v b = b\<lparr>cf_upload_limits := v\<rparr>"

definition IoTuningBuilder_upload_summary_buffer_size :: "nat \<Rightarrow> io_tuning \<Rightarrow> io_tuning" where
  "IoTuningBuilder_upload_summary_buffer_size v b = b\<lparr>io_upload_summary_buffer_size := v\<rparr>"

definition IoTuningBuilder_multipart_complete_buffer_size :: "nat \<Rightarrow> io_tuning \<Rightarrow> io_tuning" where
  "IoTuningBuilder_multipart_complete_buffer_size v b = b\<lparr>io_multipart_complete_buffer_size := v\<rparr>"

definition IoTuningBuilder_object_stream_buffer_size :: "nat \<Rightarrow> io_tuning \<Rightarrow> io_tuning" where
  "IoTuningBuilder_object_stream_buffer_size v b = b\<lparr>io_object_stream_buffer_size := v\<rparr>"

definition MultipartLifecycleBuilder_cleanup_on_startup :: "bool \<Rightarrow> multipart_lifecycle \<Rightarrow> multipart_lifecycle" where
  "MultipartLifecycleBuilder_cleanup_on_startup v b = b\<lparr>lc_cleanup_on_startup := v\<rparr>"

definition MultipartLifecycleBuilder_remove_terminal_uploads_on_startup :: "bool \<Rightarrow> multipart_lifecycle \<Rightarrow> multipart_lifecycle" where
  "MultipartLifecycleBuilder_remove_terminal_uploads_on_startup v b = b\<lparr>lc_remove_terminal_uploads_on_startup := v\<rparr>"

definition MultipartLifecycleBuilder_remove_stale_temp_files_on_startup :: "bool \<Rightarrow> multipart_lifecycle \<Rightarrow> multipart_lifecycle" where
  "MultipartLifecycleBuilder_remove_stale_temp_files_on_startup v b = b\<lparr>lc_remove_stale_temp_files_on_startup := v\<rparr>"

definition MultipartLifecycleBuilder_abort_incomplete_after :: "int \<Rightarrow> multipart_lifecycle \<Rightarrow> multipart_lifecycle" where
  "MultipartLifecycleBuilder_abort_incomplete_after v b = b\<lparr>lc_abort_incomplete_after := Some v\<rparr>"

definition MultipartLifecycleBuilder_without_abort_incomplete_after :: "multipart_lifecycle \<Rightarrow> multipart_lifecycle" where
  "MultipartLifecycleBuilder_without_abort_incomplete_after b = b\<lparr>lc_abort_incomplete_after := None\<rparr>"

definition UploadLimitsBuilder_max_object_size :: "nat \<Rightarrow> upload_limits \<Rightarrow> upload_limits" where
  "UploadLimitsBuilder_max_object_size v b = b\<lparr>ul_max_object_size := v\<rparr>"

definition UploadLimitsBuilder_max_part_size :: "nat \<Rightarrow> upload_limits \<Rightarrow> upload_limits" where
  "UploadLimitsBuilder_max_part_size v b = b\<lparr>ul_max_part_size := v\<rparr>"

definition UploadLimitsBuilder_min_non_final_part_size :: "nat \<Rightarrow> upload_limits \<Rightarrow> upload_limits" where
  "UploadLimitsBuilder_min_non_final_part_size v b = b\<lparr>ul_min_non_final_part_size := v\<rparr>"

definition UploadLimitsBuilder_max_concurrent_s3_requests :: "nat \<Rightarrow> upload_limits \<Rightarrow> upload_limits" where
  "UploadLimitsBuilder_max_concurrent_s3_requests v b = b\<lparr>ul_max_concurrent_s3_requests := v\<rparr>"

definition UploadLimitsBuilder_max_active_object_writers :: "nat \<Rightarrow> upload_limits \<Rightarrow> upload_limits" where
  "UploadLimitsBuilder_max_active_object_writers v b = b\<lparr>ul_max_active_object_writers := v\<rparr>"

definition UploadLimitsBuilder_max_active_multipart_part_writers :: "nat \<Rightarrow> upload_limits \<Rightarrow> upload_limits" where
  "UploadLimitsBuilder_max_active_multipart_part_writers v b = b\<lparr>ul_max_active_multipart_part_writers := v\<rparr>"

definition UploadLimitsBuilder_max_active_aws_chunked_decoders :: "nat \<Rightarrow> upload_limits \<Rightarrow> upload_limits" where
  "UploadLimitsBuilder_max_active_aws_chunked_decoders v b = b\<lparr>ul_max_active_aws_chunked_decoders := v\<rparr>"

text \<open>Collecting an iterator into a \<open>BTreeSet\<close>.\<close>

definition btset_of :: "'a::linorder list \<Rightarrow> 'a btset" where
  "btset_of xs = bt_of_list (map (\<lambda>x. (x, ())) xs)"

definition AuthConfigBuilder_allow_anonymous :: "bool \<Rightarrow> auth_config \<Rightarrow> auth_config" where
  "AuthConfigBuilder_allow_anonymous v b = b\<lparr>ac_allow_anonymous := v\<rparr>"

definition AuthConfigBuilder_access_key_id :: "string \<Rightarrow> auth_config \<Rightarrow> auth_config" where
  "AuthConfigBuilder_access_key_id v b = b\<lparr>ac_access_key_id := v\<rparr>"

definition AuthConfigBuilder_secret_key :: "string \<Rightarrow> auth_config \<Rightarrow> auth_config" where
  "AuthConfigBuilder_secret_key v b = b\<lparr>ac_secret_key := v\<rparr>"

definition AuthConfigBuilder_primary_credentials :: "string \<Rightarrow> string \<Rightarrow> auth_config \<Rightarrow> auth_config" where
  "AuthConfigBuilder_primary_credentials i v b = b\<lparr>ac_access_key_id := i, ac_secret_key := v\<rparr>"

definition AuthConfigBuilder_session_token :: "string \<Rightarrow> auth_config \<Rightarrow> auth_config" where
  "AuthConfigBuilder_session_token v b = b\<lparr>ac_session_token := Some v\<rparr>"

definition AuthConfigBuilder_without_session_token :: "auth_config \<Rightarrow> auth_config" where
  "AuthConfigBuilder_without_session_token b = b\<lparr>ac_session_token := None\<rparr>"

definition AuthConfigBuilder_region :: "string \<Rightarrow> auth_config \<Rightarrow> auth_config" where
  "AuthConfigBuilder_region v b = b\<lparr>ac_region := v\<rparr>"

definition AuthConfigBuilder_max_skew_seconds :: "int \<Rightarrow> auth_config \<Rightarrow> auth_config" where
  "AuthConfigBuilder_max_skew_seconds v b = b\<lparr>ac_max_skew_seconds := v\<rparr>"

definition AuthConfigBuilder_allowed_buckets :: "string list \<Rightarrow> auth_config \<Rightarrow> auth_config" where
  "AuthConfigBuilder_allowed_buckets v b = b\<lparr>ac_allowed_buckets := btset_of v\<rparr>"

definition AuthConfigBuilder_allow_bucket :: "string \<Rightarrow> auth_config \<Rightarrow> auth_config" where
  "AuthConfigBuilder_allow_bucket v b = b\<lparr>ac_allowed_buckets := bt_insert v () (ac_allowed_buckets b)\<rparr>"

definition AuthConfigBuilder_allowed_actions :: "s3_action list \<Rightarrow> auth_config \<Rightarrow> auth_config" where
  "AuthConfigBuilder_allowed_actions v b = b\<lparr>ac_allowed_actions := btset_of v\<rparr>"

definition AuthConfigBuilder_allow_action :: "s3_action \<Rightarrow> auth_config \<Rightarrow> auth_config" where
  "AuthConfigBuilder_allow_action v b = b\<lparr>ac_allowed_actions := bt_insert v () (ac_allowed_actions b)\<rparr>"

definition AuthConfigBuilder_credentials :: "access_key_config list \<Rightarrow> auth_config \<Rightarrow> auth_config" where
  "AuthConfigBuilder_credentials v b = b\<lparr>ac_credentials := v\<rparr>"

definition AuthConfigBuilder_credential :: "access_key_config \<Rightarrow> auth_config \<Rightarrow> auth_config" where
  "AuthConfigBuilder_credential v b = b\<lparr>ac_credentials := ac_credentials b @ [v]\<rparr>"

definition AccessKeyConfig_builder :: "string \<Rightarrow> string \<Rightarrow> access_key_config" where
  "AccessKeyConfig_builder i v =
     \<lparr>ak_access_key_id = i, ak_secret_key = v, ak_session_token = None, ak_active = True,
      ak_allowed_buckets = bt_empty, ak_allowed_actions = bt_empty\<rparr>"

definition AccessKeyConfigBuilder_session_token :: "string \<Rightarrow> access_key_config \<Rightarrow> access_key_config" where
  "AccessKeyConfigBuilder_session_token v b = b\<lparr>ak_session_token := Some v\<rparr>"

definition AccessKeyConfigBuilder_without_session_token :: "access_key_config \<Rightarrow> access_key_config" where
  "AccessKeyConfigBuilder_without_session_token b = b\<lparr>ak_session_token := None\<rparr>"

definition AccessKeyConfigBuilder_active :: "bool \<Rightarrow> access_key_config \<Rightarrow> access_key_config" where
  "AccessKeyConfigBuilder_active v b = b\<lparr>ak_active := v\<rparr>"

definition AccessKeyConfigBuilder_allowed_buckets :: "string list \<Rightarrow> access_key_config \<Rightarrow> access_key_config" where
  "AccessKeyConfigBuilder_allowed_buckets v b = b\<lparr>ak_allowed_buckets := btset_of v\<rparr>"

definition AccessKeyConfigBuilder_allow_bucket :: "string \<Rightarrow> access_key_config \<Rightarrow> access_key_config" where
  "AccessKeyConfigBuilder_allow_bucket v b = b\<lparr>ak_allowed_buckets := bt_insert v () (ak_allowed_buckets b)\<rparr>"

definition AccessKeyConfigBuilder_allowed_actions :: "s3_action list \<Rightarrow> access_key_config \<Rightarrow> access_key_config" where
  "AccessKeyConfigBuilder_allowed_actions v b = b\<lparr>ak_allowed_actions := btset_of v\<rparr>"

definition AccessKeyConfigBuilder_allow_action :: "s3_action \<Rightarrow> access_key_config \<Rightarrow> access_key_config" where
  "AccessKeyConfigBuilder_allow_action v b = b\<lparr>ak_allowed_actions := bt_insert v () (ak_allowed_actions b)\<rparr>"


section \<open>What validation establishes\<close>

lemma UploadLimits_validated_Ok [res_simps]:
  "UploadLimits_validated L = Ok v \<longleftrightarrow>
     0 < ul_max_object_size L \<and> 0 < ul_max_part_size L \<and> 0 < ul_min_non_final_part_size L
     \<and> 0 < ul_max_concurrent_s3_requests L \<and> 0 < ul_max_active_object_writers L
     \<and> 0 < ul_max_active_multipart_part_writers L \<and> 0 < ul_max_active_aws_chunked_decoders L
     \<and> v = \<lparr>vl_max_object_size = ul_max_object_size L, vl_max_part_size = ul_max_part_size L,
         vl_min_non_final_part_size = ul_min_non_final_part_size L,
         vl_max_concurrent_s3_requests = ul_max_concurrent_s3_requests L,
         vl_max_active_object_writers = ul_max_active_object_writers L,
         vl_max_active_multipart_part_writers = ul_max_active_multipart_part_writers L,
         vl_max_active_aws_chunked_decoders = ul_max_active_aws_chunked_decoders L\<rparr>"
  by (auto simp: UploadLimits_validated_def PositiveUploadLimit_new_def
      PositiveAdmissionLimit_new_def res_simps split: if_splits)

definition valid_access_key_id :: "string \<Rightarrow> bool" where
  "valid_access_key_id v \<longleftrightarrow>
     v \<noteq> [] \<and> (\<forall>c\<in>set v. \<not> is_ascii_control c \<and> \<not> is_ascii_whitespace c)"

definition valid_secret_key :: "string \<Rightarrow> bool" where
  "valid_secret_key v \<longleftrightarrow> v \<noteq> [] \<and> (\<forall>c\<in>set v. \<not> is_ascii_control c)"

lemma validate_access_key_id_Ok [res_simps]: "validate_access_key_id v = Ok u \<longleftrightarrow> valid_access_key_id v"
  by (auto simp: validate_access_key_id_def valid_access_key_id_def res_simps)

lemma validate_secret_key_Ok [res_simps]: "validate_secret_key v = Ok u \<longleftrightarrow> valid_secret_key v"
  by (auto simp: validate_secret_key_def valid_secret_key_def res_simps)

lemma AccessKeyId_parse_Ok [res_simps]: "AccessKeyId_parse v = Ok i \<longleftrightarrow> i = v \<and> valid_access_key_id v"
  by (auto simp: AccessKeyId_parse_def res_simps)

lemma SecretKey_parse_Ok [res_simps]: "SecretKey_parse v = Ok i \<longleftrightarrow> i = v \<and> valid_secret_key v"
  by (auto simp: SecretKey_parse_def res_simps)

lemma validate_allowed_buckets_Ok [res_simps]:
  "validate_allowed_buckets bs = Ok u \<longleftrightarrow> (\<forall>b\<in>fst ` set bs. valid_bucket b)"
  by (auto simp: validate_allowed_buckets_def res_simps split_beta)

definition valid_access_key :: "access_key_config \<Rightarrow> bool" where
  "valid_access_key k \<longleftrightarrow>
     valid_access_key_id (ak_access_key_id k) \<and> valid_secret_key (ak_secret_key k)
     \<and> ak_session_token k \<noteq> Some [] \<and> (\<forall>b\<in>fst ` set (ak_allowed_buckets k). valid_bucket b)"

lemma AccessKeyConfig_validate_Ok [res_simps]: "AccessKeyConfig_validate k = Ok u \<longleftrightarrow> valid_access_key k"
  by (auto simp: AccessKeyConfig_validate_def valid_access_key_def validate_session_token_def res_simps)

lemma validate_credentials_Ok [res_simps]:
  "validate_credentials seen ks = Ok u \<longleftrightarrow>
     (\<forall>k\<in>set ks. valid_access_key k \<and> \<not> bt_contains seen (ak_access_key_id k))
     \<and> distinct (map ak_access_key_id ks)"
  by (induction ks arbitrary: seen) (auto simp: res_simps rev_image_eqI)

definition valid_auth :: "auth_config \<Rightarrow> bool" where
  "valid_auth c \<longleftrightarrow>
     valid_access_key_id (ac_access_key_id c) \<and> valid_secret_key (ac_secret_key c)
     \<and> ac_session_token c \<noteq> Some [] \<and> is_valid_region (ac_region c) \<and> 0 \<le> ac_max_skew_seconds c
     \<and> (\<forall>b\<in>fst ` set (ac_allowed_buckets c). valid_bucket b)
     \<and> (\<forall>k\<in>set (ac_credentials c). valid_access_key k)
     \<and> distinct (ac_access_key_id c # map ak_access_key_id (ac_credentials c))"

lemma AuthConfig_validate_Ok [res_simps]: "AuthConfig_validate c = Ok u \<longleftrightarrow> valid_auth c"
  by (auto simp: AuthConfig_validate_def valid_auth_def validate_session_token_def bt_contains_def
      res_simps bt_get_def rev_image_eqI)

definition stored_primary :: "auth_config \<Rightarrow> stored_access_key" where
  "stored_primary c =
     \<lparr>sk_access_key_id = ac_access_key_id c, sk_secret_key = ac_secret_key c,
      sk_session_token = ac_session_token c, sk_active = True,
      sk_allowed_buckets = ac_allowed_buckets c, sk_allowed_actions = ac_allowed_actions c\<rparr>"

definition stored_additional :: "access_key_config \<Rightarrow> stored_access_key" where
  "stored_additional k =
     \<lparr>sk_access_key_id = ak_access_key_id k, sk_secret_key = ak_secret_key k,
      sk_session_token = ak_session_token k, sk_active = ak_active k,
      sk_allowed_buckets = ak_allowed_buckets k, sk_allowed_actions = ak_allowed_actions k\<rparr>"

lemma additional_access_key_valid:
  "valid_access_key k \<Longrightarrow> additional_access_key k = Ok (stored_additional k)"
  by (auto simp: additional_access_key_def valid_access_key_def stored_additional_def res_simps)

lemma insert_credentials_lookup:
  assumes "\<forall>k\<in>set ks. valid_access_key k"
  shows "\<exists>m'. insert_credentials ks m = Ok m' \<and>
    bt_get m' = bt_get m ++ map_of (rev (map (\<lambda>k. (ak_access_key_id k, stored_additional k)) ks))"
  using assms
proof (induction ks arbitrary: m)
  case (Cons k ks)
  then obtain m' where "insert_credentials ks (bt_insert (ak_access_key_id k) (stored_additional k) m) = Ok m'"
    "bt_get m' = bt_get (bt_insert (ak_access_key_id k) (stored_additional k) m)
       ++ map_of (rev (map (\<lambda>k. (ak_access_key_id k, stored_additional k)) ks))"
    by fastforce
  with Cons.prems show ?case
    by (simp add: additional_access_key_valid stored_additional_def map_add_def fun_eq_iff
        split: option.split)
qed simp

lemma AuthState_new_valid:
  assumes "valid_auth c"
  shows "\<exists>m. AuthState_new c = Ok \<lparr>au_allow_anonymous = ac_allow_anonymous c, au_region = ac_region c,
         au_max_skew_seconds = ac_max_skew_seconds c,
         au_anonymous_allowed_buckets = ac_allowed_buckets c, au_credentials = m\<rparr> \<and>
    bt_get m = map_of ((ac_access_key_id c, stored_primary c)
      # map (\<lambda>k. (ak_access_key_id k, stored_additional k)) (ac_credentials c))"
proof -
  let ?m = "[(ac_access_key_id c, stored_primary c)]"
  let ?l = "map (\<lambda>k. (ak_access_key_id k, stored_additional k)) (ac_credentials c)"
  have d: "distinct (map fst ?l)" and f: "ac_access_key_id c \<notin> fst ` set ?l"
    using assms by (auto simp: valid_auth_def o_def)
  obtain m where m: "insert_credentials (ac_credentials c) ?m = Ok m"
    and l: "bt_get m = bt_get ?m ++ map_of (rev ?l)"
    using insert_credentials_lookup [of "ac_credentials c" ?m] assms by (auto simp: valid_auth_def)
  have "map_of ?l (ac_access_key_id c) = None"
    using f by (simp add: map_of_eq_None_iff)
  then have "bt_get m = map_of ((ac_access_key_id c, stored_primary c) # ?l)"
    unfolding l map_of_rev_distinct [OF d] by (auto simp: fun_eq_iff bt_get_def map_add_def split: option.split)
  moreover have "primary_access_key c = Ok (stored_primary c)"
    using assms by (auto simp: valid_auth_def primary_access_key_def res_simps stored_primary_def)
  moreover have "sk_access_key_id (stored_primary c) = ac_access_key_id c"
    by (simp add: stored_primary_def)
  ultimately show ?thesis
    using m AuthConfig_validate_Ok [of c "()"] assms by (simp add: AuthState_new_def)
qed

lemma AuthState_new_iff: "(\<exists>st. AuthState_new c = Ok st) \<longleftrightarrow> AuthConfig_validate c = Ok ()"
  using AuthState_new_valid [of c] by (auto simp: AuthState_new_def res_simps)

lemma AuthState_new_auth: "AuthState_new c = Ok st \<Longrightarrow> valid_auth c"
  by (auto simp: AuthState_new_def res_simps)

lemma AuthState_lookup:
  assumes "AuthState_new c = Ok st"
  shows "AuthState_credential st i = Some k \<longleftrightarrow>
       (i = ac_access_key_id c \<and> k = stored_primary c)
       \<or> (\<exists>a\<in>set (ac_credentials c). i = ak_access_key_id a \<and> k = stored_additional a)"
proof -
  let ?l = "(ac_access_key_id c, stored_primary c)
    # map (\<lambda>k. (ak_access_key_id k, stored_additional k)) (ac_credentials c)"
  note v = AuthState_new_auth [OF assms]
  have d: "distinct (map fst ?l)"
    using v by (auto simp: valid_auth_def o_def)
  have "AuthState_credential st = map_of ?l"
    using AuthState_new_valid [OF v] assms by (auto simp: AuthState_credential_def fun_eq_iff)
  then have "AuthState_credential st i = Some k \<longleftrightarrow> (i, k) \<in> set ?l"
    using map_of_eq_Some_iff [OF d] by simp
  then show ?thesis
    by auto
qed

lemma AuthState_lookup_valid:
  assumes "AuthState_new c = Ok st" "AuthState_credential st i = Some k"
  shows "sk_access_key_id k = i \<and> valid_access_key_id i \<and> valid_secret_key (sk_secret_key k)"
  using AuthState_lookup [OF assms(1), of i k] assms(2) AuthState_new_auth [OF assms(1)]
  by (auto simp: valid_auth_def valid_access_key_def stored_primary_def stored_additional_def)

text \<open>The kebab-case spelling of a name in camel case.\<close>

definition kebab :: "string \<Rightarrow> string" where
  "kebab s = tl (concat (map (\<lambda>c. if is_ascii_uppercase c then [CHR ''-'', ascii_lower c] else [c]) s))"

definition spelling :: "s3_action \<Rightarrow> string list" where
  "spelling a = [S3Action_as_str a, drop 3 (S3Action_as_str a), kebab (drop 3 (S3Action_as_str a))]"

lemma S3Action_from_str_table:
  "S3Action_from_str v =
     (case find (\<lambda>a. v \<in> set (spelling a))
        [Act_PutObject, Act_GetObject, Act_HeadObject, Act_DeleteObject, Act_CreateMultipartUpload,
         Act_UploadPart, Act_CompleteMultipartUpload, Act_AbortMultipartUpload,
         Act_ListMultipartUploadParts, Act_HeadBucket] of
        Some a \<Rightarrow> Ok a
      | None \<Rightarrow> Err (InvalidAuthConfig ''allowed_actions must contain supported S3 action names''))"
proof -
  have sp: "spelling Act_PutObject = [''s3:PutObject'', ''PutObject'', ''put-object'']"
    "spelling Act_GetObject = [''s3:GetObject'', ''GetObject'', ''get-object'']"
    "spelling Act_HeadObject = [''s3:HeadObject'', ''HeadObject'', ''head-object'']"
    "spelling Act_DeleteObject = [''s3:DeleteObject'', ''DeleteObject'', ''delete-object'']"
    "spelling Act_CreateMultipartUpload =
      [''s3:CreateMultipartUpload'', ''CreateMultipartUpload'', ''create-multipart-upload'']"
    "spelling Act_UploadPart = [''s3:UploadPart'', ''UploadPart'', ''upload-part'']"
    "spelling Act_CompleteMultipartUpload =
      [''s3:CompleteMultipartUpload'', ''CompleteMultipartUpload'', ''complete-multipart-upload'']"
    "spelling Act_AbortMultipartUpload =
      [''s3:AbortMultipartUpload'', ''AbortMultipartUpload'', ''abort-multipart-upload'']"
    "spelling Act_ListMultipartUploadParts =
      [''s3:ListMultipartUploadParts'', ''ListMultipartUploadParts'', ''list-multipart-upload-parts'']"
    "spelling Act_HeadBucket = [''s3:HeadBucket'', ''HeadBucket'', ''head-bucket'']"
    by code_simp+
  show ?thesis
    unfolding S3Action_from_str_def find.simps sp list.set insert_iff empty_iff simp_thms if_distrib [of "case_option _ _"] option.case ..
qed

lemma S3Action_from_str_spelling: "S3Action_from_str v = Ok a \<longleftrightarrow> v \<in> set (spelling a)"
proof
  assume "S3Action_from_str v = Ok a"
  then show "v \<in> set (spelling a)"
    by (auto simp only: S3Action_from_str_table find_Some_iff result.inject result.distinct
        split: option.splits)
next
  assume v: "v \<in> set (spelling a)"
  have "list_all (\<lambda>w. S3Action_from_str w = Ok Act_PutObject) (spelling Act_PutObject)"
    "list_all (\<lambda>w. S3Action_from_str w = Ok Act_GetObject) (spelling Act_GetObject)"
    "list_all (\<lambda>w. S3Action_from_str w = Ok Act_HeadObject) (spelling Act_HeadObject)"
    "list_all (\<lambda>w. S3Action_from_str w = Ok Act_DeleteObject) (spelling Act_DeleteObject)"
    "list_all (\<lambda>w. S3Action_from_str w = Ok Act_CreateMultipartUpload) (spelling Act_CreateMultipartUpload)"
    "list_all (\<lambda>w. S3Action_from_str w = Ok Act_UploadPart) (spelling Act_UploadPart)"
    "list_all (\<lambda>w. S3Action_from_str w = Ok Act_CompleteMultipartUpload) (spelling Act_CompleteMultipartUpload)"
    "list_all (\<lambda>w. S3Action_from_str w = Ok Act_AbortMultipartUpload) (spelling Act_AbortMultipartUpload)"
    "list_all (\<lambda>w. S3Action_from_str w = Ok Act_ListMultipartUploadParts) (spelling Act_ListMultipartUploadParts)"
    "list_all (\<lambda>w. S3Action_from_str w = Ok Act_HeadBucket) (spelling Act_HeadBucket)"
    by code_simp+
  then have "list_all (\<lambda>w. S3Action_from_str w = Ok a) (spelling a)"
    by (cases a) (simp_all only:)
  with v show "S3Action_from_str v = Ok a"
    by (simp add: list_all_iff)
qed

section \<open>Properties\<close>

text \<open>
  Building the request-time authentication state succeeds exactly for the configurations
  that pass validation, and then the credential index is exact: an identifier is found if and
  only if it is the primary one or one of the additional ones, each identifier leads to its
  own entry (no credential shadows another), only the primary one is always active, and every
  indexed identifier and secret is well formed.
\<close>

lemma auth_state_index_exact:
  "((\<exists>st. AuthState_new c = Ok st) \<longleftrightarrow> AuthConfig_validate c = Ok ()) \<and>
   (\<forall>st i k. AuthState_new c = Ok st \<longrightarrow>
     (AuthState_credential st i = Some k \<longleftrightarrow>
       (i = ac_access_key_id c \<and> k = stored_primary c)
       \<or> (\<exists>a\<in>set (ac_credentials c). i = ak_access_key_id a \<and> k = stored_additional a)) \<and>
     (AuthState_credential st i = Some k \<longrightarrow>
       sk_access_key_id k = i \<and> valid_access_key_id i \<and> valid_secret_key (sk_secret_key k)))"
  by (intro conjI allI impI AuthState_new_iff AuthState_lookup)
    (auto dest: AuthState_lookup_valid)

definition ex_auth_config :: auth_config where
  "ex_auth_config = AuthConfigBuilder_credential
     (AccessKeyConfigBuilder_active False (AccessKeyConfig_builder ''alice'' ''s3cret''))
     AuthConfig_default"

text \<open>
  Every action name the configuration accepts is one of the three spellings of one action
  (the canonical \<open>s3:\<close> name, the bare name and the kebab-case name), and parsing the
  canonical name of an action gives that action back.
\<close>

lemma action_names_roundtrip:
  "(S3Action_from_str v = Ok a \<longleftrightarrow>
     v \<in> {S3Action_as_str a, drop 3 (S3Action_as_str a), kebab (drop 3 (S3Action_as_str a))})
   \<and> S3Action_from_str (S3Action_as_str a) = Ok a"
  using S3Action_from_str_spelling [of v a] S3Action_from_str_spelling [of "S3Action_as_str a" a]
  by (simp add: spelling_def)

text \<open>
  C35. A configuration passes validation exactly when every limit is positive, the smallest
  non-final part is not larger than the largest part, the region is well formed, the clock
  skew is not negative, all credentials are well formed with pairwise distinct identifiers,
  and the allow-lists hold valid bucket names; the default configuration passes.
\<close>

theorem config_validation_exact:
  "(Config_validate c = Ok () \<longleftrightarrow>
     (let L = cf_upload_limits c
      in 0 < ul_max_object_size L \<and> 0 < ul_max_part_size L
       \<and> 0 < ul_min_non_final_part_size L \<and> ul_min_non_final_part_size L \<le> ul_max_part_size L
       \<and> 0 < ul_max_concurrent_s3_requests L \<and> 0 < ul_max_active_object_writers L
       \<and> 0 < ul_max_active_multipart_part_writers L \<and> 0 < ul_max_active_aws_chunked_decoders L)
     \<and> valid_auth (cf_auth c))
   \<and> Config_validate (Config_new root) = Ok ()"
proof -
  have "AuthConfig_validate AuthConfig_default = Ok ()"
    by code_simp
  moreover have "UploadLimits_validate UploadLimits_default = Ok ()"
    by (simp add: UploadLimits_validate_def UploadLimits_validated_def UploadLimits_default_def
        PositiveUploadLimit_new_def PositiveAdmissionLimit_new_def)
  moreover have "UploadLimits_validate L = Ok () \<longleftrightarrow>
      0 < ul_max_object_size L \<and> 0 < ul_max_part_size L
       \<and> 0 < ul_min_non_final_part_size L \<and> ul_min_non_final_part_size L \<le> ul_max_part_size L
       \<and> 0 < ul_max_concurrent_s3_requests L \<and> 0 < ul_max_active_object_writers L
       \<and> 0 < ul_max_active_multipart_part_writers L \<and> 0 < ul_max_active_aws_chunked_decoders L" for L
    by (auto simp: UploadLimits_validate_def res_simps)
  ultimately show ?thesis
    by (simp add: Config_validate_def Config_new_def res_simps Let_def)
qed

end
