(* ===== verification/Store_Model.thy ===== *)
theory Store_Model
  imports Fs_Model S3_Checksum S3_Config
begin

text \<open>
  The data of the stores (\<open>src/storage/model.rs\<close>, \<open>src/storage/checksum.rs\<close>,
  \<open>src/storage/mod.rs\<close>): object and upload metadata, multipart sessions, store errors; and the
  file helpers of \<open>src/storage/fs_util.rs\<close>.

  A \<open>DateTime<Utc>\<close> is an integer. The JSON encoding of persisted records is third-party
  code: the record \<open>codec\<close> holds its functions, \<open>None\<close> being a serde error.
\<close>

type_synonym timestamp = int

section \<open>Metadata\<close>

datatype checksum_type = Composite | FullObject

record object_metadata =
  om_bucket :: bucket_name
  om_key :: object_key
  om_size :: nat
  om_etag :: etag
  om_content_type :: "string option"
  om_content_encoding :: "string option"
  om_content_disposition :: "string option"
  om_content_language :: "string option"
  om_cache_control :: "string option"
  om_expires :: "string option"
  om_tagging :: "string option"
  om_user_metadata :: "(string, string) btmap"
  om_checksums :: "(string, string) btmap"
  om_last_modified :: timestamp

record upload_metadata =
  um_content_type :: "string option"
  um_content_encoding :: "string option"
  um_content_disposition :: "string option"
  um_content_language :: "string option"
  um_cache_control :: "string option"
  um_expires :: "string option"
  um_tagging :: "string option"
  um_checksum_algorithm :: "checksum_name option"
  um_checksum_type :: "checksum_type option"
  um_user_metadata :: "(string, string) btmap"

datatype upload_state = Open | Completing | Completed | Aborted

record part_metadata =
  pm_part_number :: part_number
  pm_size :: nat
  pm_etag :: etag
  pm_md5 :: bytes
  pm_checksums :: "(string, string) btmap"
  pm_last_modified :: timestamp

record upload_session =
  us_upload_id :: upload_id
  us_bucket :: bucket_name
  us_key :: object_key
  us_initiated :: timestamp
  us_state :: upload_state
  us_owner :: "access_key_id option"
  us_metadata :: upload_metadata
  us_parts :: "(part_number, part_metadata) btmap"

definition is_open :: "upload_session \<Rightarrow> bool" where
  "is_open s \<longleftrightarrow> us_state s = Open"

record completed_part =
  cp_part_number :: part_number
  cp_etag :: etag

record committed_part =
  ct_size :: nat
  ct_md5 :: bytes
  ct_etag :: etag
  ct_checksums :: "(string, string) btmap"

section \<open>Errors\<close>

datatype store_error =
    SE_Io io_error | SE_Json | SE_InvalidPath path | SE_InvalidUploadId | SE_NoSuchUpload
  | SE_InvalidPart | SE_EntityTooSmall | SE_EntityTooLarge
  | SE_Checksum s3_error | SE_Processor s3_error

definition ensure_open :: "upload_session \<Rightarrow> (unit, store_error) result" where
  "ensure_open s = (if is_open s then Ok () else Err SE_NoSuchUpload)"

section \<open>The JSON codec\<close>

record codec =
  j_object_encode :: "object_metadata \<Rightarrow> bytes option"
  j_object_decode :: "bytes \<Rightarrow> object_metadata option"
  j_session_encode :: "upload_session \<Rightarrow> bytes option"
  j_session_decode :: "bytes \<Rightarrow> upload_session option"

section \<open>File helpers\<close>

text \<open>An I/O call whose error converts with \<open>StoreError::Io\<close>.\<close>

abbreviation se_io :: "(fs, 'a, io_error) io \<Rightarrow> (fs, 'a, store_error) io" where
  "se_io \<equiv> io_map_err SE_Io"

definition create_parent_dir :: "path \<Rightarrow> (fs, unit, store_error) io" where
  "create_parent_dir p =
     (if p = [] then io_fail (SE_InvalidPath p) else se_io (fs_create_dir_all (butlast p)))"

definition remove_file_if_exists :: "path \<Rightarrow> (fs, unit, store_error) io" where
  "remove_file_if_exists p =
     io_match (fs_remove_file p) (\<lambda>r. case r of
        Ok _ \<Rightarrow> io_return ()
      | Err NotFound \<Rightarrow> io_return ()
      | Err e \<Rightarrow> io_fail (SE_Io e))"

definition backup_existing_file :: "path \<Rightarrow> path \<Rightarrow> (fs, bool, store_error) io" where
  "backup_existing_file source backup =
     io_match (fs_hard_link source backup) (\<lambda>r. case r of
        Ok _ \<Rightarrow> io_return True
      | Err NotFound \<Rightarrow> io_return False
      | Err e \<Rightarrow> io_fail (SE_Io e))"

definition remove_backup_file :: "path \<Rightarrow> bool \<Rightarrow> (fs, unit, store_error) io" where
  "remove_backup_file p exists = (if exists then remove_file_if_exists p else io_return ())"

definition rollback_published_file :: "path \<Rightarrow> path \<Rightarrow> bool \<Rightarrow> (fs, unit, store_error) io" where
  "rollback_published_file p backup had_previous =
     io_ignore (remove_file_if_exists p)
       (if had_previous then io_ignore (fs_rename backup p) (io_return ()) else io_return ())"

section \<open>A frame calculus\<close>

text \<open>
  \<open>touches A m\<close>: whatever faults occur, \<open>m\<close> changes only files in \<open>A\<close> and removes no
  directory.
\<close>

definition touches :: "path set \<Rightarrow> (fs, 'a, 'e) io \<Rightarrow> bool" where
  "touches A m \<longleftrightarrow> (\<forall>s r s'. m s = (r, s') \<longrightarrow>
     (\<forall>p. p \<notin> A \<longrightarrow> files s' p = files s p) \<and> (\<forall>p. dir_in s p \<longrightarrow> dir_in s' p)
     \<and> faults_left s' \<le> faults_left s)"

named_theorems touches_intros "frame rules"

lemma touchesD:
  assumes "touches A m" "m s = (r, s')"
  shows "p \<notin> A \<Longrightarrow> files s' p = files s p" "dir_in s q \<Longrightarrow> dir_in s' q"
    "faults_left s' \<le> faults_left s"
  using assms by (auto simp: touches_def)

lemma touches_mono: "touches A m \<Longrightarrow> A \<subseteq> B \<Longrightarrow> touches B m"
  unfolding touches_def by blast

lemma touches_return [touches_intros]: "touches A (io_return x)"
  by (simp add: touches_def io_simps)

lemma touches_fail [touches_intros]: "touches A (io_fail e)"
  by (simp add: touches_def io_simps)

lemma touches_lift [touches_intros]: "touches A (io_lift r)"
  by (simp add: touches_def io_simps)

lemma touches_bind [touches_intros]:
  assumes "touches A m" "\<And>x. touches A (f x)"
  shows "touches A (io_bind m f)"
  unfolding touches_def
proof (intro allI impI)
  fix s r s'
  assume *: "io_bind m f s = (r, s')"
  obtain q s1 where m: "m s = (q, s1)" by fastforce
  show "(\<forall>p. p \<notin> A \<longrightarrow> files s' p = files s p) \<and> (\<forall>p. dir_in s p \<longrightarrow> dir_in s' p)
      \<and> faults_left s' \<le> faults_left s"
  proof (cases q)
    case (Ok x)
    with * m have f: "f x s1 = (r, s')" by (simp add: io_bind_def)
    from touchesD [OF assms(1) m] touchesD [OF assms(2) f] show ?thesis by (metis le_trans)
  next
    case (Err e)
    with * m touchesD [OF assms(1) m] show ?thesis by (auto simp: io_bind_def)
  qed
qed

lemma touches_match [touches_intros]:
  assumes "touches A m" "\<And>r. touches A (f r)"
  shows "touches A (io_match m f)"
  unfolding touches_def
proof (intro allI impI)
  fix s r s'
  assume *: "io_match m f s = (r, s')"
  obtain q s1 where m: "m s = (q, s1)" by fastforce
  with * have f: "f q s1 = (r, s')" by (simp add: io_match_def)
  from touchesD [OF assms(1) m] touchesD [OF assms(2) f]
  show "(\<forall>p. p \<notin> A \<longrightarrow> files s' p = files s p) \<and> (\<forall>p. dir_in s p \<longrightarrow> dir_in s' p)
      \<and> faults_left s' \<le> faults_left s"
    by (metis le_trans)
qed

lemma touches_ignore [touches_intros]:
  "touches A m \<Longrightarrow> touches A n \<Longrightarrow> touches A (io_ignore m n)"
  unfolding io_ignore_def by (rule touches_match)

lemma touches_map_err [touches_intros]: "touches A m \<Longrightarrow> touches A (io_map_err f m)"
  by (auto simp: touches_def io_map_err_def split: prod.splits)

lemma touches_for [touches_intros]:
  "(\<And>x. x \<in> set xs \<Longrightarrow> touches A (f x)) \<Longrightarrow> touches A (io_for f xs)"
  by (induction xs) (auto intro: touches_intros)

lemma touches_faulty:
  assumes "\<And>n r n'. call n = (r, n') \<Longrightarrow>
      (\<forall>p. p \<notin> A \<longrightarrow> file_at n' p = file_at n p) \<and> (\<forall>p. is_dir n p \<longrightarrow> is_dir n' p)"
    and "\<And>k n. (\<forall>p. p \<notin> A \<longrightarrow> file_at (part k n) p = file_at n p)
      \<and> (\<forall>p. is_dir n p \<longrightarrow> is_dir (part k n) p)"
  shows "touches A (faulty part call)"
  unfolding touches_def
proof (intro allI impI)
  fix s r s'
  assume "faulty part call s = (r, s')"
  then show "(\<forall>p. p \<notin> A \<longrightarrow> files s' p = files s p) \<and> (\<forall>p. dir_in s p \<longrightarrow> dir_in s' p)
      \<and> faults_left s' \<le> faults_left s"
  proof (cases rule: faulty_cases)
    case ok
    with assms(1) show ?thesis by auto
  next
    case (fault msg k)
    with assms(2) [of k "fs_nodes s"] show ?thesis by auto
  qed
qed

lemma touches_calls [touches_intros]:
  "touches A (fs_create_dir_all p)"
  "touches {p} (fs_write p b)"
  "touches {p} (fs_create p)"
  "touches {a, b'} (fs_rename a b')"
  "touches {b'} (fs_hard_link a b')"
  "touches {p} (fs_remove_file p)"
  "touches A (fs_read p)"
  "touches A (fs_metadata p)"
  "touches A (fs_read_dir p)"
proof -
  show "touches A (fs_create_dir_all p)"
    unfolding fs_create_dir_all_def create_dir_all_i_def
    by (rule touches_faulty) (auto dest: mkdirs_files)
  have w: "(\<forall>q. q \<notin> {p} \<longrightarrow> file_at n' q = file_at n q) \<and> (\<forall>q. is_dir n q \<longrightarrow> is_dir n' q)"
    if "write_i p b n = (r, n')" for b n r n'
    using write_i_cases [OF that] by auto
  show "touches {p} (fs_write p b)"
    unfolding fs_write_def by (rule touches_faulty) (use w in \<open>metis prod.collapse\<close>)+
  show "touches {p} (fs_create p)"
    unfolding fs_create_def by (rule touches_faulty) (use w in \<open>auto\<close>)
  show "touches {a, b'} (fs_rename a b')"
    unfolding fs_rename_def by (rule touches_faulty) (auto dest!: rename_i_cases)
  show "touches {b'} (fs_hard_link a b')"
    unfolding fs_hard_link_def by (rule touches_faulty) (auto dest!: hard_link_i_cases)
  show "touches {p} (fs_remove_file p)"
    unfolding fs_remove_file_def by (rule touches_faulty) (auto dest!: remove_file_i_cases)
  show "touches A (fs_read p)"
    unfolding fs_read_def
    by (rule touches_faulty) (auto simp: read_i_def split: option.splits node.splits)
  show "touches A (fs_metadata p)"
    unfolding fs_metadata_def
    by (rule touches_faulty) (auto simp: metadata_i_def split: option.splits node.splits if_splits)
  show "touches A (fs_read_dir p)"
    unfolding fs_read_dir_def
    by (rule touches_faulty) (auto simp: read_dir_i_def split: if_splits)
qed

lemma touches_helpers [touches_intros]:
  "touches A (create_parent_dir p)"
  "touches {p} (remove_file_if_exists p)"
  "touches {b} (backup_existing_file a b)"
  "touches {p} (remove_backup_file p e)"
  "touches {p, b} (rollback_published_file p b h)"
proof -
  show "touches A (create_parent_dir p)"
    unfolding create_parent_dir_def by (auto intro: touches_intros)
  show r: "touches {p} (remove_file_if_exists p)" for p
    unfolding remove_file_if_exists_def
    by (intro touches_intros) (auto split: result.split io_error.split intro: touches_intros)
  show "touches {b} (backup_existing_file a b)"
    unfolding backup_existing_file_def
    by (intro touches_intros) (auto split: result.split io_error.split intro: touches_intros)
  show "touches {p} (remove_backup_file p e)"
    unfolding remove_backup_file_def by (auto intro: r touches_intros)
  have "touches {p, b} (remove_file_if_exists p)"
    by (rule touches_mono [OF r]) simp
  moreover have "touches {p, b} (fs_rename b p)"
    by (rule touches_mono [OF touches_calls(4)]) simp
  ultimately show "touches {p, b} (rollback_published_file p b h)"
    unfolding rollback_published_file_def by (auto intro: touches_intros)
qed

section \<open>Outcomes of the file helpers\<close>

text \<open>
  Each helper either has its effect and no fault was used, or fails without an effect; a
  failure without a fault has a reason in the tree.
\<close>

lemma create_parent_dir_Ok:
  assumes "create_parent_dir p s = (Ok u, s')"
  shows "files s' = files s \<and> dir_in s' (butlast p) \<and> faults_left s' = faults_left s \<and> p \<noteq> []
    \<and> (\<forall>q. dir_in s q \<longrightarrow> dir_in s' q)"
proof -
  have p: "p \<noteq> []" and "fs_create_dir_all (butlast p) s = (Ok (), s')"
    using assms by (auto simp: create_parent_dir_def io_simps res_simps split: if_splits prod.splits)
  then have "create_dir_all_i (butlast p) (fs_nodes s) = (Ok (), fs_nodes s')"
    "faults_left s' = faults_left s"
    by (auto simp: fs_create_dir_all_def elim: faulty_cases)
  with mkdirs_files [of "[]" "butlast p" "fs_nodes s" "Ok ()" "fs_nodes s'"] p show ?thesis
    by (simp add: create_dir_all_i_def is_dir_def [of _ "[]"])
qed

lemma remove_file_if_exists_cases:
  assumes "remove_file_if_exists p s = (r, s')"
  obtains (ok) "r = Ok ()" "files s' = (files s)(p := None)" "dir_in s' = dir_in s"
      "faults_left s' = faults_left s"
  | (fault) e where "r = Err e" "fs_nodes s' = fs_nodes s" "faults_left s = Suc (faults_left s')"
  | (dir) e where "r = Err e" "fs_nodes s' = fs_nodes s" "faults_left s' = faults_left s"
      "file_at (fs_nodes s) p = None" "bt_get (fs_nodes s) p \<noteq> None"
proof -
  obtain q where q: "fs_remove_file p s = (q, s')"
    and r: "r = (case q of Ok _ \<Rightarrow> Ok () | Err NotFound \<Rightarrow> Ok () | Err e \<Rightarrow> Err (SE_Io e))"
    using assms
    by (auto simp: remove_file_if_exists_def io_simps split: prod.splits result.splits io_error.splits)
  from q have "faulty (\<lambda>_ n. n) (remove_file_i p) s = (q, s')" by (simp add: fs_remove_file_def)
  then show thesis
  proof (cases rule: faulty_cases)
    case ok
    from remove_file_i_cases [OF ok(1)] show thesis
    proof
      assume "q = Ok () \<and> file_at (fs_nodes s) p \<noteq> None
        \<and> files s' = (files s)(p := None) \<and> dir_in s' = dir_in s"
      with r ok(2) show thesis by (intro that(1)) auto
    next
      assume *: "(\<exists>e. q = Err e \<and> (e = NotFound \<longrightarrow> bt_get (fs_nodes s) p = None))
        \<and> fs_nodes s' = fs_nodes s \<and> file_at (fs_nodes s) p = None"
      show thesis
      proof (cases "bt_get (fs_nodes s) p = None")
        case True
        with ok(1) have "q = Err NotFound" by (simp add: remove_file_i_def)
        with r * ok(2) show thesis by (intro that(1)) (auto simp: fun_upd_idem)
      next
        case False
        with * obtain msg where "q = Err (OtherIo msg)" by (metis io_error.exhaust)
        with r * ok(2) False show thesis by (intro that(3)) auto
      qed
    qed
  next
    case (fault msg k)
    with r show thesis by (intro that(2)) auto
  qed
qed

lemma fs_rename_cases:
  assumes "fs_rename a b s = (r, s')"
  obtains (ok) c where "r = Ok ()" "files s a = Some c" "files s' = (files s)(a := None, b \<mapsto> c)"
      "dir_in s' = dir_in s" "faults_left s' = faults_left s"
  | (fault) e where "r = Err e" "fs_nodes s' = fs_nodes s" "faults_left s = Suc (faults_left s')"
  | (refused) e where "r = Err e" "fs_nodes s' = fs_nodes s" "faults_left s' = faults_left s"
      "files s a = None \<or> b = [] \<or> \<not> dir_in s (butlast b) \<or> dir_in s b"
proof -
  from assms have "faulty (\<lambda>_ n. n) (rename_i a b) s = (r, s')" by (simp add: fs_rename_def)
  then show thesis
  proof (cases rule: faulty_cases)
    case ok
    from rename_i_cases [OF ok(1)] show thesis
    proof
      assume "(\<exists>e. r = Err e) \<and> fs_nodes s' = fs_nodes s"
      moreover from this have "files s a = None \<or> b = [] \<or> \<not> dir_in s (butlast b) \<or> dir_in s b"
        using rename_i_Ok [of "fs_nodes s" a _ b] ok(1) by fastforce
      ultimately show thesis using ok(2) by (auto intro: that(3))
    qed (use ok(2) in \<open>auto intro: that(1)\<close>)
  qed (auto intro: that(2))
qed

lemma file_not_dir: "files s p = Some c \<Longrightarrow> p \<noteq> [] \<Longrightarrow> \<not> dir_in s p"
  by (auto simp: file_at_Some is_dir_def)

lemma absent_not_file_or_dir:
  "bt_get (fs_nodes s) p = None \<Longrightarrow> p \<noteq> [] \<Longrightarrow> files s p = None \<and> \<not> dir_in s p"
  by (auto simp: file_at_def is_dir_def)

lemma backup_existing_file_cases:
  assumes "backup_existing_file a b s = (r, s')" "dir_in s (butlast b)"
  obtains (saved) c where "r = Ok True" "files s a = Some c" "files s' = (files s)(b \<mapsto> c)"
      "dir_in s' = dir_in s" "faults_left s' = faults_left s" "files s b = None"
  | (absent) "r = Ok False" "bt_get (fs_nodes s) a = None" "fs_nodes s' = fs_nodes s"
      "faults_left s' = faults_left s"
  | (failed) e where "r = Err e" "fs_nodes s' = fs_nodes s"
proof -
  obtain q where q: "faulty (\<lambda>_ n. n) (hard_link_i a b) s = (q, s')"
    and r: "r = (case q of Ok _ \<Rightarrow> Ok True | Err NotFound \<Rightarrow> Ok False | Err e \<Rightarrow> Err (SE_Io e))"
    using assms(1)
    by (auto simp: backup_existing_file_def fs_hard_link_def io_simps
        split: prod.splits result.splits io_error.splits)
  from q show thesis
  proof (cases rule: faulty_cases)
    case ok
    from hard_link_i_cases [OF ok(1)] show thesis
    proof
      assume *: "(\<exists>e. q = Err e \<and> (e = NotFound \<longrightarrow> bt_get (fs_nodes s) a = None
        \<or> \<not> dir_in s (butlast b))) \<and> fs_nodes s' = fs_nodes s"
      then obtain e where e: "q = Err e" by blast
      show thesis
      proof (cases e)
        case NotFound
        with * e assms(2) have "bt_get (fs_nodes s) a = None" by simp
        with NotFound e r * ok(2) show thesis by (intro that(2)) auto
      next
        case (OtherIo msg)
        with e r * show thesis by (intro that(3)) auto
      qed
    next
      assume "q = Ok () \<and> (\<exists>c. file_at (fs_nodes s) a = Some c \<and> files s' = (files s)(b \<mapsto> c)
        \<and> \<not> bt_contains (fs_nodes s) b) \<and> dir_in s' = dir_in s"
      with r ok(2) show thesis
        by (auto simp: bt_contains_def file_at_def intro: that(1))
    qed
  next
    case (fault msg k)
    with r show thesis by (intro that(3)) auto
  qed
qed

text \<open>Without further faults the rollback restores the backup.\<close>

lemma remove_file_if_exists_det:
  assumes "remove_file_if_exists p s = (r, s')" "faults_left s = 0" "\<not> dir_in s p"
  shows "files s' = (files s)(p := None) \<and> dir_in s' = dir_in s \<and> faults_left s' = 0"
  using assms(1)
proof (cases rule: remove_file_if_exists_cases)
  case (dir e)
  then have "bt_get (fs_nodes s) p = Some DirNode"
    by (auto simp: file_at_def split: node.splits)
  with assms(3) show ?thesis by (simp add: is_dir_def)
qed (use assms in auto)

lemma rollback_published_file_det:
  assumes "rollback_published_file p b had s = (r, s')" "faults_left s = 0" "p \<noteq> []" "p \<noteq> b"
    and "dir_in s (butlast p)" "\<not> dir_in s p" "had \<Longrightarrow> files s b = Some c"
  shows "files s' = (if had then (files s)(p \<mapsto> c, b := None) else (files s)(p := None))
    \<and> dir_in s' = dir_in s \<and> faults_left s' = 0"
proof -
  obtain q s1 where m: "remove_file_if_exists p s = (q, s1)" by fastforce
  note R = remove_file_if_exists_det [OF m assms(2,6)]
  show ?thesis
  proof (cases had)
    case True
    from assms(1) m True obtain q2 where rn: "fs_rename b p s1 = (q2, s')"
      by (auto simp: rollback_published_file_def io_simps split: prod.splits)
    from rn show ?thesis
      by (cases rule: fs_rename_cases) (use R True assms in \<open>auto simp: fun_upd_twist\<close>)
  next
    case False
    with assms(1) m have "s' = s1"
      by (auto simp: rollback_published_file_def io_simps)
    with R False show ?thesis by simp
  qed
qed

end
