(* ===== verification/Object_Store.thy ===== *)
theory Object_Store
  imports Store_Model
begin

text \<open>
  The filesystem object store (\<open>src/storage/object.rs\<close>, \<open>src/storage/temp.rs\<close>): temporary
  objects, atomic publication of an object with its metadata, lookup, deletion and the
  cleanup at startup. The UUIDs that name temporary files are arguments.
\<close>

section \<open>Paths\<close>

definition object_digest :: "ext \<Rightarrow> bucket_name \<Rightarrow> object_key \<Rightarrow> string" where
  "object_digest E bucket key = x_hex_encode E (x_sha256 E (bucket @ [CHR 0x00] @ key))"

definition object_path :: "ext \<Rightarrow> bucket_name \<Rightarrow> object_key \<Rightarrow> path" where
  "object_path E bucket key =
     (let digest = object_digest E bucket key
      in [''objects'', take 2 digest, digest @ ''.data''])"

definition metadata_path :: "ext \<Rightarrow> bucket_name \<Rightarrow> object_key \<Rightarrow> path" where
  "metadata_path E bucket key =
     (let digest = object_digest E bucket key
      in [''metadata'', take 2 digest, digest @ ''.json''])"

section \<open>Temporary and staged objects\<close>

text \<open>
  A \<open>TempObjectWriter\<close>: the id and path of its file and the bytes its buffered writer has
  accepted; they are in the file once the writer is flushed. Dropping a writer or a staged
  object without committing it removes the file (\<open>discard\<close>).
\<close>

record temp_object =
  tw_temp_id :: string
  tw_path :: path
  tw_bytes :: bytes

record staged_object =
  st_temp_id :: string
  st_path :: path

definition create_temp_object :: "string \<Rightarrow> (fs, temp_object, store_error) io" where
  "create_temp_object temp_id =
     (let p = [''tmp'', temp_id @ ''.part'']
      in io_bind (se_io (fs_create p)) (\<lambda>_.
         io_return \<lparr>tw_temp_id = temp_id, tw_path = p, tw_bytes = []\<rparr>))"

definition temp_discard :: "temp_object \<Rightarrow> (fs, unit, store_error) io" where
  "temp_discard tw = remove_file_if_exists (tw_path tw)"

definition temp_flush :: "temp_object \<Rightarrow> (fs, unit, store_error) io" where
  "temp_flush tw = se_io (fs_write (tw_path tw) (tw_bytes tw))"

text \<open>When the flush fails, the writer is dropped and its armed cleanup removes the file.\<close>

definition temp_finish :: "temp_object \<Rightarrow> (fs, staged_object, store_error) io" where
  "temp_finish tw =
     io_match (temp_flush tw) (\<lambda>r. case r of
        Err e \<Rightarrow> io_ignore (remove_file_if_exists (tw_path tw)) (io_fail e)
      | Ok _ \<Rightarrow> io_return \<lparr>st_temp_id = tw_temp_id tw, st_path = tw_path tw\<rparr>)"

definition staged_discard :: "staged_object \<Rightarrow> (fs, unit, store_error) io" where
  "staged_discard st = remove_file_if_exists (st_path st)"

definition replacement_path :: "staged_object \<Rightarrow> string \<Rightarrow> path" where
  "replacement_path st replacement_id = butlast (st_path st) @ [replacement_id @ ''.replace'']"

definition replace_with :: "staged_object \<Rightarrow> path \<Rightarrow> (fs, unit, store_error) io" where
  "replace_with st replacement =
     io_match (fs_metadata replacement) (\<lambda>r. case r of
        Ok is_file \<Rightarrow>
          if \<not> is_file then io_fail (SE_InvalidPath replacement)
          else io_bind (remove_file_if_exists (st_path st)) (\<lambda>_.
               se_io (fs_rename replacement (st_path st)))
      | Err e \<Rightarrow> io_fail (SE_Io e))"

section \<open>Publication\<close>

definition metadata_tmp :: "string \<Rightarrow> path" where
  "metadata_tmp temp_id = [''tmp'', temp_id @ ''.metadata.json'']"

definition object_backup :: "string \<Rightarrow> path" where
  "object_backup temp_id = [''tmp'', temp_id @ ''.object.rollback.tmp'']"

definition metadata_backup :: "string \<Rightarrow> path" where
  "metadata_backup temp_id = [''tmp'', temp_id @ ''.metadata.rollback.tmp'']"

text \<open>The inner block of \<open>commit_staged_object\<close>, in three parts.\<close>

definition prepare_publish ::
  "ext \<Rightarrow> codec \<Rightarrow> string \<Rightarrow> object_metadata \<Rightarrow> (fs, bool \<times> bool, store_error) io" where
  "prepare_publish E J temp_id md =
     (let op = object_path E (om_bucket md) (om_key md);
          mp = metadata_path E (om_bucket md) (om_key md)
      in io_bind (create_parent_dir op) (\<lambda>_.
         io_bind (create_parent_dir mp) (\<lambda>_.
         io_bind (io_lift (ok_or SE_Json (j_object_encode J md))) (\<lambda>json.
         io_bind (se_io (fs_write (metadata_tmp temp_id) json)) (\<lambda>_.
         io_bind (backup_existing_file op (object_backup temp_id)) (\<lambda>had_object.
         io_bind (backup_existing_file mp (metadata_backup temp_id)) (\<lambda>had_metadata.
         io_return (had_object, had_metadata))))))))"

definition publish_renames ::
  "ext \<Rightarrow> string \<Rightarrow> path \<Rightarrow> object_metadata \<Rightarrow> bool \<Rightarrow> bool \<Rightarrow> (fs, unit, store_error) io" where
  "publish_renames E temp_id temp_path md had_object had_metadata =
     (let op = object_path E (om_bucket md) (om_key md);
          mp = metadata_path E (om_bucket md) (om_key md)
      in io_bind (se_io (fs_rename temp_path op)) (\<lambda>_.
         io_match (fs_rename (metadata_tmp temp_id) mp) (\<lambda>r. case r of
            Err e \<Rightarrow>
              io_ignore (rollback_published_file op (object_backup temp_id) had_object)
             (io_ignore (rollback_published_file mp (metadata_backup temp_id) had_metadata)
             (io_fail (SE_Io e)))
          | Ok _ \<Rightarrow> io_return ())))"

definition remove_backups :: "string \<Rightarrow> bool \<Rightarrow> bool \<Rightarrow> (fs, unit, store_error) io" where
  "remove_backups temp_id had_object had_metadata =
     io_bind (remove_backup_file (object_backup temp_id) had_object) (\<lambda>_.
     remove_backup_file (metadata_backup temp_id) had_metadata)"

definition publish ::
  "ext \<Rightarrow> codec \<Rightarrow> string \<Rightarrow> path \<Rightarrow> object_metadata \<Rightarrow> (fs, unit, store_error) io" where
  "publish E J temp_id temp_path md =
     io_bind (prepare_publish E J temp_id md) (\<lambda>(had_object, had_metadata).
     io_bind (publish_renames E temp_id temp_path md had_object had_metadata) (\<lambda>_.
     remove_backups temp_id had_object had_metadata))"

definition commit_cleanup :: "staged_object \<Rightarrow> store_error \<Rightarrow> (fs, unit, store_error) io" where
  "commit_cleanup st e =
     io_ignore (remove_file_if_exists (st_path st))
    (io_ignore (remove_file_if_exists (metadata_tmp (st_temp_id st)))
    (io_ignore (remove_file_if_exists (object_backup (st_temp_id st)))
    (io_ignore (remove_file_if_exists (metadata_backup (st_temp_id st)))
    (io_fail e))))"

definition commit_staged_object ::
  "ext \<Rightarrow> codec \<Rightarrow> staged_object \<Rightarrow> object_metadata \<Rightarrow> (fs, unit, store_error) io" where
  "commit_staged_object E J st md =
     io_match (publish E J (st_temp_id st) (st_path st) md) (\<lambda>r. case r of
        Ok _ \<Rightarrow> io_return ()
      | Err e \<Rightarrow> commit_cleanup st e)"

definition commit_object ::
  "ext \<Rightarrow> codec \<Rightarrow> temp_object \<Rightarrow> object_metadata \<Rightarrow> (fs, unit, store_error) io" where
  "commit_object E J tw md = io_bind (temp_finish tw) (\<lambda>st. commit_staged_object E J st md)"

section \<open>Lookup and deletion\<close>

definition head_object ::
  "ext \<Rightarrow> codec \<Rightarrow> bucket_name \<Rightarrow> object_key \<Rightarrow> (fs, object_metadata option, store_error) io" where
  "head_object E J bucket key =
     io_match (fs_read (metadata_path E bucket key)) (\<lambda>r. case r of
        Err NotFound \<Rightarrow> io_return None
      | Err e \<Rightarrow> io_fail (SE_Io e)
      | Ok json \<Rightarrow>
          io_bind (io_lift (ok_or SE_Json (j_object_decode J json))) (\<lambda>md.
          io_match (fs_metadata (object_path E bucket key)) (\<lambda>r. case r of
             Ok is_file \<Rightarrow> io_return (if is_file then Some md else None)
           | Err NotFound \<Rightarrow> io_return None
           | Err e \<Rightarrow> io_fail (SE_Io e))))"

text \<open>The opened \<open>File\<close> is its content.\<close>

definition open_object ::
  "ext \<Rightarrow> codec \<Rightarrow> bucket_name \<Rightarrow> object_key \<Rightarrow>
     (fs, (object_metadata \<times> bytes) option, store_error) io" where
  "open_object E J bucket key =
     io_bind (head_object E J bucket key) (\<lambda>m. case m of
        None \<Rightarrow> io_return None
      | Some md \<Rightarrow>
          io_match (fs_read (object_path E bucket key)) (\<lambda>r. case r of
             Ok content \<Rightarrow> io_return (Some (md, content))
           | Err NotFound \<Rightarrow> io_return None
           | Err e \<Rightarrow> io_fail (SE_Io e)))"

definition delete_object ::
  "ext \<Rightarrow> bucket_name \<Rightarrow> object_key \<Rightarrow> (fs, unit, store_error) io" where
  "delete_object E bucket key =
     io_match (fs_remove_file (metadata_path E bucket key)) (\<lambda>r. case r of
        Ok _ \<Rightarrow> remove_file_if_exists (object_path E bucket key)
      | Err NotFound \<Rightarrow> io_return ()
      | Err e \<Rightarrow> io_fail (SE_Io e))"

section \<open>Startup\<close>

text \<open>\<open>read_dir\<close> and the loop over its entries.\<close>

definition cleanup_stale_temp_files :: "(fs, unit, store_error) io" where
  "cleanup_stale_temp_files =
     io_bind (se_io (fs_read_dir [''tmp''])) (\<lambda>entries.
     io_for (\<lambda>(name, dir). if dir then io_return () else remove_file_if_exists [''tmp'', name])
       entries)"

text \<open>
  The body of both orphan loops: \<open>[here, prefix, name]\<close> with the given suffix is removed when
  its counterpart in the other tree is not a file.
\<close>

definition counterpart :: "string \<Rightarrow> string \<Rightarrow> string \<Rightarrow> path" where
  "counterpart there digest suffix =
     (if length digest \<ge> 2 then [there, take 2 digest, digest @ suffix]
      else [there, digest @ suffix])"

definition remove_unless_file :: "path \<Rightarrow> path \<Rightarrow> (fs, unit, store_error) io" where
  "remove_unless_file p other =
     io_match (fs_metadata other) (\<lambda>r. case r of
        Ok is_file \<Rightarrow> if is_file then io_return () else remove_file_if_exists p
      | Err NotFound \<Rightarrow> remove_file_if_exists p
      | Err e \<Rightarrow> io_fail (SE_Io e))"

definition cleanup_orphan ::
  "string \<Rightarrow> string \<Rightarrow> string \<Rightarrow> string \<Rightarrow> string \<Rightarrow> string \<times> bool \<Rightarrow> (fs, unit, store_error) io" where
  "cleanup_orphan here suffix there other_suffix prefix entry =
     (case entry of (name, dir) \<Rightarrow>
      if dir then io_return ()
      else case strip_suffix suffix name of
             None \<Rightarrow> io_return ()
           | Some digest \<Rightarrow>
               remove_unless_file [here, prefix, name] (counterpart there digest other_suffix))"

definition cleanup_orphans ::
  "string \<Rightarrow> string \<Rightarrow> string \<Rightarrow> string \<Rightarrow> (fs, unit, store_error) io" where
  "cleanup_orphans here suffix there other_suffix =
     io_bind (se_io (fs_read_dir [here])) (\<lambda>prefixes.
     io_for (\<lambda>(prefix, dir).
         if \<not> dir then io_return ()
         else io_bind (se_io (fs_read_dir [here, prefix])) (\<lambda>entries.
              io_for (cleanup_orphan here suffix there other_suffix prefix) entries))
       prefixes)"

definition cleanup_orphaned_object_files :: "(fs, unit, store_error) io" where
  "cleanup_orphaned_object_files = cleanup_orphans ''objects'' ''.data'' ''metadata'' ''.json''"

definition cleanup_orphaned_metadata_files :: "(fs, unit, store_error) io" where
  "cleanup_orphaned_metadata_files = cleanup_orphans ''metadata'' ''.json'' ''objects'' ''.data''"

definition FileObjectStore_new :: "(fs, unit, store_error) io" where
  "FileObjectStore_new =
     io_bind (se_io (fs_create_dir_all [''objects''])) (\<lambda>_.
     io_bind (se_io (fs_create_dir_all [''metadata''])) (\<lambda>_.
     io_bind (se_io (fs_create_dir_all [''tmp''])) (\<lambda>_.
     io_bind cleanup_stale_temp_files (\<lambda>_.
     io_bind cleanup_orphaned_object_files (\<lambda>_.
     cleanup_orphaned_metadata_files)))))"

section \<open>Publication changes one pair of files\<close>

abbreviation op_of :: "ext \<Rightarrow> object_metadata \<Rightarrow> path" where
  "op_of E md \<equiv> object_path E (om_bucket md) (om_key md)"

abbreviation mp_of :: "ext \<Rightarrow> object_metadata \<Rightarrow> path" where
  "mp_of E md \<equiv> metadata_path E (om_bucket md) (om_key md)"

definition temp_files :: "staged_object \<Rightarrow> path set" where
  "temp_files st = {st_path st, metadata_tmp (st_temp_id st), object_backup (st_temp_id st),
     metadata_backup (st_temp_id st)}"

text \<open>A staged object as \<open>create_temp_object\<close> names it.\<close>

definition staged_wf :: "staged_object \<Rightarrow> bool" where
  "staged_wf st \<longleftrightarrow> st_path st = [''tmp'', st_temp_id st @ ''.part'']"

lemma tmp_paths_distinct:
  "distinct [[''tmp'', i @ ''.part''], metadata_tmp i, object_backup i, metadata_backup i,
     object_path E b k, metadata_path E b k]"
  by (simp add: metadata_tmp_def object_backup_def metadata_backup_def object_path_def
      metadata_path_def Let_def)

lemma tmp_paths_neq [simp]:
  "[''tmp'', i @ ''.part''] \<noteq> metadata_tmp i" "[''tmp'', i @ ''.part''] \<noteq> object_backup i"
  "[''tmp'', i @ ''.part''] \<noteq> metadata_backup i" "[''tmp'', i @ ''.part''] \<noteq> object_path E b k"
  "[''tmp'', i @ ''.part''] \<noteq> metadata_path E b k" "metadata_tmp i \<noteq> [''tmp'', i @ ''.part'']"
  "metadata_tmp i \<noteq> object_backup i" "metadata_tmp i \<noteq> metadata_backup i"
  "metadata_tmp i \<noteq> object_path E b k" "metadata_tmp i \<noteq> metadata_path E b k"
  "object_backup i \<noteq> [''tmp'', i @ ''.part'']" "object_backup i \<noteq> metadata_tmp i"
  "object_backup i \<noteq> metadata_backup i" "object_backup i \<noteq> object_path E b k"
  "object_backup i \<noteq> metadata_path E b k" "metadata_backup i \<noteq> [''tmp'', i @ ''.part'']"
  "metadata_backup i \<noteq> metadata_tmp i" "metadata_backup i \<noteq> object_backup i"
  "metadata_backup i \<noteq> object_path E b k" "metadata_backup i \<noteq> metadata_path E b k"
  "object_path E b k \<noteq> [''tmp'', i @ ''.part'']" "object_path E b k \<noteq> metadata_tmp i"
  "object_path E b k \<noteq> object_backup i" "object_path E b k \<noteq> metadata_backup i"
  "object_path E b k \<noteq> metadata_path E b k" "metadata_path E b k \<noteq> [''tmp'', i @ ''.part'']"
  "metadata_path E b k \<noteq> metadata_tmp i" "metadata_path E b k \<noteq> object_backup i"
  "metadata_path E b k \<noteq> metadata_backup i" "metadata_path E b k \<noteq> object_path E b k"
  using tmp_paths_distinct [of i E b k] by auto

lemma butlast_paths [simp]:
  "butlast (metadata_tmp i) = [''tmp'']" "butlast (object_backup i) = [''tmp'']"
  "butlast (metadata_backup i) = [''tmp'']" "object_path E b k \<noteq> []" "metadata_path E b k \<noteq> []"
  by (simp_all add: metadata_tmp_def object_backup_def metadata_backup_def object_path_def
      metadata_path_def Let_def)

lemma touches_prepare:
  "touches {metadata_tmp i, object_backup i, metadata_backup i} (prepare_publish E J i md)"
proof -
  let ?A = "{metadata_tmp i, object_backup i, metadata_backup i}"
  have "touches ?A (fs_write (metadata_tmp i) json)" for json
    by (rule touches_mono [OF touches_calls(2)]) simp
  moreover have "touches ?A (backup_existing_file a (object_backup i))"
    "touches ?A (backup_existing_file a (metadata_backup i))" for a
    by (rule touches_mono [OF touches_helpers(3)]; simp)+
  ultimately show ?thesis
    unfolding prepare_publish_def Let_def by (intro touches_intros)
qed

lemma io_bind_Ok:
  "io_bind m f s = (Ok y, s') \<longleftrightarrow> (\<exists>x s1. m s = (Ok x, s1) \<and> f x s1 = (Ok y, s'))"
  by (auto simp: io_bind_def split: prod.splits result.splits)

lemma fs_write_Ok:
  assumes "io_map_err f (fs_write p b) s = (Ok u, s')"
  shows "files s' = (files s)(p \<mapsto> b) \<and> dir_in s' = dir_in s \<and> faults_left s' = faults_left s"
proof -
  have "faulty (\<lambda>k n. snd (write_i p (take k b) n)) (write_i p b) s = (Ok u, s')"
    using assms by (auto simp: io_simps fs_write_def res_simps split: prod.splits)
  then show ?thesis
    by (cases rule: faulty_cases) (auto dest: write_i_cases)
qed

lemma prepare_publish_Ok:
  assumes "prepare_publish E J i md s = (Ok (ho, hm), s')" "dir_in s [''tmp'']"
  obtains json where "j_object_encode J md = Some json" "files s' (metadata_tmp i) = Some json"
    "dir_in s' (butlast (op_of E md))" "dir_in s' (butlast (mp_of E md))"
    "faults_left s' = faults_left s" "\<not> dir_in s' (op_of E md)" "\<not> dir_in s' (mp_of E md)"
    "if ho then files s' (object_backup i) = files s (op_of E md) \<and> files s (op_of E md) \<noteq> None
       else files s (op_of E md) = None"
    "if hm then files s' (metadata_backup i) = files s (mp_of E md) \<and> files s (mp_of E md) \<noteq> None
       else files s (mp_of E md) = None"
proof -
  note d = tmp_paths_neq
  from assms(1) obtain s1 s2 s4 s5 json where
    c1: "create_parent_dir (op_of E md) s = (Ok (), s1)"
    and c2: "create_parent_dir (mp_of E md) s1 = (Ok (), s2)"
    and json: "j_object_encode J md = Some json"
    and w: "se_io (fs_write (metadata_tmp i) json) s2 = (Ok (), s4)"
    and b1: "backup_existing_file (op_of E md) (object_backup i) s4 = (Ok ho, s5)"
    and b2: "backup_existing_file (mp_of E md) (metadata_backup i) s5 = (Ok hm, s')"
    by (auto simp: prepare_publish_def Let_def io_bind_Ok io_lift_def res_simps io_return_def)
  note P1 = create_parent_dir_Ok [OF c1] and P2 = create_parent_dir_Ok [OF c2]
    and W = fs_write_Ok [OF w]
  have t4: "dir_in s4 [''tmp'']" using P1 P2 W assms(2) by simp
  have f4: "files s4 = (files s)(metadata_tmp i \<mapsto> json)" using P1 P2 W by simp
  have B1: "faults_left s5 = faults_left s4 \<and> dir_in s5 = dir_in s4 \<and> \<not> dir_in s4 (op_of E md) \<and>
      (if ho then files s5 = (files s4)(object_backup i := files s4 (op_of E md)) \<and> files s4 (op_of E md) \<noteq> None
       else files s5 = files s4 \<and> files s4 (op_of E md) = None)"
    using b1 by (rule backup_existing_file_cases)
      (use t4 absent_not_file_or_dir file_not_dir in auto)
  have t5: "dir_in s5 [''tmp'']" using B1 t4 by simp
  have B2: "faults_left s' = faults_left s5 \<and> dir_in s' = dir_in s5 \<and> \<not> dir_in s5 (mp_of E md) \<and>
      (if hm then files s' = (files s5)(metadata_backup i := files s5 (mp_of E md)) \<and> files s5 (mp_of E md) \<noteq> None
       else files s' = files s5 \<and> files s5 (mp_of E md) = None)"
    using b2 by (rule backup_existing_file_cases)
      (use t5 absent_not_file_or_dir file_not_dir in auto)
  show thesis
  proof (rule that [OF json])
    show "files s' (metadata_tmp i) = Some json"
      using B1 B2 f4 d by (auto split: if_splits)
    show "dir_in s' (butlast (op_of E md))" "dir_in s' (butlast (mp_of E md))"
      using P1 P2 W B1 B2 by simp_all
    show "faults_left s' = faults_left s" "\<not> dir_in s' (op_of E md)" "\<not> dir_in s' (mp_of E md)"
      using P1 P2 W B1 B2 by simp_all
    show "if ho then files s' (object_backup i) = files s (op_of E md) \<and> files s (op_of E md) \<noteq> None
       else files s (op_of E md) = None"
      using B1 B2 f4 d by (auto split: if_splits)
    show "if hm then files s' (metadata_backup i) = files s (mp_of E md) \<and> files s (mp_of E md) \<noteq> None
       else files s (mp_of E md) = None"
      using B1 B2 f4 d by (auto split: if_splits)
  qed
qed

text \<open>
  The two renames. With at most one fault left, failure leaves the published pair as it was.
\<close>

lemma publish_renames_cases:
  assumes "publish_renames E i T md ho hm s = (r, s')"
    and "files s T = Some body" "files s (metadata_tmp i) = Some json"
    and "dir_in s (butlast (op_of E md))" "dir_in s (butlast (mp_of E md))"
    and "\<not> dir_in s (op_of E md)" "\<not> dir_in s (mp_of E md)"
    and "if ho then files s (object_backup i) = files s (op_of E md) \<and> files s (op_of E md) \<noteq> None
       else files s (op_of E md) = None"
    and "if hm then files s (metadata_backup i) = files s (mp_of E md) \<and> files s (mp_of E md) \<noteq> None
       else files s (mp_of E md) = None"
    and "T = [''tmp'', i @ ''.part'']"
  obtains (ok) "r = Ok ()" "files s' = (files s)(T := None, metadata_tmp i := None,
      op_of E md \<mapsto> body, mp_of E md \<mapsto> json)"
  | (err) e where "r = Err e" "faults_left s \<le> 1 \<Longrightarrow>
      files s' (op_of E md) = files s (op_of E md) \<and> files s' (mp_of E md) = files s (mp_of E md)"
proof -
  note d = tmp_paths_neq
  obtain q1 s1 where r1: "fs_rename T (op_of E md) s = (q1, s1)" by fastforce
  from r1 show thesis
  proof (cases rule: fs_rename_cases)
    case (ok c)
    with assms(2) have f1: "files s1 = (files s)(T := None, op_of E md \<mapsto> body)" by simp
    obtain q2 s2 where r2: "fs_rename (metadata_tmp i) (mp_of E md) s1 = (q2, s2)" by fastforce
    from r2 show thesis
    proof (cases rule: fs_rename_cases)
      case (ok c2)
      with f1 assms(3,10) d have "files s2 = (files s)(T := None, metadata_tmp i := None,
          op_of E md \<mapsto> body, mp_of E md \<mapsto> json)"
        by (auto simp: fun_eq_iff)
      moreover have "r = Ok ()" "s' = s2"
        using assms(1) r1 r2 \<open>q1 = Ok ()\<close> ok
        by (simp_all add: publish_renames_def Let_def io_simps)
      ultimately show thesis using that(1) by simp
    next
      case (fault e)
      have d2: "dir_in s2 = dir_in s" using fault ok by simp
      obtain q3 s3 where r3: "rollback_published_file (op_of E md) (object_backup i) ho s2 = (q3, s3)"
        by fastforce
      obtain q4 s4 where r4: "rollback_published_file (mp_of E md) (metadata_backup i) hm s3 = (q4, s4)"
        by fastforce
      have f2: "files s2 = (files s)(T := None, op_of E md \<mapsto> body)" using f1 fault(2) by simp
      have "files s4 (op_of E md) = files s (op_of E md) \<and> files s4 (mp_of E md) = files s (mp_of E md)"
        if "faults_left s \<le> 1"
      proof -
        have z: "faults_left s2 = 0" using that fault ok by simp
        have bo: "ho \<Longrightarrow> files s2 (object_backup i) = Some (the (files s (op_of E md)))"
          using f2 assms(8,10) d by auto
        have R3: "files s3 = (if ho then (files s2)(op_of E md \<mapsto> the (files s (op_of E md)), object_backup i := None)
              else (files s2)(op_of E md := None)) \<and> dir_in s3 = dir_in s2 \<and> faults_left s3 = 0"
          by (rule rollback_published_file_det [OF r3 z]) (use bo assms(4,6) d2 in simp_all)
        have bm: "hm \<Longrightarrow> files s3 (metadata_backup i) = Some (the (files s (mp_of E md)))"
          using R3 f2 assms(9,10) by auto
        have R4: "files s4 = (if hm then (files s3)(mp_of E md \<mapsto> the (files s (mp_of E md)), metadata_backup i := None)
              else (files s3)(mp_of E md := None)) \<and> dir_in s4 = dir_in s3 \<and> faults_left s4 = 0"
          by (rule rollback_published_file_det [OF r4]) (use bm R3 assms(5,7) d2 in simp_all)
        show ?thesis using R3 R4 f2 assms(8,9,10) by (auto split: if_splits)
      qed
      moreover have "r = Err (SE_Io e)" "s' = s4"
        using assms(1) r1 r2 r3 r4 \<open>q1 = Ok ()\<close> fault(1)
        by (simp_all add: publish_renames_def Let_def io_simps)
      ultimately show thesis using that(2) by simp
    next
      case (refused e)
      with ok f1 assms(3,5,7,10) d show thesis by auto
    qed
  next
    case (fault e)
    with assms(1) r1 have "r = Err (SE_Io e)" "s' = s1"
      by (simp_all add: publish_renames_def Let_def io_simps)
    with fault show thesis using that(2) by simp
  next
    case (refused e)
    with assms(1) r1 have "r = Err (SE_Io e)" "s' = s1"
      by (simp_all add: publish_renames_def Let_def io_simps)
    with refused show thesis using that(2) by simp
  qed
qed

lemma touches_publish_renames:
  "touches {T, metadata_tmp i, object_backup i, metadata_backup i, op_of E md, mp_of E md}
     (publish_renames E i T md ho hm)"
proof -
  let ?A = "{T, metadata_tmp i, object_backup i, metadata_backup i, op_of E md, mp_of E md}"
  have "touches ?A (fs_rename T (op_of E md))" "touches ?A (fs_rename (metadata_tmp i) (mp_of E md))"
    by (rule touches_mono [OF touches_calls(4)]; simp)+
  moreover have "touches ?A (rollback_published_file (op_of E md) (object_backup i) ho)"
    "touches ?A (rollback_published_file (mp_of E md) (metadata_backup i) hm)"
    by (rule touches_mono [OF touches_helpers(5)]; simp)+
  ultimately show ?thesis
    unfolding publish_renames_def Let_def
    by (intro touches_intros) (auto split: result.split intro!: touches_intros)
qed

lemma touches_remove_backups:
  "touches {object_backup i, metadata_backup i} (remove_backups i ho hm)"
proof -
  have "touches {object_backup i, metadata_backup i} (remove_backup_file (object_backup i) ho)"
    "touches {object_backup i, metadata_backup i} (remove_backup_file (metadata_backup i) hm)"
    by (rule touches_mono [OF touches_helpers(4)]; simp)+
  then show ?thesis
    unfolding remove_backups_def by (intro touches_intros)
qed

lemma touches_commit_cleanup: "touches (temp_files st) (commit_cleanup st e)"
proof -
  have "touches (temp_files st) (remove_file_if_exists p)" if "p \<in> temp_files st" for p
    by (rule touches_mono [OF touches_helpers(2)]) (use that in simp)
  then show ?thesis
    unfolding commit_cleanup_def by (intro touches_intros) (auto simp: temp_files_def)
qed

lemma commit_staged_object_split:
  "commit_staged_object E J st md s =
     (case publish E J (st_temp_id st) (st_path st) md s of
        (Ok u, s1) \<Rightarrow> (Ok (), s1) | (Err e, s1) \<Rightarrow> commit_cleanup st e s1)"
  by (simp add: commit_staged_object_def io_match_def io_return_def split: prod.split result.split)

lemma commit_cleanup_Err: "commit_cleanup st e s = (r, s') \<Longrightarrow> r = Err e"
  by (auto simp: commit_cleanup_def io_simps split: prod.splits)

text \<open>Whatever happens, only the temporary files and the pair of the object are touched.\<close>

lemma touches_commit:
  "touches (temp_files st \<union> {op_of E md, mp_of E md}) (commit_staged_object E J st md)"
proof -
  let ?A = "temp_files st \<union> {op_of E md, mp_of E md}"
  have "touches ?A (prepare_publish E J (st_temp_id st) md)"
    by (rule touches_mono [OF touches_prepare]) (auto simp: temp_files_def)
  moreover have "touches ?A (publish_renames E (st_temp_id st) (st_path st) md ho hm)" for ho hm
    by (rule touches_mono [OF touches_publish_renames]) (auto simp: temp_files_def)
  moreover have "touches ?A (remove_backups (st_temp_id st) ho hm)" for ho hm
    by (rule touches_mono [OF touches_remove_backups]) (auto simp: temp_files_def)
  ultimately have "touches ?A (publish E J (st_temp_id st) (st_path st) md)"
    unfolding publish_def by (intro touches_intros) (auto split: prod.split intro!: touches_intros)
  moreover have "touches ?A (commit_cleanup st e)" for e
    by (rule touches_mono [OF touches_commit_cleanup]) auto
  ultimately show ?thesis
    unfolding commit_staged_object_def
    by (intro touches_intros) (auto split: result.split intro!: touches_intros)
qed

text \<open>
  The outcome of publication for the pair of the object: success publishes exactly the staged
  bytes and the encoded metadata; failure with at most one fault leaves the old pair or the
  new one, never a mixture.
\<close>

lemma publish_cases:
  assumes "publish E J i T md s = (r, s')" "T = [''tmp'', i @ ''.part'']"
    and "files s T = Some body" "dir_in s [''tmp'']"
  obtains (ok) json where "r = Ok ()" "j_object_encode J md = Some json"
      "files s' (op_of E md) = Some body" "files s' (mp_of E md) = Some json"
  | (err) e where "r = Err e" "faults_left s \<le> 1 \<Longrightarrow>
      files s' (op_of E md) = files s (op_of E md) \<and> files s' (mp_of E md) = files s (mp_of E md)
      \<or> files s' (op_of E md) = Some body \<and> files s' (mp_of E md) = j_object_encode J md
         \<and> j_object_encode J md \<noteq> None"
proof -
  obtain q1 s1 where p1: "prepare_publish E J i md s = (q1, s1)" by fastforce
  note t1 = touchesD [OF touches_prepare p1]
  show thesis
  proof (cases q1)
    case (Ok h)
    obtain ho hm where h: "h = (ho, hm)" by (cases h)
    have same: "files s1 T = Some body" "files s1 (op_of E md) = files s (op_of E md)"
      "files s1 (mp_of E md) = files s (mp_of E md)"
      using t1(1) assms(2,3) by simp_all
    from p1 Ok h assms(4) obtain json where json: "j_object_encode J md = Some json"
      "files s1 (metadata_tmp i) = Some json"
      and dirs: "dir_in s1 (butlast (op_of E md))" "dir_in s1 (butlast (mp_of E md))"
        "\<not> dir_in s1 (op_of E md)" "\<not> dir_in s1 (mp_of E md)"
      and fl: "faults_left s1 = faults_left s"
      and ho: "if ho then files s1 (object_backup i) = files s1 (op_of E md) \<and> files s1 (op_of E md) \<noteq> None
         else files s1 (op_of E md) = None"
      and hm: "if hm then files s1 (metadata_backup i) = files s1 (mp_of E md) \<and> files s1 (mp_of E md) \<noteq> None
         else files s1 (mp_of E md) = None"
      by (auto simp: same elim: prepare_publish_Ok)
    obtain q2 s2 where p2: "publish_renames E i T md ho hm s1 = (q2, s2)" by fastforce
    from p2 same(1) json(2) dirs ho hm assms(2) show thesis
    proof (cases rule: publish_renames_cases)
      case ok
      obtain q3 s3 where p3: "remove_backups i ho hm s2 = (q3, s3)" by fastforce
      have r: "r = q3" "s' = s3"
        using assms(1) p1 Ok h p2 ok(1) p3 by (simp_all add: publish_def io_bind_def)
      have new: "files s3 (op_of E md) = Some body" "files s3 (mp_of E md) = Some json"
        using touchesD(1) [OF touches_remove_backups p3] ok(2) by simp_all
      show thesis
      proof (cases q3)
        case (Ok u)
        with r new json show thesis by (intro that(1)) simp_all
      next
        case (Err e)
        with r new json show thesis by (intro that(2)) simp_all
      qed
    next
      case (err e)
      have "r = Err e" "s' = s2"
        using assms(1) p1 Ok h p2 err(1) by (simp_all add: publish_def io_bind_def)
      with err(2) same fl show thesis by (intro that(2)) simp_all
    qed
  next
    case (Err e)
    have "r = Err e" "s' = s1" using assms(1) p1 Err by (simp_all add: publish_def io_bind_def)
    with t1(1) show thesis by (intro that(2)) simp_all
  qed
qed

section \<open>The contract of an object store\<close>

text \<open>
  The abstract store is a map from bucket and key to metadata and content. The locale states
  what a client of the \<open>ObjectStore\<close> trait relies on, for operations that may fail; \<open>apart\<close>
  says that two keys do not share a storage location.
\<close>

type_synonym store_key = "bucket_name \<times> object_key"
type_synonym stored = "object_metadata \<times> bytes"

datatype store_op = Put string bytes object_metadata | Del bucket_name object_key

abbreviation key_of :: "object_metadata \<Rightarrow> store_key" where
  "key_of md \<equiv> (om_bucket md, om_key md)"

fun op_key :: "store_op \<Rightarrow> store_key" where
  "op_key (Put i body md) = key_of md"
| "op_key (Del b k) = (b, k)"

fun spec_op :: "store_op \<Rightarrow> (store_key \<Rightarrow> stored option) \<Rightarrow> (store_key \<Rightarrow> stored option)" where
  "spec_op (Put i body md) m = m(key_of md \<mapsto> (md, body))"
| "spec_op (Del b k) m = m((b, k) := None)"

fun run_op ::
  "(string \<Rightarrow> bytes \<Rightarrow> object_metadata \<Rightarrow> ('s, unit, store_error) io) \<Rightarrow>
   (bucket_name \<Rightarrow> object_key \<Rightarrow> ('s, unit, store_error) io) \<Rightarrow> store_op \<Rightarrow> ('s, unit, store_error) io" where
  "run_op put del (Put i body md) = put i body md"
| "run_op put del (Del b k) = del b k"

lemma fold_spec_cong: "m k = m' k \<Longrightarrow> fold spec_op ps m k = fold spec_op ps m' k"
proof (induction ps arbitrary: m m')
  case (Cons q qs)
  have "spec_op q m k = spec_op q m' k" using Cons.prems by (cases q) auto
  with Cons.IH [of "spec_op q m" "spec_op q m'"] show ?case by simp
qed simp

locale object_store =
  fixes lookup :: "'s \<Rightarrow> store_key \<Rightarrow> stored option"
    and apart :: "store_key \<Rightarrow> store_key \<Rightarrow> bool"
    and codable :: "object_metadata \<Rightarrow> bool"
    and put :: "string \<Rightarrow> bytes \<Rightarrow> object_metadata \<Rightarrow> ('s, unit, store_error) io"
    and del :: "bucket_name \<Rightarrow> object_key \<Rightarrow> ('s, unit, store_error) io"
  assumes put_Ok: "put i body md s = (Ok u, s') \<Longrightarrow> codable md \<Longrightarrow>
      lookup s' (key_of md) = Some (md, body)"
    and put_apart: "put i body md s = (r, s') \<Longrightarrow> apart (key_of md) j \<Longrightarrow> lookup s' j = lookup s j"
    and del_Ok: "del b k s = (Ok u, s') \<Longrightarrow> lookup s' (b, k) = None"
    and del_apart: "del b k s = (r, s') \<Longrightarrow> apart (b, k) j \<Longrightarrow> lookup s' j = lookup s j"
begin

lemma run_op_Ok:
  assumes "run_op put del p s = (Ok u, s')" "\<And>i body md. p = Put i body md \<Longrightarrow> codable md"
    and "op_key p = k \<or> apart (op_key p) k"
  shows "lookup s' k = spec_op p (lookup s) k"
proof (cases p)
  case (Put i body md)
  with assms have p: "put i body md s = (Ok u, s')" "codable md" by simp_all
  show ?thesis
    using assms(3) Put put_Ok [OF p] put_apart [OF p(1)] by (cases "key_of md = k") auto
next
  case (Del b j)
  with assms have d: "del b j s = (Ok u, s')" by simp
  show ?thesis
    using assms(3) Del del_Ok [OF d] del_apart [OF d] by (cases "(b, j) = k") auto
qed

text \<open>A sequence of successful operations acts as on the abstract map.\<close>

lemma run_ops_refines:
  "io_for (run_op put del) ops s = (Ok u, s') \<Longrightarrow>
     (\<And>i body md. Put i body md \<in> set ops \<Longrightarrow> codable md) \<Longrightarrow>
     (\<And>p. p \<in> set ops \<Longrightarrow> op_key p = k \<or> apart (op_key p) k) \<Longrightarrow>
     lookup s' k = fold spec_op ops (lookup s) k"
proof (induction ops arbitrary: s)
  case Nil
  then show ?case by (simp add: io_return_def)
next
  case (Cons p ops)
  from Cons.prems(1) obtain s1 where s1: "run_op put del p s = (Ok (), s1)"
    and rest: "io_for (run_op put del) ops s1 = (Ok u, s')"
    by (auto simp: io_bind_def split: prod.splits result.splits)
  have "lookup s' k = fold spec_op ops (lookup s1) k"
    by (rule Cons.IH [OF rest]) (use Cons.prems(2,3) in auto)
  moreover have "lookup s1 k = spec_op p (lookup s) k"
    by (rule run_op_Ok [OF s1]) (use Cons.prems(2,3) in auto)
  ultimately show ?case using fold_spec_cong [of "lookup s1" k] by simp
qed

end

section \<open>The file store implements the contract\<close>

text \<open>A whole put: create the temporary object, write the body, commit.\<close>

definition store_put ::
  "ext \<Rightarrow> codec \<Rightarrow> string \<Rightarrow> bytes \<Rightarrow> object_metadata \<Rightarrow> (fs, unit, store_error) io" where
  "store_put E J i body md =
     io_bind (create_temp_object i) (\<lambda>tw. commit_object E J (tw\<lparr>tw_bytes := body\<rparr>) md)"

text \<open>What a reader can see of the tree.\<close>

definition visible :: "ext \<Rightarrow> codec \<Rightarrow> fs \<Rightarrow> store_key \<Rightarrow> stored option" where
  "visible E J s k =
     (case files s (metadata_path E (fst k) (snd k)) of
        None \<Rightarrow> None
      | Some json \<Rightarrow>
          (case files s (object_path E (fst k) (snd k)) of
             None \<Rightarrow> None
           | Some content \<Rightarrow> map_option (\<lambda>md. (md, content)) (j_object_decode J json)))"

definition key_apart :: "ext \<Rightarrow> store_key \<Rightarrow> store_key \<Rightarrow> bool" where
  "key_apart E k j \<longleftrightarrow> object_digest E (fst k) (snd k) \<noteq> object_digest E (fst j) (snd j)"

definition codable :: "codec \<Rightarrow> object_metadata \<Rightarrow> bool" where
  "codable J md \<longleftrightarrow> Option.bind (j_object_encode J md) (j_object_decode J) = Some md"

lemma key_apart_paths:
  "key_apart E (b, k) (b', k') \<Longrightarrow>
     object_path E b' k' \<noteq> object_path E b k \<and> metadata_path E b' k' \<noteq> metadata_path E b k"
  by (auto simp: key_apart_def object_path_def metadata_path_def Let_def)

lemma visible_cong:
  "files s (metadata_path E b k) = files s' (metadata_path E b k) \<Longrightarrow>
   files s (object_path E b k) = files s' (object_path E b k) \<Longrightarrow>
   visible E J s (b, k) = visible E J s' (b, k)"
  by (simp add: visible_def split: option.split)

text \<open>Reading returns what is visible, and changes nothing, whatever faults occur.\<close>

lemma fs_read_Ok:
  "fs_read p s = (Ok b, s') \<Longrightarrow> files s p = Some b \<and> fs_nodes s' = fs_nodes s"
  unfolding fs_read_def
  by (erule faulty_cases) (auto simp: read_i_def file_at_def split: option.splits node.splits)

lemma fs_read_NotFound:
  "fs_read p s = (Err NotFound, s') \<Longrightarrow> files s p = None \<and> fs_nodes s' = fs_nodes s"
  unfolding fs_read_def
  by (erule faulty_cases) (auto simp: read_i_def file_at_def split: option.splits node.splits)

lemma fs_metadata_cases:
  "fs_metadata p s = (r, s') \<Longrightarrow> fs_nodes s' = fs_nodes s
     \<and> (r = Ok True \<longrightarrow> files s p \<noteq> None) \<and> (r = Ok False \<longrightarrow> files s p = None)
     \<and> (r = Err NotFound \<longrightarrow> files s p = None)"
  unfolding fs_metadata_def
  by (erule faulty_cases)
    (auto simp: metadata_i_def file_at_def split: option.splits node.splits if_splits)

lemma head_object_Ok:
  assumes "head_object E J b k s = (Ok m, s')"
  shows "m = map_option fst (visible E J s (b, k)) \<and> fs_nodes s' = fs_nodes s"
proof -
  obtain q s1 where q: "fs_read (metadata_path E b k) s = (q, s1)" by fastforce
  show ?thesis
  proof (cases q)
    case (Ok json)
    with q fs_read_Ok have j: "files s (metadata_path E b k) = Some json" "fs_nodes s1 = fs_nodes s"
      by blast+
    from assms q Ok obtain md q2 where md: "j_object_decode J json = Some md"
      and q2: "fs_metadata (object_path E b k) s1 = (q2, s')"
      and m: "q2 = Ok True \<and> m = Some md \<or> (q2 = Ok False \<or> q2 = Err NotFound) \<and> m = None"
      by (cases "j_object_decode J json")
        (auto simp: head_object_def io_simps
          split: result.splits prod.splits io_error.splits if_splits)
    from fs_metadata_cases [OF q2] m md j show ?thesis
      by (auto simp: visible_def)
  next
    case (Err e)
    with assms q have "e = NotFound" "m = None" "s' = s1"
      by (auto simp: head_object_def io_simps split: io_error.splits)
    with q Err fs_read_NotFound show ?thesis by (auto simp: visible_def)
  qed
qed

lemma open_object_Ok:
  assumes "open_object E J b k s = (Ok x, s')"
  shows "x = visible E J s (b, k) \<and> fs_nodes s' = fs_nodes s"
proof -
  from assms obtain m s1 where m: "head_object E J b k s = (Ok m, s1)"
    and rest: "(case m of None \<Rightarrow> io_return None
      | Some md \<Rightarrow> io_match (fs_read (object_path E b k)) (\<lambda>r. case r of
             Ok content \<Rightarrow> io_return (Some (md, content))
           | Err NotFound \<Rightarrow> io_return None
           | Err e \<Rightarrow> io_fail (SE_Io e))) s1 = (Ok x, s')"
    by (auto simp: open_object_def io_bind_Ok)
  note h = head_object_Ok [OF m]
  show ?thesis
  proof (cases m)
    case None
    with rest h show ?thesis by (auto simp: io_return_def)
  next
    case (Some md)
    then obtain c where v: "visible E J s (b, k) = Some (md, c)" using h by auto
    then have "files s1 (object_path E b k) = Some c"
      using h by (auto simp: visible_def split: option.splits)
    with rest Some v h show ?thesis
      by (auto simp: io_simps split: prod.splits result.splits io_error.splits
          dest: fs_read_Ok fs_read_NotFound)
  qed
qed

section \<open>Commit and delete through the view\<close>

lemma create_temp_object_Ok:
  assumes "create_temp_object i s = (Ok tw, s')"
  shows "tw = \<lparr>tw_temp_id = i, tw_path = [''tmp'', i @ ''.part''], tw_bytes = []\<rparr>
    \<and> dir_in s' [''tmp'']"
proof -
  have tw: "tw = \<lparr>tw_temp_id = i, tw_path = [''tmp'', i @ ''.part''], tw_bytes = []\<rparr>"
    and "faulty (\<lambda>_ n. n) (write_i [''tmp'', i @ ''.part''] []) s = (Ok (), s')"
    using assms
    by (auto simp: create_temp_object_def Let_def fs_create_def io_simps res_simps
        split: prod.splits result.splits)
  from this(2) have w: "write_i [''tmp'', i @ ''.part''] [] (fs_nodes s) = (Ok (), fs_nodes s')"
    by (cases rule: faulty_cases) simp_all
  then have "dir_in s [''tmp'']" by (auto simp: write_i_def can_create_def split: if_splits)
  with tw write_i_cases [OF w] show ?thesis by simp
qed

definition staged_of :: "string \<Rightarrow> staged_object" where
  "staged_of i = \<lparr>st_temp_id = i, st_path = [''tmp'', i @ ''.part'']\<rparr>"

lemma temp_finish_Ok:
  assumes "temp_finish \<lparr>tw_temp_id = i, tw_path = [''tmp'', i @ ''.part''], tw_bytes = body\<rparr> s = (Ok st, s')"
  shows "st = staged_of i \<and> files s' [''tmp'', i @ ''.part''] = Some body \<and> dir_in s' = dir_in s
    \<and> faults_left s' = faults_left s"
  using assms fs_write_Ok [of SE_Io "[''tmp'', i @ ''.part'']" body s "()" s']
  by (auto simp: temp_finish_def temp_flush_def io_match_def io_ignore_def io_fail_def io_return_def
      staged_of_def split: prod.splits result.splits)

lemma touches_temp [touches_intros]:
  "touches {tw_path tw} (temp_flush tw)"
  "touches {tw_path tw} (temp_finish tw)"
  unfolding temp_finish_def temp_flush_def
  by (auto intro!: touches_match touches_ignore touches_intros split: result.split)

text \<open>The steps of a successful put.\<close>

lemma store_put_Ok:
  assumes "store_put E J i body md s = (Ok u, s')"
  obtains s1 where "commit_staged_object E J (staged_of i) md s1 = (Ok u, s')"
    "files s1 [''tmp'', i @ ''.part''] = Some body" "dir_in s1 [''tmp'']"
proof -
  from assms obtain tw s0 st s1 where "create_temp_object i s = (Ok tw, s0)"
    and fin: "temp_finish (tw\<lparr>tw_bytes := body\<rparr>) s0 = (Ok st, s1)"
    and "commit_staged_object E J st md s1 = (Ok u, s')"
    by (auto simp: store_put_def commit_object_def io_bind_Ok)
  with create_temp_object_Ok [OF this(1)] temp_finish_Ok [of i body s0 st s1] that
  show thesis by auto
qed

lemma commit_visible:
  assumes "commit_staged_object E J (staged_of i) md s = (Ok u, s')"
    and "files s [''tmp'', i @ ''.part''] = Some body" "dir_in s [''tmp'']" "codable J md"
  shows "visible E J s' (key_of md) = Some (md, body)"
proof -
  obtain r s1 where p: "publish E J i [''tmp'', i @ ''.part''] md s = (r, s1)" by fastforce
  from p refl assms(2,3) show ?thesis
  proof (cases rule: publish_cases)
    case (ok json)
    with assms(1) p have "s' = s1"
      by (simp add: commit_staged_object_split staged_of_def)
    with ok assms(4) show ?thesis by (simp add: visible_def codable_def)
  next
    case (err e)
    with assms(1) p show ?thesis
      by (auto simp: commit_staged_object_split staged_of_def dest: commit_cleanup_Err)
  qed
qed

lemma commit_encodes:
  assumes "commit_staged_object E J (staged_of i) md s = (Ok u, s')"
    and "files s [''tmp'', i @ ''.part''] = Some body" "dir_in s [''tmp'']"
  shows "j_object_encode J md \<noteq> None"
proof -
  obtain r s1 where p: "publish E J i [''tmp'', i @ ''.part''] md s = (r, s1)" by fastforce
  from p refl assms(2,3) show ?thesis
  proof (cases rule: publish_cases)
    case (err e)
    with assms(1) p show ?thesis
      by (auto simp: commit_staged_object_split staged_of_def dest: commit_cleanup_Err)
  qed simp
qed

lemma temp_files_tmp: "p \<in> temp_files (staged_of i) \<Longrightarrow> hd p = ''tmp''"
  by (auto simp: temp_files_def staged_of_def metadata_tmp_def object_backup_def metadata_backup_def)

lemma touches_store_put:
  "touches ({p. hd p = ''tmp''} \<union> {op_of E md, mp_of E md}) (store_put E J i body md)"
proof -
  let ?A = "{p. hd p = ''tmp''} \<union> {op_of E md, mp_of E md}"
  have c: "touches ?A (create_temp_object i)"
    unfolding create_temp_object_def Let_def
    by (intro touches_intros) (rule touches_mono [OF touches_calls(3)], simp)
  have k: "touches ?A (commit_staged_object E J (staged_of i) md)"
    by (rule touches_mono [OF touches_commit]) (use temp_files_tmp in blast)
  show ?thesis
    unfolding touches_def
  proof (intro allI impI)
    fix s r s'
    assume *: "store_put E J i body md s = (r, s')"
    obtain q s0 where q: "create_temp_object i s = (q, s0)" by fastforce
    note t0 = touchesD [OF c q]
    show "(\<forall>p. p \<notin> ?A \<longrightarrow> files s' p = files s p) \<and> (\<forall>p. dir_in s p \<longrightarrow> dir_in s' p)
        \<and> faults_left s' \<le> faults_left s"
    proof (cases q)
      case (Ok tw)
      with q create_temp_object_Ok have
        tw: "tw = \<lparr>tw_temp_id = i, tw_path = [''tmp'', i @ ''.part''], tw_bytes = []\<rparr>" by blast
      have tt: "touches ?A (io_bind (temp_finish (tw\<lparr>tw_bytes := body\<rparr>))
          (\<lambda>_. commit_staged_object E J (staged_of i) md))"
        by (intro touches_bind k touches_mono [OF touches_temp(2)]) (simp add: tw)
      have run: "io_bind (temp_finish (tw\<lparr>tw_bytes := body\<rparr>))
          (\<lambda>_. commit_staged_object E J (staged_of i) md) s0 = (r, s')"
        using * q Ok tw temp_finish_Ok [of i body s0]
        by (auto simp: store_put_def commit_object_def io_bind_def split: prod.splits result.splits)
      note t1 = touchesD [OF tt run]
      show ?thesis
      proof (intro conjI allI impI)
        fix p assume p: "p \<notin> ?A"
        show "files s' p = files s p" using t1(1) [OF p] t0(1) [OF p] by (rule trans)
      next
        fix p assume "dir_in s p"
        then show "dir_in s' p" using t0(2) t1(2) by blast
      next
        show "faults_left s' \<le> faults_left s" using t0(3) t1(3) by (rule le_trans [rotated])
      qed
    next
      case (Err e)
      with * q t0 show ?thesis by (auto simp: store_put_def io_bind_def)
    qed
  qed
qed

lemma hd_paths [simp]: "hd (object_path E b k) = ''objects''" "hd (metadata_path E b k) = ''metadata''"
  by (simp_all add: object_path_def metadata_path_def Let_def)

lemma object_path_neq_metadata_path [simp]: "object_path E b k \<noteq> metadata_path E b' k'"
  "metadata_path E b' k' \<noteq> object_path E b k"
  by (simp_all add: object_path_def metadata_path_def Let_def)

lemma touches_delete: "touches {metadata_path E b k, object_path E b k} (delete_object E b k)"
proof -
  let ?A = "{metadata_path E b k, object_path E b k}"
  have "touches ?A (fs_remove_file (metadata_path E b k))"
    by (rule touches_mono [OF touches_calls(6)]) simp
  moreover have "touches ?A (remove_file_if_exists (object_path E b k))"
    by (rule touches_mono [OF touches_helpers(2)]) simp
  ultimately show ?thesis
    unfolding delete_object_def
    by (intro touches_intros) (auto split: result.split io_error.split intro!: touches_intros)
qed

lemma delete_Ok:
  assumes "delete_object E b k s = (Ok u, s')"
  shows "visible E J s' (b, k) = None"
proof -
  obtain q s1 where q: "faulty (\<lambda>_ n. n) (remove_file_i (metadata_path E b k)) s = (q, s1)"
    by fastforce
  have "files s1 (metadata_path E b k) = None"
  proof (cases q)
    case (Ok v)
    from q show ?thesis
      by (cases rule: faulty_cases) (use Ok in \<open>auto dest!: remove_file_i_cases\<close>)
  next
    case (Err e)
    with assms q have "e = NotFound"
      by (auto simp: delete_object_def fs_remove_file_def io_simps split: io_error.splits)
    with q Err show ?thesis
      by (cases rule: faulty_cases) (auto dest!: remove_file_i_cases simp: file_at_def)
  qed
  moreover have "files s' (metadata_path E b k) = files s1 (metadata_path E b k)"
  proof (cases q)
    case (Ok v)
    with assms q have "remove_file_if_exists (object_path E b k) s1 = (Ok u, s')"
      by (simp add: delete_object_def fs_remove_file_def io_simps)
    from touchesD(1) [OF touches_helpers(2) this] show ?thesis by simp
  next
    case (Err e)
    with assms q show ?thesis
      by (auto simp: delete_object_def fs_remove_file_def io_simps split: io_error.splits)
  qed
  ultimately show ?thesis by (simp add: visible_def)
qed

interpretation fos: object_store "visible E J" "key_apart E" "codable J" "store_put E J" "delete_object E"
  for E J
proof (unfold_locales, goal_cases)
  case (1 i body md s u s')
  then show ?case by (elim store_put_Ok) (rule commit_visible)
next
  case (2 i body md s r s' j)
  have "visible E J s (fst j, snd j) = visible E J s' (fst j, snd j)"
    using key_apart_paths [of E "om_bucket md" "om_key md" "fst j" "snd j"] 2
    by (intro visible_cong touchesD(1) [OF touches_store_put, THEN sym]) auto
  then show ?case by simp
next
  case (3 b k s u s')
  then show ?case by (rule delete_Ok)
next
  case (4 b k s r s' j)
  have "visible E J s (fst j, snd j) = visible E J s' (fst j, snd j)"
    using key_apart_paths [of E b k "fst j" "snd j"] 4
    by (intro visible_cong touchesD(1) [OF touches_delete, THEN sym]) auto
  then show ?case by simp
qed

section \<open>Startup keeps complete objects\<close>

text \<open>
  \<open>keeps a b m\<close>: \<open>m\<close> creates no file, and when both \<open>a\<close> and \<open>b\<close> are files it leaves both
  as they are.
\<close>

definition keeps :: "path \<Rightarrow> path \<Rightarrow> (fs, 'a, 'e) io \<Rightarrow> bool" where
  "keeps a b m \<longleftrightarrow> (\<forall>s r s'. m s = (r, s') \<longrightarrow>
     (\<forall>p. files s p = None \<longrightarrow> files s' p = None)
     \<and> (files s a \<noteq> None \<and> files s b \<noteq> None \<longrightarrow> files s' a = files s a \<and> files s' b = files s b))"

lemma keepsD:
  assumes "keeps a b m" "m s = (r, s')"
  shows "files s p = None \<Longrightarrow> files s' p = None"
    "files s a \<noteq> None \<Longrightarrow> files s b \<noteq> None \<Longrightarrow> files s' a = files s a \<and> files s' b = files s b"
  using assms unfolding keeps_def by blast+

lemma keeps_unchanged: "touches {} m \<Longrightarrow> keeps a b m"
  unfolding touches_def keeps_def by simp

lemma keeps_return: "keeps a b (io_return x)"
  by (intro keeps_unchanged touches_intros)

lemma keeps_bind:
  assumes "keeps a b m" "\<And>x. keeps a b (f x)"
  shows "keeps a b (io_bind m f)"
  unfolding keeps_def
proof (intro allI impI)
  fix s r s'
  assume *: "io_bind m f s = (r, s')"
  obtain q s1 where m: "m s = (q, s1)" by fastforce
  show "(\<forall>p. files s p = None \<longrightarrow> files s' p = None)
     \<and> (files s a \<noteq> None \<and> files s b \<noteq> None \<longrightarrow> files s' a = files s a \<and> files s' b = files s b)"
  proof (cases q)
    case (Ok x)
    with * m have f: "f x s1 = (r, s')" by (simp add: io_bind_def)
    show ?thesis
      using keepsD [OF assms(1) m] keepsD [OF assms(2) f] by (metis (no_types))
  next
    case (Err e)
    with * m show ?thesis using keepsD [OF assms(1) m] by (auto simp: io_bind_def)
  qed
qed

lemma keeps_for: "(\<And>x. x \<in> set xs \<Longrightarrow> keeps a b (f x)) \<Longrightarrow> keeps a b (io_for f xs)"
  by (induction xs) (auto intro: keeps_bind keeps_unchanged touches_intros)

lemma remove_file_if_exists_only_removes:
  assumes "remove_file_if_exists p s = (r, s')"
  shows "(\<forall>q. files s q = None \<longrightarrow> files s' q = None) \<and> (\<forall>q. q \<noteq> p \<longrightarrow> files s' q = files s q)
    \<and> (r = Ok () \<longrightarrow> files s' p = None)"
  using assms by (cases rule: remove_file_if_exists_cases) auto

lemma remove_unless_file_keeps:
  assumes "p = a \<Longrightarrow> other = b" "p \<noteq> b"
  shows "keeps a b (remove_unless_file p other)"
  unfolding keeps_def
proof (intro allI impI)
  fix s r s'
  assume run: "remove_unless_file p other s = (r, s')"
  obtain q s1 where q: "fs_metadata other s = (q, s1)" by fastforce
  note m = fs_metadata_cases [OF q]
  consider (same) "fs_nodes s' = fs_nodes s"
    | (removed) "files s other = None" "remove_file_if_exists p s1 = (r, s')"
    using run q m
    by (cases q) (auto simp: remove_unless_file_def io_simps split: if_splits io_error.splits)
  then show "(\<forall>x. files s x = None \<longrightarrow> files s' x = None)
     \<and> (files s a \<noteq> None \<and> files s b \<noteq> None \<longrightarrow> files s' a = files s a \<and> files s' b = files s b)"
  proof cases
    case removed
    with remove_file_if_exists_only_removes [OF removed(2)] m assms show ?thesis
      by (cases "p = a") auto
  qed simp
qed

lemma cleanup_orphan_keeps:
  assumes "length d \<ge> 2"
    and "a = [here, take 2 d, d @ suffix]" "b = [there, take 2 d, d @ other]" "here \<noteq> there"
  shows "keeps a b (cleanup_orphan here suffix there other prefix entry)"
proof -
  obtain name dir where e: "entry = (name, dir)" by (cases entry)
  show ?thesis
  proof (cases "strip_suffix suffix name")
    case (Some d')
    then have "name = d' @ suffix" by (simp add: strip_suffix_Some)
    then have "keeps a b (remove_unless_file [here, prefix, name] (counterpart there d' other))"
      using assms by (intro remove_unless_file_keeps) (auto simp: counterpart_def)
    with Some show ?thesis by (simp add: cleanup_orphan_def e keeps_return)
  qed (simp add: cleanup_orphan_def e keeps_return)
qed

lemma keeps_sym: "keeps a b m \<Longrightarrow> keeps b a m"
  unfolding keeps_def by blast

lemma cleanup_orphans_keeps:
  assumes "length d \<ge> 2"
    and "a = [here, take 2 d, d @ suffix]" "b = [there, take 2 d, d @ other]" "here \<noteq> there"
  shows "keeps a b (cleanup_orphans here suffix there other)"
proof -
  have rd: "keeps a b (se_io (fs_read_dir p))" for p
    by (intro keeps_unchanged touches_intros)
  have "keeps a b (if \<not> dir then io_return ()
         else io_bind (se_io (fs_read_dir [here, prefix])) (\<lambda>entries.
              io_for (cleanup_orphan here suffix there other prefix) entries))" for prefix dir
    by (cases dir) (simp_all add: keeps_return keeps_bind rd keeps_for cleanup_orphan_keeps [OF assms])
  then show ?thesis
    unfolding cleanup_orphans_def by (intro keeps_bind rd keeps_for) (auto split: prod.split)
qed

lemma cleanup_stale_keeps:
  assumes "hd a \<noteq> ''tmp''" "hd b \<noteq> ''tmp''"
  shows "keeps a b cleanup_stale_temp_files"
proof -
  have "keeps a b (remove_file_if_exists [''tmp'', name])" for name
    unfolding keeps_def
  proof (intro allI impI)
    fix s r s'
    assume "remove_file_if_exists [''tmp'', name] s = (r, s')"
    note r = remove_file_if_exists_only_removes [OF this]
    have "a \<noteq> [''tmp'', name]" "b \<noteq> [''tmp'', name]" using assms by auto
    with r show "(\<forall>x. files s x = None \<longrightarrow> files s' x = None)
      \<and> (files s a \<noteq> None \<and> files s b \<noteq> None \<longrightarrow> files s' a = files s a \<and> files s' b = files s b)"
      by auto
  qed
  then show ?thesis
    unfolding cleanup_stale_temp_files_def
    by (intro keeps_bind keeps_for)
      (auto split: prod.split intro: keeps_return keeps_unchanged touches_intros)
qed

lemma orphan_cleanups_keep:
  assumes "length (object_digest E b k) \<ge> 2"
  shows "keeps (object_path E b k) (metadata_path E b k) cleanup_orphaned_object_files"
    and "keeps (object_path E b k) (metadata_path E b k) cleanup_orphaned_metadata_files"
proof -
  show "keeps (object_path E b k) (metadata_path E b k) cleanup_orphaned_object_files"
    unfolding cleanup_orphaned_object_files_def
    by (rule cleanup_orphans_keeps [OF assms]) (simp_all add: object_path_def metadata_path_def Let_def)
  have "keeps (metadata_path E b k) (object_path E b k) cleanup_orphaned_metadata_files"
    unfolding cleanup_orphaned_metadata_files_def
    by (rule cleanup_orphans_keeps [OF assms]) (simp_all add: object_path_def metadata_path_def Let_def)
  then show "keeps (object_path E b k) (metadata_path E b k) cleanup_orphaned_metadata_files"
    by (rule keeps_sym)
qed

lemma startup_keeps:
  assumes "length (object_digest E b k) \<ge> 2"
  shows "keeps (object_path E b k) (metadata_path E b k) FileObjectStore_new"
proof -
  have "keeps (object_path E b k) (metadata_path E b k) cleanup_stale_temp_files"
    by (rule cleanup_stale_keeps) simp_all
  with orphan_cleanups_keep [OF assms] show ?thesis
    unfolding FileObjectStore_new_def
    by (intro keeps_bind) (auto intro: keeps_unchanged touches_intros)
qed

text \<open>The temporary directory is empty of files afterwards.\<close>

lemma children_file: "file_at n (p @ [c]) = Some b \<Longrightarrow> (c, False) \<in> set (children p n)"
  by (force simp: children_def file_at_Some bt_get_def dest: map_of_SomeD)

lemma remove_all_Ok:
  "io_for (\<lambda>(name, dir). if dir then io_return () else remove_file_if_exists (f name)) es s
     = (Ok u, s') \<Longrightarrow>
   (\<forall>q. files s q = None \<longrightarrow> files s' q = None)
   \<and> (\<forall>name. (name, False) \<in> set es \<longrightarrow> files s' (f name) = None)"
proof (induction es arbitrary: s)
  case (Cons e es)
  obtain name dir where e: "e = (name, dir)" by (cases e)
  from Cons.prems obtain s1 where
    s1: "(if dir then io_return () else remove_file_if_exists (f name)) s = (Ok (), s1)"
    and rest: "io_for (\<lambda>(name, dir). if dir then io_return ()
       else remove_file_if_exists (f name)) es s1 = (Ok u, s')"
    by (auto simp: e io_bind_Ok)
  have "(\<forall>q. files s q = None \<longrightarrow> files s1 q = None) \<and> (\<not> dir \<longrightarrow> files s1 (f name) = None)"
    using s1 remove_file_if_exists_only_removes [of "f name" s "Ok ()" s1]
    by (cases dir) (auto simp: io_return_def)
  with Cons.IH [OF rest] show ?case by (auto simp: e)
qed (simp add: io_return_def)

lemma cleanup_stale_Ok:
  assumes "cleanup_stale_temp_files s = (Ok u, s')"
  shows "files s' [''tmp'', name] = None"
proof -
  from assms obtain es s1 where rd: "se_io (fs_read_dir [''tmp'']) s = (Ok es, s1)"
    and loop: "io_for (\<lambda>(name, dir). if dir then io_return ()
       else remove_file_if_exists [''tmp'', name]) es s1 = (Ok u, s')"
    by (auto simp: cleanup_stale_temp_files_def io_bind_Ok)
  from rd have "faulty (\<lambda>_ n. n) (read_dir_i [''tmp'']) s = (Ok es, s1)"
    by (auto simp: io_simps fs_read_dir_def res_simps split: prod.splits)
  then have es: "es = children [''tmp''] (fs_nodes s1)"
    by (cases rule: faulty_cases) (auto simp: read_dir_i_def split: if_splits)
  note r = remove_all_Ok [of "\<lambda>name. [''tmp'', name]", OF loop]
  show ?thesis
  proof (cases "files s1 [''tmp'', name]")
    case (Some c)
    then have "(name, False) \<in> set es" using children_file [of "fs_nodes s1" "[''tmp'']" name] es by simp
    with r show ?thesis by simp
  qed (use r in simp)
qed

section \<open>A concrete store\<close>

definition ex_metadata :: object_metadata where
  "ex_metadata = \<lparr>om_bucket = ''b'', om_key = ''k'', om_size = 4, om_etag = ''e'',
     om_content_type = None, om_content_encoding = None, om_content_disposition = None,
     om_content_language = None, om_cache_control = None, om_expires = None, om_tagging = None,
     om_user_metadata = [], om_checksums = [], om_last_modified = 0\<rparr>"

definition ex_codec :: codec where
  "ex_codec = \<lparr>j_object_encode = (\<lambda>_. Some ''json''), j_object_decode = (\<lambda>_. Some ex_metadata),
     j_session_encode = (\<lambda>_. Some ''session''), j_session_decode = (\<lambda>_. None)\<rparr>"

definition ex_fs :: fs where
  "ex_fs = \<lparr>fs_nodes = [([''tmp''], DirNode)], fs_faults = []\<rparr>"

definition ex_ops :: "store_op list" where
  "ex_ops = [Put ''1'' ''body'' ex_metadata]"

text \<open>A staged file and a fault in the rename of the metadata.\<close>

definition ex_staged_fs :: fs where
  "ex_staged_fs = \<lparr>fs_nodes = [([''tmp''], DirNode), ([''tmp'', ''1.part''], FileNode ''body'')],
     fs_faults = [None, None, None, None, None, None, Some (''disk full'', 0)]\<rparr>"

section \<open>Properties\<close>

text \<open>
  C13. The file store implements a map. After any sequence of successful puts and deletes, a
  successful \<open>open_object\<close> returns, for every key whose storage location no other key of the
  sequence shares, what the abstract map holds: the metadata and exactly the bytes of the last
  put, or nothing after a delete. This holds on every fault schedule.
\<close>

theorem file_store_refines_map:
  assumes "io_for (run_op (store_put E J) (delete_object E)) ops s = (Ok (), s1)"
    and "open_object E J b k s1 = (Ok x, s2)"
    and "\<And>i body md. Put i body md \<in> set ops \<Longrightarrow> codable J md"
    and "\<And>p. p \<in> set ops \<Longrightarrow> op_key p = (b, k) \<or> key_apart E (op_key p) (b, k)"
  shows "x = fold spec_op ops (visible E J s) (b, k)"
  using fos.run_ops_refines [OF assms(1,3,4)] open_object_Ok [OF assms(2)] by simp

theorem file_store_refines_map_witness:
  "\<exists>s1 s2. io_for (run_op (store_put ext0 ex_codec) (delete_object ext0)) ex_ops ex_fs = (Ok (), s1)
     \<and> open_object ext0 ex_codec ''b'' ''k'' s1 = (Ok (Some (ex_metadata, ''body'')), s2)
     \<and> Some (ex_metadata, ''body'') = fold spec_op ex_ops (visible ext0 ex_codec ex_fs) (''b'', ''k'')"
proof -
  let ?run = "io_for (run_op (store_put ext0 ex_codec) (delete_object ext0)) ex_ops ex_fs"
  let ?get = "open_object ext0 ex_codec ''b'' ''k'' (snd ?run)"
  have "fst ?run = Ok ()" by code_simp
  then have run: "?run = (Ok (), snd ?run)" by (metis prod.collapse)
  have "fst ?get = Ok (Some (ex_metadata, ''body''))" by code_simp
  then have get: "?get = (Ok (Some (ex_metadata, ''body'')), snd ?get)" by (metis prod.collapse)
  from run get file_store_refines_map [OF run get] show ?thesis
    by (force simp: ex_ops_def codable_def ex_codec_def ex_metadata_def)
qed

text \<open>
  C11. Publication is all-or-nothing under a single I/O failure. Whatever single call fails
  while a staged object is committed, afterwards the object file and the metadata file are
  either both as before or both new; if the commit reports success they are both new. The old
  object is never left with the new metadata or the other way round.
\<close>

theorem commit_all_or_nothing:
  assumes "commit_staged_object E J (staged_of i) md s = (r, s')"
    and "files s [''tmp'', i @ ''.part''] = Some body" "dir_in s [''tmp'']" "faults_left s \<le> 1"
  shows "files s' (op_of E md) = Some body \<and> files s' (mp_of E md) = j_object_encode J md
       \<and> j_object_encode J md \<noteq> None
     \<or> (\<exists>e. r = Err e) \<and> files s' (op_of E md) = files s (op_of E md)
       \<and> files s' (mp_of E md) = files s (mp_of E md)"
proof -
  obtain q s1 where p: "publish E J i [''tmp'', i @ ''.part''] md s = (q, s1)" by fastforce
  from p refl assms(2,3) show ?thesis
  proof (cases rule: publish_cases)
    case (ok json)
    with assms(1) p show ?thesis by (simp add: commit_staged_object_split staged_of_def)
  next
    case (err e)
    with assms(1) p have c: "commit_cleanup (staged_of i) e s1 = (r, s')"
      by (simp add: commit_staged_object_split staged_of_def)
    have "op_of E md \<notin> temp_files (staged_of i)" "mp_of E md \<notin> temp_files (staged_of i)"
      using temp_files_tmp by force+
    with touchesD(1) [OF touches_commit_cleanup c] err(2) [OF assms(4)] commit_cleanup_Err [OF c]
    show ?thesis by auto
  qed
qed

theorem commit_all_or_nothing_witness:
  "\<exists>e s'. commit_staged_object ext0 ex_codec (staged_of ''1'') ex_metadata ex_staged_fs = (Err e, s')
     \<and> files s' (op_of ext0 ex_metadata) = None \<and> files s' (mp_of ext0 ex_metadata) = None"
proof -
  let ?run = "commit_staged_object ext0 ex_codec (staged_of ''1'') ex_metadata ex_staged_fs"
  have r: "fst ?run = Err (SE_Io (OtherIo ''disk full''))" by code_simp
  then have run: "?run = (Err (SE_Io (OtherIo ''disk full'')), snd ?run)" by (metis prod.collapse)
  have "files ex_staged_fs [''tmp'', ''1'' @ ''.part''] = Some ''body''" "dir_in ex_staged_fs [''tmp'']"
    "faults_left ex_staged_fs \<le> 1" "files ex_staged_fs (op_of ext0 ex_metadata) = None"
    "files ex_staged_fs (mp_of ext0 ex_metadata) = None"
    "files (snd ?run) (op_of ext0 ex_metadata) \<noteq> Some ''body''"
    by code_simp+
  with run commit_all_or_nothing [OF run] show ?thesis by auto
qed

text \<open>
  Isolation: a commit, successful or not and with any number of faults, changes no file
  outside its own temporary files and the pair of its own object; a delete changes only the
  pair of its object.
\<close>

lemma store_operations_isolated:
  assumes "p \<noteq> object_path E b k" "p \<noteq> metadata_path E b k" "hd p \<noteq> ''tmp''" "key_of md = (b, k)"
  shows "files (snd (store_put E J i body md s)) p = files s p
    \<and> files (snd (delete_object E b k s)) p = files s p"
proof
  obtain r s' where put: "store_put E J i body md s = (r, s')" by fastforce
  show "files (snd (store_put E J i body md s)) p = files s p"
    using touchesD(1) [OF touches_store_put put, of p] assms put by simp
  obtain r s' where del: "delete_object E b k s = (r, s')" by fastforce
  show "files (snd (delete_object E b k s)) p = files s p"
    using touchesD(1) [OF touches_delete del, of p] assms del by simp
qed

text \<open>
  Startup. Opening the store, on any tree and fault schedule, neither creates nor alters a
  visible object: every key has the same metadata and content before and after, whether or not
  opening succeeds; and when it succeeds no file is left in the temporary directory.
\<close>

lemma startup_preserves_objects:
  assumes "FileObjectStore_new s = (r, s')" "length (object_digest E b k) \<ge> 2"
  shows "visible E J s' (b, k) = visible E J s (b, k)
    \<and> (r = Ok () \<longrightarrow> files s' [''tmp'', name] = None)"
proof
  note K = keepsD [OF startup_keeps [OF assms(2)] assms(1)]
  show "visible E J s' (b, k) = visible E J s (b, k)"
  proof (cases "files s (object_path E b k) \<noteq> None \<and> files s (metadata_path E b k) \<noteq> None")
    case True
    with K(2) show ?thesis by (intro visible_cong) auto
  next
    case False
    then have "visible E J s (b, k) = None" by (auto simp: visible_def split: option.splits)
    moreover have "visible E J s' (b, k) = None"
      using False K(1) by (auto simp: visible_def split: option.splits)
    ultimately show ?thesis by simp
  qed
  show "r = Ok () \<longrightarrow> files s' [''tmp'', name] = None"
  proof
    assume "r = Ok ()"
    with assms(1) obtain s1 s2 s3 where stale: "cleanup_stale_temp_files s1 = (Ok (), s2)"
      and o: "cleanup_orphaned_object_files s2 = (Ok (), s3)"
      and m: "cleanup_orphaned_metadata_files s3 = (Ok (), s')"
      by (auto simp: FileObjectStore_new_def io_bind_Ok)
    note keep = orphan_cleanups_keep [OF assms(2)]
    show "files s' [''tmp'', name] = None"
      using keepsD(1) [OF keep(2) m] keepsD(1) [OF keep(1) o] cleanup_stale_Ok [OF stale] by blast
  qed
qed

end
