(* ===== verification/Upload_State.thy ===== *)
theory Upload_State
  imports S3_Checksum
begin

text \<open>
  The parts of \<open>src/body/upload.rs\<close> below the two body readers: header interpretation, the
  payload-hash modes, length and size checks, and the running state of an upload.

  A hasher (\<open>Md5\<close>, \<open>Sha1\<close>, \<open>Sha256\<close>, \<open>Sha512\<close>, \<open>crc::Digest\<close>) is the byte string it
  has been fed; \<open>finalize\<close> applies the digest function. The \<open>AsyncWrite\<close> sink holds the
  bytes written and a schedule with one entry per \<open>write_all\<close>: a fault \<open>(n, msg)\<close> lets the
  first \<open>n\<close> bytes through and fails with \<open>msg\<close>; no entry, or \<open>None\<close>, is success.
\<close>

section \<open>Header interpretation\<close>

definition optional_singleton_header :: "headers \<Rightarrow> string \<Rightarrow> bytes option s3res" where
  "optional_singleton_header hs name =
     (case hdr_get_all hs name of
        [] \<Rightarrow> Ok None
      | [v] \<Rightarrow> Ok (Some v)
      | _ \<Rightarrow> Err (invalid_request (name @ '' must not appear more than once'')))"

text \<open>\<open>value.split(',').any(|x| x.trim().eq_ignore_ascii_case(name))\<close>.\<close>

definition csv_mentions :: "string \<Rightarrow> string \<Rightarrow> bool" where
  "csv_mentions value name \<longleftrightarrow>
     list_ex (\<lambda>x. eq_ignore_ascii_case (trim x) name) (split_on (CHR '','') value)"

definition is_aws_chunked_request :: "ext \<Rightarrow> headers \<Rightarrow> bool" where
  "is_aws_chunked_request E hs =
     (case Option.bind (hdr_get hs ''content-encoding'') (x_to_str E) of
        None \<Rightarrow> False | Some value \<Rightarrow> csv_mentions value ''aws-chunked'')"

definition decoded_content_length :: "ext \<Rightarrow> headers \<Rightarrow> content_length option s3res" where
  "decoded_content_length E hs =
     and_then (optional_singleton_header hs ''x-amz-decoded-content-length'') (\<lambda>v.
       case v of
         None \<Rightarrow> Ok None
       | Some value \<Rightarrow>
           and_then (ok_or (invalid_request ''x-amz-decoded-content-length must be valid ASCII'')
             (x_to_str E value)) (\<lambda>s.
           map_err (\<lambda>_. invalid_request ''x-amz-decoded-content-length must be an integer'')
             (map_ok Some (ContentLength_from_str s))))"

definition content_length :: "ext \<Rightarrow> headers \<Rightarrow> content_length option s3res" where
  "content_length E hs =
     (case hdr_get hs ''content-length'' of
        None \<Rightarrow> Ok None
      | Some value \<Rightarrow>
          and_then (ok_or (invalid_request ''Content-Length must be valid ASCII'')
            (x_to_str E value)) (\<lambda>s.
          map_err (\<lambda>_. invalid_request ''Content-Length must be an integer'')
            (map_ok Some (ContentLength_from_str s))))"

section \<open>Payload hash modes\<close>

definition payload_hash_mode :: "ext \<Rightarrow> headers \<Rightarrow> payload_mode s3res" where
  "payload_hash_mode E hs =
     and_then (optional_singleton_header hs ''x-amz-content-sha256'') (\<lambda>v.
     and_then (case v of
                 None \<Rightarrow> Ok None
               | Some b \<Rightarrow> map_ok Some (ok_or
                   (invalid_request ''x-amz-content-sha256 must be valid ASCII'') (x_to_str E b)))
       (\<lambda>value.
     map_err (\<lambda>_. invalid_request ''Unsupported x-amz-content-sha256 payload mode'')
       (PayloadHashMode_parse E value)))"

definition validate_payload_hash_mode :: "ext \<Rightarrow> headers \<Rightarrow> unit s3res" where
  "validate_payload_hash_mode E hs =
     and_then (payload_hash_mode E hs) (\<lambda>mode.
       if is_aws_chunked_request E hs then
         (case mode of
            PH_StreamingSignedPayload \<Rightarrow> Ok ()
          | PH_StreamingSignedPayloadTrailer \<Rightarrow> Ok ()
          | PH_StreamingUnsignedPayloadTrailer \<Rightarrow> Ok ()
          | _ \<Rightarrow> Err (invalid_request
              ''Unsupported x-amz-content-sha256 payload mode for aws-chunked upload''))
       else
         (case mode of
            PH_Missing \<Rightarrow> Ok ()
          | PH_UnsignedPayload \<Rightarrow> Ok ()
          | PH_FixedSha256 _ _ \<Rightarrow> Ok ()
          | _ \<Rightarrow> Err (invalid_request ''Unsupported x-amz-content-sha256 payload mode'')))"

definition validate_fixed_sha256_payload_hash :: "ext \<Rightarrow> headers \<Rightarrow> bytes \<Rightarrow> unit s3res" where
  "validate_fixed_sha256_payload_hash E hs actual =
     and_then (payload_hash_mode E hs) (\<lambda>mode.
       case mode of
         PH_Missing \<Rightarrow> Ok ()
       | PH_UnsignedPayload \<Rightarrow> Ok ()
       | PH_FixedSha256 _ digest \<Rightarrow>
           if digest \<noteq> actual
           then Err (bad_digest
             ''The provided x-amz-content-sha256 header does not match what was computed.'')
           else Ok ()
       | _ \<Rightarrow> Err (invalid_request ''Unsupported x-amz-content-sha256 payload mode''))"

text \<open>For ordinary bodies the two validators of the source have the same match.\<close>

definition validate_actual_sha256_payload_hash :: "ext \<Rightarrow> headers \<Rightarrow> bytes \<Rightarrow> unit s3res" where
  "validate_actual_sha256_payload_hash E hs actual =
     (if is_aws_chunked_request E hs then Ok ()
      else validate_fixed_sha256_payload_hash E hs actual)"

definition requires_actual_sha256_payload_hash :: "ext \<Rightarrow> headers \<Rightarrow> bool" where
  "requires_actual_sha256_payload_hash E hs =
     (if is_aws_chunked_request E hs then False
      else case payload_hash_mode E hs of Ok (PH_FixedSha256 _ _) \<Rightarrow> True | _ \<Rightarrow> False)"

section \<open>Length and size checks\<close>

definition validate_decoded_content_length :: "ext \<Rightarrow> headers \<Rightarrow> nat \<Rightarrow> unit s3res" where
  "validate_decoded_content_length E hs actual =
     and_then (decoded_content_length E hs) (\<lambda>l.
     and_then (ok_or (invalid_request
       ''x-amz-decoded-content-length is required for aws-chunked uploads'') l) (\<lambda>expected.
     if expected \<noteq> actual
     then Err (invalid_request ''x-amz-decoded-content-length does not match decoded body length'')
     else Ok ()))"

definition validate_decoded_size_limit :: "nat \<Rightarrow> nat \<Rightarrow> nat \<Rightarrow> unit s3res" where
  "validate_decoded_size_limit bytes_read next_chunk_len max_decoded_size =
     (if u64_saturating_add bytes_read next_chunk_len > max_decoded_size
      then Err (entity_too_large ''Your proposed upload exceeds the maximum allowed size.'')
      else Ok ())"

definition validate_plain_body_chunk_length :: "nat option \<Rightarrow> nat \<Rightarrow> nat \<Rightarrow> unit s3res" where
  "validate_plain_body_chunk_length expected bytes_read next_chunk_len =
     (case expected of
        None \<Rightarrow> Ok ()
      | Some n \<Rightarrow>
          if u64_saturating_add bytes_read next_chunk_len > n
          then Err (invalid_request ''Content-Length does not match request body length'')
          else Ok ())"

definition validate_plain_content_length :: "nat option \<Rightarrow> nat \<Rightarrow> unit s3res" where
  "validate_plain_content_length expected actual =
     (case expected of
        None \<Rightarrow> Ok ()
      | Some n \<Rightarrow>
          if n \<noteq> actual
          then Err (invalid_request ''Content-Length does not match request body length'')
          else Ok ())"

section \<open>The running state of an upload\<close>

definition checksum_trailer_declares :: "ext \<Rightarrow> headers \<Rightarrow> string \<Rightarrow> bool" where
  "checksum_trailer_declares E hs name =
     (case Option.bind (hdr_get hs ''x-amz-trailer'') (x_to_str E) of
        None \<Rightarrow> False | Some value \<Rightarrow> csv_mentions value name)"

definition checksum_header_or_declared_trailer :: "ext \<Rightarrow> headers \<Rightarrow> string \<Rightarrow> bool" where
  "checksum_header_or_declared_trailer E hs name \<longleftrightarrow>
     hdr_contains hs name \<or> checksum_trailer_declares E hs name"

record upload_body_state =
  ub_md5 :: bytes
  ub_sha256 :: "bytes option"
  ub_sha1 :: "bytes option"
  ub_sha512 :: "bytes option"
  ub_crc32 :: "bytes option"
  ub_crc32c :: "bytes option"
  ub_size :: nat

text \<open>\<open>cond.then(Hasher::new)\<close>.\<close>

definition new_hasher :: "bool \<Rightarrow> bytes option" where
  "new_hasher b = (if b then Some [] else None)"

definition UploadBodyState_new :: "ext \<Rightarrow> headers \<Rightarrow> upload_body_state" where
  "UploadBodyState_new E hs =
     \<lparr>ub_md5 = [],
      ub_sha256 = new_hasher (requires_actual_sha256_payload_hash E hs
                    \<or> checksum_header_or_declared_trailer E hs ''x-amz-checksum-sha256''),
      ub_sha1 = new_hasher (checksum_header_or_declared_trailer E hs ''x-amz-checksum-sha1''),
      ub_sha512 = new_hasher (checksum_header_or_declared_trailer E hs ''x-amz-checksum-sha512''),
      ub_crc32 = new_hasher (checksum_header_or_declared_trailer E hs ''x-amz-checksum-crc32''),
      ub_crc32c = new_hasher (checksum_header_or_declared_trailer E hs ''x-amz-checksum-crc32c''),
      ub_size = 0\<rparr>"

record sink =
  sk_bytes :: bytes
  sk_faults :: "(nat \<times> string) option list"

text \<open>\<open>AsyncWriteExt::write_all\<close>.\<close>

definition write_all :: "sink \<Rightarrow> bytes \<Rightarrow> sink \<times> (unit, string) result" where
  "write_all w b =
     (case sk_faults w of
        [] \<Rightarrow> (w\<lparr>sk_bytes := sk_bytes w @ b\<rparr>, Ok ())
      | None # fs \<Rightarrow> (w\<lparr>sk_bytes := sk_bytes w @ b, sk_faults := fs\<rparr>, Ok ())
      | Some (n, msg) # fs \<Rightarrow>
          (w\<lparr>sk_bytes := sk_bytes w @ take n b, sk_faults := fs\<rparr>, Err msg))"

abbreviation feed :: "bytes \<Rightarrow> bytes option \<Rightarrow> bytes option" where
  "feed chunk \<equiv> map_option (\<lambda>fed. fed @ chunk)"

definition update_state :: "bytes \<Rightarrow> upload_body_state \<Rightarrow> upload_body_state" where
  "update_state chunk s =
     s\<lparr>ub_size := u64_wrapping_add (ub_size s) (length chunk),
       ub_md5 := ub_md5 s @ chunk,
       ub_sha256 := feed chunk (ub_sha256 s),
       ub_sha1 := feed chunk (ub_sha1 s),
       ub_sha512 := feed chunk (ub_sha512 s),
       ub_crc32 := feed chunk (ub_crc32 s),
       ub_crc32c := feed chunk (ub_crc32c s)\<rparr>"

definition write_body_chunk ::
  "sink \<Rightarrow> bytes \<Rightarrow> upload_body_state \<Rightarrow> string \<Rightarrow> (sink \<times> upload_body_state) \<times> unit s3res" where
  "write_body_chunk w chunk s write_target =
     (let s' = update_state chunk s
      in case write_all w chunk of
           (w', r) \<Rightarrow> ((w', s'),
             map_err (\<lambda>msg. internal_error (''failed to write '' @ write_target @ '': '' @ msg)) r))"

section \<open>The state invariant\<close>

text \<open>
  Every hasher that exists has been fed exactly the bytes in the sink, and the size counts
  them; the sink's content is within the limit.
\<close>

definition fed_with :: "bytes option \<Rightarrow> bytes \<Rightarrow> bool" where
  "fed_with h b \<longleftrightarrow> h = None \<or> h = Some b"

definition upload_inv :: "nat \<Rightarrow> sink \<times> upload_body_state \<Rightarrow> bool" where
  "upload_inv limit ws \<longleftrightarrow> (case ws of (w, s) \<Rightarrow>
     ub_md5 s = sk_bytes w \<and> ub_size s = length (sk_bytes w) \<and> length (sk_bytes w) \<le> limit
     \<and> fed_with (ub_sha256 s) (sk_bytes w) \<and> fed_with (ub_sha1 s) (sk_bytes w)
     \<and> fed_with (ub_sha512 s) (sk_bytes w) \<and> fed_with (ub_crc32 s) (sk_bytes w)
     \<and> fed_with (ub_crc32c s) (sk_bytes w))"

text \<open>Which hashers exist: fixed when the state is created, unchanged by every chunk.\<close>

definition hashers :: "upload_body_state \<Rightarrow> bool list" where
  "hashers s = map (\<lambda>h. h \<noteq> None)
     [ub_sha256 s, ub_sha1 s, ub_sha512 s, ub_crc32 s, ub_crc32c s]"

lemma fed_with_feed: "fed_with h b \<Longrightarrow> fed_with (feed c h) (b @ c)"
  by (auto simp: fed_with_def)

lemma fed_with_new [simp]: "fed_with (new_hasher b) []"
  by (simp add: fed_with_def new_hasher_def)

lemma new_hasher_None [simp]: "new_hasher b = None \<longleftrightarrow> \<not> b"
  by (simp add: new_hasher_def)

lemma write_all_Ok:
  "write_all w b = (w', Ok u) \<Longrightarrow> sk_bytes w' = sk_bytes w @ b"
  by (auto simp: write_all_def split: list.splits option.splits)

lemma hashers_update_state [simp]: "hashers (update_state c s) = hashers s"
  by (simp add: hashers_def update_state_def)

lemma write_body_chunk_hashers:
  "write_body_chunk w c s t = ((w', s'), r) \<Longrightarrow> hashers s' = hashers s"
  by (auto simp: write_body_chunk_def Let_def split: prod.splits)

lemma size_limit_Ok [res_simps]:
  "validate_decoded_size_limit a b limit = Ok u \<longleftrightarrow> u64_saturating_add a b \<le> limit"
  by (auto simp: validate_decoded_size_limit_def)

lemma saturating_within:
  "u64_saturating_add a b \<le> limit \<Longrightarrow> limit < u64_max \<Longrightarrow>
     a + b \<le> limit \<and> u64_wrapping_add a b = a + b"
  by (simp add: u64_saturating_add_def u64_wrapping_add_def min_def split: if_splits)

lemma write_body_chunk_inv:
  assumes "upload_inv limit (w, s)" "limit < u64_max"
    and "validate_decoded_size_limit (ub_size s) (length c) limit = Ok u"
    and "write_body_chunk w c s t = ((w', s'), Ok v)"
  shows "upload_inv limit (w', s') \<and> sk_bytes w' = sk_bytes w @ c"
proof -
  from assms(4) have w': "sk_bytes w' = sk_bytes w @ c" and s': "s' = update_state c s"
    by (auto simp: write_body_chunk_def Let_def res_simps split: prod.splits dest: write_all_Ok)
  from assms(2,3) have "ub_size s + length c \<le> limit
      \<and> u64_wrapping_add (ub_size s) (length c) = ub_size s + length c"
    using saturating_within by (simp add: res_simps)
  with assms(1) w' s' show ?thesis
    by (simp add: upload_inv_def update_state_def fed_with_feed)
qed

lemma upload_inv_new [simp]:
  "upload_inv limit (\<lparr>sk_bytes = [], sk_faults = fs\<rparr>, UploadBodyState_new E hs)"
  by (simp add: upload_inv_def UploadBodyState_new_def)

end
