(* ===== verification/Aws_Chunked.thy ===== *)
theory Aws_Chunked
  imports Upload_State
begin

text \<open>
  The \<open>aws-chunked\<close> framing. First the decoder for complete buffers of
  \<open>src/body/aws_chunked.rs\<close>, then the streaming parser of \<open>src/body/upload.rs\<close>: chunk
  headers, the signature chain, and the parser's state machine, one \<open>parser_step\<close> per
  iteration of the loop in \<open>push_and_write\<close>.

  A configuration is the parser, the sink and the upload state. The \<open>usize\<close> sum
  \<open>sz + 2\<close> wraps around at 64 bits, as it does in a release build.
\<close>

section \<open>The decoder for complete buffers\<close>

datatype aws_chunked_error =
    UnexpectedEndOfBody
  | InvalidChunkSize string
  | MissingChunkTerminator
  | NonUtf8ControlLine
  | MalformedTrailer string
  | DuplicateTrailer string

record decoded_body =
  db_data :: bytes
  db_trailers :: trailers

text \<open>\<open>slice.get(a..b)\<close>.\<close>

definition slice_get :: "bytes \<Rightarrow> nat \<Rightarrow> nat \<Rightarrow> bytes option" where
  "slice_get s a b = (if a \<le> b \<and> b \<le> length s then Some (take (b - a) (drop a s)) else None)"

definition read_crlf_line :: "bytes \<Rightarrow> nat \<Rightarrow> (string \<times> nat, aws_chunked_error) result" where
  "read_crlf_line encoded cursor =
     (if cursor > length encoded then Err UnexpectedEndOfBody
      else
        let remaining = drop cursor encoded
        in case find_crlf remaining of
             None \<Rightarrow> Err UnexpectedEndOfBody
           | Some offset \<Rightarrow>
               if utf8_valid (take offset remaining)
               then Ok (take offset remaining, cursor + offset + 2)
               else Err NonUtf8ControlLine)"

lemma read_crlf_line_advances:
  "read_crlf_line s c = Ok (l, c') \<Longrightarrow> c < c' \<and> c' \<le> length s"
  by (auto simp: read_crlf_line_def Let_def split: if_splits option.splits dest: find_crlf_bound)

text \<open>The key and value of a trailer line.\<close>

definition trailer_name :: "string \<Rightarrow> string" where
  "trailer_name name = to_ascii_lowercase (trim name)"

function read_trailers ::
  "bytes \<Rightarrow> trailers \<Rightarrow> nat \<Rightarrow> (trailers \<times> nat, aws_chunked_error) result" where
  "read_trailers encoded ts cursor =
     (case read_crlf_line encoded cursor of
        Err e \<Rightarrow> Err e
      | Ok (line, cursor') \<Rightarrow>
          if line = [] then Ok (ts, cursor')
          else case split_once (CHR '':'') line of
                 None \<Rightarrow> Err (MalformedTrailer line)
               | Some (name, value) \<Rightarrow>
                   if bt_contains ts (trailer_name name)
                   then Err (DuplicateTrailer (trailer_name name))
                   else read_trailers encoded (bt_insert (trailer_name name) (trim value) ts) cursor')"
  by pat_completeness auto
termination
  by (relation "measure (\<lambda>(s, ts, c). length s - c)") (auto dest: read_crlf_line_advances)

text \<open>
  The chunk loop. \<open>None\<close> is a panic: the sum \<open>sz + 2\<close> overflows in the test build this
  decoder belongs to.
\<close>

function decode_loop ::
  "bytes \<Rightarrow> bytes \<Rightarrow> nat \<Rightarrow> (decoded_body, aws_chunked_error) result option" where
  "decode_loop encoded acc cursor =
     (case read_crlf_line encoded cursor of
        Err e \<Rightarrow> Some (Err e)
      | Ok (line, cursor') \<Rightarrow>
          (let size_token = trim (case split_once (CHR '';'') line of
                                    None \<Rightarrow> line | Some (sz, _) \<Rightarrow> sz)
           in case from_str_radix 64 16 size_token of
                None \<Rightarrow> Some (Err (InvalidChunkSize size_token))
              | Some sz \<Rightarrow>
                  if sz = 0 then
                    Some (map_ok (\<lambda>(ts, _). \<lparr>db_data = acc, db_trailers = ts\<rparr>)
                      (read_trailers encoded bt_empty cursor'))
                  else if sz + 2 \<ge> 2 ^ 64 then None
                  else if length encoded - cursor' < sz + 2
                  then Some (Err UnexpectedEndOfBody)
                  else if slice_get encoded (cursor' + sz) (cursor' + sz + 2) \<noteq> Some CRLF
                  then Some (Err MissingChunkTerminator)
                  else decode_loop encoded (acc @ take sz (drop cursor' encoded))
                         (cursor' + sz + 2)))"
  by pat_completeness auto
termination
  by (relation "measure (\<lambda>(s, acc, c). length s - c)")
    (auto dest!: read_crlf_line_advances)

definition decode_aws_chunked_body ::
  "bytes \<Rightarrow> (decoded_body, aws_chunked_error) result option" where
  "decode_aws_chunked_body encoded = decode_loop encoded [] 0"

declare read_trailers.simps [simp del] decode_loop.simps [simp del]

section \<open>Chunk headers\<close>

record chunk_header =
  ch_size :: nat
  ch_signature :: "string option"

fun chunk_extension_loop :: "string option \<Rightarrow> string list \<Rightarrow> string option s3res" where
  "chunk_extension_loop sig [] = Ok sig"
| "chunk_extension_loop sig (extension # rest) =
     (if trim extension = [] then chunk_extension_loop sig rest
      else case split_once (CHR ''='') extension of
        None \<Rightarrow> Err (invalid_request (''aws-chunked chunk extension is malformed: '' @ extension))
      | Some (name, value) \<Rightarrow>
          if \<not> eq_ignore_ascii_case (trim name) ''chunk-signature''
          then chunk_extension_loop sig rest
          else if sig \<noteq> None
          then Err (invalid_request ''aws-chunked chunk-signature appears more than once'')
          else if \<not> is_lowercase_sha256_hex (trim value)
          then Err (invalid_request
                 ''aws-chunked chunk-signature must be lowercase 64-character hex'')
          else chunk_extension_loop (Some (trim value)) rest)"

definition parse_aws_chunk_header :: "string \<Rightarrow> chunk_header s3res" where
  "parse_aws_chunk_header line =
     (let (size_token, extensions) =
        (case split_once (CHR '';'') line of
           None \<Rightarrow> (trim line, [])
         | Some (sz, extensions) \<Rightarrow> (trim sz, extensions))
      in and_then (ok_or (invalid_request (''aws-chunked chunk size is invalid: '' @ size_token))
           (from_str_radix 64 16 size_token)) (\<lambda>sz.
         map_ok (\<lambda>sig. \<lparr>ch_size = sz, ch_signature = sig\<rparr>)
           (chunk_extension_loop None (split_on (CHR '';'') extensions))))"

section \<open>The signature chain\<close>

text \<open>\<open>StreamingSigningContext\<close> is declared in \<open>src/auth.rs\<close>.\<close>

record signing_context =
  sc_signing_key :: bytes
  sc_seed_signature :: string
  sc_amz_date :: string
  sc_credential_scope :: string

datatype signature_mode = Payload | PayloadTrailer

record verifier =
  sv_signing_key :: bytes
  sv_previous_signature :: string
  sv_amz_date :: string
  sv_credential_scope :: string
  sv_mode :: signature_mode

definition verifier_new :: "signing_context \<Rightarrow> signature_mode \<Rightarrow> verifier" where
  "verifier_new c mode =
     \<lparr>sv_signing_key = sc_signing_key c, sv_previous_signature = sc_seed_signature c,
      sv_amz_date = sc_amz_date c, sv_credential_scope = sc_credential_scope c, sv_mode = mode\<rparr>"

definition upload_hmac_sha256 :: "ext \<Rightarrow> bytes \<Rightarrow> bytes \<Rightarrow> bytes s3res" where
  "upload_hmac_sha256 E key data =
     ok_or (internal_error ''failed to compute aws-chunked HMAC'') (x_hmac_sha256 E key data)"

definition chunk_string_to_sign :: "ext \<Rightarrow> verifier \<Rightarrow> bytes \<Rightarrow> string" where
  "chunk_string_to_sign E v data =
     ''AWS4-HMAC-SHA256-PAYLOAD'' @ [LF] @ sv_amz_date v @ [LF] @ sv_credential_scope v @ [LF] @
     sv_previous_signature v @ [LF] @ x_hex_encode E (x_sha256 E []) @ [LF] @
     x_hex_encode E (x_sha256 E data)"

definition verifier_verify ::
  "ext \<Rightarrow> verifier \<Rightarrow> string option \<Rightarrow> bytes \<Rightarrow> verifier s3res" where
  "verifier_verify E v provided data =
     (case provided of
        None \<Rightarrow> Err signature_does_not_match
      | Some sig \<Rightarrow>
          and_then (upload_hmac_sha256 E (sv_signing_key v) (chunk_string_to_sign E v data)) (\<lambda>mac.
          if x_hex_encode E mac \<noteq> sig then Err signature_does_not_match
          else Ok (v\<lparr>sv_previous_signature := sig\<rparr>)))"

definition canonical_trailers :: "trailers \<Rightarrow> string" where
  "canonical_trailers ts =
     concat (map (\<lambda>(n, v). n @ '':'' @ v @ [LF])
       (filter (\<lambda>(n, _). n \<noteq> ''x-amz-trailer-signature'') ts))"

definition trailer_string_to_sign :: "ext \<Rightarrow> verifier \<Rightarrow> trailers \<Rightarrow> string" where
  "trailer_string_to_sign E v ts =
     ''AWS4-HMAC-SHA256-TRAILER'' @ [LF] @ sv_amz_date v @ [LF] @ sv_credential_scope v @ [LF] @
     sv_previous_signature v @ [LF] @ x_hex_encode E (x_sha256 E (canonical_trailers ts))"

definition verifier_verify_trailer :: "ext \<Rightarrow> verifier \<Rightarrow> trailers \<Rightarrow> verifier s3res" where
  "verifier_verify_trailer E v ts =
     (if sv_mode v \<noteq> PayloadTrailer then Ok v
      else
        and_then (ok_or signature_does_not_match (bt_get ts ''x-amz-trailer-signature'')) (\<lambda>sig.
        and_then (upload_hmac_sha256 E (sv_signing_key v) (trailer_string_to_sign E v ts)) (\<lambda>mac.
        if x_hex_encode E mac \<noteq> sig then Err signature_does_not_match
        else Ok (v\<lparr>sv_previous_signature := sig\<rparr>))))"

definition streaming_signature_verifier ::
  "ext \<Rightarrow> headers \<Rightarrow> signing_context option \<Rightarrow> verifier option s3res" where
  "streaming_signature_verifier E hs ctx =
     and_then (payload_hash_mode E hs) (\<lambda>m.
       let with_mode = (\<lambda>mode. case ctx of
              None \<Rightarrow> Err signature_does_not_match | Some c \<Rightarrow> Ok (Some (verifier_new c mode)))
       in case m of
            PH_StreamingSignedPayload \<Rightarrow> with_mode Payload
          | PH_StreamingSignedPayloadTrailer \<Rightarrow> with_mode PayloadTrailer
          | _ \<Rightarrow> Ok None)"

section \<open>The streaming parser\<close>

datatype parser_state =
    ChunkHeader
  | ChunkData nat "string option"
  | Trailer
  | Done

record parser =
  pr_buffer :: bytes
  pr_state :: parser_state
  pr_trailers :: trailers
  pr_verifier :: "verifier option"

definition parser_new :: "verifier option \<Rightarrow> parser" where
  "parser_new v =
     \<lparr>pr_buffer = [], pr_state = ChunkHeader, pr_trailers = bt_empty, pr_verifier = v\<rparr>"

definition MAX_AWS_CHUNKED_CONTROL_LINE_BYTES :: nat where
  "MAX_AWS_CHUNKED_CONTROL_LINE_BYTES = 16 * 1024"

definition control_line_too_large :: s3_error where
  "control_line_too_large = invalid_request ''aws-chunked control line is too large''"

text \<open>\<open>None\<close> when no complete line is buffered; otherwise the line and the rest of the buffer.\<close>

definition read_line :: "bytes \<Rightarrow> (string \<times> bytes) option s3res" where
  "read_line buffer =
     (case find_crlf buffer of
        None \<Rightarrow>
          if length buffer > MAX_AWS_CHUNKED_CONTROL_LINE_BYTES
          then Err control_line_too_large else Ok None
      | Some offset \<Rightarrow>
          if utf8_valid (take offset buffer)
          then Ok (Some (take offset buffer, drop (offset + 2) buffer))
          else Err (invalid_request ''aws-chunked control line is not UTF-8''))"

definition verify_chunk_signature ::
  "ext \<Rightarrow> verifier option \<Rightarrow> string option \<Rightarrow> bytes \<Rightarrow> verifier option s3res" where
  "verify_chunk_signature E vo provided data =
     (case vo of None \<Rightarrow> Ok None | Some v \<Rightarrow> map_ok Some (verifier_verify E v provided data))"

definition verify_trailer_signature ::
  "ext \<Rightarrow> verifier option \<Rightarrow> trailers \<Rightarrow> verifier option s3res" where
  "verify_trailer_signature E vo ts =
     (case vo of None \<Rightarrow> Ok None | Some v \<Rightarrow> map_ok Some (verifier_verify_trailer E v ts))"

type_synonym chunk_config = "parser \<times> sink \<times> upload_body_state"

text \<open>
  One iteration of the loop: \<open>Continue\<close>, or the value that \<open>push_and_write\<close> returns. The
  panic of the \<open>Done\<close> arm (\<open>unreachable!\<close>) is \<open>Unreachable\<close>.
\<close>

datatype flow = Continue | Return "trailers option s3res" | Unreachable

definition step_chunk_header :: "ext \<Rightarrow> chunk_config \<Rightarrow> chunk_config \<times> flow" where
  "step_chunk_header E cfg =
     (case cfg of (p, w, s) \<Rightarrow>
      case read_line (pr_buffer p) of
        Err e \<Rightarrow> (cfg, Return (Err e))
      | Ok None \<Rightarrow> (cfg, Return (Ok None))
      | Ok (Some (line, rest)) \<Rightarrow>
          let p' = p\<lparr>pr_buffer := rest\<rparr>
          in case parse_aws_chunk_header line of
               Err e \<Rightarrow> ((p', w, s), Return (Err e))
             | Ok h \<Rightarrow>
                 if ch_size h = 0 then
                   (case verify_chunk_signature E (pr_verifier p) (ch_signature h) [] of
                      Err e \<Rightarrow> ((p', w, s), Return (Err e))
                    | Ok v \<Rightarrow> ((p'\<lparr>pr_verifier := v, pr_state := Trailer\<rparr>, w, s), Continue))
                 else ((p'\<lparr>pr_state := ChunkData (ch_size h) (ch_signature h)\<rparr>, w, s), Continue))"

definition step_chunk_data ::
  "ext \<Rightarrow> string \<Rightarrow> nat \<Rightarrow> nat \<Rightarrow> string option \<Rightarrow> chunk_config \<Rightarrow> chunk_config \<times> flow" where
  "step_chunk_data E write_target max_decoded_size sz sig cfg =
     (case cfg of (p, w, s) \<Rightarrow>
      let need = u64_wrapping_add sz 2
      in if length (pr_buffer p) < need then (cfg, Return (Ok None))
         else if slice_get (pr_buffer p) sz need \<noteq> Some CRLF
         then (cfg, Return (Err (invalid_request ''aws-chunked chunk is missing trailing CRLF'')))
         else
           let data = take sz (pr_buffer p);
               p' = p\<lparr>pr_buffer := drop 2 (drop sz (pr_buffer p))\<rparr>
           in case verify_chunk_signature E (pr_verifier p) sig data of
                Err e \<Rightarrow> ((p', w, s), Return (Err e))
              | Ok v \<Rightarrow>
                  let p'' = p'\<lparr>pr_verifier := v\<rparr>
                  in case validate_decoded_size_limit (ub_size s) (length data) max_decoded_size of
                       Err e \<Rightarrow> ((p'', w, s), Return (Err e))
                     | Ok _ \<Rightarrow>
                         case write_body_chunk w data s write_target of
                           ((w', s'), Err e) \<Rightarrow> ((p'', w', s'), Return (Err e))
                         | ((w', s'), Ok _) \<Rightarrow>
                             ((p''\<lparr>pr_state := ChunkHeader\<rparr>, w', s'), Continue))"

definition step_trailer :: "ext \<Rightarrow> chunk_config \<Rightarrow> chunk_config \<times> flow" where
  "step_trailer E cfg =
     (case cfg of (p, w, s) \<Rightarrow>
      case read_line (pr_buffer p) of
        Err e \<Rightarrow> (cfg, Return (Err e))
      | Ok None \<Rightarrow> (cfg, Return (Ok None))
      | Ok (Some (line, rest)) \<Rightarrow>
          let p' = p\<lparr>pr_buffer := rest\<rparr>
          in if line = [] then
               (case verify_trailer_signature E (pr_verifier p) (pr_trailers p) of
                  Err e \<Rightarrow> ((p', w, s), Return (Err e))
                | Ok v \<Rightarrow>
                    let p'' = p'\<lparr>pr_verifier := v, pr_state := Done\<rparr>
                    in if rest \<noteq> []
                       then ((p'', w, s), Return (Err
                         (invalid_request ''aws-chunked body has data after final trailer'')))
                       else ((p''\<lparr>pr_trailers := bt_empty\<rparr>, w, s),
                             Return (Ok (Some (pr_trailers p)))))
             else case split_once (CHR '':'') line of
                    None \<Rightarrow> ((p', w, s), Return (Err
                      (invalid_request (''aws-chunked trailer is malformed: '' @ line))))
                  | Some (name, value) \<Rightarrow>
                      if bt_contains (pr_trailers p) (trailer_name name)
                      then ((p', w, s), Return (Err (invalid_request
                        (''aws-chunked trailer appears more than once: '' @ trailer_name name))))
                      else ((p'\<lparr>pr_trailers :=
                               bt_insert (trailer_name name) (trim value) (pr_trailers p)\<rparr>, w, s),
                            Continue))"

definition parser_step :: "ext \<Rightarrow> string \<Rightarrow> nat \<Rightarrow> chunk_config \<Rightarrow> chunk_config \<times> flow" where
  "parser_step E write_target max_decoded_size cfg =
     (case pr_state (fst cfg) of
        ChunkHeader \<Rightarrow> step_chunk_header E cfg
      | ChunkData sz sig \<Rightarrow> step_chunk_data E write_target max_decoded_size sz sig cfg
      | Trailer \<Rightarrow> step_trailer E cfg
      | Done \<Rightarrow> (cfg, Unreachable))"

lemma read_line_shrinks: "read_line b = Ok (Some (l, r)) \<Longrightarrow> length r < length b"
  by (auto simp: read_line_def split: option.splits if_splits dest: find_crlf_bound)

lemma slice_get_Some:
  "slice_get s a b = Some x \<longleftrightarrow> a \<le> b \<and> b \<le> length s \<and> x = take (b - a) (drop a s)"
  by (auto simp: slice_get_def)

lemma slice_get_CRLF:
  assumes "slice_get b n k = Some CRLF"
  obtains d r where "b = d @ CRLF @ r" "length d = n" "k = n + 2"
proof -
  from assms have k: "n \<le> k" "k \<le> length b" and crlf: "take (k - n) (drop n b) = CRLF"
    by (simp_all add: slice_get_Some)
  have "length (take (k - n) (drop n b)) = 2"
    by (simp only: crlf) simp
  with k have "k = n + 2" by simp
  with crlf have "drop n b = CRLF @ drop 2 (drop n b)"
    by (metis add_diff_cancel_left' append_take_drop_id)
  then have "b = take n b @ CRLF @ drop 2 (drop n b)"
    by (metis append_take_drop_id)
  moreover have "length (take n b) = n"
    using k by simp
  ultimately show thesis
    using that \<open>k = n + 2\<close> by blast
qed

lemma parser_step_shrinks:
  assumes "parser_step E t m (p, w, s) = ((p', w', s'), Continue)"
  shows "length (pr_buffer p') < length (pr_buffer p)"
proof (cases "pr_state p")
  case (ChunkData sz sig)
  with assms show ?thesis
    by (auto simp: parser_step_def step_chunk_data_def Let_def
        split: if_splits result.splits prod.splits elim!: slice_get_CRLF)
qed (use assms in \<open>auto simp: parser_step_def step_chunk_header_def step_trailer_def Let_def
      split: if_splits result.splits option.splits prod.splits dest!: read_line_shrinks\<close>)

function push_loop :: "ext \<Rightarrow> string \<Rightarrow> nat \<Rightarrow> chunk_config \<Rightarrow> chunk_config \<times> flow" where
  "push_loop E t m cfg =
     (case parser_step E t m cfg of
        (cfg', Continue) \<Rightarrow> push_loop E t m cfg'
      | (cfg', flow) \<Rightarrow> (cfg', flow))"
  by pat_completeness auto
termination
  by (relation "measure (\<lambda>(E, t, m, cfg). length (pr_buffer (fst cfg)))")
    (auto dest: parser_step_shrinks [OF sym])

declare push_loop.simps [simp del]

definition push_and_write ::
  "ext \<Rightarrow> string \<Rightarrow> nat \<Rightarrow> bytes \<Rightarrow> chunk_config \<Rightarrow> chunk_config \<times> flow" where
  "push_and_write E write_target max_decoded_size bytes cfg =
     (case cfg of (p, w, s) \<Rightarrow>
      if pr_state p = Done then
        (if bytes = []
         then ((p\<lparr>pr_trailers := bt_empty\<rparr>, w, s), Return (Ok (Some (pr_trailers p))))
         else (cfg, Return (Err
           (invalid_request ''aws-chunked body has data after final trailer''))))
      else push_loop E write_target max_decoded_size
             (p\<lparr>pr_buffer := pr_buffer p @ bytes\<rparr>, w, s))"

definition parser_finish :: "parser \<Rightarrow> trailers option" where
  "parser_finish p = (if pr_state p = Done then Some (pr_trailers p) else None)"

section \<open>Splitting the input into frames\<close>

text \<open>More bytes at the end of the buffer of a configuration.\<close>

definition more_input :: "bytes \<Rightarrow> chunk_config \<Rightarrow> chunk_config" where
  "more_input c cfg = (case cfg of (p, w, s) \<Rightarrow> (p\<lparr>pr_buffer := pr_buffer p @ c\<rparr>, w, s))"

lemma more_input_Nil [simp]: "more_input [] cfg = cfg"
  by (simp add: more_input_def split: prod.split)

lemma more_input_extend [simp]: "more_input c (more_input b cfg) = more_input (b @ c) cfg"
  by (simp add: more_input_def split: prod.split)

lemma more_input_simps [simp]:
  "pr_state (fst (more_input c cfg)) = pr_state (fst cfg)"
  "snd (more_input c cfg) = snd cfg"
  by (simp_all add: more_input_def split: prod.split)

lemma read_line_Some:
  "read_line b = Ok (Some (l, r)) \<longleftrightarrow>
     find_crlf b = Some (length l) \<and> b = l @ CRLF @ r \<and> utf8_valid l"
proof -
  have "l = take n b \<and> r = drop (n + 2) b \<longleftrightarrow> n = length l \<and> b = l @ CRLF @ r"
    if "find_crlf b = Some n" for n
  proof -
    have "b = take n b @ CRLF @ drop (n + 2) b" "length (take n b) = n"
      using find_crlf_split [OF that] find_crlf_bound [OF that] by simp_all
    then show ?thesis by auto
  qed
  then show ?thesis
    by (auto simp: read_line_def split: option.splits if_splits)
qed

lemma read_line_append: "read_line b = Ok (Some (l, r)) \<Longrightarrow> read_line (b @ c) = Ok (Some (l, r @ c))"
  by (simp add: read_line_Some) (metis append.assoc append_Cons append_Nil find_crlf_append)

lemma read_line_Err_append:
  "read_line b = Err e \<Longrightarrow> e = control_line_too_large \<or> read_line (b @ c) = Err e"
proof (cases "find_crlf b")
  case (Some n)
  then have "take n (b @ c) = take n b"
    using find_crlf_bound [OF Some] by simp
  with Some find_crlf_append [OF Some, of c] show "read_line b = Err e \<Longrightarrow> ?thesis"
    by (auto simp: read_line_def split: if_splits)
qed (auto simp: read_line_def split: if_splits)

lemma slice_get_append:
  "slice_get b n k = Some x \<Longrightarrow> slice_get (b @ c) n k = Some x"
  by (auto simp: slice_get_Some)

lemma slice_get_append_long:
  "k \<le> length b \<Longrightarrow> slice_get (b @ c) n k = slice_get b n k"
  by (auto simp: slice_get_def)

lemma parser_step_Wait:
  "parser_step E t m cfg = (cfg', Return (Ok None)) \<Longrightarrow> cfg' = cfg"
  by (cases "pr_state (fst cfg)")
    (auto simp: parser_step_def step_chunk_header_def step_chunk_data_def step_trailer_def Let_def
      split: if_splits result.splits option.splits prod.splits)

lemma step_chunk_header_append:
  assumes "step_chunk_header E cfg = (cfg', Continue)"
  shows "step_chunk_header E (more_input c cfg) = (more_input c cfg', Continue)"
  using assms
  by (auto simp: step_chunk_header_def more_input_def Let_def read_line_append
      split: if_splits result.splits option.splits prod.splits)

lemma step_trailer_append:
  assumes "step_trailer E cfg = (cfg', Continue)"
  shows "step_trailer E (more_input c cfg) = (more_input c cfg', Continue)"
  using assms
  by (auto simp: step_trailer_def more_input_def Let_def read_line_append
      split: if_splits result.splits option.splits prod.splits)

lemma step_chunk_data_append:
  assumes "step_chunk_data E t m n sig cfg = (cfg', Continue)"
  shows "step_chunk_data E t m n sig (more_input c cfg) = (more_input c cfg', Continue)"
proof -
  obtain p w s where cfg: "cfg = (p, w, s)" by (cases cfg)
  with assms have len: "\<not> length (pr_buffer p) < u64_wrapping_add n 2"
    and sl: "slice_get (pr_buffer p) n (u64_wrapping_add n 2) = Some CRLF"
    by (auto simp: step_chunk_data_def Let_def split: if_splits)
  from sl obtain d r where "pr_buffer p = d @ CRLF @ r" "length d = n"
    by (rule slice_get_CRLF)
  then have "n + 2 \<le> length (pr_buffer p)" by simp
  with assms len sl slice_get_append [OF sl, of c] show ?thesis
    by (auto simp: cfg step_chunk_data_def more_input_def Let_def
        split: if_splits result.splits prod.splits)
qed

text \<open>A step that consumes input does the same when more input follows.\<close>

lemma parser_step_append:
  "parser_step E t m cfg = (cfg', Continue) \<Longrightarrow>
     parser_step E t m (more_input c cfg) = (more_input c cfg', Continue)"
  by (auto simp: parser_step_def step_chunk_header_append step_trailer_append
      step_chunk_data_append split: parser_state.splits)

text \<open>
  A step that ends the call with success or with an error other than the control-line limit
  ends it with an error when more input follows.
\<close>

lemma parser_step_final_append:
  assumes "parser_step E t m cfg = (cfg', Return r)" "r \<noteq> Ok None"
    and "r \<noteq> Err control_line_too_large" "c \<noteq> []"
  shows "\<exists>cfg'' e. parser_step E t m (more_input c cfg) = (cfg'', Return (Err e))"
proof -
  obtain p w s where cfg: "cfg = (p, w, s)" by (cases cfg)
  show ?thesis
  proof (cases "pr_state p")
    case ChunkHeader
    with assms cfg show ?thesis
      using read_line_Err_append [of "pr_buffer p" _ c]
      by (fastforce simp: parser_step_def step_chunk_header_def more_input_def Let_def read_line_append
          split: if_splits result.splits option.splits prod.splits)
  next
    case (ChunkData n sig)
    with assms cfg show ?thesis
      using slice_get_append_long [of "u64_wrapping_add n 2" "pr_buffer p" c n]
      by (auto simp: parser_step_def step_chunk_data_def more_input_def Let_def
          split: if_splits result.splits prod.splits elim!: slice_get_CRLF)
  next
    case Trailer
    with assms cfg show ?thesis
      using read_line_Err_append [of "pr_buffer p" _ c]
      by (fastforce simp: parser_step_def step_trailer_def more_input_def Let_def read_line_append
          split: if_splits result.splits option.splits prod.splits)
  next
    case Done
    with assms cfg show ?thesis by (simp add: parser_step_def)
  qed
qed

lemma push_loop_Continue:
  "parser_step E t m cfg = (cfg', Continue) \<Longrightarrow> push_loop E t m cfg = push_loop E t m cfg'"
  by (subst push_loop.simps) simp

lemma push_loop_stop:
  "parser_step E t m cfg = (cfg', f) \<Longrightarrow> f \<noteq> Continue \<Longrightarrow> push_loop E t m cfg = (cfg', f)"
  by (subst push_loop.simps) (simp split: flow.split)

lemma push_loop_cases:
  assumes "push_loop E t m cfg = (cfg', f)"
  obtains (stop) "parser_step E t m cfg = (cfg', f)" "f \<noteq> Continue"
  | (go) cfg1 where "parser_step E t m cfg = (cfg1, Continue)" "push_loop E t m cfg1 = (cfg', f)"
proof (cases "parser_step E t m cfg")
  case (Pair cfg1 g)
  then show ?thesis
    using assms that push_loop_Continue [of E t m cfg cfg1] push_loop_stop [of E t m cfg cfg1 g]
    by (cases "g = Continue") auto
qed

text \<open>Waiting for input and then continuing is the same as having the input at once.\<close>

lemma push_loop_resume:
  "push_loop E t m cfg = (cfg', Return (Ok None)) \<Longrightarrow>
     push_loop E t m (more_input c cfg) = push_loop E t m (more_input c cfg')"
proof (induction E t m cfg rule: push_loop.induct)
  case (1 E t m cfg)
  from "1.prems" show ?case
  proof (cases rule: push_loop_cases)
    case stop
    then show ?thesis using parser_step_Wait by blast
  next
    case (go cfg1)
    with 1 have "push_loop E t m (more_input c cfg1) = push_loop E t m (more_input c cfg')" by metis
    with go show ?thesis using parser_step_append push_loop_Continue by metis
  qed
qed

lemma push_loop_prefix_ok:
  "push_loop E t m (more_input c cfg) = (cfg'', Return (Ok r)) \<Longrightarrow> c \<noteq> [] \<Longrightarrow>
     \<exists>cfg'. push_loop E t m cfg = (cfg', Return (Ok None))
        \<or> push_loop E t m cfg = (cfg', Return (Err control_line_too_large))"
proof (induction E t m cfg rule: push_loop.induct)
  case (1 E t m cfg)
  obtain cfg1 f where st: "parser_step E t m cfg = (cfg1, f)" by fastforce
  show ?case
  proof (cases f)
    case Continue
    with st have "push_loop E t m (more_input c cfg1) = (cfg'', Return (Ok r))"
      using "1.prems"(1) parser_step_append push_loop_Continue by metis
    with 1 st Continue show ?thesis
      using push_loop_Continue by metis
  next
    case (Return q)
    have "q = Ok None \<or> q = Err control_line_too_large"
    proof (rule ccontr)
      assume "\<not> ?thesis"
      then obtain cfg2 e where "parser_step E t m (more_input c cfg) = (cfg2, Return (Err e))"
        using parser_step_final_append st Return "1.prems"(2) by metis
      then have "push_loop E t m (more_input c cfg) = (cfg2, Return (Err e))"
        using push_loop_stop by blast
      with "1.prems"(1) show False by simp
    qed
    with st Return show ?thesis using push_loop_stop by blast
  next
    case Unreachable
    with st have "pr_state (fst cfg) = Done"
      by (auto simp: parser_step_def step_chunk_header_def step_chunk_data_def step_trailer_def
          Let_def split: parser_state.splits if_splits result.splits option.splits prod.splits)
    then have "push_loop E t m (more_input c cfg) = (more_input c cfg, Unreachable)"
      by (intro push_loop_stop) (simp_all add: parser_step_def)
    with "1.prems"(1) show ?thesis by simp
  qed
qed

section \<open>The grammar of aws-chunked bodies\<close>

text \<open>
  The abstract specification of the parser: what a well-framed, correctly signed body is,
  with its chunks and trailers. A control line ends at the first \<open>CRLF\<close> and is UTF-8.
\<close>

definition control_line :: "string \<Rightarrow> bool" where
  "control_line l \<longleftrightarrow> find_crlf (l @ CRLF) = Some (length l) \<and> utf8_valid l"

inductive trailer_block ::
  "ext \<Rightarrow> verifier option \<Rightarrow> trailers \<Rightarrow> bytes \<Rightarrow> trailers \<Rightarrow> bool" for E v where
  trailer_end: "verify_trailer_signature E v ts = Ok v' \<Longrightarrow> trailer_block E v ts CRLF ts"
| trailer_line: "control_line l \<Longrightarrow> l \<noteq> [] \<Longrightarrow> split_once (CHR '':'') l = Some (name, val) \<Longrightarrow>
    \<not> bt_contains ts (trailer_name name) \<Longrightarrow>
    trailer_block E v (bt_insert (trailer_name name) (trim val) ts) rest ts' \<Longrightarrow>
    trailer_block E v ts (l @ CRLF @ rest) ts'"

inductive framed ::
  "ext \<Rightarrow> verifier option \<Rightarrow> bytes \<Rightarrow> bytes list \<Rightarrow> trailers \<Rightarrow> bool" for E where
  framed_last: "control_line l \<Longrightarrow> parse_aws_chunk_header l = Ok h \<Longrightarrow> ch_size h = 0 \<Longrightarrow>
    verify_chunk_signature E v (ch_signature h) [] = Ok v' \<Longrightarrow>
    trailer_block E v' bt_empty rest ts \<Longrightarrow>
    framed E v (l @ CRLF @ rest) [] ts"
| framed_chunk: "control_line l \<Longrightarrow> parse_aws_chunk_header l = Ok h \<Longrightarrow> ch_size h = length d \<Longrightarrow>
    d \<noteq> [] \<Longrightarrow> verify_chunk_signature E v (ch_signature h) d = Ok v' \<Longrightarrow>
    framed E v' rest cs ts \<Longrightarrow>
    framed E v (l @ CRLF @ d @ CRLF @ rest) (d # cs) ts"

lemma read_line_control_line:
  "read_line b = Ok (Some (l, r)) \<longleftrightarrow> b = l @ CRLF @ r \<and> control_line l"
proof -
  have "find_crlf (l @ CRLF @ r) = Some (length l) \<longleftrightarrow> find_crlf (l @ CRLF) = Some (length l)"
  proof -
    obtain n where n: "find_crlf (l @ CRLF) = Some n"
      using find_crlf_None [of "l @ CRLF"] by fastforce
    then have "find_crlf (l @ CRLF @ r) = Some n"
      using find_crlf_append [OF n, of r] by simp
    with n show ?thesis by simp
  qed
  then show ?thesis
    by (auto simp: read_line_Some control_line_def)
qed

text \<open>A configuration in which the parser reads the input \<open>b\<close>.\<close>

abbreviation reading :: "parser_state \<Rightarrow> trailers \<Rightarrow> verifier option \<Rightarrow> bytes \<Rightarrow> parser" where
  "reading st ts v b \<equiv> \<lparr>pr_buffer = b, pr_state = st, pr_trailers = ts, pr_verifier = v\<rparr>"

text \<open>What a successful call from each parser state says of the input it consumed.\<close>

definition consumed :: "ext \<Rightarrow> parser \<Rightarrow> bytes list \<Rightarrow> trailers \<Rightarrow> bool" where
  "consumed E p cs ts =
     (case pr_state p of
        ChunkHeader \<Rightarrow>
          pr_trailers p = bt_empty \<longrightarrow> framed E (pr_verifier p) (pr_buffer p) cs ts
      | ChunkData n sig \<Rightarrow>
          pr_trailers p = bt_empty \<longrightarrow> (\<exists>d rest v' cs'. pr_buffer p = d @ CRLF @ rest \<and> length d = n
            \<and> verify_chunk_signature E (pr_verifier p) sig d = Ok v'
            \<and> cs = d # cs' \<and> framed E v' rest cs' ts)
      | Trailer \<Rightarrow> cs = [] \<and> trailer_block E (pr_verifier p) (pr_trailers p) (pr_buffer p) ts
      | Done \<Rightarrow> False)"

lemma consumed_header_step:
  assumes "step_chunk_header E (p, w, s) = ((p1, w1, s1), Continue)" "pr_state p = ChunkHeader"
    and "consumed E p1 cs ts"
  shows "consumed E p cs ts \<and> w1 = w"
proof -
  from assms(1) obtain l r h where l: "read_line (pr_buffer p) = Ok (Some (l, r))"
    and h: "parse_aws_chunk_header l = Ok h" and w: "w1 = w"
    and p1: "if ch_size h = 0
       then \<exists>v. verify_chunk_signature E (pr_verifier p) (ch_signature h) [] = Ok v
              \<and> p1 = p\<lparr>pr_buffer := r, pr_verifier := v, pr_state := Trailer\<rparr>
       else p1 = p\<lparr>pr_buffer := r, pr_state := ChunkData (ch_size h) (ch_signature h)\<rparr>"
    by (auto simp: step_chunk_header_def Let_def split: if_splits result.splits option.splits)
  from l have b: "pr_buffer p = l @ CRLF @ r" and cl: "control_line l"
    by (simp_all add: read_line_control_line)
  show ?thesis
  proof (cases "ch_size h = 0")
    case True
    with p1 assms(2,3) w b h cl show ?thesis
      by (auto simp: consumed_def framed_last [simplified])
  next
    case False
    with p1 assms(2,3) w b h cl show ?thesis
      using framed_chunk [of l h _ E "pr_verifier p"]
      by (auto simp: consumed_def) (metis length_0_conv less_irrefl)
  qed
qed

lemma consumed_data_step:
  assumes "step_chunk_data E t m n sig (p, w, s) = ((p1, w1, s1), Continue)"
    and "pr_state p = ChunkData n sig" "consumed E p1 cs ts"
  shows "\<exists>d. consumed E p (d # cs) ts \<and> sk_bytes w1 = sk_bytes w @ d"
proof -
  from assms(1) have sl: "slice_get (pr_buffer p) n (u64_wrapping_add n 2) = Some CRLF"
    by (auto simp: step_chunk_data_def Let_def split: if_splits)
  then obtain d r where b: "pr_buffer p = d @ CRLF @ r" and d: "length d = n"
    by (rule slice_get_CRLF)
  from assms(1) b d obtain v where
    v: "verify_chunk_signature E (pr_verifier p) sig d = Ok v"
    and wr: "write_body_chunk w d s t = ((w1, s1), Ok ())"
    and p1: "p1 = p\<lparr>pr_buffer := r, pr_verifier := v, pr_state := ChunkHeader\<rparr>"
    by (auto simp: step_chunk_data_def Let_def split: if_splits result.splits prod.splits)
  from wr have "sk_bytes w1 = sk_bytes w @ d"
    by (auto simp: write_body_chunk_def Let_def res_simps split: prod.splits dest: write_all_Ok)
  moreover from assms(2,3) p1 b d v have "consumed E p (d # cs) ts"
    by (auto simp: consumed_def)
  ultimately show ?thesis by blast
qed

lemma consumed_trailer_step:
  assumes "step_trailer E (p, w, s) = ((p1, w1, s1), Continue)" "pr_state p = Trailer"
    and "consumed E p1 cs ts"
  shows "consumed E p cs ts \<and> w1 = w"
  using assms trailer_line [of _ _ _ "pr_trailers p" E "pr_verifier p"]
  by (auto simp: step_trailer_def Let_def consumed_def read_line_control_line
      split: if_splits result.splits option.splits)

lemma consumed_trailer_end:
  assumes "step_trailer E (p, w, s) = ((p1, w1, s1), Return (Ok (Some ts)))" "pr_state p = Trailer"
  shows "consumed E p [] ts \<and> w1 = w"
  using assms
  by (auto simp: step_trailer_def Let_def consumed_def read_line_control_line
      split: if_splits result.splits option.splits dest: trailer_end)

text \<open>Soundness: what the parser accepts is well framed, and it writes exactly the chunks.\<close>

lemma push_loop_sound:
  "push_loop E t m (p, w, s) = ((p', w', s'), Return (Ok (Some ts))) \<Longrightarrow>
     \<exists>cs. consumed E p cs ts \<and> sk_bytes w' = sk_bytes w @ concat cs"
proof (induction "length (pr_buffer p)" arbitrary: p w s rule: less_induct)
  case less
  from less.prems show ?case
  proof (cases rule: push_loop_cases)
    case stop
    then have "pr_state p = Trailer"
      by (auto simp: parser_step_def step_chunk_header_def step_chunk_data_def Let_def
          split: parser_state.splits if_splits result.splits option.splits prod.splits)
    with stop have "consumed E p [] ts \<and> w' = w"
      by (intro consumed_trailer_end) (auto simp: parser_step_def)
    then show ?thesis by (intro exI [of _ "[]"]) simp
  next
    case (go cfg1)
    obtain p1 w1 s1 where cfg1: "cfg1 = (p1, w1, s1)" by (cases cfg1)
    with go less.hyps parser_step_shrinks obtain cs where
      cs: "consumed E p1 cs ts" "sk_bytes w' = sk_bytes w1 @ concat cs" by blast
    show ?thesis
    proof (cases "pr_state p")
      case (ChunkData n sig)
      with go cfg1 cs consumed_data_step [of E t m n sig p w s p1 w1 s1 cs ts] obtain d where
        "consumed E p (d # cs) ts" "sk_bytes w1 = sk_bytes w @ d"
        by (auto simp: parser_step_def)
      with cs show ?thesis by (intro exI [of _ "d # cs"]) simp
    qed (use go cfg1 cs consumed_header_step consumed_trailer_step in
        \<open>fastforce simp: parser_step_def\<close>)+
  qed
qed

text \<open>
  Completeness: a well-framed body within the size limit is accepted, provided the sink does
  not fail, and its chunks are written. The limit leaves room for the two bytes of \<open>CRLF\<close>.
\<close>

lemma push_loop_trailers:
  "trailer_block E v ts b ts' \<Longrightarrow>
     \<exists>p'. push_loop E t m (reading Trailer ts v b, w, s) = ((p', w, s), Return (Ok (Some ts')))"
proof (induction rule: trailer_block.induct)
  case (trailer_end ts v')
  have "read_line CRLF = Ok (Some ([], []))"
    by (simp add: read_line_control_line control_line_def)
  with trailer_end show ?case
    by (intro exI) (rule push_loop_stop, simp_all add: parser_step_def step_trailer_def Let_def)
next
  case (trailer_line l name val ts rest ts')
  have "read_line (l @ CRLF @ rest) = Ok (Some (l, rest))"
    using trailer_line by (simp add: read_line_control_line)
  then have "parser_step E t m (reading Trailer ts v (l @ CRLF @ rest), w, s) =
      ((reading Trailer (bt_insert (trailer_name name) (trim val) ts) v rest, w, s), Continue)"
    using trailer_line by (simp add: parser_step_def step_trailer_def Let_def)
  with trailer_line.IH show ?case by (simp add: push_loop_Continue)
qed

lemma write_all_no_faults [simp]:
  "sk_faults w = [] \<Longrightarrow> write_all w b = (w\<lparr>sk_bytes := sk_bytes w @ b\<rparr>, Ok ())"
  by (simp add: write_all_def)

lemma parser_step_header:
  assumes "control_line l" "parse_aws_chunk_header l = Ok h" "ch_size h \<noteq> 0"
  shows "parser_step E t m (reading ChunkHeader ts v (l @ CRLF @ rest), w, s) =
    ((reading (ChunkData (ch_size h) (ch_signature h)) ts v rest, w, s), Continue)"
proof -
  have "read_line (l @ CRLF @ rest) = Ok (Some (l, rest))"
    using assms by (simp add: read_line_control_line)
  with assms show ?thesis by (simp add: parser_step_def step_chunk_header_def Let_def)
qed

lemma parser_step_data:
  assumes "sk_faults w = []" "verify_chunk_signature E v sig d = Ok v'"
    and "ub_size s + length d \<le> m" "m + 2 < 2 ^ 64"
  shows "parser_step E t m (reading (ChunkData (length d) sig) ts v (d @ CRLF @ rest), w, s) =
    ((reading ChunkHeader ts v' rest, w\<lparr>sk_bytes := sk_bytes w @ d\<rparr>, update_state d s), Continue)"
proof -
  have n: "u64_wrapping_add (length d) 2 = length d + 2"
    using assms by (simp add: u64_wrapping_add_def)
  have "slice_get (d @ CRLF @ rest) (length d) (length d + 2) = Some CRLF"
    by (simp add: slice_get_Some)
  moreover have "u64_saturating_add (ub_size s) (length d) \<le> m"
    using assms by (simp add: u64_saturating_add_def)
  ultimately show ?thesis
    using assms n
    by (simp add: parser_step_def step_chunk_data_def write_body_chunk_def
        validate_decoded_size_limit_def Let_def)
qed

lemma push_loop_complete:
  "framed E v b cs ts \<Longrightarrow> sk_faults w = [] \<Longrightarrow> ub_size s + length (concat cs) \<le> m \<Longrightarrow>
     m + 2 < 2 ^ 64 \<Longrightarrow>
     \<exists>p' w'. push_loop E t m (reading ChunkHeader bt_empty v b, w, s) =
        ((p', w', fold update_state cs s), Return (Ok (Some ts)))
       \<and> sk_bytes w' = sk_bytes w @ concat cs"
proof (induction arbitrary: w s rule: framed.induct)
  case (framed_last l h v v' rest ts)
  have "read_line (l @ CRLF @ rest) = Ok (Some (l, rest))"
    using framed_last by (simp add: read_line_control_line)
  then have "parser_step E t m (reading ChunkHeader bt_empty v (l @ CRLF @ rest), w, s) =
      ((reading Trailer bt_empty v' rest, w, s), Continue)"
    using framed_last by (simp add: parser_step_def step_chunk_header_def Let_def)
  with push_loop_trailers [OF framed_last(5), of t m w s] show ?case
    by (auto simp: push_loop_Continue)
next
  case (framed_chunk l h d v v' rest cs ts)
  let ?w = "w\<lparr>sk_bytes := sk_bytes w @ d\<rparr>" and ?s = "update_state d s"
  have "ch_size h \<noteq> 0" using framed_chunk by simp
  then have "push_loop E t m (reading ChunkHeader bt_empty v (l @ CRLF @ d @ CRLF @ rest), w, s)
      = push_loop E t m (reading ChunkHeader bt_empty v' rest, ?w, ?s)"
    using parser_step_header [OF framed_chunk(1,2)] framed_chunk
      parser_step_data [of w E v "ch_signature h" d v' s m t rest bt_empty]
    by (simp add: push_loop_Continue)
  moreover have "ub_size ?s = ub_size s + length d"
    using framed_chunk.prems by (simp add: update_state_def u64_wrapping_add_def)
  ultimately show ?case
    using framed_chunk.IH [of ?w ?s] framed_chunk.prems by simp
qed

section \<open>Agreement with the decoder for complete buffers\<close>

lemma read_crlf_line_control_line:
  assumes "control_line l"
  shows "read_crlf_line (pre @ l @ CRLF @ rest) (length pre) =
    Ok (l, length (pre @ l @ CRLF))"
proof -
  have "find_crlf (l @ CRLF @ rest) = Some (length l)"
    using assms find_crlf_append [of "l @ CRLF" "length l" rest] by (simp add: control_line_def)
  with assms show ?thesis by (simp add: read_crlf_line_def control_line_def)
qed

lemma read_trailers_block:
  "trailer_block E v ts b ts' \<Longrightarrow>
     read_trailers (pre @ b) ts (length pre) = Ok (ts', length (pre @ b))"
proof (induction arbitrary: pre rule: trailer_block.induct)
  case (trailer_end ts v')
  have "read_crlf_line (pre @ CRLF) (length pre) = Ok ([], length (pre @ CRLF))"
    using read_crlf_line_control_line [of "[]" pre "[]"] by (simp add: control_line_def)
  then show ?case by (subst read_trailers.simps) simp
next
  case (trailer_line l name val ts rest ts')
  have "read_crlf_line (pre @ l @ CRLF @ rest) (length pre) = Ok (l, length (pre @ l @ CRLF))"
    by (rule read_crlf_line_control_line) (rule trailer_line)
  with trailer_line show ?case
    using trailer_line.IH [of "pre @ l @ CRLF"]
    by (subst read_trailers.simps) simp
qed

lemma chunk_header_size_token:
  "parse_aws_chunk_header l = Ok h \<Longrightarrow>
     from_str_radix 64 16
       (trim (case split_once (CHR '';'') l of None \<Rightarrow> l | Some (sz, _) \<Rightarrow> sz)) = Some (ch_size h)"
  by (auto simp: parse_aws_chunk_header_def res_simps split: option.splits)

lemma decode_loop_framed:
  "framed E v b cs ts \<Longrightarrow> length b < 2 ^ 64 \<Longrightarrow>
     decode_loop (pre @ b) acc (length pre) =
       Some (Ok \<lparr>db_data = acc @ concat cs, db_trailers = ts\<rparr>)"
proof (induction arbitrary: pre acc rule: framed.induct)
  case (framed_last l h v v' rest ts)
  have "read_crlf_line (pre @ l @ CRLF @ rest) (length pre) = Ok (l, length (pre @ l @ CRLF))"
    by (rule read_crlf_line_control_line) (rule framed_last)
  moreover have "read_trailers ((pre @ l @ CRLF) @ rest) bt_empty (length (pre @ l @ CRLF)) =
      Ok (ts, length (pre @ l @ CRLF @ rest))"
    using read_trailers_block [OF framed_last(5), of "pre @ l @ CRLF"] by simp
  ultimately show ?case
    using chunk_header_size_token [OF framed_last(2)] framed_last(3)
    by (subst decode_loop.simps) (simp add: Let_def)
next
  case (framed_chunk l h d v v' rest cs ts)
  let ?pre = "pre @ l @ CRLF"
  have "read_crlf_line (pre @ l @ CRLF @ d @ CRLF @ rest) (length pre) = Ok (l, length ?pre)"
    by (rule read_crlf_line_control_line) (rule framed_chunk)
  moreover have "slice_get (?pre @ d @ CRLF @ rest) (length ?pre + length d) (length ?pre + length d + 2)
      = Some CRLF"
    by (simp add: slice_get_Some)
  moreover have "decode_loop ((?pre @ d @ CRLF) @ rest) (acc @ d) (length (?pre @ d @ CRLF)) =
      Some (Ok \<lparr>db_data = acc @ concat (d # cs), db_trailers = ts\<rparr>)"
    using framed_chunk.IH [of "?pre @ d @ CRLF" "acc @ d"] framed_chunk.prems by simp
  ultimately show ?case
    using chunk_header_size_token [OF framed_chunk(2)] framed_chunk(3,4) framed_chunk.prems
    by (subst decode_loop.simps) (simp add: Let_def add.assoc)
qed

section \<open>The signature chain of an accepted body\<close>

text \<open>
  \<open>chunk_chain\<close> is the AWS Signature Version 4 chain: each chunk's signature is the HMAC of a
  string that contains the previous signature and the hash of the chunk. It returns the
  verifier after the last chunk.
\<close>

fun chunk_chain :: "ext \<Rightarrow> verifier \<Rightarrow> (string \<times> bytes) list \<Rightarrow> verifier option" where
  "chunk_chain E v [] = Some v"
| "chunk_chain E v ((sig, d) # cs) =
     (case x_hmac_sha256 E (sv_signing_key v) (chunk_string_to_sign E v d) of
        None \<Rightarrow> None
      | Some mac \<Rightarrow>
          if x_hex_encode E mac = sig then chunk_chain E (v\<lparr>sv_previous_signature := sig\<rparr>) cs
          else None)"

definition trailer_signed :: "ext \<Rightarrow> verifier \<Rightarrow> trailers \<Rightarrow> bool" where
  "trailer_signed E v ts =
     (case bt_get ts ''x-amz-trailer-signature'' of
        None \<Rightarrow> False
      | Some sig \<Rightarrow>
          map_option (x_hex_encode E)
            (x_hmac_sha256 E (sv_signing_key v) (trailer_string_to_sign E v ts)) = Some sig)"

lemma verify_chunk_signature_Some:
  "verify_chunk_signature E (Some v) sig d = Ok vo \<longleftrightarrow>
     (\<exists>g mac. sig = Some g \<and> x_hmac_sha256 E (sv_signing_key v) (chunk_string_to_sign E v d) = Some mac
        \<and> x_hex_encode E mac = g \<and> vo = Some (v\<lparr>sv_previous_signature := g\<rparr>))"
  by (auto simp: verify_chunk_signature_def verifier_verify_def upload_hmac_sha256_def res_simps
      split: option.splits if_splits)

lemma trailer_block_signed:
  "trailer_block E vo ts b ts' \<Longrightarrow> vo = Some v \<Longrightarrow> sv_mode v = PayloadTrailer \<Longrightarrow>
     trailer_signed E v ts'"
  by (induction rule: trailer_block.induct)
    (auto simp: verify_trailer_signature_def verifier_verify_trailer_def upload_hmac_sha256_def
      trailer_signed_def res_simps split: if_splits)

lemma framed_signature_chain:
  "framed E vo b cs ts \<Longrightarrow> vo = Some v \<Longrightarrow>
     \<exists>sigs final v'. length sigs = length cs
       \<and> chunk_chain E v (zip sigs cs @ [(final, [])]) = Some v'
       \<and> (sv_mode v = PayloadTrailer \<longrightarrow> trailer_signed E v' ts)"
proof (induction arbitrary: v rule: framed.induct)
  case (framed_last l h vo vo' rest ts)
  then obtain g mac where
    "x_hmac_sha256 E (sv_signing_key v) (chunk_string_to_sign E v []) = Some mac"
    "x_hex_encode E mac = g" and v': "vo' = Some (v\<lparr>sv_previous_signature := g\<rparr>)"
    by (auto simp: verify_chunk_signature_Some)
  then have "chunk_chain E v [(g, [])] = Some (v\<lparr>sv_previous_signature := g\<rparr>)" by simp
  with trailer_block_signed [OF framed_last(5) v'] show ?case
    by (intro exI [of _ "[]"] exI [of _ g]) auto
next
  case (framed_chunk l h d vo vo' rest cs ts)
  then obtain g mac where
    g: "x_hmac_sha256 E (sv_signing_key v) (chunk_string_to_sign E v d) = Some mac"
    "x_hex_encode E mac = g" and v': "vo' = Some (v\<lparr>sv_previous_signature := g\<rparr>)"
    by (auto simp: verify_chunk_signature_Some)
  from framed_chunk.IH [OF v'] obtain sigs final v'' where
    "length sigs = length cs"
    "chunk_chain E (v\<lparr>sv_previous_signature := g\<rparr>) (zip sigs cs @ [(final, [])]) = Some v''"
    "sv_mode v = PayloadTrailer \<longrightarrow> trailer_signed E v'' ts"
    by auto
  with g show ?case
    by (intro exI [of _ "g # sigs"] exI [of _ final] exI [of _ v'']) simp
qed

end
