(* ===== verification/Upload_Body.thy ===== *)
theory Upload_Body
  imports Aws_Chunked
begin

text \<open>
  Reading a request body into the staging sink (\<open>src/body/upload.rs\<close>): the plain reader, the
  \<open>aws-chunked\<close> reader, \<open>write_upload_body\<close> and \<open>summarize_staged_upload\<close>.

  A body is the list of the frames its data stream yields; a frame is its bytes or a read
  error.
\<close>

type_synonym body = "(bytes, string) result list"

section \<open>The aws-chunked reader\<close>

fun chunked_frames ::
  "ext \<Rightarrow> headers \<Rightarrow> string \<Rightarrow> nat \<Rightarrow> body \<Rightarrow> chunk_config \<Rightarrow> chunk_config \<times> flow" where
  "chunked_frames E hs t m [] (p, w, s) =
     (case parser_finish p of
        Some ts \<Rightarrow>
          ((p, w, s), Return (map_ok (\<lambda>_. Some ts) (validate_decoded_content_length E hs (ub_size s))))
      | None \<Rightarrow> ((p, w, s), Return (Err (invalid_request ''aws-chunked body ended unexpectedly''))))"
| "chunked_frames E hs t m (Err e # fs) cfg =
     (cfg, Return (Err (invalid_request (''failed to read aws-chunked body: '' @ e))))"
| "chunked_frames E hs t m (Ok chunk # fs) cfg =
     (case push_and_write E t m chunk cfg of
        (cfg', Return (Ok None)) \<Rightarrow> chunked_frames E hs t m fs cfg'
      | ((p, w, s), Return (Ok (Some ts))) \<Rightarrow>
          ((p, w, s), Return (map_ok (\<lambda>_. Some ts) (validate_decoded_content_length E hs (ub_size s))))
      | (cfg', flow) \<Rightarrow> (cfg', flow))"

text \<open>
  The reader returns the trailers, with the sink and the upload state it leaves. The \<open>None\<close>
  cases of the last lines are the panic of the parser's \<open>Done\<close> arm; they never happen
  (lemma \<open>chunked_frames_returns\<close>).
\<close>

definition write_aws_chunked_upload_body ::
  "ext \<Rightarrow> headers \<Rightarrow> body \<Rightarrow> sink \<Rightarrow> upload_body_state \<Rightarrow> string \<Rightarrow> signing_context option \<Rightarrow> nat \<Rightarrow>
     (sink \<times> upload_body_state) \<times> trailers s3res option" where
  "write_aws_chunked_upload_body E hs body w s t ctx m =
     (case streaming_signature_verifier E hs ctx of
        Err e \<Rightarrow> ((w, s), Some (Err e))
      | Ok v \<Rightarrow>
          (case chunked_frames E hs t m body (parser_new v, w, s) of
             ((_, w', s'), Return (Ok (Some ts))) \<Rightarrow> ((w', s'), Some (Ok ts))
           | ((_, w', s'), Return (Err e)) \<Rightarrow> ((w', s'), Some (Err e))
           | ((_, w', s'), _) \<Rightarrow> ((w', s'), None)))"

section \<open>The plain reader\<close>

fun plain_frames ::
  "nat option \<Rightarrow> string \<Rightarrow> nat \<Rightarrow> body \<Rightarrow> sink \<Rightarrow> upload_body_state \<Rightarrow>
     (sink \<times> upload_body_state) \<times> unit s3res" where
  "plain_frames expected t m [] w s = ((w, s), Ok ())"
| "plain_frames expected t m (Err e # fs) w s =
     ((w, s), Err (invalid_request (''failed to read request body: '' @ e)))"
| "plain_frames expected t m (Ok chunk # fs) w s =
     (case validate_plain_body_chunk_length expected (ub_size s) (length chunk) of
        Err e \<Rightarrow> ((w, s), Err e)
      | Ok _ \<Rightarrow>
          (case validate_decoded_size_limit (ub_size s) (length chunk) m of
             Err e \<Rightarrow> ((w, s), Err e)
           | Ok _ \<Rightarrow>
               (case write_body_chunk w chunk s t of
                  ((w', s'), Err e) \<Rightarrow> ((w', s'), Err e)
                | ((w', s'), Ok _) \<Rightarrow> plain_frames expected t m fs w' s')))"

section \<open>The whole upload\<close>

record uploaded_body =
  up_size :: content_length
  up_md5_digest :: bytes
  up_checksums :: "(string, string) btmap"

text \<open>\<open>hasher.map(|d| d.finalize()).unwrap_or_default()\<close>.\<close>

definition finalize_or_default :: "(bytes \<Rightarrow> 'd) \<Rightarrow> 'd \<Rightarrow> bytes option \<Rightarrow> 'd" where
  "finalize_or_default digest dflt h = (case h of None \<Rightarrow> dflt | Some fed \<Rightarrow> digest fed)"

definition state_digests :: "ext \<Rightarrow> upload_body_state \<Rightarrow> checksum_digests" where
  "state_digests E s =
     \<lparr>dg_md5 = x_md5 E (ub_md5 s),
      dg_sha1 = finalize_or_default (x_sha1 E) [] (ub_sha1 s),
      dg_sha256 = finalize_or_default (x_sha256 E) [] (ub_sha256 s),
      dg_sha512 = finalize_or_default (x_sha512 E) [] (ub_sha512 s),
      dg_crc32 = finalize_or_default (x_crc32 E) 0 (ub_crc32 s),
      dg_crc32c = finalize_or_default (x_crc32c E) 0 (ub_crc32c s)\<rparr>"

text \<open>The part of \<open>write_upload_body\<close> after the body has been read.\<close>

definition finish_upload :: "ext \<Rightarrow> headers \<Rightarrow> upload_body_state \<Rightarrow> trailers \<Rightarrow> uploaded_body s3res" where
  "finish_upload E hs s ts =
     (let digests = state_digests E s
      in and_then (validate_actual_sha256_payload_hash E hs (dg_sha256 digests)) (\<lambda>_.
         and_then (ChecksumRequest_from_headers_and_trailers E hs ts) (\<lambda>request.
         and_then (ChecksumRequest_validate request digests) (\<lambda>_.
         Ok \<lparr>up_size = ub_size s, up_md5_digest = dg_md5 digests,
             up_checksums = rq_checksum_values request\<rparr>))))"

definition write_upload_body ::
  "ext \<Rightarrow> headers \<Rightarrow> body \<Rightarrow> sink \<Rightarrow> string \<Rightarrow> signing_context option \<Rightarrow> nat \<Rightarrow>
     sink \<times> uploaded_body s3res option" where
  "write_upload_body E hs body w t ctx m =
     (case validate_payload_hash_mode E hs of
        Err e \<Rightarrow> (w, Some (Err e))
      | Ok _ \<Rightarrow>
          (let s = UploadBodyState_new E hs
           in if is_aws_chunked_request E hs then
                (case write_aws_chunked_upload_body E hs body w s t ctx m of
                   ((w', s'), None) \<Rightarrow> (w', None)
                 | ((w', s'), Some (Err e)) \<Rightarrow> (w', Some (Err e))
                 | ((w', s'), Some (Ok ts)) \<Rightarrow> (w', Some (finish_upload E hs s' ts)))
              else
                (case content_length E hs of
                   Err e \<Rightarrow> (w, Some (Err e))
                 | Ok expected \<Rightarrow>
                     (case plain_frames expected t m body w s of
                        ((w', s'), Err e) \<Rightarrow> (w', Some (Err e))
                      | ((w', s'), Ok _) \<Rightarrow>
                          (case validate_plain_content_length expected (ub_size s') of
                             Err e \<Rightarrow> (w', Some (Err e))
                           | Ok _ \<Rightarrow> (w', Some (finish_upload E hs s' bt_empty)))))))"

section \<open>Summarizing a staged upload\<close>

record final_upload_body =
  fu_size :: content_length
  fu_digests :: checksum_digests

text \<open>All digests of a byte string.\<close>

definition digests_of :: "ext \<Rightarrow> bytes \<Rightarrow> checksum_digests" where
  "digests_of E b =
     \<lparr>dg_md5 = x_md5 E b, dg_sha1 = x_sha1 E b, dg_sha256 = x_sha256 E b,
      dg_sha512 = x_sha512 E b, dg_crc32 = x_crc32 E b, dg_crc32c = x_crc32c E b\<rparr>"

text \<open>
  The read loop: the successive results of \<open>file.read\<close>, an empty read ending it. A list that
  runs out stands for the end of the file as well.
\<close>

fun summarize_loop :: "body \<Rightarrow> bytes \<Rightarrow> nat \<Rightarrow> (bytes \<times> nat) s3res" where
  "summarize_loop [] fed n = Ok (fed, n)"
| "summarize_loop (Err e # rs) fed n =
     Err (internal_error (''failed to read staged upload: '' @ e))"
| "summarize_loop (Ok chunk # rs) fed n =
     (if chunk = [] then Ok (fed, n)
      else summarize_loop rs (fed @ chunk) (u64_saturating_add n (length chunk)))"

definition summarize_staged_upload ::
  "ext \<Rightarrow> (body, string) result \<Rightarrow> final_upload_body s3res" where
  "summarize_staged_upload E opened =
     and_then (map_err (\<lambda>e. internal_error (''failed to open staged upload: '' @ e)) opened)
       (\<lambda>reads.
     map_ok (\<lambda>(fed, n). \<lparr>fu_size = n, fu_digests = digests_of E fed\<rparr>) (summarize_loop reads [] 0))"

section \<open>The parser's calls, frame by frame\<close>

lemma parser_step_not_Done:
  "parser_step E t m cfg = (cfg', Continue) \<Longrightarrow> pr_state (fst cfg') \<noteq> Done"
  by (cases "pr_state (fst cfg)")
    (auto simp: parser_step_def step_chunk_header_def step_chunk_data_def step_trailer_def Let_def
      split: if_splits result.splits option.splits prod.splits)

lemma parser_step_not_Unreachable:
  "parser_step E t m cfg = (cfg', f) \<Longrightarrow> pr_state (fst cfg) \<noteq> Done \<Longrightarrow> f \<noteq> Unreachable"
  by (cases "pr_state (fst cfg)")
    (auto simp: parser_step_def step_chunk_header_def step_chunk_data_def step_trailer_def Let_def
      split: if_splits result.splits option.splits prod.splits)

lemma push_loop_returns:
  "pr_state (fst cfg) \<noteq> Done \<Longrightarrow> push_loop E t m cfg = (cfg', f) \<Longrightarrow>
     (\<exists>r. f = Return r) \<and> (f = Return (Ok None) \<longrightarrow> pr_state (fst cfg') \<noteq> Done)"
proof (induction E t m cfg rule: push_loop.induct)
  case (1 E t m cfg)
  from "1.prems"(2) show ?case
  proof (cases rule: push_loop_cases)
    case stop
    with "1.prems"(1) parser_step_not_Unreachable parser_step_Wait show ?thesis
      by (cases f) blast+
  next
    case (go cfg1)
    with 1 parser_step_not_Done show ?thesis by metis
  qed
qed

lemma push_and_write_extend:
  "pr_state (fst cfg) \<noteq> Done \<Longrightarrow> push_and_write E t m b cfg = push_loop E t m (more_input b cfg)"
  by (auto simp: push_and_write_def more_input_def split: prod.splits)

text \<open>The reader always returns trailers or an error; the parser's \<open>Done\<close> arm is never run.\<close>

lemma chunked_frames_returns:
  "pr_state (fst cfg) \<noteq> Done \<Longrightarrow> chunked_frames E hs t m fs cfg = (cfg', f) \<Longrightarrow>
     (\<exists>ts. f = Return (Ok (Some ts))) \<or> (\<exists>e. f = Return (Err e))"
proof (induction fs arbitrary: cfg)
  case Nil
  then show ?case by (cases cfg) (auto simp: parser_finish_def)
next
  case (Cons x fs)
  show ?case
  proof (cases x)
    case (Ok chunk)
    obtain cfg1 g where g: "push_and_write E t m chunk cfg = (cfg1, g)" by fastforce
    with Cons.prems(1) have pl: "push_loop E t m (more_input chunk cfg) = (cfg1, g)"
      by (simp add: push_and_write_extend)
    from push_loop_returns [OF _ pl] Cons.prems(1) obtain r where r: "g = Return r"
      and nd: "r = Ok None \<Longrightarrow> pr_state (fst cfg1) \<noteq> Done" by auto
    show ?thesis
    proof (cases "r = Ok None")
      case True
      with g r Ok Cons.prems(2) have "chunked_frames E hs t m fs cfg1 = (cfg', f)" by simp
      with Cons.IH nd True show ?thesis by blast
    next
      case False
      with g r Ok Cons.prems(2) show ?thesis
        by (cases "validate_decoded_content_length E hs (ub_size (snd (snd cfg1)))")
          (auto split: result.splits option.splits prod.splits)
    qed
  qed (use Cons.prems in auto)
qed

lemma push_loop_empty:
  "push_loop E t m (parser_new v, w, s) = ((parser_new v, w, s), Return (Ok None))"
  by (rule push_loop_stop)
    (simp_all add: parser_step_def step_chunk_header_def parser_new_def read_line_def
      MAX_AWS_CHUNKED_CONTROL_LINE_BYTES_def)

text \<open>
  Success over frames is success of one call on the concatenation of the frames read so far;
  the frames after them are not looked at.
\<close>

lemma chunked_frames_one_push:
  assumes "push_loop E t m (more_input pre cfg0) = (cfg, Return (Ok None))" "pr_state (fst cfg) \<noteq> Done"
    and "chunked_frames E hs t m body cfg = ((p', w', s'), Return (Ok (Some ts)))"
  shows "\<exists>fs rest. body = map Ok fs @ rest
     \<and> push_loop E t m (more_input (pre @ concat fs) cfg0) = ((p', w', s'), Return (Ok (Some ts)))
     \<and> validate_decoded_content_length E hs (ub_size s') = Ok ()"
  using assms
proof (induction body arbitrary: pre cfg)
  case Nil
  then show ?case by (cases cfg) (simp add: parser_finish_def)
next
  case (Cons f body)
  then obtain chunk where f: "f = Ok chunk" by (cases f) auto
  obtain cfg1 g where g: "push_and_write E t m chunk cfg = (cfg1, g)" by fastforce
  have "push_loop E t m (more_input chunk cfg) = (cfg1, g)"
    using Cons.prems(2) g by (simp add: push_and_write_extend)
  then have pl: "push_loop E t m (more_input (pre @ chunk) cfg0) = (cfg1, g)"
    using push_loop_resume [OF Cons.prems(1), of chunk] by simp
  have nd: "pr_state (fst (more_input chunk cfg)) \<noteq> Done" using Cons.prems(2) by simp
  consider (wait) "g = Return (Ok None)" | (fin) ts' where "g = Return (Ok (Some ts'))"
    using Cons.prems(3) f g
    by (cases g) (auto split: result.splits option.splits prod.splits)
  then show ?case
  proof cases
    case wait
    have "pr_state (fst cfg1) \<noteq> Done"
      using push_loop_returns [OF nd \<open>push_loop E t m (more_input chunk cfg) = (cfg1, g)\<close>] wait by simp
    moreover have "chunked_frames E hs t m body cfg1 = ((p', w', s'), Return (Ok (Some ts)))"
      using Cons.prems(3) f g wait by simp
    ultimately obtain fs rest where "body = map Ok fs @ rest"
      "push_loop E t m (more_input ((pre @ chunk) @ concat fs) cfg0) = ((p', w', s'), Return (Ok (Some ts)))"
      "validate_decoded_content_length E hs (ub_size s') = Ok ()"
      using Cons.IH [of "pre @ chunk" cfg1] pl wait by blast
    with f show ?thesis by (intro exI [of _ "chunk # fs"] exI [of _ rest]) simp
  next
    case fin
    with Cons.prems(3) f g have "cfg1 = (p', w', s')" "ts' = ts"
      "validate_decoded_content_length E hs (ub_size s') = Ok ()"
      by (auto simp: res_simps split: prod.splits)
    with pl f fin show ?thesis by (intro exI [of _ "[chunk]"] exI [of _ body]) simp
  qed
qed

lemma chunked_frames_sound:
  assumes "chunked_frames E hs t m body (parser_new v, w, s) = ((p', w', s'), Return (Ok (Some ts)))"
  obtains fs rest cs where "body = map Ok fs @ rest" "framed E v (concat fs) cs ts"
    "sk_bytes w' = sk_bytes w @ concat cs"
    "push_loop E t m (reading ChunkHeader bt_empty v (concat fs), w, s) =
       ((p', w', s'), Return (Ok (Some ts)))"
    "validate_decoded_content_length E hs (ub_size s') = Ok ()"
proof -
  have "push_loop E t m (more_input [] (parser_new v, w, s)) = ((parser_new v, w, s), Return (Ok None))"
    by (simp add: push_loop_empty)
  from chunked_frames_one_push [OF this _ assms] obtain fs rest where
    body: "body = map Ok fs @ rest"
    and pl: "push_loop E t m (reading ChunkHeader bt_empty v (concat fs), w, s) =
       ((p', w', s'), Return (Ok (Some ts)))"
    and len: "validate_decoded_content_length E hs (ub_size s') = Ok ()"
    by (auto simp: parser_new_def more_input_def)
  from push_loop_sound [OF pl] obtain cs where
    "framed E v (concat fs) cs ts" "sk_bytes w' = sk_bytes w @ concat cs"
    by (auto simp: consumed_def)
  with body pl len that show thesis by blast
qed

section \<open>The upload invariant through both readers\<close>

lemma parser_step_inv:
  assumes "parser_step E t m (p, w, s) = ((p', w', s'), f)" "f = Continue \<or> (\<exists>r. f = Return (Ok r))"
    and "upload_inv m (w, s)" "m < u64_max"
  shows "upload_inv m (w', s') \<and> hashers s' = hashers s"
proof (cases "pr_state p")
  case (ChunkData n sig)
  with assms show ?thesis
    using write_body_chunk_inv [OF assms(3,4), of "take n (pr_buffer p)" _ t w' s']
      write_body_chunk_hashers [of w "take n (pr_buffer p)" s t w' s']
    by (auto simp: parser_step_def step_chunk_data_def Let_def
        split: if_splits result.splits prod.splits)
qed (use assms in \<open>auto simp: parser_step_def step_chunk_header_def step_trailer_def Let_def
      split: if_splits result.splits option.splits prod.splits\<close>)

lemma push_loop_inv:
  "push_loop E t m (p, w, s) = ((p', w', s'), Return (Ok r)) \<Longrightarrow> upload_inv m (w, s) \<Longrightarrow>
     m < u64_max \<Longrightarrow> upload_inv m (w', s') \<and> hashers s' = hashers s"
proof (induction "length (pr_buffer p)" arbitrary: p w s rule: less_induct)
  case less
  from less.prems(1) show ?case
  proof (cases rule: push_loop_cases)
    case stop
    with less.prems parser_step_inv show ?thesis by blast
  next
    case (go cfg1)
    obtain p1 w1 s1 where "cfg1 = (p1, w1, s1)" by (cases cfg1)
    with go less parser_step_inv [of E t m p w s p1 w1 s1 Continue] parser_step_shrinks
    show ?thesis by metis
  qed
qed

lemma plain_frames_inv:
  "plain_frames expected t m body w s = ((w', s'), Ok u) \<Longrightarrow> upload_inv m (w, s) \<Longrightarrow> m < u64_max \<Longrightarrow>
     upload_inv m (w', s') \<and> hashers s' = hashers s
     \<and> (\<exists>fs. body = map Ok fs \<and> sk_bytes w' = sk_bytes w @ concat fs)"
proof (induction expected t m body w s rule: plain_frames.induct)
  case (3 expected t m chunk fs w s)
  from "3.prems"(1) obtain u1 u2 w1 s1 where
    v: "validate_plain_body_chunk_length expected (ub_size s) (length chunk) = Ok u1"
    "validate_decoded_size_limit (ub_size s) (length chunk) m = Ok u2"
    and wb: "write_body_chunk w chunk s t = ((w1, s1), Ok ())"
    and rest: "plain_frames expected t m fs w1 s1 = ((w', s'), Ok u)"
    by (auto split: result.splits prod.splits)
  have inv: "upload_inv m (w1, s1)" "sk_bytes w1 = sk_bytes w @ chunk"
    using write_body_chunk_inv [OF "3.prems"(2,3) v(2) wb] by simp_all
  from "3.IH" [OF v wb [symmetric] refl refl rest inv(1) "3.prems"(3)] inv(2)
    write_body_chunk_hashers [OF wb]
  show ?case by (auto intro: exI [of _ "chunk # _"])
qed simp_all

text \<open>Which hashers an upload has is decided by the request headers alone.\<close>

lemma hasher_present:
  assumes "ChecksumRequest_from_headers_and_trailers E hs ts = Ok r" "rq_of c r = Some b"
  shows "checksum_header_or_declared_trailer E hs (header_name c)"
proof -
  have "optional_checksum E hs ts c = Ok (Some b)"
    using from_headers_and_trailers_Ok(3) [OF assms(1), of c] assms(2) by simp
  then have "hdr_contains hs (header_name c) \<or> bt_contains ts (header_name c)"
    using checksum_text_present by (fastforce simp: optional_checksum_Some)
  moreover have "checksum_trailer_declares E hs (header_name c)"
    if "bt_contains ts (header_name c)"
    using from_headers_and_trailers_Ok(1) [OF assms(1)] that
    by (rule declared_trailers)
      (auto simp: checksum_trailer_declares_def csv_mentions_def list_ex_iff)
  ultimately show ?thesis by (auto simp: checksum_header_or_declared_trailer_def)
qed

lemma finalize_fed:
  "fed_with h b \<Longrightarrow> h \<noteq> None \<Longrightarrow> finalize_or_default f d h = f b"
  by (auto simp: fed_with_def finalize_or_default_def)

text \<open>No default digest reaches a comparison: a requested digest is that of the written bytes.\<close>

lemma hashers_of_new:
  assumes "hashers s = hashers (UploadBodyState_new E hs)"
  shows "ub_sha256 s \<noteq> None \<longleftrightarrow> requires_actual_sha256_payload_hash E hs
      \<or> checksum_header_or_declared_trailer E hs (header_name Sha256)"
    and "ub_sha1 s \<noteq> None \<longleftrightarrow> checksum_header_or_declared_trailer E hs (header_name Sha1)"
    and "ub_sha512 s \<noteq> None \<longleftrightarrow> checksum_header_or_declared_trailer E hs (header_name Sha512)"
    and "ub_crc32 s \<noteq> None \<longleftrightarrow> checksum_header_or_declared_trailer E hs (header_name Crc32)"
    and "ub_crc32c s \<noteq> None \<longleftrightarrow> checksum_header_or_declared_trailer E hs (header_name Crc32c)"
  using assms by (simp_all only: hashers_def UploadBodyState_new_def list.map list.inject
      upload_body_state.select_convs new_hasher_None header_name.simps not_not)

lemma state_digest_real:
  assumes "upload_inv m (w, s)" "hashers s = hashers (UploadBodyState_new E hs)"
    and "checksum_header_or_declared_trailer E hs (header_name c)"
  shows "digest_bytes c (state_digests E s) = digest_bytes c (digests_of E (sk_bytes w))"
  using assms(1,3) hashers_of_new [OF assms(2)]
    finalize_fed [of "ub_crc32 s" "sk_bytes w" "x_crc32 E" 0]
    finalize_fed [of "ub_crc32c s" "sk_bytes w" "x_crc32c E" 0]
    finalize_fed [of "ub_sha1 s" "sk_bytes w" "x_sha1 E" "[]"]
    finalize_fed [of "ub_sha256 s" "sk_bytes w" "x_sha256 E" "[]"]
    finalize_fed [of "ub_sha512 s" "sk_bytes w" "x_sha512 E" "[]"]
  by (cases c) (simp_all add: upload_inv_def state_digests_def digests_of_def
      del: header_name.simps not_None_eq)

lemma state_sha256_real:
  assumes "upload_inv m (w, s)" "hashers s = hashers (UploadBodyState_new E hs)"
    and "requires_actual_sha256_payload_hash E hs"
  shows "dg_sha256 (state_digests E s) = x_sha256 E (sk_bytes w)"
  using assms(1,3) hashers_of_new [OF assms(2)]
  by (simp add: upload_inv_def state_digests_def finalize_fed del: header_name.simps not_None_eq)

section \<open>What a successful upload guarantees\<close>

abbreviation fresh_sink :: "(nat \<times> string) option list \<Rightarrow> sink" where
  "fresh_sink fs \<equiv> \<lparr>sk_bytes = [], sk_faults = fs\<rparr>"

text \<open>The digest of every requested checksum is that of the bytes \<open>b\<close>.\<close>

definition checksums_match :: "ext \<Rightarrow> headers \<Rightarrow> bytes \<Rightarrow> uploaded_body \<Rightarrow> bool" where
  "checksums_match E hs b ub \<longleftrightarrow>
     up_size ub = length b \<and> up_md5_digest ub = x_md5 E b
     \<and> (\<forall>c x. bt_get (up_checksums ub) (header_name c) = Some x \<longrightarrow>
          x_base64_decode E x = Some (digest_bytes c (digests_of E b)))
     \<and> (\<forall>c. hdr_contains hs (header_name c) \<longrightarrow> bt_contains (up_checksums ub) (header_name c))
     \<and> (\<forall>v. hdr_get hs ''content-md5'' = Some v \<longrightarrow>
          (\<exists>x. x_to_str E v = Some x \<and> x_base64_decode E x = Some (x_md5 E b)))"

lemma finish_upload_Ok:
  assumes "finish_upload E hs s ts = Ok ub" "upload_inv m (w, s)"
    and "hashers s = hashers (UploadBodyState_new E hs)"
  shows "checksums_match E hs (sk_bytes w) ub"
proof -
  from assms(1) obtain r where
    r: "ChecksumRequest_from_headers_and_trailers E hs ts = Ok r"
    and v: "ChecksumRequest_validate r (state_digests E s) = Ok ()"
    and ub: "ub = \<lparr>up_size = ub_size s, up_md5_digest = dg_md5 (state_digests E s),
             up_checksums = rq_checksum_values r\<rparr>"
    by (auto simp: finish_upload_def Let_def res_simps)
  note rq = from_headers_and_trailers_Ok [OF r]
  have ctext: "checksum_text E hs ts (header_name c) = Ok (bt_get (up_checksums ub) (header_name c))" for c
    using checksum_values_Ok(1) [OF rq(4)] ub by simp
  have c1: "x_base64_decode E x = Some (digest_bytes c (digests_of E (sk_bytes w)))"
    if "bt_get (up_checksums ub) (header_name c) = Some x" for c x
  proof -
    have t: "checksum_text E hs ts (header_name c) = Ok (Some x)" using ctext [of c] that by simp
    then obtain b where b: "rq_of c r = Some b" "x_base64_decode E x = Some b"
      using rq(3) [of c] optional_checksum_None [of E hs ts c] optional_checksum_Some [of E hs ts c]
      by (cases "rq_of c r") auto
    moreover have "b = digest_bytes c (state_digests E s)"
      using v b(1) by (auto simp: validate_Ok dest: spec [of _ c])
    ultimately show ?thesis
      using state_digest_real [OF assms(2,3) hasher_present [OF r b(1)]] by simp
  qed
  have c2: "bt_contains (up_checksums ub) (header_name c)" if "hdr_contains hs (header_name c)" for c
    using ctext [of c] that
    by (auto simp: checksum_text_def hdr_contains_def bt_contains_def res_simps)
  have md5: "dg_md5 (state_digests E s) = x_md5 E (sk_bytes w)"
    using assms(2) by (simp add: upload_inv_def state_digests_def)
  have c3: "\<exists>x. x_to_str E u = Some x \<and> x_base64_decode E x = Some (x_md5 E (sk_bytes w))"
    if "hdr_get hs ''content-md5'' = Some u" for u
    using rq(2) v md5 that
    by (auto simp: optional_base64_header_def checksum_text_def validate_Ok res_simps split: if_splits)
  show ?thesis
    using c1 c2 c3 md5 assms(2) ub by (simp add: checksums_match_def upload_inv_def)
qed

lemma write_upload_body_Ok:
  assumes "write_upload_body E hs body w t ctx m = (w', Some (Ok ub))"
  obtains (chunked) s' v p' ts where "is_aws_chunked_request E hs"
      "streaming_signature_verifier E hs ctx = Ok v"
      "chunked_frames E hs t m body (parser_new v, w, UploadBodyState_new E hs)
         = ((p', w', s'), Return (Ok (Some ts)))"
      "finish_upload E hs s' ts = Ok ub"
  | (plain) s' expected where "\<not> is_aws_chunked_request E hs"
      "content_length E hs = Ok expected"
      "plain_frames expected t m body w (UploadBodyState_new E hs) = ((w', s'), Ok ())"
      "validate_plain_content_length expected (ub_size s') = Ok ()"
      "finish_upload E hs s' bt_empty = Ok ub"
  using assms
  by (auto simp: write_upload_body_def write_aws_chunked_upload_body_def Let_def
      split: result.splits if_splits option.splits prod.splits flow.splits)

lemma write_upload_body_inv:
  assumes "write_upload_body E hs body (fresh_sink fs) t ctx m = (w', Some (Ok ub))" "m < u64_max"
  obtains s' ts where "upload_inv m (w', s')" "hashers s' = hashers (UploadBodyState_new E hs)"
    "finish_upload E hs s' ts = Ok ub"
  using assms(1)
proof (cases rule: write_upload_body_Ok)
  case (chunked s' v p' ts)
  from chunked(3) obtain b where
    "push_loop E t m (reading ChunkHeader bt_empty v b, fresh_sink fs, UploadBodyState_new E hs)
      = ((p', w', s'), Return (Ok (Some ts)))"
    by (rule chunked_frames_sound)
  from push_loop_inv [OF this upload_inv_new assms(2)] chunked(4) that show ?thesis by blast
next
  case (plain s' expected)
  from plain_frames_inv [OF plain(3) upload_inv_new assms(2)] plain(5) that show ?thesis by blast
qed

lemma validate_decoded_content_length_Ok:
  "validate_decoded_content_length E hs n = Ok u \<longleftrightarrow> decoded_content_length E hs = Ok (Some n)"
  by (auto simp: validate_decoded_content_length_def res_simps split: if_splits)

lemma write_aws_chunked_Ok:
  assumes "write_aws_chunked_upload_body E hs body w s t ctx m = ((w', s'), Some (Ok ts))"
  obtains v p' where "streaming_signature_verifier E hs ctx = Ok v"
    "chunked_frames E hs t m body (parser_new v, w, s) = ((p', w', s'), Return (Ok (Some ts)))"
  using assms
  by (auto simp: write_aws_chunked_upload_body_def
      split: result.splits option.splits prod.splits flow.splits)

lemma chunked_frames_refines:
  assumes "push_loop E t m (more_input pre cfg0) = (cfg, Return (Ok None))" "pr_state (fst cfg) \<noteq> Done"
    and "push_loop E t m (more_input (pre @ concat fs) cfg0) = ((p', w', s'), Return (Ok (Some ts)))"
    and "validate_decoded_content_length E hs (ub_size s') = Ok ()" "[] \<notin> set fs"
  shows "chunked_frames E hs t m (map Ok fs) cfg = ((p', w', s'), Return (Ok (Some ts)))
     \<or> (\<exists>cfg'. chunked_frames E hs t m (map Ok fs) cfg = (cfg', Return (Err control_line_too_large)))"
  using assms
proof (induction fs arbitrary: pre cfg)
  case (Cons f fs)
  obtain cfg1 g where g: "push_and_write E t m f cfg = (cfg1, g)" by fastforce
  then have pf: "push_loop E t m (more_input f cfg) = (cfg1, g)"
    using Cons.prems(2) by (simp add: push_and_write_extend)
  then have pl: "push_loop E t m (more_input (pre @ f) cfg0) = (cfg1, g)"
    using push_loop_resume [OF Cons.prems(1), of f] by simp
  show ?case
  proof (cases "concat fs = []")
    case True
    with Cons.prems(3,4) pl g show ?thesis by (simp add: split: prod.splits)
  next
    case False
    have "push_loop E t m (more_input (concat fs) (more_input (pre @ f) cfg0)) =
        ((p', w', s'), Return (Ok (Some ts)))"
      using Cons.prems(3) by simp
    from push_loop_prefix_ok [OF this False] pl
    consider (wait) "g = Return (Ok None)" | (long) "g = Return (Err control_line_too_large)" by auto
    then show ?thesis
    proof cases
      case wait
      have "pr_state (fst cfg1) \<noteq> Done"
        using push_loop_returns [OF _ pf] Cons.prems(2) wait by simp
      with Cons.IH [of "pre @ f" cfg1] Cons.prems pl g wait show ?thesis by simp
    qed (use g in \<open>cases cfg1, simp\<close>)
  qed
qed simp

lemma chunked_frames_complete:
  assumes "framed E v b cs ts" "decoded_content_length E hs = Ok (Some (length (concat cs)))"
    and "length (concat cs) \<le> m" "m + 2 < 2 ^ 64" "ub_size s = 0"
  shows "\<exists>p' w' s'. chunked_frames E hs t m [Ok b] (parser_new v, fresh_sink [], s)
      = ((p', w', s'), Return (Ok (Some ts))) \<and> sk_bytes w' = concat cs"
proof -
  let ?s' = "fold update_state cs s"
  from push_loop_complete [OF assms(1), of "fresh_sink []" s m t] assms obtain p' w' where
    pl: "push_loop E t m (reading ChunkHeader bt_empty v b, fresh_sink [], s) =
      ((p', w', ?s'), Return (Ok (Some ts)))" and w': "sk_bytes w' = concat cs"
    by auto
  have "ub_size (fold update_state ds s) = ub_size s + length (concat ds)"
    if "ub_size s + length (concat ds) \<le> m" for ds s
    using that assms(4)
    by (induction ds arbitrary: s) (auto simp: update_state_def u64_wrapping_add_def)
  with assms have "validate_decoded_content_length E hs (ub_size ?s') = Ok ()"
    by (simp add: validate_decoded_content_length_Ok)
  moreover have "push_and_write E t m b (parser_new v, fresh_sink [], s) =
      ((p', w', ?s'), Return (Ok (Some ts)))"
    using pl by (simp add: push_and_write_def parser_new_def)
  ultimately show ?thesis
    using w' by simp
qed

section \<open>A concrete chunked request\<close>

definition ex_headers :: headers where
  "ex_headers =
     [(''content-encoding'', ''aws-chunked''),
      (''x-amz-content-sha256'', ''STREAMING-UNSIGNED-PAYLOAD-TRAILER''),
      (''x-amz-decoded-content-length'', ''5'')]"

definition ex_body :: bytes where
  "ex_body = ''5'' @ CRLF @ ''hello'' @ CRLF @ ''0'' @ CRLF @ CRLF"

lemma ex_framed: "framed ext0 None ex_body [''hello''] bt_empty"
proof -
  have "control_line ''0''" "control_line ''5''"
    by (simp_all add: control_line_def)
  moreover have "parse_aws_chunk_header ''5'' = Ok \<lparr>ch_size = 5, ch_signature = None\<rparr>"
    "parse_aws_chunk_header ''0'' = Ok \<lparr>ch_size = 0, ch_signature = None\<rparr>"
    by (simp_all add: parse_aws_chunk_header_def str_eval)
  moreover have "trailer_block ext0 None [] CRLF []"
    by (rule trailer_end) (simp add: verify_trailer_signature_def)
  ultimately show ?thesis
    using framed_chunk [of "''5''" _ "''hello''" ext0 None None "''0'' @ CRLF @ CRLF" "[]" "[]"]
      framed_last [of "''0''" _ ext0 None None CRLF "[]"]
    by (simp add: ex_body_def verify_chunk_signature_def)
qed

lemma ex_header_facts:
  "is_aws_chunked_request ext0 ex_headers"
  "payload_hash_mode ext0 ex_headers = Ok PH_StreamingUnsignedPayloadTrailer"
  "decoded_content_length ext0 ex_headers = Ok (Some 5)"
  "streaming_signature_verifier ext0 ex_headers ctx = Ok None"
proof -
  show mode: "payload_hash_mode ext0 ex_headers = Ok PH_StreamingUnsignedPayloadTrailer"
    by (simp add: payload_hash_mode_def optional_singleton_header_def ex_headers_def ext0_def
        to_str0_def PayloadHashMode_parse_def hdr_eval str_eval)
  show "is_aws_chunked_request ext0 ex_headers"
    by (simp add: is_aws_chunked_request_def ex_headers_def ext0_def to_str0_def csv_mentions_def
        hdr_eval str_eval)
  show "decoded_content_length ext0 ex_headers = Ok (Some 5)"
    by (simp add: decoded_content_length_def optional_singleton_header_def ex_headers_def ext0_def
        to_str0_def ContentLength_from_str_def hdr_eval str_eval)
  show "streaming_signature_verifier ext0 ex_headers ctx = Ok None"
    by (simp add: streaming_signature_verifier_def mode)
qed

lemma ex_accepted:
  "\<exists>p' w' s'. chunked_frames ext0 ex_headers ''object'' 1000 [Ok ex_body]
      (parser_new None, fresh_sink [], UploadBodyState_new ext0 ex_headers)
      = ((p', w', s'), Return (Ok (Some bt_empty))) \<and> sk_bytes w' = ''hello''"
  using chunked_frames_complete [OF ex_framed, of ex_headers 1000
      "UploadBodyState_new ext0 ex_headers" "''object''"] ex_header_facts
  by (simp add: UploadBodyState_new_def)

lemma ex_written:
  "\<exists>w' s'. write_aws_chunked_upload_body ext0 ex_headers [Ok ex_body] (fresh_sink [])
      (UploadBodyState_new ext0 ex_headers) ''object'' None 1000 = ((w', s'), Some (Ok bt_empty))
      \<and> sk_bytes w' = ''hello''"
  using ex_accepted ex_header_facts
  by (auto simp: write_aws_chunked_upload_body_def)

text \<open>The same with signatures, for the digest functions of \<open>ext0\<close>.\<close>

definition ex_context :: signing_context where
  "ex_context = \<lparr>sc_signing_key = ''key'', sc_seed_signature = ''seed'',
     sc_amz_date = ''20250101T000000Z'', sc_credential_scope = ''scope''\<rparr>"

definition ex_signature :: string where
  "ex_signature = ''415753342d484d41432d5348413235362d5041594c4f41440a32303235303130''"

definition ex_signed_headers :: headers where
  "ex_signed_headers =
     [(''content-encoding'', ''aws-chunked''),
      (''x-amz-content-sha256'', ''STREAMING-AWS4-HMAC-SHA256-PAYLOAD''),
      (''x-amz-decoded-content-length'', ''2'')]"

definition ex_signed_body :: bytes where
  "ex_signed_body =
     (''2;chunk-signature='' @ ex_signature) @ CRLF @ ''hi'' @ CRLF @
     (''0;chunk-signature='' @ ex_signature) @ CRLF @ CRLF"

lemma ex_signed_header_facts:
  "payload_hash_mode ext0 ex_signed_headers = Ok PH_StreamingSignedPayload"
  "decoded_content_length ext0 ex_signed_headers = Ok (Some 2)"
  "streaming_signature_verifier ext0 ex_signed_headers (Some ex_context)
     = Ok (Some (verifier_new ex_context Payload))"
proof -
  show mode: "payload_hash_mode ext0 ex_signed_headers = Ok PH_StreamingSignedPayload"
    by (simp add: payload_hash_mode_def optional_singleton_header_def ex_signed_headers_def ext0_def
        to_str0_def PayloadHashMode_parse_def hdr_eval str_eval)
  show "decoded_content_length ext0 ex_signed_headers = Ok (Some 2)"
    by (simp add: decoded_content_length_def optional_singleton_header_def ex_signed_headers_def
        ext0_def to_str0_def ContentLength_from_str_def hdr_eval str_eval)
  show "streaming_signature_verifier ext0 ex_signed_headers (Some ex_context)
     = Ok (Some (verifier_new ex_context Payload))"
    by (simp add: streaming_signature_verifier_def mode)
qed

lemma ex_signature_valid:
  assumes "sv_amz_date v = ''20250101T000000Z''"
  shows "verify_chunk_signature ext0 (Some v) (Some ex_signature) d
    = Ok (Some (v\<lparr>sv_previous_signature := ex_signature\<rparr>))"
proof -
  have "hex_encode0 (toy_digest 32 (chunk_string_to_sign ext0 v d)) = ex_signature"
    using assms by (simp add: toy_digest_def chunk_string_to_sign_def hex_encode0_def hex_byte_def
        digit_char_def ex_signature_def char_of_def bit_0)
  then show ?thesis by (simp add: verify_chunk_signature_Some ext0_def)
qed

lemma ex_signed_framed:
  "framed ext0 (Some (verifier_new ex_context Payload)) ex_signed_body [''hi''] bt_empty"
proof -
  let ?v = "verifier_new ex_context Payload"
  let ?v' = "?v\<lparr>sv_previous_signature := ex_signature\<rparr>"
  let ?l2 = "''2;chunk-signature='' @ ex_signature" and ?l0 = "''0;chunk-signature='' @ ex_signature"
  have lines: "control_line ?l2" "control_line ?l0"
    by (simp_all add: control_line_def ex_signature_def)
  have hs: "parse_aws_chunk_header ?l2 = Ok \<lparr>ch_size = 2, ch_signature = Some ex_signature\<rparr>"
    "parse_aws_chunk_header ?l0 = Ok \<lparr>ch_size = 0, ch_signature = Some ex_signature\<rparr>"
    by (simp_all add: parse_aws_chunk_header_def ex_signature_def is_lowercase_sha256_hex_def str_eval)
  have sigs: "verify_chunk_signature ext0 (Some ?v) (Some ex_signature) ''hi'' = Ok (Some ?v')"
    "verify_chunk_signature ext0 (Some ?v') (Some ex_signature) [] = Ok (Some ?v')"
    using ex_signature_valid [of ?v "''hi''"] ex_signature_valid [of ?v' "[]"]
    by (simp_all add: verifier_new_def ex_context_def)
  have "trailer_block ext0 (Some ?v') [] CRLF []"
    by (rule trailer_end)
      (simp add: verify_trailer_signature_def verifier_verify_trailer_def verifier_new_def)
  then have "framed ext0 (Some ?v') (?l0 @ CRLF @ CRLF) [] []"
    using framed_last [OF lines(2) hs(2)] sigs(2) by simp
  then have "framed ext0 (Some ?v) (?l2 @ CRLF @ ''hi'' @ CRLF @ (?l0 @ CRLF @ CRLF)) [''hi''] []"
    using framed_chunk [OF lines(1) hs(1), of "''hi''" ext0 "Some ?v"] sigs(1) by simp
  then show ?thesis by (simp add: ex_signed_body_def)
qed

lemma ex_signed_written:
  "\<exists>w' s'. write_aws_chunked_upload_body ext0 ex_signed_headers [Ok ex_signed_body] (fresh_sink [])
      (UploadBodyState_new ext0 ex_signed_headers) ''object'' (Some ex_context) 1000
      = ((w', s'), Some (Ok bt_empty)) \<and> sk_bytes w' = ''hi''"
  using chunked_frames_complete [OF ex_signed_framed, of ex_signed_headers 1000
      "UploadBodyState_new ext0 ex_signed_headers" "''object''"] ex_signed_header_facts
  by (auto simp: UploadBodyState_new_def write_aws_chunked_upload_body_def)

section \<open>Properties\<close>



text \<open>
  C14. The \<open>aws-chunked\<close> reader implements the grammar: whatever frames the transport delivers,
  when the reader succeeds the frames it consumed concatenate to a well-framed body of the
  grammar, the sink holds exactly the chunks of that body, the trailers are those of the
  body, and \<open>x-amz-decoded-content-length\<close> is the number of bytes written.
\<close>

theorem chunked_reader_refines_grammar:
  assumes "write_aws_chunked_upload_body E hs body (fresh_sink fs) s t ctx m = ((w', s'), Some (Ok ts))"
  shows "\<exists>v frames rest cs. streaming_signature_verifier E hs ctx = Ok v \<and> body = map Ok frames @ rest
    \<and> framed E v (concat frames) cs ts \<and> sk_bytes w' = concat cs
    \<and> decoded_content_length E hs = Ok (Some (ub_size s'))"
proof -
  from assms obtain v p' where v: "streaming_signature_verifier E hs ctx = Ok v"
    and cf: "chunked_frames E hs t m body (parser_new v, fresh_sink fs, s)
      = ((p', w', s'), Return (Ok (Some ts)))"
    by (rule write_aws_chunked_Ok)
  from cf v show ?thesis
    by (elim chunked_frames_sound) (auto simp: validate_decoded_content_length_Ok)
qed

theorem chunked_reader_refines_grammar_witness:
  "\<exists>v frames rest cs. streaming_signature_verifier ext0 ex_headers None = Ok v
    \<and> [Ok ex_body] = map Ok frames @ (rest :: body) \<and> framed ext0 v (concat frames) cs bt_empty
    \<and> ''hello'' = concat cs"
proof -
  obtain w' s' where "write_aws_chunked_upload_body ext0 ex_headers [Ok ex_body] (fresh_sink [])
      (UploadBodyState_new ext0 ex_headers) ''object'' None 1000 = ((w', s'), Some (Ok bt_empty))"
    and "sk_bytes w' = ''hello''"
    using ex_written by blast
  with chunked_reader_refines_grammar [OF this(1)] show ?thesis by metis
qed

text \<open>
  C29. The streaming reader agrees with the decoder for complete buffers: the bytes it writes
  and the trailers it returns are what \<open>decode_aws_chunked_body\<close> returns for the frames
  consumed, however the body was split into frames.
\<close>

theorem streaming_agrees_with_decoder:
  assumes "write_aws_chunked_upload_body E hs (map Ok frames) (fresh_sink fs) s t ctx m
    = ((w', s'), Some (Ok ts))" "length (concat frames) < 2 ^ 64"
  shows "\<exists>used rest. frames = used @ rest \<and>
    decode_aws_chunked_body (concat used) = Some (Ok \<lparr>db_data = sk_bytes w', db_trailers = ts\<rparr>)"
proof -
  from assms(1) obtain v p' where
    "chunked_frames E hs t m (map Ok frames) (parser_new v, fresh_sink fs, s)
      = ((p', w', s'), Return (Ok (Some ts)))"
    by (rule write_aws_chunked_Ok)
  then obtain used cs and rest :: body where u: "map Ok frames = map Ok used @ rest"
    and f: "framed E v (concat used) cs ts" and w: "sk_bytes w' = concat cs"
    by (elim chunked_frames_sound) simp
  from u have "used = take (length used) frames"
    by (metis append_eq_conv_conj length_map list.inj_map_strong result.inject(1) take_map)
  then obtain r where fr: "frames = used @ r" by (metis append_take_drop_id)
  with assms(2) have "length (concat used) < 2 ^ 64" by simp
  with decode_loop_framed [OF f, of "[]" "[]"] w fr show ?thesis
    by (auto simp: decode_aws_chunked_body_def)
qed

theorem streaming_agrees_with_decoder_witness:
  "\<exists>used rest. [ex_body] = used @ rest \<and>
    decode_aws_chunked_body (concat used) = Some (Ok \<lparr>db_data = ''hello'', db_trailers = bt_empty\<rparr>)"
proof -
  obtain w' s' where "write_aws_chunked_upload_body ext0 ex_headers (map Ok [ex_body]) (fresh_sink [])
      (UploadBodyState_new ext0 ex_headers) ''object'' None 1000 = ((w', s'), Some (Ok bt_empty))"
    and w: "sk_bytes w' = ''hello''"
    using ex_written by auto
  from streaming_agrees_with_decoder [OF this(1)] w show ?thesis by (simp add: ex_body_def)
qed







lemma write_upload_body_total:
  "\<exists>w' r. write_upload_body E hs body w t ctx m = (w', Some r)"
proof (cases "is_aws_chunked_request E hs")
  case True
  have "\<exists>w' s' r. write_aws_chunked_upload_body E hs body w s t ctx m = ((w', s'), Some r)" for s
  proof (cases "streaming_signature_verifier E hs ctx")
    case (Ok v)
    obtain p' w' s' f where "chunked_frames E hs t m body (parser_new v, w, s) = ((p', w', s'), f)"
      by (metis surj_pair)
    with chunked_frames_returns [of "(parser_new v, w, s)", OF _ this] Ok show ?thesis
      by (auto simp: write_aws_chunked_upload_body_def parser_new_def)
  qed (simp add: write_aws_chunked_upload_body_def)
  from this [of "UploadBodyState_new E hs"] True show ?thesis
    by (auto simp: write_upload_body_def Let_def split: result.split)
next
  case False
  then show ?thesis
    by (auto simp: write_upload_body_def Let_def split: result.split prod.split)
qed

text \<open>
  Reading a body always ends with a result: for every request, every sequence of frames and
  every write fault, \<open>write_upload_body\<close> returns a summary or an S3 error. The parser's loop
  terminates and its \<open>unreachable!\<close> arm is never run.
\<close>

lemma write_upload_body_returns:
  "\<exists>w' r. write_upload_body E hs body w t ctx m = (w', Some r)"
  by (rule write_upload_body_total)

text \<open>
  Frames after the one that ends the trailer block are never read: whatever follows a complete
  body in later frames leaves the outcome unchanged, while the same bytes in the last frame
  are an error.
\<close>

lemma frames_after_final_trailer_ignored:
  "chunked_frames E hs t m body cfg = (cfg', Return (Ok (Some ts))) \<Longrightarrow> pr_state (fst cfg) \<noteq> Done \<Longrightarrow>
     chunked_frames E hs t m (body @ extra) cfg = (cfg', Return (Ok (Some ts)))"
proof (induction body arbitrary: cfg)
  case Nil
  then show ?case by (cases cfg) (simp add: parser_finish_def)
next
  case (Cons x body)
  then obtain chunk where x: "x = Ok chunk" by (cases x) auto
  obtain cfg1 g where g: "push_and_write E t m chunk cfg = (cfg1, g)" by fastforce
  then have pl: "push_loop E t m (more_input chunk cfg) = (cfg1, g)"
    using Cons.prems(2) by (simp add: push_and_write_extend)
  show ?case
  proof (cases "g = Return (Ok None)")
    case True
    then have "pr_state (fst cfg1) \<noteq> Done"
      using push_loop_returns [OF _ pl] Cons.prems(2) by simp
    with Cons True x g show ?thesis by simp
  next
    case False
    then have "chunked_frames E hs t m (x # body @ extra) cfg = chunked_frames E hs t m (x # body) cfg"
      using x g by (cases g) (auto split: result.splits option.splits prod.splits)
    with Cons.prems(1) show ?thesis by simp
  qed
qed

end
