(* ===== verification/Upload_Middleware.thy ===== *)
theory Upload_Middleware
  imports Object_Store Upload_Body
begin

text \<open>
  Upload middleware (\<open>src/middleware.rs\<close>): processors that run, one after another, on the
  decoded bytes of a staged object before it is committed. A processor is a parameter: it
  reads and writes files and returns an action or an error. The UUID of each replacement
  file comes with the processor.
\<close>

datatype processor_operation = ProcPutObject | ProcCompleteMultipartUpload

record processor_context =
  pc_request_id :: request_id
  pc_bucket :: bucket_name
  pc_key :: object_key
  pc_operation :: processor_operation
  pc_original_size :: content_length
  pc_content_type :: "string option"
  pc_user_metadata :: "(string, string) btmap"

datatype processor_action = Keep | Replace

datatype processor_error = Rejected string | Failed string

text \<open>Context, current path, replacement path.\<close>

type_synonym processor =
  "processor_context \<Rightarrow> path \<Rightarrow> path \<Rightarrow> (fs, processor_action, processor_error) io"

definition map_processor_error :: "processor_error \<Rightarrow> s3_error" where
  "map_processor_error e =
     (case e of
        Rejected m \<Rightarrow> access_denied m
      | Failed m \<Rightarrow> internal_error (''upload processor failed: '' @ m))"

fun io_error_display :: "io_error \<Rightarrow> string" where
  "io_error_display NotFound = ''No such file or directory (os error 2)''"
| "io_error_display (OtherIo m) = m"

text \<open>
  The handle given to a processor function: reading the current bytes, writing the replacement
  and the four outcomes. An I/O error becomes a failure with its display.
\<close>

definition processor_error_of_io :: "io_error \<Rightarrow> processor_error" where
  "processor_error_of_io e = Failed (io_error_display e)"

definition read_current :: "path \<Rightarrow> (fs, bytes, processor_error) io" where
  "read_current current = io_map_err processor_error_of_io (fs_read current)"

definition write_replacement :: "path \<Rightarrow> bytes \<Rightarrow> (fs, unit, processor_error) io" where
  "write_replacement replacement b = io_map_err processor_error_of_io (fs_write replacement b)"

definition handle_reject :: "string \<Rightarrow> (processor_action, processor_error) result" where
  "handle_reject m = Err (Rejected m)"

definition handle_fail :: "string \<Rightarrow> (processor_action, processor_error) result" where
  "handle_fail m = Err (Failed m)"

definition remove_unused_replacement :: "path \<Rightarrow> (fs, unit, s3_error) io" where
  "remove_unused_replacement p =
     io_match (fs_remove_file p) (\<lambda>r. case r of
        Ok _ \<Rightarrow> io_return ()
      | Err NotFound \<Rightarrow> io_return ()
      | Err e \<Rightarrow> io_fail (internal_error
          (''failed to remove unused upload processor replacement file: '' @ io_error_display e)))"

text \<open>The display of a \<open>StoreError\<close>; the path of \<open>InvalidPath\<close> with its separators.\<close>

fun store_error_display :: "store_error \<Rightarrow> string" where
  "store_error_display (SE_Io e) = ''storage I/O failed''"
| "store_error_display SE_Json = ''failed to encode or decode storage metadata''"
| "store_error_display (SE_InvalidPath p) = ''invalid storage path: '' @ join_with ''/'' p"
| "store_error_display SE_InvalidUploadId = ''invalid upload ID''"
| "store_error_display SE_NoSuchUpload = ''multipart upload does not exist''"
| "store_error_display SE_InvalidPart = ''multipart upload part is invalid''"
| "store_error_display SE_EntityTooSmall =
     ''multipart upload part is smaller than the minimum allowed size''"
| "store_error_display SE_EntityTooLarge = ''entity is larger than the maximum allowed size''"
| "store_error_display (SE_Checksum e) = ''checksum validation failed''"
| "store_error_display (SE_Processor e) = ''upload processor failed''"

text \<open>
  A failing call with \<open>?\<close> drops the staged object, whose destructor removes the file.
\<close>

definition drop_staged :: "staged_object \<Rightarrow> s3_error \<Rightarrow> (fs, 'a, s3_error) io" where
  "drop_staged st e = io_ignore (staged_discard st) (io_fail e)"

definition process_one ::
  "processor_context \<Rightarrow> staged_object \<Rightarrow> processor \<times> string \<Rightarrow> (fs, unit, s3_error) io" where
  "process_one ctx st pu =
     (case pu of (p, uuid) \<Rightarrow>
      let replacement = replacement_path st uuid
      in io_match (p ctx (st_path st) replacement) (\<lambda>r. case r of
           Err e \<Rightarrow>
             io_match (remove_unused_replacement replacement) (\<lambda>q. case q of
                Err e2 \<Rightarrow> drop_staged st e2
              | Ok _ \<Rightarrow> drop_staged st (map_processor_error e))
         | Ok Keep \<Rightarrow>
             io_match (remove_unused_replacement replacement) (\<lambda>q. case q of
                Err e2 \<Rightarrow> drop_staged st e2
              | Ok _ \<Rightarrow> io_return ())
         | Ok Replace \<Rightarrow>
             io_match (replace_with st replacement) (\<lambda>q. case q of
                Err e2 \<Rightarrow> drop_staged st
                  (internal_error (''failed to replace staged upload: '' @ store_error_display e2))
              | Ok _ \<Rightarrow> io_return ())))"

definition process_staged_upload ::
  "(processor \<times> string) list \<Rightarrow> staged_object \<Rightarrow> processor_context \<Rightarrow> (fs, staged_object, s3_error) io" where
  "process_staged_upload ps st ctx =
     io_bind (io_for (process_one ctx st) ps) (\<lambda>_. io_return st)"

text \<open>Opening and reading a staged file in full, for \<open>summarize_staged_upload\<close>.\<close>

fun file_chunks :: "nat \<Rightarrow> nat \<Rightarrow> bytes \<Rightarrow> bytes list" where
  "file_chunks 0 n b = []"
| "file_chunks (Suc fuel) n b =
     (if n = 0 \<or> b = [] then [] else take n b # file_chunks fuel n (drop n b))"

text \<open>\<open>length b\<close> reads are enough.\<close>

definition read_chunks :: "nat \<Rightarrow> bytes \<Rightarrow> bytes list" where
  "read_chunks n b = file_chunks (length b) n b"

text \<open>A call on an open file: it may fail and changes no name in the tree.\<close>

definition fs_step :: "(fs, unit, io_error) io" where
  "fs_step = faulty (\<lambda>_ n. n) (\<lambda>n. (Ok (), n))"

text \<open>The results of the reads of a file that has the given chunks, the last one empty.\<close>

fun read_frames :: "bytes list \<Rightarrow> fs \<Rightarrow> body \<times> fs" where
  "read_frames [] s =
     (case fs_step s of
        (Ok _, s') \<Rightarrow> ([Ok []], s')
      | (Err e, s') \<Rightarrow> ([Err (io_error_display e)], s'))"
| "read_frames (c # cs) s =
     (case fs_step s of
        (Ok _, s') \<Rightarrow> (case read_frames cs s' of (rs, s'') \<Rightarrow> (Ok c # rs, s''))
      | (Err e, s') \<Rightarrow> ([Err (io_error_display e)], s'))"

definition summarize_file ::
  "ext \<Rightarrow> nat \<Rightarrow> path \<Rightarrow> (fs, final_upload_body, s3_error) io" where
  "summarize_file E buffer_size p =
     io_match (fs_read p) (\<lambda>r. case r of
        Err e \<Rightarrow> io_lift (summarize_staged_upload E (Err (io_error_display e)))
      | Ok b \<Rightarrow> (\<lambda>s. case read_frames (read_chunks buffer_size b) s of
           (frames, s') \<Rightarrow> (summarize_staged_upload E (Ok frames), s')))"

lemma fs_step_nodes: "fs_step s = (r, s') \<Longrightarrow> fs_nodes s' = fs_nodes s \<and> faults_left s' \<le> faults_left s"
  unfolding fs_step_def by (erule faulty_cases) simp_all

lemma read_frames_nodes: "read_frames cs s = (rs, s') \<Longrightarrow> fs_nodes s' = fs_nodes s"
  by (induction cs arbitrary: s rs)
    (auto split: prod.splits result.splits dest!: fs_step_nodes)

lemma file_chunks_concat: "n > 0 \<Longrightarrow> length b \<le> fuel \<Longrightarrow> concat (file_chunks fuel n b) = b"
  by (induction fuel n b rule: file_chunks.induct) auto

lemma read_chunks_concat: "n > 0 \<Longrightarrow> concat (read_chunks n b) = b"
  by (simp add: read_chunks_def file_chunks_concat)

lemma read_chunks_nonempty: "[] \<notin> set (read_chunks n b)"
proof -
  have "[] \<notin> set (file_chunks fuel n b)" for fuel
    by (induction fuel n b rule: file_chunks.induct) auto
  then show ?thesis by (simp add: read_chunks_def)
qed

text \<open>A summary that succeeds has seen every chunk of the file.\<close>

lemma summarize_loop_frames:
  "summarize_loop (fst (read_frames cs s)) fed n = Ok (x, k) \<Longrightarrow> [] \<notin> set cs \<Longrightarrow>
     n + length (concat cs) < u64_max \<Longrightarrow> x = fed @ concat cs \<and> k = n + length (concat cs)"
proof (induction cs arbitrary: s fed n)
  case Nil
  then show ?case by (auto split: prod.splits result.splits)
next
  case (Cons c cs)
  obtain q s1 where q: "fs_step s = (q, s1)" by fastforce
  with Cons.prems(1) obtain u where u: "q = Ok u"
    by (cases q) auto
  have sat: "u64_saturating_add n (length c) = n + length c"
    using Cons.prems(3) by (simp add: u64_saturating_add_def)
  have "summarize_loop (fst (read_frames cs s1)) (fed @ c) (n + length c) = Ok (x, k)"
    using Cons.prems(1,2) q u sat by (auto split: prod.splits)
  from Cons.IH [OF this] Cons.prems(2,3) show ?case by (auto simp: add.assoc)
qed

text \<open>The summary describes exactly the bytes of the file.\<close>

lemma summarize_file_Ok:
  assumes "summarize_file E n p s = (Ok fb, s')" "n > 0"
    and "\<And>b. files s p = Some b \<Longrightarrow> length b < u64_max"
  shows "\<exists>b. files s p = Some b \<and> fu_size fb = length b \<and> fu_digests fb = digests_of E b
    \<and> fs_nodes s' = fs_nodes s"
proof -
  obtain q s1 where q: "fs_read p s = (q, s1)" by fastforce
  from assms(1) q obtain b where b: "q = Ok b"
    by (cases q) (auto simp: summarize_file_def io_simps summarize_staged_upload_def)
  with q have f: "files s p = Some b" "fs_nodes s1 = fs_nodes s"
    using fs_read_Ok by blast+
  obtain rs where rs: "read_frames (read_chunks n b) s1 = (rs, s')"
    and sum: "summarize_staged_upload E (Ok rs) = Ok fb"
    using assms(1) q b by (auto simp: summarize_file_def io_simps split: prod.splits)
  from sum obtain x k where xk: "summarize_loop rs [] 0 = Ok (x, k)"
    and fb: "fb = \<lparr>fu_size = k, fu_digests = digests_of E x\<rparr>"
    by (auto simp: summarize_staged_upload_def res_simps)
  have "x = b \<and> k = length b"
    using summarize_loop_frames [of "read_chunks n b" s1 "[]" 0 x k] xk rs read_chunks_nonempty
      read_chunks_concat [OF assms(2)] assms(3) f by simp
  with fb f read_frames_nodes [OF rs] show ?thesis by simp
qed

text \<open>Without processors the staged object is passed on untouched.\<close>

lemma process_no_processors [simp]: "process_staged_upload [] st ctx s = (Ok st, s)"
  by (simp add: process_staged_upload_def io_simps)

end
