(* ===== verification/Multipart_Store.thy ===== *)
theory Multipart_Store
  imports Upload_Middleware
begin

text \<open>
  The filesystem multipart store (\<open>src/storage/multipart.rs\<close>,
  \<open>src/storage/complete_checksum.rs\<close>): upload sessions kept in memory and persisted as JSON,
  part files, completion into the object store, abort, and recovery at startup. The state is
  the file tree and the session map; both stores share the tree. Fresh UUIDs and the clock
  are arguments.
\<close>

section \<open>State\<close>

record multipart =
  ms_fs :: fs
  ms_sessions :: "(upload_id, upload_session) btmap"

text \<open>A file-system computation inside the store.\<close>

definition on_fs :: "(fs, 'a, 'e) io \<Rightarrow> (multipart, 'a, 'e) io" where
  "on_fs m st = (case m (ms_fs st) of (r, fs') \<Rightarrow> (r, st\<lparr>ms_fs := fs'\<rparr>))"

definition put_session :: "upload_id \<Rightarrow> upload_session \<Rightarrow> (multipart, unit, 'e) io" where
  "put_session u us st = (Ok (), st\<lparr>ms_sessions := bt_insert u us (ms_sessions st)\<rparr>)"

definition drop_session :: "upload_id \<Rightarrow> (multipart, unit, 'e) io" where
  "drop_session u st = (Ok (), st\<lparr>ms_sessions := bt_remove u (ms_sessions st)\<rparr>)"

definition get_session :: "upload_id \<Rightarrow> (multipart, upload_session option, 'e) io" where
  "get_session u st = (Ok (bt_get (ms_sessions st) u), st)"

section \<open>Paths\<close>

definition upload_dir :: "upload_id \<Rightarrow> path" where
  "upload_dir u = [''multipart'', u]"

definition parts_dir :: "upload_id \<Rightarrow> path" where
  "parts_dir u = upload_dir u @ [''parts'']"

definition part_path :: "upload_id \<Rightarrow> part_number \<Rightarrow> path" where
  "part_path u n = parts_dir u @ [show_pad5 n @ ''.part'']"

definition session_path :: "upload_id \<Rightarrow> path" where
  "session_path u = upload_dir u @ [''session.json'']"

section \<open>Sessions\<close>

definition persist_session :: "codec \<Rightarrow> string \<Rightarrow> upload_session \<Rightarrow> (fs, unit, store_error) io" where
  "persist_session J uuid us =
     (let sp = session_path (us_upload_id us);
          tmp = upload_dir (us_upload_id us) @ [''session.'' @ uuid @ ''.tmp'']
      in io_bind (create_parent_dir sp) (\<lambda>_.
         io_bind (io_lift (ok_or SE_Json (j_session_encode J us))) (\<lambda>json.
         io_match (io_bind (se_io (fs_write tmp json)) (\<lambda>_. se_io (fs_rename tmp sp))) (\<lambda>r.
           case r of
             Ok _ \<Rightarrow> io_return ()
           | Err e \<Rightarrow> io_ignore (remove_file_if_exists tmp) (io_fail e)))))"

definition create_upload ::
  "codec \<Rightarrow> upload_id \<Rightarrow> string \<Rightarrow> timestamp \<Rightarrow> bucket_name \<Rightarrow> object_key \<Rightarrow> access_key_id option \<Rightarrow>
     upload_metadata \<Rightarrow> (multipart, upload_session, store_error) io" where
  "create_upload J u uuid now bucket key owner metadata =
     (let us = \<lparr>us_upload_id = u, us_bucket = bucket, us_key = key, us_initiated = now,
                us_state = Open, us_owner = owner, us_metadata = metadata, us_parts = bt_empty\<rparr>
      in io_bind (on_fs (se_io (fs_create_dir_all (parts_dir u)))) (\<lambda>_.
         io_bind (on_fs (persist_session J uuid us)) (\<lambda>_.
         io_bind (put_session u us) (\<lambda>_.
         io_return us))))"

definition get_upload :: "upload_id \<Rightarrow> multipart \<Rightarrow> upload_session option" where
  "get_upload u st = bt_get (ms_sessions st) u"

definition get_open_upload :: "upload_id \<Rightarrow> (multipart, upload_session, store_error) io" where
  "get_open_upload u =
     io_bind (get_session u) (\<lambda>s. case s of
        None \<Rightarrow> io_fail SE_NoSuchUpload
      | Some us \<Rightarrow> io_bind (io_lift (ensure_open us)) (\<lambda>_. io_return us))"

section \<open>Parts\<close>

text \<open>
  The in-memory update of a session: \<open>get_mut\<close>, \<open>ensure_open\<close>, insert the part, clone.
\<close>

definition insert_part ::
  "upload_id \<Rightarrow> part_metadata \<Rightarrow> (multipart, upload_session, store_error) io" where
  "insert_part u part =
     io_bind (get_open_upload u) (\<lambda>us.
     let us' = us\<lparr>us_parts := bt_insert (pm_part_number part) part (us_parts us)\<rparr>
     in io_bind (put_session u us') (\<lambda>_. io_return us'))"

definition write_part ::
  "codec \<Rightarrow> string \<Rightarrow> timestamp \<Rightarrow> upload_id \<Rightarrow> part_number \<Rightarrow> bytes \<Rightarrow> bytes \<Rightarrow> etag \<Rightarrow>
     (string, string) btmap \<Rightarrow> (multipart, part_metadata, store_error) io" where
  "write_part J uuid now u n body md5 tag checksums =
     io_bind (get_open_upload u) (\<lambda>_.
     io_bind (on_fs (create_parent_dir (part_path u n))) (\<lambda>_.
     io_bind (on_fs (se_io (fs_write (part_path u n) body))) (\<lambda>_.
     let part = \<lparr>pm_part_number = n, pm_size = length body, pm_etag = tag, pm_md5 = md5,
                 pm_checksums = checksums, pm_last_modified = now\<rparr>
     in io_bind (insert_part u part) (\<lambda>us.
        io_bind (on_fs (persist_session J uuid us)) (\<lambda>_.
        io_return part)))))"

record temp_part =
  tp_path :: path
  tp_bytes :: bytes

definition create_temp_part ::
  "string \<Rightarrow> upload_id \<Rightarrow> part_number \<Rightarrow> (multipart, temp_part, store_error) io" where
  "create_temp_part temp_id u n =
     io_bind (get_open_upload u) (\<lambda>_.
     let p = upload_dir u @ [show_pad5 n @ ''.'' @ temp_id @ ''.tmp'']
     in io_bind (on_fs (create_parent_dir p)) (\<lambda>_.
        io_bind (on_fs (se_io (fs_create p))) (\<lambda>_.
        io_return \<lparr>tp_path = p, tp_bytes = []\<rparr>)))"

definition part_discard :: "temp_part \<Rightarrow> (fs, unit, store_error) io" where
  "part_discard tp = remove_file_if_exists (tp_path tp)"

text \<open>\<open>writer.flush()\<close>, which the upload handler calls before it commits the part.\<close>

definition part_flush :: "temp_part \<Rightarrow> (fs, unit, io_error) io" where
  "part_flush tp = fs_write (tp_path tp) (tp_bytes tp)"

definition rollback_part_file :: "path \<Rightarrow> path option \<Rightarrow> (fs, unit, store_error) io" where
  "rollback_part_file final_path backup =
     io_ignore (remove_file_if_exists final_path)
       (case backup of
          None \<Rightarrow> io_return ()
        | Some b \<Rightarrow> io_ignore (fs_rename b final_path) (io_return ()))"

text \<open>Put the previous entry of a part back into the session, or remove the entry.\<close>

definition restore_part_entry ::
  "upload_id \<Rightarrow> part_number \<Rightarrow> part_metadata option \<Rightarrow> (multipart, unit, store_error) io" where
  "restore_part_entry u n previous =
     io_bind (get_session u) (\<lambda>s. case s of
        None \<Rightarrow> io_return ()
      | Some us \<Rightarrow>
          put_session u (us\<lparr>us_parts :=
            (case previous of
               Some p \<Rightarrow> bt_insert n p (us_parts us)
             | None \<Rightarrow> bt_remove n (us_parts us))\<rparr>))"

definition publish_part :: "path \<Rightarrow> path \<Rightarrow> path option \<Rightarrow> (fs, unit, store_error) io" where
  "publish_part temp_path final_path backup =
     io_bind (create_parent_dir final_path) (\<lambda>_.
     io_bind (case backup of
                None \<Rightarrow> io_return ()
              | Some b \<Rightarrow> se_io (fs_hard_link final_path b)) (\<lambda>_.
     se_io (fs_rename temp_path final_path)))"

definition discard_unpublished_part :: "path \<Rightarrow> path option \<Rightarrow> (fs, unit, store_error) io" where
  "discard_unpublished_part temp_path backup =
     io_ignore (remove_file_if_exists temp_path)
       (case backup of
          None \<Rightarrow> io_return ()
        | Some b \<Rightarrow> io_ignore (remove_file_if_exists b) (io_return ()))"

definition commit_part ::
  "codec \<Rightarrow> string \<Rightarrow> string \<Rightarrow> timestamp \<Rightarrow> upload_id \<Rightarrow> part_number \<Rightarrow> path \<Rightarrow> committed_part \<Rightarrow>
     (multipart, part_metadata, store_error) io" where
  "commit_part J backup_id uuid now u n temp_path part =
     io_bind (get_open_upload u) (\<lambda>us.
     let final_path = part_path u n;
         previous = bt_get (us_parts us) n;
         backup = map_option (\<lambda>_. upload_dir u @ [show_pad5 n @ ''.'' @ backup_id @ ''.rollback.tmp''])
                    previous
     in io_match (on_fs (publish_part temp_path final_path backup)) (\<lambda>r. case r of
          Err e \<Rightarrow>
            io_ignore (on_fs (discard_unpublished_part temp_path backup)) (io_fail e)
        | Ok _ \<Rightarrow>
            (let pm = \<lparr>pm_part_number = n, pm_size = ct_size part, pm_etag = ct_etag part,
                       pm_md5 = ct_md5 part, pm_checksums = ct_checksums part,
                       pm_last_modified = now\<rparr>
             in io_bind (insert_part u pm) (\<lambda>us'.
                io_match (on_fs (persist_session J uuid us')) (\<lambda>q. case q of
                  Err e \<Rightarrow>
                    io_ignore (on_fs (rollback_part_file final_path backup))
                   (io_ignore (restore_part_entry u n previous)
                   (io_fail e))
                | Ok _ \<Rightarrow>
                    io_bind (case backup of
                               None \<Rightarrow> io_return ()
                             | Some b \<Rightarrow> on_fs (remove_file_if_exists b)) (\<lambda>_.
                    io_return pm))))))"

section \<open>Abort\<close>

definition abort_upload :: "codec \<Rightarrow> string \<Rightarrow> upload_id \<Rightarrow> (multipart, unit, store_error) io" where
  "abort_upload J uuid u =
     io_bind (get_open_upload u) (\<lambda>us.
     let us' = us\<lparr>us_state := Aborted\<rparr>
     in io_bind (on_fs (persist_session J uuid us')) (\<lambda>_.
        io_bind (put_session u us') (\<lambda>_.
        io_match (on_fs (fs_remove_dir_all (upload_dir u))) (\<lambda>r. case r of
          Ok _ \<Rightarrow> drop_session u
        | Err NotFound \<Rightarrow> drop_session u
        | Err e \<Rightarrow> io_fail (SE_Io e)))))"

end
