(* ===== verification/Multipart_Complete.thy ===== *)
theory Multipart_Complete
  imports Multipart_Store
begin

text \<open>
  Completion of a multipart upload into a committed object, and the recovery of sessions at
  startup (\<open>src/storage/multipart.rs\<close>, \<open>src/storage/complete_checksum.rs\<close>).
\<close>

section \<open>Digests of the assembled object\<close>

record complete_state =
  cs_md5 :: "bytes option"
  cs_sha1 :: "bytes option"
  cs_sha256 :: "bytes option"
  cs_sha512 :: "bytes option"
  cs_crc32 :: "bytes option"
  cs_crc32c :: "bytes option"

definition complete_state_new :: "checksum_request \<Rightarrow> complete_state" where
  "complete_state_new r =
     \<lparr>cs_md5 = new_hasher (requires_md5 r), cs_sha1 = new_hasher (requires_sha1 r),
      cs_sha256 = new_hasher (requires_sha256 r), cs_sha512 = new_hasher (requires_sha512 r),
      cs_crc32 = new_hasher (requires_crc32 r), cs_crc32c = new_hasher (requires_crc32c r)\<rparr>"

definition complete_state_update :: "bytes \<Rightarrow> complete_state \<Rightarrow> complete_state" where
  "complete_state_update b s =
     s\<lparr>cs_md5 := feed b (cs_md5 s), cs_sha1 := feed b (cs_sha1 s),
       cs_sha256 := feed b (cs_sha256 s), cs_sha512 := feed b (cs_sha512 s),
       cs_crc32 := feed b (cs_crc32 s), cs_crc32c := feed b (cs_crc32c s)\<rparr>"

definition complete_state_finalize :: "ext \<Rightarrow> complete_state \<Rightarrow> checksum_digests" where
  "complete_state_finalize E s =
     \<lparr>dg_md5 = finalize_or_default (x_md5 E) [] (cs_md5 s),
      dg_sha1 = finalize_or_default (x_sha1 E) [] (cs_sha1 s),
      dg_sha256 = finalize_or_default (x_sha256 E) [] (cs_sha256 s),
      dg_sha512 = finalize_or_default (x_sha512 E) [] (cs_sha512 s),
      dg_crc32 = finalize_or_default (x_crc32 E) 0 (cs_crc32 s),
      dg_crc32c = finalize_or_default (x_crc32c E) 0 (cs_crc32c s)\<rparr>"

section \<open>Validation of the requested parts\<close>

text \<open>The requested parts still to check; the last one may be small.\<close>

fun validate_parts ::
  "upload_limits \<Rightarrow> upload_session \<Rightarrow> completed_part list \<Rightarrow> (part_metadata list, store_error) result" where
  "validate_parts L us [] = Ok []"
| "validate_parts L us (req # rest) =
     and_then (ok_or SE_InvalidPart (bt_get (us_parts us) (cp_part_number req))) (\<lambda>part.
     and_then (ensure (pm_etag part = cp_etag req) SE_InvalidPart) (\<lambda>_.
     and_then (ensure (\<not> (rest \<noteq> [] \<and> pm_size part < ul_min_non_final_part_size L))
       SE_EntityTooSmall) (\<lambda>_.
     map_ok ((#) part) (validate_parts L us rest))))"

section \<open>Assembling the object\<close>

text \<open>
  The accumulator of the copy loop: the temporary object, the digest state, the concatenated
  part MD5s and the total size.
\<close>

record assembly =
  as_temp :: temp_object
  as_digests :: complete_state
  as_md5s :: bytes
  as_total :: nat

text \<open>\<open>discard_temp_object(temp, ...)\<close>, then the error.\<close>

definition discard_with :: "temp_object \<Rightarrow> store_error \<Rightarrow> (fs, 'a, store_error) io" where
  "discard_with tw e = io_ignore (temp_discard tw) (io_fail e)"

text \<open>The read loop over one part file: each chunk is one read and one write.\<close>

fun copy_chunks :: "bytes list \<Rightarrow> assembly \<Rightarrow> (fs, assembly, store_error) io" where
  "copy_chunks [] a =
     io_match fs_step (\<lambda>r. case r of
        Err e \<Rightarrow> discard_with (as_temp a) (SE_Io e)
      | Ok _ \<Rightarrow> io_return a)"
| "copy_chunks (c # cs) a =
     io_match fs_step (\<lambda>r. case r of
        Err e \<Rightarrow> discard_with (as_temp a) (SE_Io e)
      | Ok _ \<Rightarrow> io_match fs_step (\<lambda>q. case q of
           Err e \<Rightarrow> discard_with (as_temp a) (SE_Io e)
         | Ok _ \<Rightarrow> copy_chunks cs
             (a\<lparr>as_temp := (as_temp a)\<lparr>tw_bytes := tw_bytes (as_temp a) @ c\<rparr>,
                as_digests := complete_state_update c (as_digests a)\<rparr>)))"

definition copy_part ::
  "upload_limits \<Rightarrow> nat \<Rightarrow> upload_id \<Rightarrow> part_metadata \<Rightarrow> assembly \<Rightarrow> (fs, assembly, store_error) io" where
  "copy_part L buffer_size u part a =
     io_match (fs_read (part_path u (pm_part_number part))) (\<lambda>r. case r of
        Err e \<Rightarrow> discard_with (as_temp a) (SE_Io e)
      | Ok content \<Rightarrow>
          io_bind (copy_chunks (read_chunks buffer_size content) a) (\<lambda>a1.
          let a2 = a1\<lparr>as_md5s := as_md5s a1 @ pm_md5 part,
                      as_total := u64_wrapping_add (as_total a1) (pm_size part)\<rparr>
          in if as_total a2 > ul_max_object_size L
             then discard_with (as_temp a2) SE_EntityTooLarge
             else io_return a2))"

fun copy_parts ::
  "upload_limits \<Rightarrow> nat \<Rightarrow> upload_id \<Rightarrow> part_metadata list \<Rightarrow> assembly \<Rightarrow> (fs, assembly, store_error) io" where
  "copy_parts L n u [] a = io_return a"
| "copy_parts L n u (p # ps) a = io_bind (copy_part L n u p a) (copy_parts L n u ps)"

section \<open>Completion\<close>

record complete_request =
  cr_upload_id :: upload_id
  cr_parts :: "completed_part list"
  cr_checksums :: checksum_request
  cr_limits :: upload_limits
  cr_copy_buffer :: nat
  cr_summary_buffer :: nat
  cr_request_id :: request_id
  cr_processors :: "(processor \<times> string) list"

definition completion_metadata ::
  "ext \<Rightarrow> timestamp \<Rightarrow> upload_session \<Rightarrow> complete_request \<Rightarrow> bytes \<Rightarrow> final_upload_body \<Rightarrow> object_metadata" where
  "completion_metadata E now us req md5s fb =
     (let m = us_metadata us; plain = (cr_processors req = [])
      in \<lparr>om_bucket = us_bucket us, om_key = us_key us, om_size = fu_size fb,
          om_etag = (if plain
             then ETag_from_multipart_md5 (x_hex_encode E (x_md5 E md5s)) (length (cr_parts req))
             else ETag_from_hex_md5 (x_hex_encode E (dg_md5 (fu_digests fb)))),
          om_content_type = um_content_type m, om_content_encoding = um_content_encoding m,
          om_content_disposition = um_content_disposition m,
          om_content_language = um_content_language m, om_cache_control = um_cache_control m,
          om_expires = um_expires m, om_tagging = um_tagging m,
          om_user_metadata = um_user_metadata m,
          om_checksums = (if plain then rq_checksum_values (cr_checksums req)
             else checksum_values_for_digests E (cr_checksums req) (fu_digests fb)),
          om_last_modified = now\<rparr>)"

text \<open>The file-system part of \<open>complete_upload_after_transition\<close>, up to the commit.\<close>

definition assemble_object ::
  "ext \<Rightarrow> string \<Rightarrow> upload_session \<Rightarrow> complete_request \<Rightarrow> (fs, assembly, store_error) io" where
  "assemble_object E temp_id us req =
     io_bind (io_lift (validate_parts (cr_limits req) us (cr_parts req))) (\<lambda>parts.
     io_bind (create_temp_object temp_id) (\<lambda>tw.
     io_bind (copy_parts (cr_limits req) (cr_copy_buffer req) (cr_upload_id req) parts
        \<lparr>as_temp = tw, as_digests = complete_state_new (cr_checksums req), as_md5s = [],
         as_total = 0\<rparr>) (\<lambda>a.
     case ChecksumRequest_validate (cr_checksums req) (complete_state_finalize E (as_digests a)) of
       Err e \<Rightarrow> discard_with (as_temp a) (SE_Checksum e)
     | Ok _ \<Rightarrow> io_return a)))"

definition stage_object ::
  "ext \<Rightarrow> upload_session \<Rightarrow> complete_request \<Rightarrow> assembly \<Rightarrow>
     (fs, staged_object \<times> final_upload_body, store_error) io" where
  "stage_object E us req a =
     io_match (temp_flush (as_temp a)) (\<lambda>r. case r of
        Err e \<Rightarrow> discard_with (as_temp a) e
      | Ok _ \<Rightarrow> io_bind (temp_finish (as_temp a)) (\<lambda>st.
          let ctx = \<lparr>pc_request_id = cr_request_id req, pc_bucket = us_bucket us,
                pc_key = us_key us, pc_operation = ProcCompleteMultipartUpload,
                pc_original_size = as_total a, pc_content_type = um_content_type (us_metadata us),
                pc_user_metadata = um_user_metadata (us_metadata us)\<rparr>
           in io_bind (io_map_err SE_Processor (process_staged_upload (cr_processors req) st ctx))
              (\<lambda>st'.
              io_match (summarize_file E (cr_summary_buffer req) (st_path st')) (\<lambda>q. case q of
                 Err e \<Rightarrow> io_ignore (staged_discard st') (io_fail (SE_Processor e))
               | Ok fb \<Rightarrow>
                   if fu_size fb > ul_max_object_size (cr_limits req)
                   then io_ignore (staged_discard st') (io_fail SE_EntityTooLarge)
                   else io_return (st', fb)))))"

definition commit_completed ::
  "ext \<Rightarrow> codec \<Rightarrow> string \<Rightarrow> timestamp \<Rightarrow> upload_session \<Rightarrow> complete_request \<Rightarrow>
     (fs, object_metadata, store_error) io" where
  "commit_completed E J temp_id now us req =
     io_bind (assemble_object E temp_id us req) (\<lambda>a.
     io_bind (stage_object E us req a) (\<lambda>(st, fb).
     let md = completion_metadata E now us req (as_md5s a) fb
     in io_bind (commit_staged_object E J st md) (\<lambda>_. io_return md)))"

definition mark_upload_state ::
  "upload_id \<Rightarrow> upload_state \<Rightarrow> (multipart, upload_session option, store_error) io" where
  "mark_upload_state u state =
     io_bind (get_session u) (\<lambda>s. case s of
        None \<Rightarrow> io_return None
      | Some us \<Rightarrow>
          io_bind (put_session u (us\<lparr>us_state := state\<rparr>)) (\<lambda>_.
          io_return (Some (us\<lparr>us_state := state\<rparr>))))"

definition begin_completion ::
  "codec \<Rightarrow> string \<Rightarrow> upload_id \<Rightarrow> (multipart, upload_session, store_error) io" where
  "begin_completion J uuid u =
     io_bind (get_open_upload u) (\<lambda>us.
     let us' = us\<lparr>us_state := Completing\<rparr>
     in io_bind (put_session u us') (\<lambda>_.
        io_ignore (on_fs (persist_session J uuid us')) (io_return us')))"

definition restore_open_upload :: "codec \<Rightarrow> string \<Rightarrow> upload_id \<Rightarrow> (multipart, unit, store_error) io" where
  "restore_open_upload J uuid u =
     io_bind (mark_upload_state u Open) (\<lambda>s. case s of
        None \<Rightarrow> io_return ()
      | Some us \<Rightarrow> io_ignore (on_fs (persist_session J uuid us)) (io_return ()))"

definition finish_completion :: "codec \<Rightarrow> string \<Rightarrow> upload_id \<Rightarrow> (multipart, unit, store_error) io" where
  "finish_completion J uuid u =
     io_bind (mark_upload_state u Completed) (\<lambda>s.
     io_ignore (case s of
                  None \<Rightarrow> io_return ()
                | Some us \<Rightarrow> on_fs (persist_session J uuid us))
    (io_ignore (on_fs (remove_file_if_exists (session_path u)))
    (io_bind (drop_session u) (\<lambda>_.
     io_ignore (on_fs (fs_remove_dir_all (upload_dir u))) (io_return ())))))"

definition complete_upload_after_transition ::
  "ext \<Rightarrow> codec \<Rightarrow> string \<Rightarrow> string \<Rightarrow> timestamp \<Rightarrow> upload_session \<Rightarrow> complete_request \<Rightarrow>
     (multipart, object_metadata, store_error) io" where
  "complete_upload_after_transition E J temp_id uuid now us req =
     io_bind (on_fs (commit_completed E J temp_id now us req)) (\<lambda>md.
     io_bind (finish_completion J uuid (cr_upload_id req)) (\<lambda>_.
     io_return md))"

text \<open>The three UUIDs name the session files written before, after and on failure.\<close>

definition complete_upload ::
  "ext \<Rightarrow> codec \<Rightarrow> string \<Rightarrow> string \<Rightarrow> string \<Rightarrow> string \<Rightarrow> timestamp \<Rightarrow> complete_request \<Rightarrow>
     (multipart, object_metadata, store_error) io" where
  "complete_upload E J temp_id uuid1 uuid2 uuid3 now req =
     io_bind (begin_completion J uuid1 (cr_upload_id req)) (\<lambda>us.
     io_match (complete_upload_after_transition E J temp_id uuid2 now us req) (\<lambda>r. case r of
        Ok md \<Rightarrow> io_return md
      | Err e \<Rightarrow> io_ignore (restore_open_upload J uuid3 (cr_upload_id req)) (io_fail e)))"

section \<open>Startup\<close>

text \<open>\<open>to_std()\<close> refuses a negative age, which then does not count as expired.\<close>

definition incomplete_upload_is_expired ::
  "multipart_lifecycle \<Rightarrow> timestamp \<Rightarrow> upload_session \<Rightarrow> bool" where
  "incomplete_upload_is_expired lc now us =
     (case lc_abort_incomplete_after lc of
        None \<Rightarrow> False
      | Some max_age \<Rightarrow> now - us_initiated us \<ge> 0 \<and> now - us_initiated us > max_age)"

definition remove_upload_dir_on_startup :: "path \<Rightarrow> (multipart, unit, store_error) io" where
  "remove_upload_dir_on_startup p = io_ignore (on_fs (fs_remove_dir_all p)) (io_return ())"

definition load_session ::
  "codec \<Rightarrow> multipart_lifecycle \<Rightarrow> timestamp \<Rightarrow> string \<times> bool \<Rightarrow> (multipart, unit, store_error) io" where
  "load_session J lc now entry =
     (case entry of (name, dir) \<Rightarrow>
      if \<not> dir then io_return ()
      else io_match (on_fs (fs_read [''multipart'', name, ''session.json''])) (\<lambda>r. case r of
         Err NotFound \<Rightarrow> io_return ()
       | Err e \<Rightarrow> io_fail (SE_Io e)
       | Ok json \<Rightarrow>
           io_bind (io_lift (ok_or SE_Json (j_session_decode J json))) (\<lambda>us.
           if \<not> is_open us then
             (if lc_cleanup_on_startup lc \<and> lc_remove_terminal_uploads_on_startup lc
              then remove_upload_dir_on_startup [''multipart'', name] else io_return ())
           else if incomplete_upload_is_expired lc now us then
             (if lc_cleanup_on_startup lc
              then remove_upload_dir_on_startup [''multipart'', name] else io_return ())
           else put_session (us_upload_id us) us)))"

definition load_sessions ::
  "codec \<Rightarrow> multipart_lifecycle \<Rightarrow> timestamp \<Rightarrow> (multipart, unit, store_error) io" where
  "load_sessions J lc now =
     io_bind (on_fs (se_io (fs_read_dir [''multipart'']))) (\<lambda>entries.
     io_for (load_session J lc now) entries)"

definition multipart_cleanup_stale_temp_files :: "(fs, unit, store_error) io" where
  "multipart_cleanup_stale_temp_files =
     io_bind (se_io (fs_read_dir [''multipart''])) (\<lambda>uploads.
     io_for (\<lambda>(name, dir).
         if \<not> dir then io_return ()
         else io_bind (se_io (fs_read_dir [''multipart'', name])) (\<lambda>entries.
              io_for (\<lambda>(file, sub).
                  if sub then io_return ()
                  else if strip_suffix ''.tmp'' file \<noteq> None
                  then remove_file_if_exists [''multipart'', name, file]
                  else io_return ())
                entries))
       uploads)"

definition FileMultipartStore_new ::
  "codec \<Rightarrow> multipart_lifecycle \<Rightarrow> timestamp \<Rightarrow> (multipart, unit, store_error) io" where
  "FileMultipartStore_new J lc now =
     io_bind (on_fs (se_io (fs_create_dir_all [''multipart'']))) (\<lambda>_.
     io_bind (\<lambda>st. (Ok (), st\<lparr>ms_sessions := bt_empty\<rparr>)) (\<lambda>_.
     io_bind (load_sessions J lc now) (\<lambda>_.
     if lc_cleanup_on_startup lc \<and> lc_remove_stale_temp_files_on_startup lc
     then on_fs multipart_cleanup_stale_temp_files else io_return ())))"

end
