(* ===== verification/Multipart_Props.thy ===== *)
theory Multipart_Props
  imports Multipart_Complete "HOL-Library.Code_Target_Nat"
begin

text \<open>
  Properties of the multipart store: what each operation may change (isolation of uploads),
  the session index, what a successful completion publishes, and that a failed completion
  leaves the upload as it was.
\<close>

section \<open>Files of an upload\<close>

text \<open>The files directly in the directory of an upload: the session and its temporaries.\<close>

definition session_files :: "upload_id \<Rightarrow> path set" where
  "session_files u = {p. p \<noteq> [] \<and> butlast p = upload_dir u}"

definition upload_files :: "upload_id \<Rightarrow> path set" where
  "upload_files u = {p. under (upload_dir u) p}"

lemma upload_dir_paths [simp]:
  "session_path u \<in> session_files u" "upload_dir u @ [name] \<in> session_files u"
  "part_path u n \<notin> session_files v" "part_path u n \<in> upload_files u"
  "hd (part_path u n) = ''multipart''"
  by (simp_all add: session_files_def session_path_def part_path_def parts_dir_def upload_dir_def
      upload_files_def under_def)

lemma session_files_upload: "session_files u \<subseteq> upload_files u"
proof
  fix p assume "p \<in> session_files u"
  then obtain x where "p = upload_dir u @ [x]"
    by (metis (mono_tags, lifting) append_butlast_last_id mem_Collect_eq session_files_def)
  then show "p \<in> upload_files u" by (simp add: upload_files_def under_def)
qed

lemma upload_files_apart: "u \<noteq> v \<Longrightarrow> upload_files u \<inter> upload_files v = {}"
proof -
  have "u = v" if "p \<in> upload_files u" "p \<in> upload_files v" for p
    using that by (cases p; cases "tl p") (auto simp: upload_files_def under_def upload_dir_def)
  then show "u \<noteq> v \<Longrightarrow> upload_files u \<inter> upload_files v = {}" by blast
qed

lemma upload_files_hd: "p \<in> upload_files u \<Longrightarrow> hd p = ''multipart''"
  by (cases p) (auto simp: upload_files_def under_def upload_dir_def)

lemma touches_persist: "touches (session_files (us_upload_id us)) (persist_session J uuid us)"
proof -
  let ?A = "session_files (us_upload_id us)" and ?u = "us_upload_id us"
  let ?tmp = "upload_dir ?u @ [''session.'' @ uuid @ ''.tmp'']"
  have "touches ?A (fs_write ?tmp json)" for json
    by (rule touches_mono [OF touches_calls(2)]) simp
  moreover have "touches ?A (fs_rename ?tmp (session_path ?u))"
    by (rule touches_mono [OF touches_calls(4)]) simp
  moreover have "touches ?A (remove_file_if_exists ?tmp)"
    by (rule touches_mono [OF touches_helpers(2)]) simp
  ultimately show ?thesis
    unfolding persist_session_def Let_def
    by (intro touches_bind touches_match touches_ignore touches_intros)
      (auto split: result.split intro!: touches_bind touches_ignore touches_intros)
qed

section \<open>Frames of store operations\<close>

text \<open>
  A session is kept under its own identifier and every part under its own number. The
  operations keep this invariant.
\<close>

definition session_ok :: "upload_id \<Rightarrow> upload_session \<Rightarrow> bool" where
  "session_ok u us \<longleftrightarrow> us_upload_id us = u
     \<and> (\<forall>n pm. bt_get (us_parts us) n = Some pm \<longrightarrow> pm_part_number pm = n)"

definition sessions_wf :: "multipart \<Rightarrow> bool" where
  "sessions_wf st \<longleftrightarrow> (\<forall>u us. bt_get (ms_sessions st) u = Some us \<longrightarrow> session_ok u us)"

text \<open>
  \<open>mframe A U m\<close>: in every well-formed state, \<open>m\<close> changes no file and removes no directory
  outside \<open>A\<close>, changes no session outside \<open>U\<close>, and leaves a well-formed state.
\<close>

definition same_off :: "path set \<Rightarrow> fs \<Rightarrow> fs \<Rightarrow> bool" where
  "same_off A s s' \<longleftrightarrow> (\<forall>p. p \<notin> A \<longrightarrow> files s' p = files s p \<and> (dir_in s p \<longrightarrow> dir_in s' p))"

lemma same_off_refl [simp]: "same_off A s s"
  by (simp add: same_off_def)

lemma same_off_trans: "same_off A s s1 \<Longrightarrow> same_off A s1 s2 \<Longrightarrow> same_off A s s2"
  by (simp add: same_off_def)

lemma same_off_mono: "same_off A s s' \<Longrightarrow> A \<subseteq> B \<Longrightarrow> same_off B s s'"
  by (auto simp: same_off_def)

lemma same_off_files: "same_off A s s' \<Longrightarrow> p \<notin> A \<Longrightarrow> files s' p = files s p"
  by (simp add: same_off_def)

lemma touches_same_off: "touches B m \<Longrightarrow> B \<subseteq> A \<Longrightarrow> m s = (r, s') \<Longrightarrow> same_off A s s'"
  using touchesD(1,2) by (fastforce simp: same_off_def)

lemma remove_dir_same_off:
  assumes "fs_remove_dir_all d s = (r, s')" "{p. under d p} \<subseteq> A"
  shows "same_off A s s'"
proof -
  have "dir_in s' p" if "dir_in s p" "\<not> under d p" for p
    using assms(1) that unfolding fs_remove_dir_all_def
    by (cases rule: faulty_cases)
      (auto simp: is_dir_def remove_dir_all_i_def bt_get_filter Let_def dest: in_set_takeD split: if_splits
        dest!: sym [of "filter _ _"])
  with fs_remove_dir_all_files [OF assms(1)] assms(2) show ?thesis by (auto simp: same_off_def)
qed

definition mframe :: "path set \<Rightarrow> upload_id set \<Rightarrow> (multipart, 'a, 'e) io \<Rightarrow> bool" where
  "mframe A U m \<longleftrightarrow> (\<forall>st r st'. m st = (r, st') \<longrightarrow> sessions_wf st \<longrightarrow>
     same_off A (ms_fs st) (ms_fs st')
     \<and> (\<forall>u. u \<notin> U \<longrightarrow> bt_get (ms_sessions st') u = bt_get (ms_sessions st) u)
     \<and> sessions_wf st')"

named_theorems mframe_intros "frame rules of store computations"

lemma mframeD:
  assumes "mframe A U m" "m st = (r, st')" "sessions_wf st"
  shows "p \<notin> A \<Longrightarrow> files (ms_fs st') p = files (ms_fs st) p"
    and "u \<notin> U \<Longrightarrow> bt_get (ms_sessions st') u = bt_get (ms_sessions st) u"
    and "sessions_wf st'"
    and "same_off A (ms_fs st) (ms_fs st')"
proof -
  from assms show "same_off A (ms_fs st) (ms_fs st')" "sessions_wf st'"
    "u \<notin> U \<Longrightarrow> bt_get (ms_sessions st') u = bt_get (ms_sessions st) u"
    by (simp_all add: mframe_def)
  then show "p \<notin> A \<Longrightarrow> files (ms_fs st') p = files (ms_fs st) p" by (simp add: same_off_def)
qed

lemma mframe_mono: "mframe A U m \<Longrightarrow> A \<subseteq> B \<Longrightarrow> U \<subseteq> V \<Longrightarrow> mframe B V m"
  unfolding mframe_def using same_off_mono by blast

lemma mframe_return [mframe_intros]: "mframe A U (io_return x)"
  by (simp add: mframe_def io_simps)

lemma mframe_fail [mframe_intros]: "mframe A U (io_fail e)"
  by (simp add: mframe_def io_simps)

lemma mframe_lift [mframe_intros]: "mframe A U (io_lift r)"
  by (simp add: mframe_def io_simps)

text \<open>Sequencing, with what is known of the intermediate result.\<close>

lemma mframe_match_known:
  assumes "mframe A U m" "\<And>st r st'. m st = (r, st') \<Longrightarrow> sessions_wf st \<Longrightarrow> mframe A U (f r)"
  shows "mframe A U (io_match m f)"
  unfolding mframe_def
proof (intro allI impI)
  fix st r st'
  assume *: "io_match m f st = (r, st')" and wf: "sessions_wf st"
  obtain q st1 where m: "m st = (q, st1)" by fastforce
  with * have f: "f q st1 = (r, st')" by (simp add: io_match_def)
  note M = mframeD [OF assms(1) m wf]
  note F = mframeD [OF assms(2) [OF m wf] f M(3)]
  show "same_off A (ms_fs st) (ms_fs st')
      \<and> (\<forall>u. u \<notin> U \<longrightarrow> bt_get (ms_sessions st') u = bt_get (ms_sessions st) u) \<and> sessions_wf st'"
    using M(2) F(2,3) same_off_trans [OF M(4) F(4)] by simp
qed

lemma mframe_bind_known:
  assumes "mframe A U m" "\<And>st x st'. m st = (Ok x, st') \<Longrightarrow> sessions_wf st \<Longrightarrow> mframe A U (f x)"
  shows "mframe A U (io_bind m f)"
proof -
  have "io_bind m f = io_match m (\<lambda>r. case r of Ok x \<Rightarrow> f x | Err e \<Rightarrow> io_fail e)"
    by (auto simp: fun_eq_iff io_simps split: prod.split result.split)
  moreover have "mframe A U (case r of Ok x \<Rightarrow> f x | Err e \<Rightarrow> io_fail e)"
    if "m st = (r, st')" "sessions_wf st" for st r st'
    using assms(2) that by (auto intro: mframe_fail split: result.split)
  ultimately show ?thesis using assms(1) by (simp add: mframe_match_known)
qed

lemma mframe_match [mframe_intros]:
  "mframe A U m \<Longrightarrow> (\<And>r. mframe A U (f r)) \<Longrightarrow> mframe A U (io_match m f)"
  by (rule mframe_match_known)

lemma mframe_bind [mframe_intros]:
  "mframe A U m \<Longrightarrow> (\<And>x. mframe A U (f x)) \<Longrightarrow> mframe A U (io_bind m f)"
  by (rule mframe_bind_known)

lemma mframe_ignore [mframe_intros]: "mframe A U m \<Longrightarrow> mframe A U n \<Longrightarrow> mframe A U (io_ignore m n)"
  unfolding io_ignore_def by (rule mframe_match)

lemma mframe_on_fs:
  assumes "\<And>s r s'. m s = (r, s') \<Longrightarrow> same_off A s s'"
  shows "mframe A U (on_fs m)"
  using assms by (fastforce simp: mframe_def on_fs_def sessions_wf_def split: prod.splits)

lemma mframe_touches: "touches B m \<Longrightarrow> B \<subseteq> A \<Longrightarrow> mframe A U (on_fs m)"
  by (rule mframe_on_fs) (rule touches_same_off)

lemma mframe_remove_dir:
  assumes "{p. under d p} \<subseteq> A"
  shows "mframe A U (on_fs (fs_remove_dir_all d))"
  by (rule mframe_on_fs) (rule remove_dir_same_off [OF _ assms])

lemma mframe_get_session [mframe_intros]: "mframe A U (get_session u)"
  by (simp add: mframe_def get_session_def)

lemma mframe_put_session [mframe_intros]:
  "u \<in> U \<Longrightarrow> session_ok u us \<Longrightarrow> mframe A U (put_session u us)"
  by (auto simp: mframe_def put_session_def sessions_wf_def)

lemma mframe_drop_session [mframe_intros]: "u \<in> U \<Longrightarrow> mframe A U (drop_session u)"
  by (auto simp: mframe_def drop_session_def sessions_wf_def)

lemma mframe_with_session:
  assumes "mframe A U (f None)" "\<And>us. session_ok u us \<Longrightarrow> mframe A U (f (Some us))"
  shows "mframe A U (io_bind (get_session u) f)"
proof (rule mframe_bind_known)
  fix st x st'
  assume "get_session u st = (Ok x, st')" "sessions_wf st"
  with assms show "mframe A U (f x)"
    by (cases x) (auto simp: get_session_def sessions_wf_def)
qed (rule mframe_intros)

lemma get_open_upload_eq:
  "get_open_upload u st =
     (case bt_get (ms_sessions st) u of
        Some us \<Rightarrow> if is_open us then (Ok us, st) else (Err SE_NoSuchUpload, st)
      | None \<Rightarrow> (Err SE_NoSuchUpload, st))"
  by (simp add: get_open_upload_def get_session_def ensure_open_def io_simps split: option.split)

lemma mframe_with_open:
  assumes "\<And>us. session_ok u us \<Longrightarrow> is_open us \<Longrightarrow> mframe A U (f us)"
  shows "mframe A U (io_bind (get_open_upload u) f)"
proof (rule mframe_bind_known)
  show "mframe A U (get_open_upload u)"
    by (auto simp: mframe_def get_open_upload_eq split: option.splits if_splits)
  fix st x st'
  assume "get_open_upload u st = (Ok x, st')" "sessions_wf st"
  with assms show "mframe A U (f x)"
    by (auto simp: get_open_upload_eq sessions_wf_def split: option.splits if_splits)
qed

lemma session_ok_simps [simp]:
  "session_ok u (us\<lparr>us_state := s\<rparr>) = session_ok u us"
  "session_ok u us \<Longrightarrow> pm_part_number pm = n \<Longrightarrow> session_ok u (us\<lparr>us_parts := bt_insert n pm (us_parts us)\<rparr>)"
  "session_ok u us \<Longrightarrow> session_ok u (us\<lparr>us_parts := bt_remove n (us_parts us)\<rparr>)"
  by (auto simp: session_ok_def)

lemma session_ok_id: "session_ok u us \<Longrightarrow> us_upload_id us = u"
  by (simp add: session_ok_def)

lemma mframe_persist [mframe_intros]:
  "session_ok u us \<Longrightarrow> session_files u \<subseteq> A \<Longrightarrow> mframe A U (on_fs (persist_session J uuid us))"
  by (rule mframe_touches [OF touches_persist]) (simp add: session_ok_id)

section \<open>Frames of the operations\<close>

lemma mframe_helpers [mframe_intros]:
  "mframe A U (on_fs (create_parent_dir p))"
  "p \<in> A \<Longrightarrow> mframe A U (on_fs (remove_file_if_exists p))"
  "p \<in> A \<Longrightarrow> mframe A U (on_fs (se_io (fs_write p b)))"
  "p \<in> A \<Longrightarrow> mframe A U (on_fs (se_io (fs_create p)))"
  "mframe A U (on_fs (se_io (fs_create_dir_all p)))"
  by (simp_all add: mframe_touches [OF touches_helpers(1), of "{}"]
      mframe_touches [OF touches_helpers(2)] mframe_touches [OF touches_map_err [OF touches_calls(2)]]
      mframe_touches [OF touches_map_err [OF touches_calls(3)]]
      mframe_touches [OF touches_map_err [OF touches_calls(1)], of "{}"])

lemma mframe_insert_part:
  assumes "u \<in> U" "\<And>us. session_ok u us \<Longrightarrow> mframe A U (f us)" "pm_part_number pm = n"
  shows "mframe A U (io_bind (insert_part u pm) f)"
proof -
  have "io_bind (insert_part u pm) f = io_bind (get_open_upload u) (\<lambda>us.
     let us' = us\<lparr>us_parts := bt_insert (pm_part_number pm) pm (us_parts us)\<rparr>
     in io_bind (put_session u us') (\<lambda>_. f us'))"
    by (auto simp: fun_eq_iff insert_part_def io_simps Let_def split: prod.split result.split)
  then show ?thesis
    using assms by (auto simp: Let_def intro!: mframe_with_open mframe_bind mframe_put_session)
qed

lemma mframe_create_upload:
  "session_files u \<subseteq> A \<Longrightarrow> u \<in> U \<Longrightarrow> mframe A U (create_upload J u uuid now b k owner md)"
  unfolding create_upload_def Let_def
  by (intro mframe_bind mframe_persist mframe_put_session mframe_helpers mframe_return)
    (auto simp: session_ok_def)

lemma mframe_write_part:
  assumes "upload_files u \<subseteq> A" "u \<in> U"
  shows "mframe A U (write_part J uuid now u n body md5 tag cs)"
proof -
  have "session_files u \<subseteq> A" "part_path u n \<in> A"
    using assms(1) session_files_upload [of u] upload_dir_paths(4) by blast+
  with assms(2) show ?thesis
    unfolding write_part_def Let_def
    by (intro mframe_with_open mframe_bind mframe_helpers mframe_insert_part [where n = n]
        mframe_persist mframe_return) simp_all
qed

lemma mframe_create_temp_part:
  "session_files u \<subseteq> A \<Longrightarrow> mframe A U (create_temp_part i u n)"
  unfolding create_temp_part_def Let_def
  by (intro mframe_with_open mframe_bind mframe_helpers mframe_return) (use upload_dir_paths in blast)

text \<open>The steps of \<open>commit_part\<close>; its backup is absent or in the upload directory.\<close>

lemma touches_part_steps:
  assumes "part_path u n \<in> A" "T \<in> A" "set_option B \<subseteq> A"
  shows "touches A (publish_part T (part_path u n) B)"
    and "touches A (discard_unpublished_part T B)"
    and "touches A (rollback_part_file (part_path u n) B)"
proof -
  have t: "touches A (fs_rename x y)" "touches A (remove_file_if_exists x)" "touches A (fs_hard_link z y)"
    if "x \<in> A" "y \<in> A" for x y z
    using that by (blast intro: touches_mono [OF touches_calls(4)] touches_mono [OF touches_helpers(2)]
        touches_mono [OF touches_calls(5)])+
  show "touches A (publish_part T (part_path u n) B)"
    unfolding publish_part_def
    using assms by (cases B) (auto intro!: touches_bind touches_intros t)
  show "touches A (discard_unpublished_part T B)"
    unfolding discard_unpublished_part_def
    using assms by (cases B) (auto intro!: touches_ignore touches_intros t)
  show "touches A (rollback_part_file (part_path u n) B)"
    unfolding rollback_part_file_def
    using assms by (cases B) (auto intro!: touches_ignore touches_intros t)
qed

lemma mframe_restore_part_entry:
  assumes "u \<in> U" "\<And>pm. prev = Some pm \<Longrightarrow> pm_part_number pm = n"
  shows "mframe A U (restore_part_entry u n prev)"
  unfolding restore_part_entry_def
proof (rule mframe_with_session)
  fix us assume "session_ok u us"
  with assms show "mframe A U (case Some us of None \<Rightarrow> io_return () | Some us \<Rightarrow>
      put_session u (us\<lparr>us_parts := case prev of Some p \<Rightarrow> bt_insert n p (us_parts us)
        | None \<Rightarrow> bt_remove n (us_parts us)\<rparr>))"
    by (cases prev) (auto intro!: mframe_put_session)
qed (simp add: mframe_return)

lemma mframe_commit_part:
  assumes "upload_files u \<subseteq> A" "u \<in> U" "T \<in> A"
  shows "mframe A U (commit_part J bid uuid now u n T part)"
proof -
  have A: "session_files u \<subseteq> A" "part_path u n \<in> A"
    using assms(1) session_files_upload [of u] upload_dir_paths(4) by blast+
  let ?b = "upload_dir u @ [show_pad5 n @ ''.'' @ bid @ ''.rollback.tmp'']"
  have "set_option (map_option (\<lambda>_. ?b) x) \<subseteq> A" for x :: "part_metadata option"
    using A(1) upload_dir_paths(2) by (cases x) auto
  note steps = touches_part_steps [OF A(2) assms(3) this, THEN mframe_touches, OF order_refl]
  have last: "mframe A U (case map_option (\<lambda>_. ?b) x of None \<Rightarrow> io_return ()
      | Some b \<Rightarrow> on_fs (remove_file_if_exists b))" for x :: "part_metadata option"
    using A(1) upload_dir_paths(2) by (cases x) (auto intro!: mframe_intros)
  have prev: "bt_get (us_parts us) n = Some pm \<Longrightarrow> pm_part_number pm = n"
    if "session_ok u us" for us pm using that by (simp add: session_ok_def)
  show ?thesis
    unfolding commit_part_def Let_def
    apply (rule mframe_with_open, rule mframe_match, rule steps(1))
    subgoal for us r
      apply (cases r; simp only: result.case)
       apply (rule mframe_insert_part [OF assms(2)], rule mframe_match, erule mframe_persist, rule A(1))
        apply (split result.split, intro conjI impI allI)
         apply (intro mframe_bind mframe_return last)
        apply (intro mframe_ignore steps(3) mframe_restore_part_entry [OF assms(2)] mframe_fail)
        apply (erule (1) prev)
       apply simp
      apply (intro mframe_ignore steps(2) mframe_fail)
      done
    done
qed

lemma mframe_abort_upload:
  assumes "upload_files u \<subseteq> A" "u \<in> U"
  shows "mframe A U (abort_upload J uuid u)"
proof -
  have "session_files u \<subseteq> A" using assms(1) session_files_upload [of u] by blast
  moreover have "{p. under (upload_dir u) p} \<subseteq> A" using assms(1) by (simp add: upload_files_def)
  ultimately show ?thesis
    using assms(2) unfolding abort_upload_def Let_def
    by (intro mframe_with_open mframe_bind mframe_match mframe_persist mframe_put_session mframe_remove_dir)
      (auto intro: mframe_intros split: result.split io_error.split)
qed

section \<open>Assembly of the object\<close>

lemma touches_bind_known:
  assumes "touches A m" "\<And>s x s'. m s = (Ok x, s') \<Longrightarrow> touches A (f x)"
  shows "touches A (io_bind m f)"
  unfolding touches_def
proof (intro allI impI)
  fix s r s'
  assume *: "io_bind m f s = (r, s')"
  obtain q s1 where m: "m s = (q, s1)" by fastforce
  show "(\<forall>p. p \<notin> A \<longrightarrow> files s' p = files s p) \<and> (\<forall>p. dir_in s p \<longrightarrow> dir_in s' p)
      \<and> faults_left s' \<le> faults_left s"
  proof (cases q)
    case (Ok x)
    with * m have f: "f x s1 = (r, s')" by (simp add: io_bind_def)
    from touchesD [OF assms(1) m] touchesD [OF assms(2) [OF m [unfolded Ok]] f] show ?thesis
      by (metis le_trans)
  next
    case (Err e)
    with * m touchesD [OF assms(1) m] show ?thesis by (auto simp: io_bind_def)
  qed
qed

lemma touches_step [touches_intros]: "touches A fs_step"
  unfolding fs_step_def by (rule touches_faulty) auto

lemma touches_discard_with [touches_intros]: "touches {tw_path tw} (discard_with tw e)"
  unfolding discard_with_def temp_discard_def by (intro touches_ignore touches_intros)

lemma touches_copy_chunks: "touches {tw_path (as_temp a)} (copy_chunks cs a)"
proof (induction cs arbitrary: a)
  case (Cons c cs)
  let ?a = "a\<lparr>as_temp := (as_temp a)\<lparr>tw_bytes := tw_bytes (as_temp a) @ c\<rparr>,
    as_digests := complete_state_update c (as_digests a)\<rparr>"
  have "touches {tw_path (as_temp a)} (copy_chunks cs ?a)"
    using Cons.IH [of ?a] by simp
  then show ?case
    by (auto intro!: touches_match touches_intros split: result.split)
qed (auto intro!: touches_match touches_intros split: result.split)

text \<open>What copying one part and all parts does when it succeeds.\<close>

lemma feed_append: "feed b (feed a h) = feed (a @ b) h"
  by (cases h) simp_all

lemma complete_state_update_append:
  "complete_state_update b (complete_state_update a s) = complete_state_update (a @ b) s"
  by (simp add: complete_state_update_def feed_append)

lemma complete_state_update_Nil [simp]: "complete_state_update [] s = s"
  by (simp add: complete_state_update_def option.map_ident)

lemma copy_chunks_Ok:
  assumes "copy_chunks cs a s = (Ok a', s')"
  shows "a' = a\<lparr>as_temp := (as_temp a)\<lparr>tw_bytes := tw_bytes (as_temp a) @ concat cs\<rparr>,
      as_digests := complete_state_update (concat cs) (as_digests a)\<rparr>
    \<and> fs_nodes s' = fs_nodes s"
  using assms
proof (induction cs arbitrary: a s)
  case Nil
  then show ?case
    by (auto simp: io_simps discard_with_def dest: fs_step_nodes split: prod.splits result.splits)
next
  case (Cons c cs)
  let ?a = "a\<lparr>as_temp := (as_temp a)\<lparr>tw_bytes := tw_bytes (as_temp a) @ c\<rparr>,
    as_digests := complete_state_update c (as_digests a)\<rparr>"
  from Cons.prems obtain u1 s1 u2 s2 where "fs_step s = (Ok u1, s1)" "fs_step s1 = (Ok u2, s2)"
    and "copy_chunks cs ?a s2 = (Ok a', s')"
    by (auto simp: io_simps discard_with_def split: prod.splits result.splits)
  with Cons.IH [of ?a s2] fs_step_nodes show ?case
    by (simp add: complete_state_update_append)
qed

lemma copy_chunks_path: "copy_chunks cs a s = (Ok a', s') \<Longrightarrow> tw_path (as_temp a') = tw_path (as_temp a)"
  by (auto dest: copy_chunks_Ok)

definition part_content :: "fs \<Rightarrow> upload_id \<Rightarrow> part_metadata \<Rightarrow> bytes \<Rightarrow> bool" where
  "part_content s u pm c \<longleftrightarrow> files s (part_path u (pm_part_number pm)) = Some c"

lemma copy_part_Ok:
  assumes "copy_part L n u pm a s = (Ok a', s')" "n > 0"
  obtains c where "part_content s u pm c" "fs_nodes s' = fs_nodes s"
    "tw_bytes (as_temp a') = tw_bytes (as_temp a) @ c" "tw_path (as_temp a') = tw_path (as_temp a)"
    "tw_temp_id (as_temp a') = tw_temp_id (as_temp a)"
    "as_digests a' = complete_state_update c (as_digests a)" "as_md5s a' = as_md5s a @ pm_md5 pm"
proof -
  obtain r s1 where r: "fs_read (part_path u (pm_part_number pm)) s = (r, s1)" by fastforce
  with assms(1) obtain c where c: "r = Ok c"
    by (cases r) (auto simp: copy_part_def io_simps discard_with_def split: prod.splits result.splits)
  obtain a1 s2 where a1: "copy_chunks (read_chunks n c) a s1 = (Ok a1, s2)"
    using assms(1) r c
    by (auto simp: copy_part_def io_simps Let_def split: prod.splits result.splits)
  have "a' = a1\<lparr>as_md5s := as_md5s a1 @ pm_md5 pm,
      as_total := u64_wrapping_add (as_total a1) (pm_size pm)\<rparr> \<and> s' = s2"
    using assms(1) r c a1
    by (auto simp: copy_part_def io_simps Let_def discard_with_def split: if_splits prod.splits)
  with copy_chunks_Ok [OF a1] fs_read_Ok [OF r [unfolded c]] read_chunks_concat [OF assms(2)] that
  show thesis by (auto simp: part_content_def)
qed

lemma copy_parts_Ok:
  assumes "copy_parts L n u ps a s = (Ok a', s')" "n > 0"
  obtains cs where "list_all2 (part_content s u) ps cs" "fs_nodes s' = fs_nodes s"
    "tw_bytes (as_temp a') = tw_bytes (as_temp a) @ concat cs" "tw_path (as_temp a') = tw_path (as_temp a)"
    "tw_temp_id (as_temp a') = tw_temp_id (as_temp a)"
    "as_digests a' = complete_state_update (concat cs) (as_digests a)"
    "as_md5s a' = as_md5s a @ concat (map pm_md5 ps)"
  using assms(1)
proof (induction ps arbitrary: a s thesis)
  case Nil
  then show ?case by (simp add: io_simps)
next
  case (Cons p ps)
  from Cons.prems(2) obtain a1 s1 where c1: "copy_part L n u p a s = (Ok a1, s1)"
    and c2: "copy_parts L n u ps a1 s1 = (Ok a', s')"
    by (auto simp: io_bind_Ok)
  from c1 assms(2) obtain c where c: "part_content s u p c" "fs_nodes s1 = fs_nodes s"
    "tw_bytes (as_temp a1) = tw_bytes (as_temp a) @ c" "tw_path (as_temp a1) = tw_path (as_temp a)"
    "tw_temp_id (as_temp a1) = tw_temp_id (as_temp a)"
    "as_digests a1 = complete_state_update c (as_digests a)" "as_md5s a1 = as_md5s a @ pm_md5 p"
    by (rule copy_part_Ok)
  have same: "part_content s1 u = part_content s u"
    using c(2) by (simp add: part_content_def fun_eq_iff)
  obtain cs where cs: "list_all2 (part_content s1 u) ps cs" "fs_nodes s' = fs_nodes s1"
    "tw_bytes (as_temp a') = tw_bytes (as_temp a1) @ concat cs" "tw_path (as_temp a') = tw_path (as_temp a1)"
    "tw_temp_id (as_temp a') = tw_temp_id (as_temp a1)"
    "as_digests a' = complete_state_update (concat cs) (as_digests a1)"
    "as_md5s a' = as_md5s a1 @ concat (map pm_md5 ps)"
    using Cons.IH [OF _ c2] by blast
  show ?case
    by (rule Cons.prems(1) [of "c # cs"])
      (use cs c same in \<open>simp_all add: complete_state_update_append\<close>)
qed

text \<open>The parts that validation selects: they exist, carry the ETag asked for, and only the last may be small.\<close>

definition part_for :: "upload_session \<Rightarrow> completed_part \<Rightarrow> part_metadata \<Rightarrow> bool" where
  "part_for us req pm \<longleftrightarrow> bt_get (us_parts us) (cp_part_number req) = Some pm \<and> pm_etag pm = cp_etag req"

lemma validate_parts_Ok:
  "validate_parts L us reqs = Ok ps \<longleftrightarrow>
     list_all2 (part_for us) reqs ps \<and> (\<forall>pm\<in>set (butlast ps). ul_min_non_final_part_size L \<le> pm_size pm)"
proof (induction reqs arbitrary: ps)
  case (Cons req rest)
  have "validate_parts L us (req # rest) = Ok ps \<longleftrightarrow>
      (\<exists>pm ps'. ps = pm # ps' \<and> part_for us req pm \<and> (rest \<noteq> [] \<longrightarrow> ul_min_non_final_part_size L \<le> pm_size pm)
        \<and> validate_parts L us rest = Ok ps')"
    by (auto simp: part_for_def res_simps)
  moreover have "list_all2 (part_for us) rest ps' \<Longrightarrow> rest = [] \<longleftrightarrow> ps' = []" for ps'
    by auto
  ultimately show ?case
    unfolding Cons.IH list_all2_Cons1 by (auto split: if_splits)
qed auto

lemma unit_result: "(\<forall>e. m \<noteq> Err e) \<longleftrightarrow> m = Ok ()"
  by (cases m) auto

lemma assemble_object_Ok:
  assumes "assemble_object E i us req s = (Ok a, s')" "cr_copy_buffer req > 0"
  obtains ps cs where "validate_parts (cr_limits req) us (cr_parts req) = Ok ps"
    "list_all2 (part_content s (cr_upload_id req)) ps cs"
    "as_temp a = \<lparr>tw_temp_id = i, tw_path = [''tmp'', i @ ''.part''], tw_bytes = concat cs\<rparr>"
    "as_md5s a = concat (map pm_md5 ps)" "dir_in s' [''tmp'']"
    "ChecksumRequest_validate (cr_checksums req)
       (complete_state_finalize E (complete_state_update (concat cs) (complete_state_new (cr_checksums req)))) = Ok ()"
proof -
  from assms(1) obtain ps tw s1 where v: "validate_parts (cr_limits req) us (cr_parts req) = Ok ps"
    and tw: "create_temp_object i s = (Ok tw, s1)"
    and copy: "copy_parts (cr_limits req) (cr_copy_buffer req) (cr_upload_id req) ps
        \<lparr>as_temp = tw, as_digests = complete_state_new (cr_checksums req), as_md5s = [],
         as_total = 0\<rparr> s1 = (Ok a, s')"
    and ck: "ChecksumRequest_validate (cr_checksums req) (complete_state_finalize E (as_digests a)) = Ok ()"
    by (auto simp: assemble_object_def unit_result io_bind_Ok io_lift_def io_return_def io_fail_def discard_with_def
        io_ignore_def io_match_def split: result.splits prod.splits)
  from create_temp_object_Ok [OF tw] have tw': "tw = \<lparr>tw_temp_id = i, tw_path = [''tmp'', i @ ''.part''], tw_bytes = []\<rparr>"
    and dir: "dir_in s1 [''tmp'']" by blast+
  have same: "files s1 (part_path u n) = files s (part_path u n)" for u n
  proof -
    have "touches {p. hd p = ''tmp''} (create_temp_object i)"
      unfolding create_temp_object_def Let_def
      by (intro touches_bind touches_intros) (rule touches_mono [OF touches_calls(3)], simp)
    from touchesD(1) [OF this tw] show ?thesis by simp
  qed
  from copy assms(2) obtain cs where cs: "list_all2 (part_content s1 (cr_upload_id req)) ps cs"
    "fs_nodes s' = fs_nodes s1" "tw_bytes (as_temp a) = concat cs" "tw_path (as_temp a) = tw_path tw"
    "tw_temp_id (as_temp a) = tw_temp_id tw"
    "as_digests a = complete_state_update (concat cs) (complete_state_new (cr_checksums req))"
    "as_md5s a = concat (map pm_md5 ps)"
    by (rule copy_parts_Ok) (use tw' in simp)
  have "list_all2 (part_content s (cr_upload_id req)) ps cs"
    using cs(1) by (rule list_all2_mono) (simp add: part_content_def same)
  with v cs ck tw' dir that show thesis by simp
qed

lemma stage_object_Ok:
  assumes "stage_object E us req a s = (Ok (st, fb), s')" "cr_processors req = []"
    "as_temp a = \<lparr>tw_temp_id = i, tw_path = [''tmp'', i @ ''.part''], tw_bytes = body\<rparr>"
    "cr_summary_buffer req > 0" "length body < u64_max" "dir_in s [''tmp'']"
  shows "st = staged_of i \<and> files s' [''tmp'', i @ ''.part''] = Some body \<and> dir_in s' [''tmp'']
    \<and> fu_size fb = length body \<and> fu_digests fb = digests_of E body
    \<and> length body \<le> ul_max_object_size (cr_limits req)"
proof -
  from assms obtain u s1 s2 where fl: "temp_flush (as_temp a) s = (Ok u, s1)"
    and fin: "temp_finish (as_temp a) s1 = (Ok st, s2)"
    and sm: "summarize_file E (cr_summary_buffer req) (st_path st) s2 = (Ok fb, s')"
    and le: "fu_size fb \<le> ul_max_object_size (cr_limits req)"
    by (auto simp: stage_object_def io_simps Let_def discard_with_def
        split: prod.splits result.splits if_splits)
  have d: "dir_in s1 [''tmp'']" using touchesD(2) [OF touches_temp(1) fl assms(6)] .
  note f = temp_finish_Ok [OF fin [unfolded assms(3)]]
  have fl2: "files s2 (st_path st) = Some body" using f by (simp add: staged_of_def)
  with summarize_file_Ok [OF sm assms(4)] assms(5) have sum: "fu_size fb = length body"
    "fu_digests fb = digests_of E body" "fs_nodes s' = fs_nodes s2" by auto
  show ?thesis using f sum le d by simp
qed

lemma commit_completed_Ok:
  assumes "commit_completed E J i now us req s = (Ok md, s')" "cr_processors req = []"
    "cr_copy_buffer req > 0" "cr_summary_buffer req > 0" "j_object_encode J md \<noteq> None \<Longrightarrow> codable J md"
    and small: "\<And>ps cs. validate_parts (cr_limits req) us (cr_parts req) = Ok ps \<Longrightarrow>
      list_all2 (part_content s (cr_upload_id req)) ps cs \<Longrightarrow> length (concat cs) < u64_max"
  obtains ps cs where "validate_parts (cr_limits req) us (cr_parts req) = Ok ps"
    "list_all2 (part_content s (cr_upload_id req)) ps cs"
    "visible E J s' (us_bucket us, us_key us) = Some (md, concat cs)"
    "om_size md = length (concat cs)" "om_size md \<le> ul_max_object_size (cr_limits req)"
    "om_etag md = ETag_from_multipart_md5 (x_hex_encode E (x_md5 E (concat (map pm_md5 ps)))) (length ps)"
    "om_bucket md = us_bucket us" "om_key md = us_key us"
    "ChecksumRequest_validate (cr_checksums req)
       (complete_state_finalize E (complete_state_update (concat cs) (complete_state_new (cr_checksums req)))) = Ok ()"
proof -
  from assms(1) obtain a s1 st fb s2 where a: "assemble_object E i us req s = (Ok a, s1)"
    and st: "stage_object E us req a s1 = (Ok (st, fb), s2)"
    and md: "md = completion_metadata E now us req (as_md5s a) fb"
    and cm: "commit_staged_object E J st md s2 = (Ok (), s')"
    by (auto simp: commit_completed_def io_bind_Ok io_return_def Let_def)
  from a assms(3) obtain ps cs where v: "validate_parts (cr_limits req) us (cr_parts req) = Ok ps"
    and c: "list_all2 (part_content s (cr_upload_id req)) ps cs"
    and t: "as_temp a = \<lparr>tw_temp_id = i, tw_path = [''tmp'', i @ ''.part''], tw_bytes = concat cs\<rparr>"
    and m: "as_md5s a = concat (map pm_md5 ps)" and d: "dir_in s1 [''tmp'']"
    and k: "ChecksumRequest_validate (cr_checksums req)
       (complete_state_finalize E (complete_state_update (concat cs) (complete_state_new (cr_checksums req)))) = Ok ()"
    by (rule assemble_object_Ok)
  note S = stage_object_Ok [OF st assms(2) t assms(4) small [OF v c] d]
  have "length ps = length (cr_parts req)"
    using v by (auto simp: validate_parts_Ok dest: list_all2_lengthD)
  moreover have "visible E J s' (key_of md) = Some (md, concat cs)"
    using commit_visible [of E J i md s2 "()" s' "concat cs"] commit_encodes [of E J i md s2 "()" s' "concat cs"]
      cm S assms(5) by simp
  ultimately show thesis
    using v c S k m assms(2) md that
    by (simp add: completion_metadata_def Let_def)
qed

section \<open>Completion\<close>

text \<open>The checksums a client asks for are those of the assembled bytes.\<close>

lemma complete_digests:
  assumes "ChecksumRequest_validate r
    (complete_state_finalize E (complete_state_update body (complete_state_new r))) = Ok ()"
  shows "ChecksumRequest_validate r (digests_of E body) = Ok ()"
proof -
  let ?d = "complete_state_finalize E (complete_state_update body (complete_state_new r))"
  have "digest_bytes c ?d = digest_bytes c (digests_of E body)" if "rq_of c r \<noteq> None" for c
    using that by (cases c) (simp_all add: complete_state_finalize_def complete_state_update_def
        complete_state_new_def requires_defs new_hasher_def finalize_or_default_def digests_of_def)
  moreover have "dg_md5 ?d = dg_md5 (digests_of E body)" if "rq_content_md5 r \<noteq> None"
    using that by (simp add: complete_state_finalize_def complete_state_update_def
        complete_state_new_def requires_defs new_hasher_def finalize_or_default_def digests_of_def)
  ultimately show ?thesis
    using assms unfolding validate_Ok by (metis option.distinct(1))
qed

text \<open>A processor that only uses the two files it is given.\<close>

definition confined :: "processor \<Rightarrow> bool" where
  "confined p \<longleftrightarrow> (\<forall>ctx cur repl. touches {cur, repl} (p ctx cur repl))"

lemma touches_process_one:
  assumes "confined p" "st_path st \<in> A" "replacement_path st uuid \<in> A"
  shows "touches A (process_one ctx st (p, uuid))"
proof -
  have r: "touches A (remove_file_if_exists x)" "touches A (fs_remove_file x)" "touches A (fs_rename x y)"
    if "x \<in> A" "y \<in> A" for x y
    using that by (blast intro: touches_mono [OF touches_helpers(2)] touches_mono [OF touches_calls(6)]
        touches_mono [OF touches_calls(4)])+
  have p: "touches A (p ctx (st_path st) (replacement_path st uuid))"
    using assms unfolding confined_def by (blast intro: touches_mono)
  have u: "touches A (remove_unused_replacement (replacement_path st uuid))"
    unfolding remove_unused_replacement_def
    using assms(3) by (auto intro!: touches_match touches_intros r split: result.split io_error.split)
  have d: "touches A (drop_staged st e)" for e
    unfolding drop_staged_def staged_discard_def using assms(2) by (intro touches_ignore r touches_intros)
  have w: "touches A (replace_with st (replacement_path st uuid))"
    unfolding replace_with_def
    using assms(2,3) by (auto intro!: touches_bind touches_match touches_ignore touches_intros r
        split: result.split)
  show ?thesis
    unfolding process_one_def Let_def prod.case
    by (intro touches_match p) (auto intro!: touches_match u d w touches_intros
        split: result.split processor_action.split)
qed

lemma replacement_in_tmp [simp]: "hd (replacement_path (staged_of i) uuid) = ''tmp''"
  by (simp add: replacement_path_def staged_of_def)

text \<open>Everything completion does up to and including the commit.\<close>

definition completion_files :: "ext \<Rightarrow> upload_session \<Rightarrow> path set" where
  "completion_files E us = {p. hd p = ''tmp''} \<union> {object_path E (us_bucket us) (us_key us),
     metadata_path E (us_bucket us) (us_key us)}"

lemma touches_copy_parts:
  assumes "hd (tw_path (as_temp a)) = ''tmp''" "n > 0"
  shows "touches {p. hd p = ''tmp''} (copy_parts L n u ps a)"
  using assms(1)
proof (induction ps arbitrary: a)
  case (Cons p ps)
  let ?A = "{p. hd p = ''tmp''}"
  have d: "touches ?A (discard_with (as_temp b) e)" if "tw_path (as_temp b) = tw_path (as_temp a)" for b e
    by (rule touches_mono [OF touches_discard_with]) (use that Cons.prems in simp)
  have c: "touches ?A (copy_chunks cs a)" for cs
    by (rule touches_mono [OF touches_copy_chunks]) (use Cons.prems in simp)
  have "touches ?A (copy_part L n u p a)"
    unfolding copy_part_def Let_def
    by (intro touches_match touches_intros, split result.split)
      (auto intro!: touches_bind_known c d touches_return dest: copy_chunks_path)
  moreover have "hd (tw_path (as_temp a1)) = ''tmp''" if "copy_part L n u p a s = (Ok a1, s1)" for a1 s s1
    by (rule copy_part_Ok [OF that assms(2)]) (use Cons.prems in simp)
  ultimately show ?case
    by (auto intro!: touches_bind_known Cons.IH)
qed (simp add: touches_return)

lemma touches_assemble:
  assumes "cr_copy_buffer req > 0"
  shows "touches {p. hd p = ''tmp''} (assemble_object E i us req)"
proof -
  let ?A = "{p. hd p = ''tmp''}"
  have t: "touches ?A (create_temp_object i)"
    unfolding create_temp_object_def Let_def
    by (intro touches_bind touches_intros) (rule touches_mono [OF touches_calls(3)], simp)
  have d: "touches ?A (discard_with (as_temp a) e)" if "hd (tw_path (as_temp a)) = ''tmp''" for a e
    by (rule touches_mono [OF touches_discard_with]) (use that in simp)
  show ?thesis
    unfolding assemble_object_def
  proof (intro touches_bind_known t touches_lift touches_copy_parts assms)
    fix s tw s1 s2 ps a s3
    assume tw: "create_temp_object i s1 = (Ok tw, s2)"
    then show "hd (tw_path (as_temp \<lparr>as_temp = tw, as_digests = complete_state_new (cr_checksums req),
        as_md5s = [], as_total = 0\<rparr>)) = ''tmp''"
      using create_temp_object_Ok by fastforce
  next
    fix s ps s1 s2 tw s3 s4 a s5
    assume tw: "create_temp_object i s2 = (Ok tw, s3)"
      and a: "copy_parts (cr_limits req) (cr_copy_buffer req) (cr_upload_id req) ps
        \<lparr>as_temp = tw, as_digests = complete_state_new (cr_checksums req), as_md5s = [],
          as_total = 0\<rparr> s4 = (Ok a, s5)"
    have "tw_path (as_temp a) = tw_path tw"
      by (rule copy_parts_Ok [OF a assms]) simp
    then have "hd (tw_path (as_temp a)) = ''tmp''"
      using create_temp_object_Ok [OF tw] by simp
    then show "touches ?A (case ChecksumRequest_validate (cr_checksums req)
        (complete_state_finalize E (as_digests a)) of
          Ok x \<Rightarrow> io_return a | Err e \<Rightarrow> discard_with (as_temp a) (SE_Checksum e))"
      by (auto intro!: d touches_intros split: result.split)
  qed
qed

lemma touches_summarize [touches_intros]: "touches A (summarize_file E n p)"
proof -
  have fr: "fs_nodes s' = fs_nodes s \<and> faults_left s' \<le> faults_left s"
    if "read_frames cs s = (rs, s')" for cs s rs s'
    using that by (induction cs arbitrary: s rs)
      (auto split: prod.splits result.splits dest!: fs_step_nodes intro: le_trans)
  have "touches A (\<lambda>s. case read_frames cs s of (frames, s') \<Rightarrow> (summarize_staged_upload E (Ok frames), s'))" for cs
    using fr by (fastforce simp: touches_def split: prod.splits)
  then show ?thesis
    unfolding summarize_file_def
    by (intro touches_match touches_intros, split result.split) (auto intro: touches_intros)
qed

lemma touches_stage:
  assumes "as_temp a = \<lparr>tw_temp_id = i, tw_path = [''tmp'', i @ ''.part''], tw_bytes = body\<rparr>"
    and "\<And>p uuid. (p, uuid) \<in> set (cr_processors req) \<Longrightarrow> confined p"
  shows "touches {p. hd p = ''tmp''} (stage_object E us req a)"
proof -
  let ?A = "{p. hd p = ''tmp''}"
  have f: "touches ?A (temp_flush (as_temp a))" "touches ?A (temp_finish (as_temp a))"
    by (rule touches_mono [OF touches_temp(1)], simp add: assms(1))
      (rule touches_mono [OF touches_temp(2)], simp add: assms(1))
  have d: "touches ?A (discard_with (as_temp a) e)" for e
    by (rule touches_mono [OF touches_discard_with]) (simp add: assms(1))
  have proc: "touches ?A (process_staged_upload (cr_processors req) (staged_of i) ctx)" for ctx
    unfolding process_staged_upload_def
    by (intro touches_bind touches_for touches_return)
      (auto intro!: touches_process_one assms(2) simp: staged_of_def replacement_path_def)
  have sd: "touches ?A (staged_discard (staged_of i))"
    unfolding staged_discard_def by (rule touches_mono [OF touches_helpers(2)]) (simp add: staged_of_def)
  have known: "st' = staged_of i" if "process_staged_upload ps (staged_of i) ctx s = (Ok st', s')" for ps ctx s st' s'
    using that by (auto simp: process_staged_upload_def io_bind_Ok io_return_def)
  have fin: "st = staged_of i" if "temp_finish (as_temp a) s = (Ok st, s')" for s st s'
    using temp_finish_Ok [OF that [unfolded assms(1)]] by blast
  have tail: "touches ?A (io_match (summarize_file E n (st_path (staged_of i))) (\<lambda>q. case q of
      Err e \<Rightarrow> io_ignore (staged_discard (staged_of i)) (io_fail (SE_Processor e))
    | Ok fb \<Rightarrow> if fu_size fb > m then io_ignore (staged_discard (staged_of i)) (io_fail SE_EntityTooLarge)
        else io_return (staged_of i, fb)))" for n m
    by (intro touches_match touches_summarize, split result.split)
      (auto intro!: touches_ignore sd touches_intros)
  have proc': "touches ?A (io_map_err SE_Processor (process_staged_upload (cr_processors req) (staged_of i) ctx))"
    for ctx by (intro touches_map_err proc)
  have known': "st' = staged_of i"
    if "io_map_err SE_Processor (process_staged_upload ps (staged_of i) ctx) s = (Ok st', s')" for ps ctx s st' s'
    using that known by (auto simp: io_map_err_def res_simps split: prod.splits)
  show ?thesis
    unfolding stage_object_def Let_def
    apply (rule touches_match, rule f(1))
    subgoal for r
      apply (cases r; simp only: result.case)
       apply (rule touches_bind_known, rule f(2), drule fin, hypsubst)
       apply (rule touches_bind_known, rule proc', drule known', hypsubst)
       apply (rule tail)
      apply (rule d)
      done
    done
qed

lemma touches_commit_completed:
  assumes "cr_copy_buffer req > 0" "\<And>p uuid. (p, uuid) \<in> set (cr_processors req) \<Longrightarrow> confined p"
  shows "touches (completion_files E us) (commit_completed E J i now us req)"
proof -
  let ?A = "completion_files E us"
  have tmp: "{p. hd p = ''tmp''} \<subseteq> ?A" by (auto simp: completion_files_def)
  have st: "st = staged_of i"
    if "stage_object E us req a s = (Ok (st, fb), s')"
      "as_temp a = \<lparr>tw_temp_id = i, tw_path = [''tmp'', i @ ''.part''], tw_bytes = body\<rparr>" for a st fb s s' body
    using that temp_finish_Ok [of i body]
    by (auto simp: stage_object_def io_simps Let_def discard_with_def process_staged_upload_def res_simps
        split: prod.splits result.splits if_splits)
  have com: "touches ?A (commit_staged_object E J (staged_of i) (completion_metadata E now us req m fb))" for m fb
    by (rule touches_mono [OF touches_commit])
      (use temp_files_tmp in \<open>auto simp: completion_files_def completion_metadata_def Let_def\<close>)
  have temp: "\<exists>body. as_temp a = \<lparr>tw_temp_id = i, tw_path = [''tmp'', i @ ''.part''], tw_bytes = body\<rparr>"
    if "assemble_object E i us req s = (Ok a, s')" for a s s'
    by (rule assemble_object_Ok [OF that assms(1)]) blast
  show ?thesis
    unfolding commit_completed_def Let_def
  proof (intro touches_bind_known touches_mono [OF touches_assemble tmp] assms(1))
    fix s a s'
    assume a: "assemble_object E i us req s = (Ok a, s')"
    then obtain body where b: "as_temp a = \<lparr>tw_temp_id = i, tw_path = [''tmp'', i @ ''.part''], tw_bytes = body\<rparr>"
      using temp by blast
    show "touches ?A (stage_object E us req a)"
      by (rule touches_mono [OF touches_stage [OF b assms(2)] tmp])
    fix s1 x s2
    assume x: "stage_object E us req a s1 = (Ok x, s2)"
    then show "touches ?A (case x of (st, fb) \<Rightarrow>
        io_bind (commit_staged_object E J st (completion_metadata E now us req (as_md5s a) fb))
          (\<lambda>_. io_return (completion_metadata E now us req (as_md5s a) fb)))"
      using st [OF _ b] com by (cases x) (auto intro!: touches_bind touches_return)
  qed
qed

lemma on_fs_eq: "on_fs m st = (r, st') \<longleftrightarrow> (\<exists>s'. m (ms_fs st) = (r, s') \<and> st' = st\<lparr>ms_fs := s'\<rparr>)"
  by (auto simp: on_fs_def split: prod.splits)

lemma begin_completion_open:
  assumes "bt_get (ms_sessions st) u = Some us" "is_open us" "us_upload_id us = u"
  obtains st1 where "begin_completion J uuid u st = (Ok (us\<lparr>us_state := Completing\<rparr>), st1)"
    "ms_sessions st1 = bt_insert u (us\<lparr>us_state := Completing\<rparr>) (ms_sessions st)"
    "\<And>p. p \<notin> session_files u \<Longrightarrow> files (ms_fs st1) p = files (ms_fs st) p"
proof -
  let ?us = "us\<lparr>us_state := Completing\<rparr>"
  obtain r s' where per: "persist_session J uuid ?us (ms_fs st) = (r, s')" by fastforce
  have "begin_completion J uuid u st = (Ok ?us,
      st\<lparr>ms_sessions := bt_insert u ?us (ms_sessions st), ms_fs := s'\<rparr>)"
    using assms per
    by (simp add: begin_completion_def get_open_upload_eq put_session_def on_fs_def io_simps Let_def)
  moreover have "files s' p = files (ms_fs st) p" if "p \<notin> session_files u" for p
    using touchesD(1) [OF touches_persist per] that assms(3) by simp
  ultimately show thesis using that by simp
qed

lemma begin_completion_refused:
  assumes "\<not> (\<exists>us. bt_get (ms_sessions st) u = Some us \<and> is_open us)"
  shows "begin_completion J uuid u st = (Err SE_NoSuchUpload, st)"
  using assms by (auto simp: begin_completion_def get_open_upload_eq io_simps split: option.split)

lemma finish_completion_Ok:
  assumes "bt_get (ms_sessions st) u = Some us" "us_upload_id us = u"
  obtains st' where "finish_completion J uuid u st = (Ok (), st')"
    "bt_get (ms_sessions st') = (bt_get (ms_sessions st))(u := None)"
    "\<And>p. p \<notin> upload_files u \<Longrightarrow> files (ms_fs st') p = files (ms_fs st) p"
proof -
  let ?us = "us\<lparr>us_state := Completed\<rparr>"
  obtain r1 s1 where s1: "persist_session J uuid ?us (ms_fs st) = (r1, s1)" by fastforce
  obtain r2 s2 where s2: "remove_file_if_exists (session_path u) s1 = (r2, s2)" by fastforce
  obtain r3 s3 where s3: "fs_remove_dir_all (upload_dir u) s2 = (r3, s3)" by fastforce
  have run: "finish_completion J uuid u st = (Ok (),
      st\<lparr>ms_sessions := bt_remove u (bt_insert u ?us (ms_sessions st)), ms_fs := s3\<rparr>)"
    using assms s1 s2 s3
    by (simp add: finish_completion_def mark_upload_state_def get_session_def put_session_def
        drop_session_def on_fs_def io_simps)
  have fr: "files s3 p = files (ms_fs st) p" if "p \<notin> upload_files u" for p
  proof -
    have "p \<notin> session_files u" "p \<noteq> session_path u" "\<not> under (upload_dir u) p"
      using that session_files_upload [of u] upload_dir_paths(1) [of u] by (auto simp: upload_files_def subset_iff)
    then show ?thesis
      using touchesD(1) [OF touches_persist s1] touchesD(1) [OF touches_helpers(2) s2]
        fs_remove_dir_all_files [OF s3] assms(2) by simp
  qed
  show thesis
    by (rule that [OF run]) (use fr in auto)
qed

lemma restore_open_upload_Ok:
  assumes "bt_get (ms_sessions st) u = Some us" "us_upload_id us = u"
  obtains st' where "restore_open_upload J uuid u st = (Ok (), st')"
    "ms_sessions st' = bt_insert u (us\<lparr>us_state := Open\<rparr>) (ms_sessions st)"
    "\<And>p. p \<notin> session_files u \<Longrightarrow> files (ms_fs st') p = files (ms_fs st) p"
proof -
  let ?us = "us\<lparr>us_state := Open\<rparr>"
  obtain r1 s1 where s1: "persist_session J uuid ?us (ms_fs st) = (r1, s1)" by fastforce
  have run: "restore_open_upload J uuid u st = (Ok (),
      st\<lparr>ms_sessions := bt_insert u ?us (ms_sessions st), ms_fs := s1\<rparr>)"
    using assms s1
    by (simp add: restore_open_upload_def mark_upload_state_def get_session_def put_session_def
        on_fs_def io_simps)
  show thesis
    by (rule that [OF run]) (use touchesD(1) [OF touches_persist s1] assms(2) in auto)
qed

text \<open>The two outcomes of \<open>complete_upload\<close> on an open upload.\<close>

lemma complete_upload_cases:
  assumes "complete_upload E J i x y z now req st = (r, st')" "sessions_wf st"
    and "cr_upload_id req = u"
  obtains (refused) "\<not> (\<exists>us. bt_get (ms_sessions st) u = Some us \<and> is_open us)"
      "r = Err SE_NoSuchUpload" "st' = st"
  | (failed) us e s1 s2 where "bt_get (ms_sessions st) u = Some us" "is_open us" "r = Err e"
      "\<And>p. p \<notin> session_files u \<Longrightarrow> files s1 p = files (ms_fs st) p"
      "commit_completed E J i now (us\<lparr>us_state := Completing\<rparr>) req s1 = (Err e, s2)"
      "\<And>p. p \<notin> session_files u \<Longrightarrow> files (ms_fs st') p = files s2 p"
      "bt_get (ms_sessions st') = bt_get (ms_sessions st)"
  | (completed) us md s1 s2 where "bt_get (ms_sessions st) u = Some us" "is_open us" "r = Ok md"
      "\<And>p. p \<notin> session_files u \<Longrightarrow> files s1 p = files (ms_fs st) p"
      "commit_completed E J i now (us\<lparr>us_state := Completing\<rparr>) req s1 = (Ok md, s2)"
      "\<And>p. p \<notin> upload_files u \<Longrightarrow> files (ms_fs st') p = files s2 p"
      "bt_get (ms_sessions st') = (bt_get (ms_sessions st))(u := None)"
proof (cases "\<exists>us. bt_get (ms_sessions st) u = Some us \<and> is_open us")
  case False
  with assms(1,3) begin_completion_refused [OF this, of J x] show thesis
    by (intro that(1)) (auto simp: complete_upload_def io_simps)
next
  case True
  then obtain us where us: "bt_get (ms_sessions st) u = Some us" "is_open us" by blast
  with assms(2) have id: "us_upload_id us = u" by (auto simp: sessions_wf_def session_ok_id)
  let ?us = "us\<lparr>us_state := Completing\<rparr>"
  from us id obtain st1 where b: "begin_completion J x u st = (Ok ?us, st1)"
    and b1: "ms_sessions st1 = bt_insert u ?us (ms_sessions st)"
    and b2: "\<And>p. p \<notin> session_files u \<Longrightarrow> files (ms_fs st1) p = files (ms_fs st) p"
    by (rule begin_completion_open [where J = J and uuid = x]) blast
  obtain q s2 where c: "commit_completed E J i now ?us req (ms_fs st1) = (q, s2)" by fastforce
  let ?st2 = "st1\<lparr>ms_fs := s2\<rparr>"
  have g: "bt_get (ms_sessions ?st2) u = Some ?us" "us_upload_id ?us = u" using b1 id by simp_all
  show thesis
  proof (cases q)
    case (Ok md)
    obtain st3 where "finish_completion J y u ?st2 = (Ok (), st3)"
      and "bt_get (ms_sessions st3) = (bt_get (ms_sessions ?st2))(u := None)"
      and "\<And>p. p \<notin> upload_files u \<Longrightarrow> files (ms_fs st3) p = files (ms_fs ?st2) p"
      by (rule finish_completion_Ok [OF g, where J = J and uuid = y]) blast
    with assms(1,3) b c Ok us b1 b2 show thesis
      by (intro that(3) [of us md "ms_fs st1" s2]) (auto simp: complete_upload_def complete_upload_after_transition_def on_fs_def io_simps)
  next
    case (Err e)
    obtain st3 where "restore_open_upload J z u ?st2 = (Ok (), st3)"
      and s3: "ms_sessions st3 = bt_insert u (?us\<lparr>us_state := Open\<rparr>) (ms_sessions ?st2)"
      and "\<And>p. p \<notin> session_files u \<Longrightarrow> files (ms_fs st3) p = files (ms_fs ?st2) p"
      by (rule restore_open_upload_Ok [OF g, where J = J and uuid = z]) blast
    moreover have "?us\<lparr>us_state := Open\<rparr> = us" using us(2) by (simp add: is_open_def)
    then have "bt_get (ms_sessions st3) = bt_get (ms_sessions st)"
      using s3 b1 us(1) by (auto simp: fun_eq_iff)
    ultimately show thesis
      using assms(1,3) b c Err us b2
      by (intro that(2) [of us e "ms_fs st1" s2]) (auto simp: complete_upload_def complete_upload_after_transition_def on_fs_def io_simps)
  qed
qed

text \<open>The bytes of the requested parts, in the order of the request.\<close>

definition requested_body :: "multipart \<Rightarrow> complete_request \<Rightarrow> bytes" where
  "requested_body st req = concat (map (\<lambda>r.
     case files (ms_fs st) (part_path (cr_upload_id req) (cp_part_number r)) of
       Some c \<Rightarrow> c | None \<Rightarrow> []) (cr_parts req))"

definition requested_md5s :: "upload_session \<Rightarrow> complete_request \<Rightarrow> bytes" where
  "requested_md5s us req = concat (map (\<lambda>r.
     case bt_get (us_parts us) (cp_part_number r) of Some pm \<Rightarrow> pm_md5 pm | None \<Rightarrow> []) (cr_parts req))"

text \<open>A requested part is recorded with the ETag asked for, and its file exists.\<close>

definition part_present :: "multipart \<Rightarrow> upload_session \<Rightarrow> complete_request \<Rightarrow> completed_part \<Rightarrow> bool" where
  "part_present st us req r \<longleftrightarrow>
     (\<exists>pm. part_for us r pm \<and> files (ms_fs st) (part_path (cr_upload_id req) (cp_part_number r)) \<noteq> None)"

lemma requested_parts:
  assumes "list_all2 (part_for us) reqs ps" "list_all2 (part_content s u) ps cs" "session_ok u us"
    and "\<And>n. files s (part_path u n) = files s0 (part_path u n)"
  shows "concat cs = concat (map (\<lambda>r. case files s0 (part_path u (cp_part_number r)) of
       Some c \<Rightarrow> c | None \<Rightarrow> []) reqs)
    \<and> concat (map pm_md5 ps) = concat (map (\<lambda>r.
     case bt_get (us_parts us) (cp_part_number r) of Some pm \<Rightarrow> pm_md5 pm | None \<Rightarrow> []) reqs)
    \<and> (\<forall>r\<in>set reqs. \<exists>pm. part_for us r pm \<and> files s0 (part_path u (cp_part_number r)) \<noteq> None)"
  using assms(1,2)
proof (induction reqs ps arbitrary: cs rule: list_all2_induct)
  case (Cons r reqs pm ps)
  from Cons.prems obtain c cs' where cs: "cs = c # cs'" "part_content s u pm c" "list_all2 (part_content s u) ps cs'"
    by (auto simp: list_all2_Cons1)
  have n: "pm_part_number pm = cp_part_number r" "bt_get (us_parts us) (cp_part_number r) = Some pm"
    using Cons.hyps(1) assms(3) by (auto simp: part_for_def session_ok_def)
  then have "files s0 (part_path u (cp_part_number r)) = Some c"
    using cs(2) assms(4) by (simp add: part_content_def)
  with Cons.IH [OF cs(3)] cs(1) Cons.hyps(1) n show ?case by auto
qed simp

text \<open>A store with one open upload of two parts, and a request to complete it.\<close>

definition ex_part :: "part_number \<Rightarrow> bytes \<Rightarrow> part_metadata" where
  "ex_part n b = \<lparr>pm_part_number = n, pm_size = length b, pm_etag = b, pm_md5 = b, pm_checksums = [],
     pm_last_modified = 0\<rparr>"

definition ex_upload_metadata :: upload_metadata where
  "ex_upload_metadata = \<lparr>um_content_type = None, um_content_encoding = None,
     um_content_disposition = None, um_content_language = None, um_cache_control = None,
     um_expires = None, um_tagging = None, um_checksum_algorithm = None, um_checksum_type = None,
     um_user_metadata = []\<rparr>"

definition ex_session :: upload_session where
  "ex_session = \<lparr>us_upload_id = ''U'', us_bucket = ''b'', us_key = ''k'', us_initiated = 0,
     us_state = Open, us_owner = None, us_metadata = ex_upload_metadata,
     us_parts = [(1, ex_part 1 ''hello''), (2, ex_part 2 ''you'')]\<rparr>"

definition ex_store :: "(string \<times> nat) option list \<Rightarrow> multipart" where
  "ex_store faults = \<lparr>ms_fs = \<lparr>fs_nodes = bt_of_list [([''tmp''], DirNode), ([''multipart''], DirNode),
       ([''multipart'', ''U''], DirNode), ([''multipart'', ''U'', ''parts''], DirNode),
       (part_path ''U'' 1, FileNode ''hello''), (part_path ''U'' 2, FileNode ''you'')],
       fs_faults = faults\<rparr>,
     ms_sessions = [(''U'', ex_session)]\<rparr>"

definition ex_complete :: "completed_part list \<Rightarrow> complete_request" where
  "ex_complete parts = \<lparr>cr_upload_id = ''U'', cr_parts = parts,
     cr_checksums = \<lparr>rq_content_md5 = None, rq_crc32 = None, rq_crc32c = None, rq_sha1 = None,
       rq_sha256 = None, rq_sha512 = None, rq_checksum_values = []\<rparr>,
     cr_limits = \<lparr>ul_max_object_size = 100, ul_max_part_size = 50, ul_min_non_final_part_size = 5,
       ul_max_concurrent_s3_requests = 1, ul_max_active_object_writers = 1,
       ul_max_active_multipart_part_writers = 1, ul_max_active_aws_chunked_decoders = 1\<rparr>,
     cr_copy_buffer = 3, cr_summary_buffer = 4, cr_request_id = ''r'', cr_processors = []\<rparr>"

abbreviation ex_both :: complete_request where
  "ex_both \<equiv> ex_complete [\<lparr>cp_part_number = 1, cp_etag = ''hello''\<rparr>, \<lparr>cp_part_number = 2, cp_etag = ''you''\<rparr>]"

definition ex_done :: object_metadata where
  "ex_done = completion_metadata ext0 7 ex_session ex_both ''helloyou''
     \<lparr>fu_size = 8, fu_digests = digests_of ext0 ''helloyou''\<rparr>"

definition ex_done_codec :: codec where
  "ex_done_codec = ex_codec\<lparr>j_object_decode := (\<lambda>_. Some ex_done)\<rparr>"

lemma ex_store_wf: "sessions_wf (ex_store faults)"
  by (simp add: sessions_wf_def ex_store_def ex_session_def ex_part_def session_ok_def bt_get_def
      split: if_splits)

text \<open>
  A successful completion without upload processors, whatever faults occurred on the way: the
  upload was open, every requested part was recorded with the ETag the client names, the object
  is visible under the bucket and key of the session with exactly the bytes of the requested
  part files in the order of the request, and the session is gone.
\<close>

lemma completion_visible:
  assumes "complete_upload E J i x y z now req st = (Ok md, st')" "sessions_wf st"
    and "cr_processors req = []" "cr_copy_buffer req > 0" "cr_summary_buffer req > 0"
    and "j_object_encode J md \<noteq> None \<Longrightarrow> codable J md" "length (requested_body st req) < u64_max"
  shows "\<exists>us. bt_get (ms_sessions st) (cr_upload_id req) = Some us \<and> is_open us
    \<and> (\<forall>r\<in>set (cr_parts req). part_present st us req r)
    \<and> visible E J (ms_fs st') (us_bucket us, us_key us) = Some (md, requested_body st req)
    \<and> om_size md = length (requested_body st req) \<and> om_size md \<le> ul_max_object_size (cr_limits req)
    \<and> om_etag md = ETag_from_multipart_md5 (x_hex_encode E (x_md5 E (requested_md5s us req)))
        (length (cr_parts req))
    \<and> ChecksumRequest_validate (cr_checksums req) (digests_of E (requested_body st req)) = Ok ()
    \<and> bt_get (ms_sessions st') (cr_upload_id req) = None"
  using assms(1,2) refl
proof (cases rule: complete_upload_cases)
  case (completed us md' s1 s2)
  let ?u = "cr_upload_id req" and ?us = "us\<lparr>us_state := Completing\<rparr>"
  have md: "md' = md" using completed(3) by simp
  have ok: "session_ok ?u ?us" using completed(1) assms(2) by (simp add: sessions_wf_def)
  have same: "files s1 (part_path ?u n) = files (ms_fs st) (part_path ?u n)" for n
    using completed(4) by simp
  have R: "concat cs = requested_body st req" "concat (map pm_md5 ps) = requested_md5s us req"
    "\<forall>r\<in>set (cr_parts req). part_present st us req r"
    if "validate_parts (cr_limits req) ?us (cr_parts req) = Ok ps"
      "list_all2 (part_content s1 ?u) ps cs" for ps cs
    using requested_parts [OF _ that(2) ok same, of "cr_parts req"] that(1)
    by (auto simp: validate_parts_Ok requested_body_def requested_md5s_def part_present_def part_for_def)
  from completed(5) [unfolded md] assms(3-6) obtain ps cs where
    v: "validate_parts (cr_limits req) ?us (cr_parts req) = Ok ps"
    and c: "list_all2 (part_content s1 ?u) ps cs"
    and "visible E J s2 (us_bucket ?us, us_key ?us) = Some (md, concat cs)"
    "om_size md = length (concat cs)" "om_size md \<le> ul_max_object_size (cr_limits req)"
    "om_etag md = ETag_from_multipart_md5 (x_hex_encode E (x_md5 E (concat (map pm_md5 ps)))) (length ps)"
    and k: "ChecksumRequest_validate (cr_checksums req)
       (complete_state_finalize E (complete_state_update (concat cs) (complete_state_new (cr_checksums req)))) = Ok ()"
    by (rule commit_completed_Ok) (use R assms(7) in auto)
  moreover have "visible E J (ms_fs st') (us_bucket us, us_key us) = visible E J s2 (us_bucket us, us_key us)"
    by (rule visible_cong; rule completed(6)) (auto dest: upload_files_hd)
  moreover have "length ps = length (cr_parts req)"
    using v by (auto simp: validate_parts_Ok dest: list_all2_lengthD)
  ultimately show ?thesis
    using completed(1,2,7) R [OF v c] complete_digests [OF k] by auto
qed (use assms in auto)

section \<open>A failed completion\<close>

text \<open>
  C17. A failed completion changes nothing of the upload. When \<open>complete_upload\<close> fails, at any
  point and with any faults, every session is as it was (the upload is open again, with the
  same parts), every part file of every upload has the same content, and no object other than
  the one of the session was touched; an upload that is missing or not open is refused
  without any change. Upload processors may do anything to the two files they are given.
\<close>

theorem failed_completion_restores:
  assumes "complete_upload E J i x y z now req st = (Err e, st')" "sessions_wf st"
    and "cr_copy_buffer req > 0" "\<forall>(p, uuid)\<in>set (cr_processors req). confined p"
  shows "bt_get (ms_sessions st') = bt_get (ms_sessions st)
    \<and> (\<forall>v n. files (ms_fs st') (part_path v n) = files (ms_fs st) (part_path v n))
    \<and> (case bt_get (ms_sessions st) (cr_upload_id req) of
         Some us \<Rightarrow> if is_open us
           then \<forall>p. p \<notin> session_files (cr_upload_id req) \<longrightarrow> p \<notin> completion_files E us \<longrightarrow>
             files (ms_fs st') p = files (ms_fs st) p
           else e = SE_NoSuchUpload \<and> st' = st
       | None \<Rightarrow> e = SE_NoSuchUpload \<and> st' = st)"
  using assms(1,2) refl
proof (cases rule: complete_upload_cases)
  case refused
  then show ?thesis by (auto split: option.split)
next
  case (failed us e' s1 s2)
  have "touches (completion_files E (us\<lparr>us_state := Completing\<rparr>))
      (commit_completed E J i now (us\<lparr>us_state := Completing\<rparr>) req)"
    using assms(3,4) by (intro touches_commit_completed) auto
  from touchesD(1) [OF this failed(5)]
  have c: "files s2 p = files s1 p" if "p \<notin> completion_files E us" for p
    using that by (simp add: completion_files_def)
  have f: "files (ms_fs st') p = files (ms_fs st) p"
    if "p \<notin> session_files (cr_upload_id req)" "p \<notin> completion_files E us" for p
    using failed(4,6) c that by simp
  have "part_path v n \<noteq> object_path E b k" "part_path v n \<noteq> metadata_path E b k" for v n b k
    by (rule notI, drule arg_cong [where f = hd], simp)+
  then have "part_path v n \<notin> completion_files E us" for v n
    by (auto simp: completion_files_def)
  with f failed show ?thesis by simp
qed (use assms in auto)

theorem failed_completion_restores_witness:
  "\<exists>e st'. complete_upload ext0 ex_done_codec ''1'' ''x'' ''y'' ''z'' 7 ex_both
       (ex_store (replicate 8 None @ [Some (''read error'', 0)])) = (Err e, st')
     \<and> bt_get (ms_sessions st') ''U'' = Some ex_session \<and> files (ms_fs st') (part_path ''U'' 1) = Some ''hello''"
proof -
  let ?st = "ex_store (replicate 8 None @ [Some (''read error'', 0)])"
  let ?run = "complete_upload ext0 ex_done_codec ''1'' ''x'' ''y'' ''z'' 7 ex_both ?st"
  have "fst ?run = Err (SE_Io (OtherIo ''read error''))" by code_simp
  then have run: "?run = (Err (SE_Io (OtherIo ''read error'')), snd ?run)" by (metis prod.collapse)
  have ex: "bt_get (ms_sessions ?st) ''U'' = Some ex_session" "files (ms_fs ?st) (part_path ''U'' 1) = Some ''hello''"
    by code_simp+
  have conf: "cr_copy_buffer ex_both > 0" "\<forall>(p, uuid)\<in>set (cr_processors ex_both). confined p"
    by (simp_all add: ex_complete_def)
  note F = failed_completion_restores [OF run ex_store_wf conf]
  have "bt_get (ms_sessions (snd ?run)) ''U'' = Some ex_session"
    unfolding F [THEN conjunct1] by (rule ex(1))
  moreover have "files (ms_fs (snd ?run)) (part_path ''U'' 1) = Some ''hello''"
    unfolding F [THEN conjunct2, THEN conjunct1, rule_format] by (rule ex(2))
  ultimately show ?thesis by (intro exI conjI) (rule run)
qed

end
