(* ===== verification/Multipart_Machine.thy ===== *)
theory Multipart_Machine
  imports Multipart_Props
begin

text \<open>
  The multipart store as a state machine: one transition per call of the store, with any
  fault schedule and any outcome. Invariants of all runs, isolation of uploads, the life cycle
  of a session, and the all-or-nothing behaviour of \<open>commit_part\<close>.
\<close>

section \<open>Calls\<close>

datatype call_kind = KCreate | KWritePart | KTempPart | KCommitPart | KAbort | KComplete

text \<open>The outcome of a call, its value left out.\<close>

fun outcome :: "('a, 'e) result \<Rightarrow> 'e option" where
  "outcome (Ok x) = None"
| "outcome (Err e) = Some e"

text \<open>
  \<open>mcall E J k u e st st'\<close>: a call of kind \<open>k\<close> on upload \<open>u\<close>, with outcome \<open>e\<close>. A new upload has a
  fresh identifier; the temporary part given to \<open>commit_part\<close> is one of the upload.
\<close>

inductive mcall ::
  "ext \<Rightarrow> codec \<Rightarrow> call_kind \<Rightarrow> upload_id \<Rightarrow> store_error option \<Rightarrow> multipart \<Rightarrow> multipart \<Rightarrow> bool"
  for E J where
  creates: "create_upload J u uuid now b k owner md st = (r, st') \<Longrightarrow> bt_get (ms_sessions st) u = None \<Longrightarrow>
     mcall E J KCreate u (outcome r) st st'"
| writes: "write_part J uuid now u n body md5 tag cs st = (r, st') \<Longrightarrow>
     mcall E J KWritePart u (outcome r) st st'"
| stages: "create_temp_part i u n st = (r, st') \<Longrightarrow> mcall E J KTempPart u (outcome r) st st'"
| commits: "commit_part J bid uuid now u n T part st = (r, st') \<Longrightarrow> T \<in> session_files u \<Longrightarrow>
     mcall E J KCommitPart u (outcome r) st st'"
| aborts: "abort_upload J uuid u st = (r, st') \<Longrightarrow> mcall E J KAbort u (outcome r) st st'"
| completes: "complete_upload E J i x y z now req st = (r, st') \<Longrightarrow> cr_copy_buffer req > 0 \<Longrightarrow>
     \<forall>(p, uuid)\<in>set (cr_processors req). confined p \<Longrightarrow>
     mcall E J KComplete (cr_upload_id req) (outcome r) st st'"

inductive_cases mcallE: "mcall E J k u e st st'"

text \<open>A run: a sequence of calls, each labelled with its kind and upload.\<close>

inductive mrun :: "ext \<Rightarrow> codec \<Rightarrow> (call_kind \<times> upload_id) list \<Rightarrow> multipart \<Rightarrow> multipart \<Rightarrow> bool"
  for E J where
  stop: "mrun E J [] st st"
| call: "mcall E J k u e st st1 \<Longrightarrow> mrun E J cs st1 st' \<Longrightarrow> mrun E J ((k, u) # cs) st st'"

section \<open>Invariant and isolation\<close>

lemma upload_files_not_completion: "p \<in> upload_files v \<Longrightarrow> p \<notin> completion_files E us"
  by (auto simp: completion_files_def dest!: upload_files_hd)

lemma complete_upload_frame:
  assumes "complete_upload E J i x y z now req st = (r, st')" "sessions_wf st" "cr_copy_buffer req > 0"
    and "\<forall>(p, uuid)\<in>set (cr_processors req). confined p" "v \<noteq> cr_upload_id req"
  shows "sessions_wf st' \<and> bt_get (ms_sessions st') v = bt_get (ms_sessions st) v
    \<and> (\<forall>p\<in>upload_files v. files (ms_fs st') p = files (ms_fs st) p)"
proof -
  have t: "files s2 p = files s1 p" if "p \<in> upload_files v"
    "commit_completed E J i now (us\<lparr>us_state := Completing\<rparr>) req s1 = (q, s2)" for p s1 s2 us q
  proof -
    have "touches (completion_files E (us\<lparr>us_state := Completing\<rparr>))
        (commit_completed E J i now (us\<lparr>us_state := Completing\<rparr>) req)"
      using assms(3,4) by (intro touches_commit_completed) auto
    from touchesD(1) [OF this that(2)] that(1) upload_files_not_completion show ?thesis by blast
  qed
  have apart: "p \<notin> upload_files (cr_upload_id req)" "p \<notin> session_files (cr_upload_id req)"
    if "p \<in> upload_files v" for p
    using that upload_files_apart [OF assms(5)] session_files_upload [of "cr_upload_id req"] by blast+
  from assms(1,2) refl show ?thesis
  proof (cases rule: complete_upload_cases)
    case (failed us e s1 s2)
    with t [OF _ failed(5)] apart assms(2) show ?thesis by (auto simp: sessions_wf_def)
  next
    case (completed us md s1 s2)
    with t [OF _ completed(5)] apart assms(2,5) show ?thesis by (auto simp: sessions_wf_def)
  qed (use assms in auto)
qed

lemma mcall_frame:
  assumes "mcall E J k u e st st'" "sessions_wf st" "v \<noteq> u"
  shows "sessions_wf st' \<and> bt_get (ms_sessions st') v = bt_get (ms_sessions st) v
    \<and> (\<forall>p\<in>upload_files v. files (ms_fs st') p = files (ms_fs st) p)"
proof -
  have apart: "p \<notin> upload_files u" if "p \<in> upload_files v" for p
    using that upload_files_apart [OF assms(3)] by blast
  have fr: ?thesis if "mframe (upload_files u) {u} m" "m st = (r, st')" for m :: "(multipart, 'z, 'y) io" and r
    using mframeD [OF that assms(2)] assms(3) apart by auto
  note su = session_files_upload [of u]
  from assms(1) show ?thesis
  proof cases
    case creates
    then show ?thesis using fr mframe_create_upload [OF su] by blast
  next
    case writes
    then show ?thesis using fr mframe_write_part [OF order_refl] by blast
  next
    case stages
    then show ?thesis using fr mframe_create_temp_part [OF su] by blast
  next
    case commits
    then show ?thesis using fr mframe_commit_part [OF order_refl] su by blast
  next
    case aborts
    then show ?thesis using fr mframe_abort_upload [OF order_refl] by blast
  next
    case completes
    then show ?thesis using complete_upload_frame [OF _ assms(2)] assms(3) by blast
  qed
qed

lemma mcall_wf: "mcall E J k u e st st' \<Longrightarrow> sessions_wf st \<Longrightarrow> sessions_wf st'"
  using mcall_frame [of E J k u e st st' "CHR ''x'' # u"] by simp

section \<open>Closed uploads\<close>

text \<open>An upload that is absent, being completed, completed or aborted.\<close>

definition closed :: "multipart \<Rightarrow> upload_id \<Rightarrow> bool" where
  "closed st u \<longleftrightarrow> \<not> (\<exists>us. bt_get (ms_sessions st) u = Some us \<and> is_open us)"

lemma get_open_closed: "closed st u \<Longrightarrow> get_open_upload u st = (Err SE_NoSuchUpload, st)"
  by (auto simp: closed_def get_open_upload_eq split: option.split)

lemma mcall_closed:
  assumes "mcall E J k u e st st'" "closed st u" "k \<noteq> KCreate"
  shows "e = Some SE_NoSuchUpload \<and> st' = st"
  using assms(1)
proof cases
  case (completes i x y z now req r)
  have "begin_completion J x u st = (Err SE_NoSuchUpload, st)"
    using assms(2) begin_completion_refused by (auto simp: closed_def)
  with completes show ?thesis by (auto simp: complete_upload_def io_simps)
qed (use assms get_open_closed [OF assms(2)] in
  \<open>auto simp: write_part_def create_temp_part_def commit_part_def abort_upload_def io_simps Let_def\<close>)

lemma mcall_keeps_closed:
  assumes "mcall E J k v e st st'" "sessions_wf st" "closed st u" "k = KCreate \<longrightarrow> v \<noteq> u"
  shows "closed st' u"
proof (cases "v = u")
  case True
  with mcall_closed [OF assms(1)] assms(3,4) show ?thesis by auto
next
  case False
  with mcall_frame [OF assms(1,2), of u] assms(3) show ?thesis by (simp add: closed_def)
qed

lemma mrun_keeps_closed:
  "mrun E J cs st st' \<Longrightarrow> sessions_wf st \<Longrightarrow> closed st u \<Longrightarrow> (KCreate, u) \<notin> set cs \<Longrightarrow> closed st' u"
proof (induction rule: mrun.induct)
  case (call k v e st st1 cs st')
  then have "closed st1 u" by (intro mcall_keeps_closed [OF call.hyps(1)]) auto
  with call mcall_wf [OF call.hyps(1)] show ?case by simp
qed

text \<open>Completion and abort close the upload.\<close>

lemma finished_closed:
  assumes "mcall E J k u None st st'" "sessions_wf st" "k = KComplete \<or> k = KAbort"
  shows "closed st' u"
  using assms(1)
proof cases
  case (aborts uuid r)
  then obtain x where "abort_upload J uuid u st = (Ok x, st')" by (cases r) auto
  then obtain st1 where m: "io_match (on_fs (fs_remove_dir_all (upload_dir u))) (\<lambda>r. case r of
      Ok _ \<Rightarrow> drop_session u | Err NotFound \<Rightarrow> drop_session u | Err e \<Rightarrow> io_fail (SE_Io e)) st1 = (Ok x, st')"
    by (auto simp: abort_upload_def io_bind_Ok Let_def)
  obtain q st2 where "on_fs (fs_remove_dir_all (upload_dir u)) st1 = (q, st2)" by fastforce
  with m have "bt_get (ms_sessions st') u = None"
    by (cases q) (auto simp: io_match_def io_fail_def drop_session_def split: io_error.splits)
  then show ?thesis by (simp add: closed_def)
next
  case (completes i x y z now req r)
  then obtain md where run: "complete_upload E J i x y z now req st = (Ok md, st')" by (cases r) auto
  from run assms(2) refl have "bt_get (ms_sessions st') (cr_upload_id req) = None"
    by (cases rule: complete_upload_cases) auto
  with completes show ?thesis by (simp add: closed_def)
qed (use assms in auto)

section \<open>All or nothing for a part\<close>

text \<open>What is known of part \<open>n\<close>: its entry in the session and its file.\<close>

definition part_state :: "multipart \<Rightarrow> upload_id \<Rightarrow> part_number \<Rightarrow> part_metadata option \<times> bytes option" where
  "part_state st u n =
     (Option.bind (bt_get (ms_sessions st) u) (\<lambda>us. bt_get (us_parts us) n), files (ms_fs st) (part_path u n))"

text \<open>
  The places of an upload are usable: its directories exist and no directory stands where the
  session is written.
\<close>

definition upload_ready :: "fs \<Rightarrow> upload_id \<Rightarrow> string \<Rightarrow> bool" where
  "upload_ready s u uuid \<longleftrightarrow> dir_in s [''multipart''] \<and> dir_in s (upload_dir u) \<and> dir_in s (parts_dir u)
     \<and> \<not> dir_in s (session_path u) \<and> \<not> dir_in s (upload_dir u @ [''session.'' @ uuid @ ''.tmp''])"

lemma fs_write_cases:
  assumes "fs_write p b s = (r, s')" "p \<noteq> []" "dir_in s (butlast p)" "\<not> dir_in s p"
  shows "r = Ok () \<and> files s' = (files s)(p \<mapsto> b) \<and> dir_in s' = dir_in s \<and> faults_left s' = faults_left s
    \<or> (\<exists>e. r = Err e) \<and> faults_left s = Suc (faults_left s')"
proof -
  from assms(1) have "faulty (\<lambda>k n. snd (write_i p (take k b) n)) (write_i p b) s = (r, s')"
    by (simp add: fs_write_def)
  then show ?thesis
  proof (cases rule: faulty_cases)
    case ok
    moreover have "can_create (fs_nodes s) p = Ok ()"
      using assms(2-4) by (auto simp: can_create_Ok is_dir_def)
    ultimately show ?thesis using write_i_cases [OF ok(1)] by (auto simp: write_i_def)
  qed auto
qed

lemma create_parent_dir_ready:
  assumes "create_parent_dir p s = (r, s')" "upload_ready s u uuid"
    and "p \<in> session_files u \<or> p = part_path u n"
  shows "r = Ok () \<and> fs_nodes s' = fs_nodes s \<and> faults_left s' = faults_left s
    \<or> (\<exists>e. r = Err e) \<and> faults_left s = Suc (faults_left s') \<and> fs_nodes s' = fs_nodes s"
proof -
  have p: "p \<noteq> []" "butlast p = upload_dir u \<or> butlast p = parts_dir u"
    using assms(3) by (auto simp: session_files_def part_path_def)
  obtain q where q: "faulty (\<lambda>_ n. n) (create_dir_all_i (butlast p)) s = (q, s')"
    and r: "r = map_err SE_Io q"
    using assms(1) p(1) by (auto simp: create_parent_dir_def fs_create_dir_all_def io_map_err_def
        split: prod.splits)
  from q show ?thesis
  proof (cases rule: faulty_cases)
    case ok
    with assms(2) p(2) have "q = Ok () \<and> fs_nodes s' = fs_nodes s"
      by (auto simp: create_dir_all_i_def parts_dir_def upload_dir_def is_dir_def Let_def upload_ready_def)
    with r ok(2) show ?thesis by simp
  qed (use r in auto)
qed

lemma persist_ready:
  assumes "persist_session J uuid us s = (r, s')" "us_upload_id us = u" "upload_ready s u uuid"
    and "j_session_encode J us \<noteq> None"
  shows "r = Ok () \<or> (\<exists>e. r = Err e) \<and> faults_left s' < faults_left s"
proof -
  let ?tmp = "upload_dir u @ [''session.'' @ uuid @ ''.tmp'']"
  from assms(4) obtain json where json: "j_session_encode J us = Some json" by blast
  obtain r1 s1 where c: "create_parent_dir (session_path u) s = (r1, s1)" by fastforce
  note C = create_parent_dir_ready [OF c assms(3), of undefined]
  obtain r2 s2 where w: "fs_write ?tmp json s1 = (r2, s2)" by fastforce
  obtain r3 s3 where n: "fs_rename ?tmp (session_path u) s2 = (r3, s3)" by fastforce
  obtain r4 s4 where d2: "remove_file_if_exists ?tmp s2 = (r4, s4)" by fastforce
  obtain r5 s5 where d3: "remove_file_if_exists ?tmp s3 = (r5, s5)" by fastforce
  note D = touchesD(3) [OF touches_helpers(2) d2] touchesD(3) [OF touches_helpers(2) d3]
  have run: "persist_session J uuid us s = (case r1 of Err e \<Rightarrow> (Err e, s1) | Ok _ \<Rightarrow>
      (case r2 of Err e \<Rightarrow> (Err (SE_Io e), s4) | Ok _ \<Rightarrow>
        (case r3 of Err e \<Rightarrow> (Err (SE_Io e), s5) | Ok _ \<Rightarrow> (Ok (), s3))))"
    using c w n d2 d3 json assms(2)
    by (simp add: persist_session_def Let_def io_simps split: result.split)
  show ?thesis
  proof (cases r1)
    case (Err e)
    with C assms(1,3) run show ?thesis by (auto simp: upload_ready_def)
  next
    case (Ok x)
    with C assms(3) have s1: "fs_nodes s1 = fs_nodes s" "faults_left s1 = faults_left s"
      by (auto simp: upload_ready_def)
    note W = fs_write_cases [OF w]
    show ?thesis
    proof (cases r2)
      case (Err e)
      with W s1 D Ok assms(1,3) run show ?thesis by (auto simp: upload_ready_def)
    next
      case (Ok y)
      with W s1 assms(3) have s2: "files s2 ?tmp = Some json" "dir_in s2 = dir_in s" "faults_left s2 = faults_left s"
        by (auto simp: upload_ready_def)
      from n show ?thesis
      proof (cases rule: fs_rename_cases)
        case refused
        with s2 assms(3) show ?thesis by (auto simp: upload_ready_def session_path_def)
      qed (use D s2 Ok \<open>r1 = Ok x\<close> assms(1) run in auto)
    qed
  qed
qed

text \<open>The files of \<open>commit_part\<close>.\<close>

definition part_backup :: "upload_id \<Rightarrow> string \<Rightarrow> part_number \<Rightarrow> path" where
  "part_backup u bid n = upload_dir u @ [show_pad5 n @ ''.'' @ bid @ ''.rollback.tmp'']"

lemma part_backup_session_file [simp]: "part_backup u bid n \<in> session_files u"
  by (simp add: part_backup_def)

lemma part_path_not_backup [simp]: "part_path u n \<noteq> part_backup u bid n"
  by (simp add: part_path_def parts_dir_def part_backup_def)

lemma part_path_neq [simp]: "p \<in> session_files v \<Longrightarrow> part_path u n \<noteq> p" "p \<in> session_files v \<Longrightarrow> p \<noteq> part_path u n"
  using upload_dir_paths(3) by blast+

lemma fs_hard_link_cases:
  assumes "fs_hard_link a b s = (r, s')"
  obtains (ok) c where "r = Ok ()" "files s a = Some c" "files s' = (files s)(b \<mapsto> c)" "dir_in s' = dir_in s"
      "faults_left s' = faults_left s"
  | (err) e where "r = Err e" "fs_nodes s' = fs_nodes s" "faults_left s' \<le> faults_left s"
proof -
  from assms have "faulty (\<lambda>_ n. n) (hard_link_i a b) s = (r, s')" by (simp add: fs_hard_link_def)
  then show thesis
  proof (cases rule: faulty_cases)
    case ok
    from hard_link_i_cases [OF ok(1)] ok(2) that show thesis by auto
  qed (use that(2) in auto)
qed

lemma publish_part_cases:
  assumes "publish_part T (part_path u n) B s = (r, s')" "T \<in> session_files u" "upload_ready s u uuid"
    and "B = None \<or> B = Some b" "b \<in> session_files u" "b \<noteq> T"
  obtains (ok) body where "r = Ok ()" "files s T = Some body" "files s' (part_path u n) = Some body"
      "faults_left s' = faults_left s" "dir_in s' = dir_in s"
      "B = Some b \<Longrightarrow> files s (part_path u n) \<noteq> None \<and> files s' b = files s (part_path u n)"
  | (err) e where "r = Err e" "files s' (part_path u n) = files s (part_path u n)"
proof -
  let ?P = "part_path u n"
  obtain r1 s1 where c: "create_parent_dir ?P s = (r1, s1)" by fastforce
  define link :: "(fs, unit, store_error) io" where
    "link = (case B of None \<Rightarrow> io_return () | Some b \<Rightarrow> se_io (fs_hard_link ?P b))"
  obtain r2 s2 where l: "link s1 = (r2, s2)" by fastforce
  obtain r3 s3 where m: "fs_rename T ?P s2 = (r3, s3)" by fastforce
  have run: "publish_part T ?P B s = (case r1 of Err e \<Rightarrow> (Err e, s1) | Ok _ \<Rightarrow>
      (case r2 of Err e \<Rightarrow> (Err e, s2) | Ok _ \<Rightarrow> (map_err SE_Io r3, s3)))"
    unfolding publish_part_def link_def [symmetric]
    using c l m by (simp add: io_bind_def io_map_err_def split: result.split)
  have n1: "fs_nodes s1 = fs_nodes s" "r1 = Ok () \<Longrightarrow> faults_left s1 = faults_left s"
    using create_parent_dir_ready [OF c assms(3)] by auto
  have L: "files s2 ?P = files s ?P \<and> (r2 = Ok () \<longrightarrow> files s2 T = files s T \<and> faults_left s2 = faults_left s1
      \<and> dir_in s2 = dir_in s \<and> (B = Some b \<longrightarrow> files s ?P \<noteq> None \<and> files s2 b = files s ?P))"
  proof (cases "B = None")
    case True
    with l n1 show ?thesis by (simp add: link_def io_return_def)
  next
    case False
    with assms(4) l obtain q where q: "fs_hard_link ?P b s1 = (q, s2)" "r2 = map_err SE_Io q"
      by (auto simp: link_def io_map_err_def split: prod.splits)
    from q(1) show ?thesis
      by (cases rule: fs_hard_link_cases) (use q(2) n1 assms(5,6) in auto)
  qed
  show thesis
  proof (cases "r1 = Ok () \<and> r2 = Ok ()")
    case True
    with L n1 have s2: "files s2 T = files s T" "faults_left s2 = faults_left s" "dir_in s2 = dir_in s"
      "B = Some b \<Longrightarrow> files s ?P \<noteq> None \<and> files s2 b = files s ?P" by auto
    from m show thesis
    proof (cases rule: fs_rename_cases)
      case (ok body)
      with s2 run True assms(1,2,5,6) show thesis by (intro that(1) [of body]) auto
    qed (use L run True assms(1) in \<open>auto intro!: that(2)\<close>)
  next
    case False
    have "\<exists>e. r = Err e \<and> (s' = s1 \<or> s' = s2)"
      using False run assms(1) by (cases r1; cases r2) auto
    with L n1 show thesis by (auto intro: that(2))
  qed
qed

lemma rollback_part_file_det:
  assumes "rollback_part_file (part_path u n) B s = (r, s')" "faults_left s = 0" "dir_in s (parts_dir u)"
    and "files s (part_path u n) \<noteq> None" "B = None \<or> B = Some b \<and> files s b = Some c" "b \<in> session_files u"
  shows "files s' (part_path u n) = (if B = None then None else Some c)"
proof -
  let ?P = "part_path u n"
  have P: "?P \<noteq> []" "butlast ?P = parts_dir u" by (simp_all add: part_path_def)
  obtain q s1 where m: "remove_file_if_exists ?P s = (q, s1)" by fastforce
  have nd: "\<not> dir_in s ?P" using assms(4) file_not_dir P(1) by blast
  note R = remove_file_if_exists_det [OF m assms(2) nd]
  show ?thesis
  proof (cases "B = None")
    case True
    with assms(1) m have "s' = s1" by (auto simp: rollback_part_file_def io_simps)
    with R True show ?thesis by simp
  next
    case False
    with assms(1,5) m obtain q2 where rn: "fs_rename b ?P s1 = (q2, s')"
      by (auto simp: rollback_part_file_def io_simps split: prod.splits)
    from rn show ?thesis
      by (cases rule: fs_rename_cases) (use R False assms P nd in auto)
  qed
qed

lemma touches_persist_exact:
  "touches {session_path (us_upload_id us), upload_dir (us_upload_id us) @ [''session.'' @ uuid @ ''.tmp'']}
     (persist_session J uuid us)"
proof -
  let ?u = "us_upload_id us"
  let ?tmp = "upload_dir ?u @ [''session.'' @ uuid @ ''.tmp'']" and ?s = "session_path (us_upload_id us)"
  have "touches {?s, ?tmp} (fs_write ?tmp json)" for json
    by (rule touches_mono [OF touches_calls(2)]) simp
  moreover have "touches {?s, ?tmp} (fs_rename ?tmp ?s)"
    by (rule touches_mono [OF touches_calls(4)]) simp
  moreover have "touches {?s, ?tmp} (remove_file_if_exists ?tmp)"
    by (rule touches_mono [OF touches_helpers(2)]) simp
  ultimately show ?thesis
    unfolding persist_session_def Let_def
    by (intro touches_bind touches_match touches_ignore touches_intros)
      (auto split: result.split intro!: touches_bind touches_ignore touches_intros)
qed

lemma show_pad5_not_s: "show_pad5 n @ xs \<noteq> CHR ''s'' # ys"
proof -
  have "code_of c \<le> 102" if "c \<in> set (show_pad5 n)" for c
    using that show_radix_codes [of 10 c n] by (auto simp: show_pad5_def show_nat_def)
  moreover obtain c cs where c: "show_pad5 n = c # cs"
    by (cases "show_pad5 n") (simp_all add: show_pad5_def show_nat_def)
  ultimately have "code_of c \<le> 102" by simp
  then have "c \<noteq> CHR ''s''" by auto
  with c show ?thesis by simp
qed

lemma part_backup_neq [simp]:
  "part_backup u bid n \<noteq> session_path u" "part_backup u bid n \<noteq> upload_dir u @ [''session.'' @ x]"
  by (simp_all add: part_backup_def session_path_def show_pad5_not_s)

text \<open>The entry of a part after the calls of \<open>commit_part\<close> on the session.\<close>

lemma insert_part_open:
  assumes "bt_get (ms_sessions st) u = Some us" "is_open us"
  shows "insert_part u pm st =
    (Ok (us\<lparr>us_parts := bt_insert (pm_part_number pm) pm (us_parts us)\<rparr>),
     st\<lparr>ms_sessions := bt_insert u (us\<lparr>us_parts := bt_insert (pm_part_number pm) pm (us_parts us)\<rparr>)
       (ms_sessions st)\<rparr>)"
  using assms by (simp add: insert_part_def get_open_upload_eq put_session_def io_simps Let_def)

lemma restore_part_entry_state:
  assumes "bt_get (ms_sessions st) u = Some us" "restore_part_entry u n prev st = (r, st')"
  shows "ms_fs st' = ms_fs st \<and> (\<exists>us'. bt_get (ms_sessions st') u = Some us' \<and> bt_get (us_parts us') n = prev)"
  using assms by (cases prev) (auto simp: restore_part_entry_def get_session_def put_session_def io_simps)

lemma touches_discard:
  assumes "T \<in> A" "set_option B \<subseteq> A"
  shows "touches A (discard_unpublished_part T B)"
proof -
  have "touches A (remove_file_if_exists x)" if "x \<in> A" for x
    using that by (blast intro: touches_mono [OF touches_helpers(2)])
  with assms show ?thesis
    unfolding discard_unpublished_part_def by (cases B) (auto intro!: touches_ignore touches_intros)
qed

text \<open>\<open>commit_part\<close> on an open upload, as a sequence of file-system calls.\<close>

definition committed_entry :: "timestamp \<Rightarrow> part_number \<Rightarrow> committed_part \<Rightarrow> part_metadata" where
  "committed_entry now n part = \<lparr>pm_part_number = n, pm_size = ct_size part, pm_etag = ct_etag part,
     pm_md5 = ct_md5 part, pm_checksums = ct_checksums part, pm_last_modified = now\<rparr>"

definition backup_of :: "upload_session \<Rightarrow> upload_id \<Rightarrow> string \<Rightarrow> part_number \<Rightarrow> path option" where
  "backup_of us u bid n = map_option (\<lambda>_. part_backup u bid n) (bt_get (us_parts us) n)"

lemma commit_part_run:
  assumes "bt_get (ms_sessions st) u = Some us" "is_open us"
    and "publish_part T (part_path u n) (backup_of us u bid n) (ms_fs st) = (q, s1)"
    and "us' = us\<lparr>us_parts := bt_insert n (committed_entry now n part) (us_parts us)\<rparr>"
    and "persist_session J uuid us' s1 = (w, s2)"
  shows "commit_part J bid uuid now u n T part st = (case q of
      Err e \<Rightarrow> io_ignore (on_fs (discard_unpublished_part T (backup_of us u bid n))) (io_fail e) (st\<lparr>ms_fs := s1\<rparr>)
    | Ok _ \<Rightarrow> (case w of
        Err e \<Rightarrow> io_ignore (on_fs (rollback_part_file (part_path u n) (backup_of us u bid n)))
          (io_ignore (restore_part_entry u n (bt_get (us_parts us) n)) (io_fail e))
          \<lparr>ms_fs = s2, ms_sessions = bt_insert u us' (ms_sessions st)\<rparr>
      | Ok _ \<Rightarrow> io_bind (case backup_of us u bid n of None \<Rightarrow> io_return () | Some b \<Rightarrow> on_fs (remove_file_if_exists b))
          (\<lambda>_. io_return (committed_entry now n part)) \<lparr>ms_fs = s2, ms_sessions = bt_insert u us' (ms_sessions st)\<rparr>))"
proof -
  have e: "\<lparr>pm_part_number = n, pm_size = ct_size part, pm_etag = ct_etag part, pm_md5 = ct_md5 part,
      pm_checksums = ct_checksums part, pm_last_modified = now\<rparr> = committed_entry now n part"
    by (simp add: committed_entry_def)
  have n: "pm_part_number (committed_entry now n part) = n" by (simp add: committed_entry_def)
  have rec: "st\<lparr>ms_sessions := x, ms_fs := y\<rparr> = \<lparr>ms_fs = y, ms_sessions = x\<rparr>" for x y
    by (cases st) simp
  show ?thesis
    unfolding commit_part_def Let_def part_backup_def [symmetric] e backup_of_def [symmetric]
    using assms insert_part_open [of "st\<lparr>ms_fs := s1\<rparr>" u us "committed_entry now n part"] n
    by (simp add: io_bind_def [of "get_open_upload u"] io_match_def [of "on_fs (publish_part _ _ _)"]
        io_bind_def [of "insert_part _ _"] io_match_def [of "on_fs (persist_session _ _ _)"]
        on_fs_def [of "publish_part _ _ _"] on_fs_def [of "persist_session _ _ _"] get_open_upload_eq
        rec split: result.splits)
qed

text \<open>A failed persist after the publication puts the previous part back.\<close>

lemma commit_part_rollback:
  assumes "persist_session J uuid us' s1 = (Err e, s2)" "us_upload_id us' = u" "upload_ready s1 u uuid"
    and "j_session_encode J us' \<noteq> None" "faults_left s1 \<le> 1" "files s1 (part_path u n) \<noteq> None"
    and "B = None \<and> old = None \<or> B = Some (part_backup u bid n) \<and> files s1 (part_backup u bid n) = old \<and> old \<noteq> None"
    and "bt_get ss u = Some us'"
    and "io_ignore (on_fs (rollback_part_file (part_path u n) B))
          (io_ignore (restore_part_entry u n prev) (io_fail e)) \<lparr>ms_fs = s2, ms_sessions = ss\<rparr> = (r, st')"
  shows "r = Err e \<and> part_state st' u n = (prev, old)"
proof -
  let ?P = "part_path u n" and ?b = "part_backup u bid n"
  have fine: "files s2 x = files s1 x" if "x \<noteq> session_path u" "x \<noteq> upload_dir u @ [''session.'' @ uuid @ ''.tmp'']" for x
    using touchesD(1) [OF touches_persist_exact assms(1)] that assms(2) by simp
  have "?P \<noteq> session_path u" "?P \<noteq> upload_dir u @ [''session.'' @ uuid @ ''.tmp'']"
    by (rule part_path_neq(1), rule upload_dir_paths)+
  then have s2: "files s2 ?P \<noteq> None" "files s2 ?b = files s1 ?b"
    using fine [of ?P] assms(6) fine [OF part_backup_neq] by auto
  have f0: "faults_left s2 = 0" using persist_ready [OF assms(1-4)] assms(5) by auto
  have dir: "dir_in s2 (parts_dir u)"
    using touchesD(2) [OF touches_persist_exact assms(1)] assms(3) by (auto simp: upload_ready_def)
  obtain d s3 where d: "rollback_part_file ?P B s2 = (d, s3)" by fastforce
  have P3: "files s3 ?P = old"
    using rollback_part_file_det [OF d f0 dir s2(1) _ part_backup_session_file, of bid n "the old"] assms(7) s2(2)
    by auto
  obtain x st4 where x: "restore_part_entry u n prev \<lparr>ms_fs = s3, ms_sessions = ss\<rparr> = (x, st4)" by fastforce
  have "bt_get (ms_sessions \<lparr>ms_fs = s3, ms_sessions = ss\<rparr>) u = Some us'" using assms(8) by simp
  note E = restore_part_entry_state [OF this x]
  have "r = Err e \<and> st' = st4" using assms(9) d x by (simp add: io_simps on_fs_def)
  with E P3 show ?thesis by (auto simp: part_state_def)
qed

text \<open>Once the session is persisted, the entry and the file of the part are the new ones.\<close>

lemma commit_part_persisted:
  assumes "persist_session J uuid us' s1 = (Ok x, s2)" "us_upload_id us' = u" "files s1 (part_path u n) = Some body"
    and "B = None \<or> B = Some (part_backup u bid n)" "bt_get ss u = Some us'" "bt_get (us_parts us') n = Some pm"
    and "io_bind (case B of None \<Rightarrow> io_return () | Some b \<Rightarrow> on_fs (remove_file_if_exists b))
          (\<lambda>_. io_return pm) \<lparr>ms_fs = s2, ms_sessions = ss\<rparr> = (r, st')"
  shows "part_state st' u n = (Some pm, Some body)"
proof -
  let ?P = "part_path u n"
  have "?P \<noteq> session_path u" "?P \<noteq> upload_dir u @ [''session.'' @ uuid @ ''.tmp'']"
    by (rule part_path_neq(1), rule upload_dir_paths)+
  then have P2: "files s2 ?P = Some body"
    using touchesD(1) [OF touches_persist_exact assms(1), of ?P] assms(2,3) by simp
  show ?thesis
  proof (cases B)
    case (Some b)
    obtain d s3 where d: "remove_file_if_exists b s2 = (d, s3)" by fastforce
    have "files s3 ?P = files s2 ?P"
      using touchesD(1) [OF touches_helpers(2) d, of ?P] Some assms(4) by simp
    with assms(5-7) P2 Some d show ?thesis
      by (auto simp: part_state_def io_simps on_fs_def split: result.splits)
  qed (use assms(5-7) P2 in \<open>auto simp: part_state_def io_simps\<close>)
qed

section \<open>Properties\<close>

text \<open>
  C24. Publishing a part is all or nothing. When at most one file-system call fails during
  \<open>commit_part\<close> (the upload's directories being in place, and part entries and part files
  agreeing before), then afterwards the session entry and the file of the part are either both
  the new ones, or, with an error, both the previous ones (or both absent).
\<close>

theorem commit_part_all_or_nothing:
  assumes "commit_part J bid uuid now u n T part st = (r, st')" "faults_left (ms_fs st) \<le> 1" "sessions_wf st"
    and "T \<in> session_files u" "T \<noteq> part_backup u bid n" "upload_ready (ms_fs st) u uuid"
    and "\<forall>us. j_session_encode J us \<noteq> None"
    and "fst (part_state st u n) = None \<longleftrightarrow> snd (part_state st u n) = None"
  shows "(\<exists>body. files (ms_fs st) T = Some body \<and>
      part_state st' u n = (Some (committed_entry now n part), Some body))
    \<or> (\<exists>e. r = Err e) \<and> part_state st' u n = part_state st u n"
proof (cases "closed st u")
  case True
  then show ?thesis
    using assms(1) get_open_closed by (auto simp: commit_part_def io_simps)
next
  case False
  then obtain us where us: "bt_get (ms_sessions st) u = Some us" "is_open us" by (auto simp: closed_def)
  with assms(3) have id: "us_upload_id us = u" by (auto simp: sessions_wf_def session_ok_id)
  let ?P = "part_path u n" and ?b = "part_backup u bid n" and ?prev = "bt_get (us_parts us) n"
  let ?us = "us\<lparr>us_parts := bt_insert n (committed_entry now n part) (us_parts us)\<rparr>"
  let ?B = "backup_of us u bid n"
  have B: "?B = None \<or> ?B = Some ?b" "?B = None \<longleftrightarrow> ?prev = None" "set_option ?B \<subseteq> session_files u"
    by (auto simp: backup_of_def)
  have ps: "part_state st u n = (?prev, files (ms_fs st) ?P)" using us by (simp add: part_state_def)
  obtain q s1 where p: "publish_part T ?P ?B (ms_fs st) = (q, s1)" by fastforce
  obtain w s2 where w: "persist_session J uuid ?us s1 = (w, s2)" by fastforce
  note run = commit_part_run [OF us p refl w] assms(1)
  from p assms(4,6) B(1) part_backup_session_file assms(5) [symmetric] show ?thesis
  proof (cases rule: publish_part_cases)
    case (err e)
    obtain d s3 where d: "discard_unpublished_part T ?B s1 = (d, s3)" by fastforce
    have "files s3 ?P = files s1 ?P"
      using touchesD(1) [OF touches_discard [OF assms(4) B(3)] d] by simp
    with run d err ps us show ?thesis by (simp add: part_state_def io_simps on_fs_def)
  next
    case (ok body)
    show ?thesis
    proof (cases w)
      case (Ok x)
      have "part_state st' u n = (Some (committed_entry now n part), Some body)"
        by (rule commit_part_persisted [OF w [unfolded Ok] _ ok(3) B(1),
            where ss = "bt_insert u ?us (ms_sessions st)" and r = r]) (use run ok(1) Ok id in simp_all)
      with ok(2) show ?thesis by blast
    next
      case (Err e)
      have "r = Err e \<and> part_state st' u n = (?prev, files (ms_fs st) ?P)"
      proof (rule commit_part_rollback [OF w [unfolded Err]])
        show "upload_ready s1 u uuid" using assms(6) ok(5) by (simp add: upload_ready_def)
        show "?B = None \<and> files (ms_fs st) ?P = None \<or> ?B = Some ?b \<and> files s1 ?b = files (ms_fs st) ?P
            \<and> files (ms_fs st) ?P \<noteq> None"
          using B ok(6) assms(8) ps by auto
      qed (use run ok Err id assms(2,7) in auto)
      with ps show ?thesis by simp
    qed
  qed
qed

text \<open>A re-upload of part 1 whose session write fails: the previous part comes back.\<close>

definition ex_reupload :: multipart where
  "ex_reupload = (ex_store (replicate 4 None @ [Some (''disk full'', 3)]))\<lparr>ms_fs :=
     (ms_fs (ex_store (replicate 4 None @ [Some (''disk full'', 3)])))\<lparr>fs_nodes :=
       bt_insert [''multipart'', ''U'', ''t''] (FileNode ''HELLO'') (fs_nodes (ms_fs (ex_store [])))\<rparr>\<rparr>"

theorem commit_part_all_or_nothing_witness:
  "\<exists>e st'. commit_part ex_done_codec ''b'' ''x'' 9 ''U'' 1 [''multipart'', ''U'', ''t'']
       \<lparr>ct_size = 5, ct_md5 = ''m'', ct_etag = ''n'', ct_checksums = []\<rparr> ex_reupload = (Err e, st')
     \<and> part_state st' ''U'' 1 = (Some (ex_part 1 ''hello''), Some ''hello'')"
proof -
  let ?T = "[''multipart'', ''U'', ''t'']"
  let ?c = "\<lparr>ct_size = 5, ct_md5 = ''m'', ct_etag = ''n'', ct_checksums = []\<rparr>"
  let ?run = "commit_part ex_done_codec ''b'' ''x'' 9 ''U'' 1 ?T ?c ex_reupload"
  have "fst ?run = Err (SE_Io (OtherIo ''disk full''))" by code_simp
  then have run: "?run = (Err (SE_Io (OtherIo ''disk full'')), snd ?run)" by (metis prod.collapse)
  have wf: "sessions_wf ex_reupload"
    using ex_store_wf by (simp add: sessions_wf_def ex_reupload_def)
  have ps: "part_state ex_reupload ''U'' 1 = (Some (ex_part 1 ''hello''), Some ''hello'')" by code_simp
  have new: "part_state (snd ?run) ''U'' 1 \<noteq> (Some (committed_entry 9 1 ?c), Some ''HELLO'')"
    "files (ms_fs ex_reupload) ?T = Some ''HELLO''"
    by code_simp+
  have "faults_left (ms_fs ex_reupload) \<le> 1" "upload_ready (ms_fs ex_reupload) ''U'' ''x''"
    "?T \<noteq> part_backup ''U'' ''b'' 1"
    by code_simp+
  moreover have "?T \<in> session_files ''U''" "\<forall>us. j_session_encode ex_done_codec us \<noteq> None"
    by (simp_all add: session_files_def upload_dir_def ex_done_codec_def ex_codec_def)
  ultimately have "part_state (snd ?run) ''U'' 1 = part_state ex_reupload ''U'' 1"
    using commit_part_all_or_nothing [OF run _ wf] ps new by auto
  with run ps show ?thesis by metis
qed

text \<open>
  Invariant and isolation of all runs. Along any sequence of store calls, with any faults
  and outcomes, every session stays indexed under its own identifier and every part under its
  own number; and an upload that no call of the sequence names keeps its session and all its
  files unchanged.
\<close>

lemma multipart_runs_isolated:
  assumes "mrun E J cs st st'" "sessions_wf st"
  shows "sessions_wf st' \<and> (\<forall>v. v \<notin> snd ` set cs \<longrightarrow>
    bt_get (ms_sessions st') v = bt_get (ms_sessions st) v
    \<and> (\<forall>p\<in>upload_files v. files (ms_fs st') p = files (ms_fs st) p))"
  using assms
proof (induction rule: mrun.induct)
  case (call k u e st st1 cs st')
  note wf = mcall_wf [OF call.hyps(1) call.prems]
  show ?case
    using call.IH [OF wf] mcall_frame [OF call.hyps(1) call.prems] by auto
qed simp

text \<open>A run: part 1 of upload \<open>U\<close> is staged, then \<open>U\<close> is aborted.\<close>

definition ex_run1 :: multipart where
  "ex_run1 = snd (create_temp_part ''t'' ''U'' 1 (ex_store []))"

definition ex_run2 :: multipart where
  "ex_run2 = snd (abort_upload ex_done_codec ''x'' ''U'' ex_run1)"

text \<open>
  C23. An upload is completed or aborted at most once. After a successful completion or abort
  the upload is closed, and in every later state, as long as no new upload is created under
  the same identifier, every call that names it fails with \<open>NoSuchUpload\<close> and changes
  neither the file system nor any session.
\<close>

theorem upload_finishes_once:
  assumes "mcall E J k u None st st1" "k = KComplete \<or> k = KAbort" "sessions_wf st"
    and "mrun E J cs st1 st2" "(KCreate, u) \<notin> set cs"
  shows "closed st2 u \<and> (\<forall>k' e st3. mcall E J k' u e st2 st3 \<longrightarrow> k' \<noteq> KCreate \<longrightarrow>
    e = Some SE_NoSuchUpload \<and> st3 = st2)"
proof -
  have "closed st2 u"
    using mrun_keeps_closed [OF assms(4) mcall_wf [OF assms(1,3)] finished_closed [OF assms(1,3,2)] assms(5)] .
  then show ?thesis using mcall_closed by blast
qed

theorem upload_finishes_once_witness:
  "closed ex_run2 ''U'' \<and> abort_upload ex_done_codec ''y'' ''U'' ex_run2 = (Err SE_NoSuchUpload, ex_run2)"
proof -
  have ok: "fst (abort_upload ex_done_codec ''x'' ''U'' ex_run1) = Ok ()" by code_simp
  have wf: "sessions_wf ex_run1"
    using mcall_wf [OF mcall.stages ex_store_wf] unfolding ex_run1_def by (metis prod.collapse)
  have "mcall ext0 ex_done_codec KAbort ''U'' None ex_run1 ex_run2"
    using mcall.aborts [of ex_done_codec "''x''" "''U''" ex_run1 "Ok ()" ex_run2 ext0] ok
    unfolding ex_run2_def by (metis outcome.simps(1) prod.collapse)
  note F = upload_finishes_once [OF this _ wf mrun.stop]
  have "mcall ext0 ex_done_codec KAbort ''U'' (outcome (fst (abort_upload ex_done_codec ''y'' ''U'' ex_run2))) ex_run2
      (snd (abort_upload ex_done_codec ''y'' ''U'' ex_run2))"
    by (rule mcall.aborts) (rule prod.collapse [symmetric])
  with F have "outcome (fst (abort_upload ex_done_codec ''y'' ''U'' ex_run2)) = Some SE_NoSuchUpload"
    "snd (abort_upload ex_done_codec ''y'' ''U'' ex_run2) = ex_run2" by auto
  moreover have "outcome r = Some e \<Longrightarrow> r = Err e" for r :: "(unit, store_error) result" and e
    by (cases r) auto
  ultimately show ?thesis using F by (auto simp: prod_eq_iff)
qed

text \<open>
  Refused commits leave the temporary file. \<open>commit_part\<close> disarms the clean-up of the
  temporary part before it looks the upload up: when the upload is missing or no longer open
  (for instance because it was completed while the part was being received), the call fails
  with \<open>NoSuchUpload\<close> and the file with the received bytes stays in the upload directory.
\<close>

lemma refused_commit_leaks_temp_file:
  assumes "closed st u"
  shows "commit_part J bid uuid now u n T part st = (Err SE_NoSuchUpload, st)
    \<and> (\<forall>body. files (ms_fs st) T = Some body \<longrightarrow>
         files (ms_fs (snd (commit_part J bid uuid now u n T part st))) T = Some body)"
  using get_open_closed [OF assms] by (simp add: commit_part_def io_simps)

end
