(* ===== verification/Multipart_Startup.thy ===== *)
theory Multipart_Startup
  imports Multipart_Props
begin

text \<open>
  Recovery of the multipart store at startup: which sessions are loaded and which upload
  directories are removed.
\<close>

section \<open>Loading only removes files\<close>

definition only_removes :: "fs \<Rightarrow> fs \<Rightarrow> bool" where
  "only_removes s s' \<longleftrightarrow> (\<forall>p b. files s' p = Some b \<longrightarrow> files s p = Some b)"

lemma only_removes_refl [simp]: "fs_nodes s' = fs_nodes s \<Longrightarrow> only_removes s s'"
  by (simp add: only_removes_def)

lemma only_removes_trans: "only_removes s s1 \<Longrightarrow> only_removes s1 s2 \<Longrightarrow> only_removes s s2"
  by (simp add: only_removes_def)

lemma remove_dir_all_only_removes: "fs_remove_dir_all d s = (r, s') \<Longrightarrow> only_removes s s'"
  unfolding fs_remove_dir_all_def
  by (erule faulty_cases)
    (auto simp: only_removes_def remove_dir_all_i_def file_at_filter Let_def split: if_splits dest!: sym [of "filter _ _"])

lemma fs_read_only_removes: "fs_read p s = (r, s') \<Longrightarrow> fs_nodes s' = fs_nodes s"
  unfolding fs_read_def
  by (erule faulty_cases) (auto simp: read_i_def split: option.splits node.splits)

lemma remove_file_only:
  assumes "remove_file_if_exists p s = (r, s')"
  shows "files s' q = files s q \<or> q = p \<and> files s' q = None"
proof (cases "q = p")
  case False
  with touchesD(1) [OF touches_helpers(2) assms, of q] show ?thesis by simp
next
  case True
  obtain x where "fs_remove_file p s = (x, s')"
    using assms by (auto simp: remove_file_if_exists_def io_simps split: prod.splits result.splits io_error.splits)
  then show ?thesis
    using True unfolding fs_remove_file_def
    by (cases rule: faulty_cases)
      (auto simp: remove_file_i_def file_at_def split: option.splits node.splits if_splits dest!: sym [of "bt_remove _ _"])
qed

section \<open>Loaded sessions\<close>

text \<open>A session that may be loaded: open, not expired, and decoded from its file.\<close>

definition loadable :: "codec \<Rightarrow> multipart_lifecycle \<Rightarrow> timestamp \<Rightarrow> fs \<Rightarrow> upload_session \<Rightarrow> bool" where
  "loadable J lc now s us \<longleftrightarrow> is_open us \<and> \<not> incomplete_upload_is_expired lc now us
     \<and> (\<exists>name json. files s [''multipart'', name, ''session.json''] = Some json \<and> j_session_decode J json = Some us)"

definition loaded :: "codec \<Rightarrow> multipart_lifecycle \<Rightarrow> timestamp \<Rightarrow> fs \<Rightarrow> multipart \<Rightarrow> bool" where
  "loaded J lc now s st \<longleftrightarrow> only_removes s (ms_fs st)
     \<and> (\<forall>u us. bt_get (ms_sessions st) u = Some us \<longrightarrow> us_upload_id us = u \<and> loadable J lc now s us)"

text \<open>
  Loading one directory entry: it is skipped, its upload directory is removed, or its session is
  put into the table.
\<close>

lemma load_session_cases:
  assumes "load_session J lc now (name, dir) st = (r, st')"
  obtains (skipped) "fs_nodes (ms_fs st') = fs_nodes (ms_fs st)" "ms_sessions st' = ms_sessions st"
      "r = Ok () \<Longrightarrow> dir \<Longrightarrow> files (ms_fs st) [''multipart'', name, ''session.json''] = None"
  | (removed) json us s1 q where "files (ms_fs st) [''multipart'', name, ''session.json''] = Some json"
      "j_session_decode J json = Some us" "\<not> is_open us \<or> incomplete_upload_is_expired lc now us"
      "fs_nodes s1 = fs_nodes (ms_fs st)" "ms_sessions st' = ms_sessions st"
      "ms_fs st' = s1 \<or> fs_remove_dir_all [''multipart'', name] s1 = (q, ms_fs st')"
  | (kept) json us where "files (ms_fs st) [''multipart'', name, ''session.json''] = Some json"
      "j_session_decode J json = Some us" "is_open us" "\<not> incomplete_upload_is_expired lc now us" "r = Ok ()"
      "fs_nodes (ms_fs st') = fs_nodes (ms_fs st)"
      "ms_sessions st' = bt_insert (us_upload_id us) us (ms_sessions st)"
proof (cases dir)
  case False
  with assms show thesis by (intro skipped) (auto simp: load_session_def io_return_def)
next
  case True
  let ?d = "[''multipart'', name]" and ?p = "[''multipart'', name, ''session.json'']"
  obtain q s1 where q: "fs_read ?p (ms_fs st) = (q, s1)" by fastforce
  have n: "fs_nodes s1 = fs_nodes (ms_fs st)" by (rule fs_read_only_removes [OF q])
  show thesis
  proof (cases q)
    case (Err e)
    have none: "files (ms_fs st) ?p = None" if "e = NotFound"
      using q Err that unfolding fs_read_def
      by (cases rule: faulty_cases) (auto simp: read_i_def file_at_def split: option.splits node.splits)
    from Err assms True q n show thesis
      by (intro skipped)
        (auto simp: load_session_def io_simps on_fs_def split: io_error.splits dest!: none)
  next
    case (Ok json)
    then have f: "files (ms_fs st) ?p = Some json" using fs_read_Ok q by blast
    show thesis
    proof (cases "j_session_decode J json")
      case None
      with assms True q Ok n show thesis
        by (intro skipped) (auto simp: load_session_def io_simps on_fs_def)
    next
      case (Some us)
      obtain d s2 where d: "fs_remove_dir_all ?d s1 = (d, s2)" by fastforce
      note run = assms [unfolded load_session_def] True q Ok Some d
      show thesis
      proof (cases "is_open us \<and> \<not> incomplete_upload_is_expired lc now us")
        case True
        with run n show thesis
          by (intro kept [OF f Some]) (auto simp: io_simps on_fs_def put_session_def)
      next
        case False
        with run have "ms_sessions st' = ms_sessions st \<and> (ms_fs st' = s1 \<or> ms_fs st' = s2)"
          by (auto simp: io_simps on_fs_def remove_upload_dir_on_startup_def split: if_splits)
        with False f Some n d show thesis by (intro removed [OF f Some _ n, of d]) auto
      qed
    qed
  qed
qed

lemma load_session_loaded:
  assumes "load_session J lc now (name, dir) st = (r, st')" "loaded J lc now s st"
  shows "loaded J lc now s st'"
  using assms(1)
proof (cases rule: load_session_cases)
  case skipped
  with assms(2) show ?thesis by (auto simp: loaded_def only_removes_def)
next
  case (removed json us s1 q)
  then have "only_removes (ms_fs st) (ms_fs st')"
    using remove_dir_all_only_removes by (fastforce simp: only_removes_def)
  with removed(5) assms(2) show ?thesis by (auto simp: loaded_def intro: only_removes_trans)
next
  case (kept json us)
  with assms(2) have "loadable J lc now s us" by (auto simp: loadable_def loaded_def only_removes_def)
  with kept assms(2) show ?thesis by (auto simp: loaded_def only_removes_def split: if_splits)
qed

lemma load_all_loaded:
  "io_for (load_session J lc now) es st = (r, st') \<Longrightarrow> loaded J lc now s st \<Longrightarrow> loaded J lc now s st'"
proof (induction es arbitrary: st)
  case (Cons e es)
  obtain q st1 where q: "load_session J lc now e st = (q, st1)" by fastforce
  with Cons.prems have "loaded J lc now s st1" by (cases e) (auto intro: load_session_loaded)
  with Cons q show ?case by (cases q) (auto simp: io_simps)
qed (simp add: io_return_def)

lemma new_loaded:
  assumes "FileMultipartStore_new J lc now st = (r, st')"
  shows "(\<forall>u us. bt_get (ms_sessions st') u = Some us \<longrightarrow>
      us_upload_id us = u \<and> loadable J lc now (ms_fs st) us)
    \<or> ms_sessions st' = ms_sessions st \<and> (\<exists>e. r = Err e)"
proof -
  obtain q s1 where c: "se_io (fs_create_dir_all [''multipart'']) (ms_fs st) = (q, s1)" by fastforce
  have same: "files s1 = files (ms_fs st)"
    using touchesD(1) [OF touches_map_err [OF touches_calls(1)] c, of _ "{}"] by (simp add: fun_eq_iff)
  let ?st1 = "st\<lparr>ms_fs := s1, ms_sessions := bt_empty\<rparr>"
  have L1: "loaded J lc now (ms_fs st) ?st1" by (simp add: loaded_def only_removes_def same)
  show ?thesis
  proof (cases q)
    case (Err e)
    with assms c show ?thesis by (auto simp: FileMultipartStore_new_def io_simps on_fs_def)
  next
    case (Ok x)
    obtain es s2 where rd: "se_io (fs_read_dir [''multipart'']) s1 = (es, s2)" by fastforce
    have "files s2 = files s1"
      using touchesD(1) [OF touches_map_err [OF touches_calls(9)] rd, of _ "{}"] by (simp add: fun_eq_iff)
    with same have L2: "loaded J lc now (ms_fs st) (?st1\<lparr>ms_fs := s2\<rparr>)"
      by (simp add: loaded_def only_removes_def)
    show ?thesis
    proof (cases es)
      case (Err e)
      with assms c rd Ok L2 show ?thesis
        by (auto simp: FileMultipartStore_new_def load_sessions_def io_simps on_fs_def)
    next
      case (Ok l)
      obtain w st2 where w: "io_for (load_session J lc now) l (?st1\<lparr>ms_fs := s2\<rparr>) = (w, st2)" by fastforce
      note L3 = load_all_loaded [OF w L2]
      obtain x s3 where cl: "multipart_cleanup_stale_temp_files (ms_fs st2) = (x, s3)" by fastforce
      have "st' = st2 \<or> st' = st2\<lparr>ms_fs := s3\<rparr>"
        using assms c rd Ok \<open>q = _\<close> w cl
        by (cases w) (auto simp: FileMultipartStore_new_def load_sessions_def io_simps on_fs_def split: if_splits)
      with L3 show ?thesis by (auto simp: loaded_def)
    qed
  qed
qed

section \<open>Properties\<close>

text \<open>
  After a restart only live sessions exist. Whatever the directory tree and the faults,
  when opening the store succeeds then every session it holds is open, within the configured
  age, kept under its own identifier, and was decoded from a \<open>session.json\<close> that was there
  before.
\<close>

lemma startup_loads_live_sessions:
  assumes "FileMultipartStore_new J lc now st = (Ok (), st')" "bt_get (ms_sessions st') u = Some us"
  shows "us_upload_id us = u \<and> is_open us \<and> \<not> incomplete_upload_is_expired lc now us
    \<and> (\<exists>name json. files (ms_fs st) [''multipart'', name, ''session.json''] = Some json
         \<and> j_session_decode J json = Some us)"
  using new_loaded [OF assms(1)] assms(2) by (auto simp: loadable_def)

definition ex_restart_codec :: codec where
  "ex_restart_codec = ex_codec\<lparr>j_session_decode := (\<lambda>json.
     if json = ''open'' then Some ex_session
     else if json = ''completing'' then Some (ex_session\<lparr>us_state := Completing\<rparr>) else None)\<rparr>"

definition ex_tree :: "bytes \<Rightarrow> multipart" where
  "ex_tree json = (ex_store [])\<lparr>ms_sessions := [], ms_fs := \<lparr>fs_nodes =
     bt_insert (session_path ''U'') (FileNode json) (fs_nodes (ms_fs (ex_store []))), fs_faults = []\<rparr>\<rparr>"

text \<open>
  C40. A completion that a crash interrupts costs the upload. An upload whose persisted state is
  not open (\<open>Completing\<close> counts as such, it is written before the object is assembled) is not
  loaded at startup, and with the default clean-up its directory is removed with all its part
  files, although no object need have been published.
\<close>

theorem startup_discards_interrupted_completion:
  assumes "files (ms_fs st) [''multipart'', name, ''session.json''] = Some json"
    and "j_session_decode J json = Some us" "us_state us = Completing" "faults_left (ms_fs st) = 0"
    and "lc_cleanup_on_startup lc" "lc_remove_terminal_uploads_on_startup lc"
    and "dir_in (ms_fs st) [''multipart'', name]"
  shows "\<exists>st'. load_session J lc now (name, True) st = (Ok (), st') \<and> ms_sessions st' = ms_sessions st
    \<and> (\<forall>rest. files (ms_fs st') ([''multipart'', name] @ rest) = None)"
proof -
  let ?d = "[''multipart'', name]" and ?p = "[''multipart'', name, ''session.json'']"
  obtain q s1 where q: "fs_read ?p (ms_fs st) = (q, s1)" by fastforce
  from faulty_no_faults [OF assms(4) q [unfolded fs_read_def]] assms(1)
  have s1: "q = Ok json" "fs_nodes s1 = fs_nodes (ms_fs st)" "faults_left s1 = 0"
    by (auto simp: read_i_def file_at_Some)
  obtain d s2 where d: "fs_remove_dir_all ?d s1 = (d, s2)" by fastforce
  from faulty_no_faults [OF s1(3) d [unfolded fs_remove_dir_all_def]] assms(7) s1(2) have "d = Ok ()"
    by (simp add: remove_dir_all_i_def)
  with fs_remove_dir_all_files [OF d] have "files s2 (?d @ rest) = None" for rest
    by (simp add: under_def)
  moreover have "load_session J lc now (name, True) st = (Ok (), st\<lparr>ms_fs := s2\<rparr>)"
    using q s1(1) assms(2,3,5,6) d
    by (simp add: load_session_def io_simps on_fs_def is_open_def remove_upload_dir_on_startup_def)
  ultimately show ?thesis by simp
qed

theorem startup_discards_interrupted_completion_witness:
  "\<exists>st'. load_session ex_restart_codec MultipartLifecycle_default 0 (''U'', True) (ex_tree ''completing'') = (Ok (), st')
     \<and> files (ms_fs (ex_tree ''completing'')) (part_path ''U'' 1) = Some ''hello''
     \<and> files (ms_fs st') (part_path ''U'' 1) = None"
proof -
  have f: "files (ms_fs (ex_tree ''completing'')) [''multipart'', ''U'', ''session.json''] = Some ''completing''"
    "files (ms_fs (ex_tree ''completing'')) (part_path ''U'' 1) = Some ''hello''"
    "faults_left (ms_fs (ex_tree ''completing'')) = 0" "dir_in (ms_fs (ex_tree ''completing'')) [''multipart'', ''U'']"
    by code_simp+
  have c: "j_session_decode ex_restart_codec ''completing'' = Some (ex_session\<lparr>us_state := Completing\<rparr>)"
    by (simp add: ex_restart_codec_def)
  have p: "part_path ''U'' 1 = [''multipart'', ''U''] @ [''parts'', ''00001.part'']" by code_simp
  show ?thesis
    using startup_discards_interrupted_completion [OF f(1) c _ f(3) _ _ f(4), of MultipartLifecycle_default 0] f(2)
    unfolding p by (auto simp: MultipartLifecycle_default_def)
qed

end
