(* ===== verification/S3_Hooks.thy ===== *)
theory S3_Hooks
  imports S3_Target S3_Config Upload_State
begin

text \<open>
  The data of \<open>src/hooks.rs\<close>: principals, tenant identifiers, the contexts handed to
  application hooks, tenant leases and outcomes, header redaction. The hooks themselves are
  application code; the request pipeline takes them as functions.
\<close>

section \<open>Principals and tenants\<close>

datatype request_principal =
    RP_Anonymous
  | RP_AccessKey (rp_access_key_id: access_key_id)
  | RP_Custom (rp_id: string)

type_synonym tenant_id = string

datatype tenant_id_error = TI_Empty | TI_TooLong nat | TI_ControlCharacter

definition MAX_TENANT_ID_LEN :: nat where
  "MAX_TENANT_ID_LEN = 256"

fun RequestPrincipal_display :: "request_principal \<Rightarrow> string" where
  "RequestPrincipal_display RP_Anonymous = ''anonymous''"
| "RequestPrincipal_display (RP_AccessKey i) = i"
| "RequestPrincipal_display (RP_Custom i) = i"

text \<open>
  \<open>char::is_control\<close> on UTF-8 text: the C0 controls and DEL are one byte, the C1 controls
  \<open>U+0080\<close> to \<open>U+009F\<close> are \<open>C2\<close> followed by the code point itself.
\<close>

fun has_control_char :: "string \<Rightarrow> bool" where
  "has_control_char [] = False"
| "has_control_char [a] = is_ascii_control a"
| "has_control_char (a # b # s) =
     (is_ascii_control a \<or> (code_of a = 0xC2 \<and> byte_in 0x80 0x9F b) \<or> has_control_char (b # s))"

definition validate_tenant_id :: "string \<Rightarrow> (unit, tenant_id_error) result" where
  "validate_tenant_id v =
     and_then (ensure (v \<noteq> []) TI_Empty) (\<lambda>_.
     and_then (ensure (length v \<le> MAX_TENANT_ID_LEN) (TI_TooLong MAX_TENANT_ID_LEN)) (\<lambda>_.
     ensure (\<not> has_control_char v) TI_ControlCharacter))"

definition TenantId_parse :: "string \<Rightarrow> (tenant_id, tenant_id_error) result" where
  "TenantId_parse v = and_then (validate_tenant_id v) (\<lambda>_. Ok v)"

fun TenantId_from_principal :: "request_principal \<Rightarrow> (tenant_id, tenant_id_error) result" where
  "TenantId_from_principal RP_Anonymous = TenantId_parse ''anonymous''"
| "TenantId_from_principal (RP_AccessKey i) = TenantId_parse i"
| "TenantId_from_principal (RP_Custom i) = TenantId_parse i"

fun TenantId_from :: "request_principal \<Rightarrow> tenant_id" where
  "TenantId_from RP_Anonymous = ''anonymous''"
| "TenantId_from (RP_AccessKey i) = i"
| "TenantId_from (RP_Custom i) = i"

fun TenantIdError_display :: "tenant_id_error \<Rightarrow> string" where
  "TenantIdError_display TI_Empty = ''tenant ID must not be empty''"
| "TenantIdError_display (TI_TooLong n) = ''tenant ID must be at most '' @ show_nat n @ '' bytes''"
| "TenantIdError_display TI_ControlCharacter = ''tenant ID must not contain control characters''"

section \<open>Results of a custom authentication provider\<close>

record authentication_result =
  ar_principal :: request_principal
  ar_access_key_id :: "access_key_id option"

definition AuthenticationResult_anonymous :: authentication_result where
  "AuthenticationResult_anonymous = \<lparr>ar_principal = RP_Anonymous, ar_access_key_id = None\<rparr>"

definition AuthenticationResult_access_key :: "access_key_id \<Rightarrow> authentication_result" where
  "AuthenticationResult_access_key i =
     \<lparr>ar_principal = RP_AccessKey i, ar_access_key_id = Some i\<rparr>"

definition AuthenticationResult_custom :: "string \<Rightarrow> authentication_result" where
  "AuthenticationResult_custom i = \<lparr>ar_principal = RP_Custom i, ar_access_key_id = None\<rparr>"

definition AuthenticationResult_try_custom ::
  "string \<Rightarrow> (authentication_result, tenant_id_error) result" where
  "AuthenticationResult_try_custom i =
     and_then (TenantId_parse i) (\<lambda>tenant. Ok (AuthenticationResult_custom tenant))"

section \<open>Header redaction\<close>

definition REDACTED_HEADERS :: "string list" where
  "REDACTED_HEADERS =
     [''authorization'', ''proxy-authorization'', ''x-api-key'', ''x-auth-token'',
      ''x-amz-security-token'', ''x-amz-server-side-encryption-customer-key'',
      ''x-amz-server-side-encryption-customer-key-md5'',
      ''x-amz-server-side-encryption-context'']"

definition redact_header :: "string \<Rightarrow> headers \<Rightarrow> headers" where
  "redact_header n hs = (if hdr_contains hs n then hdr_insert n ''<redacted>'' hs else hs)"

definition redacted_headers :: "headers \<Rightarrow> headers" where
  "redacted_headers hs = fold redact_header REDACTED_HEADERS hs"

section \<open>Contexts, leases and outcomes\<close>

record s3_request_context =
  rc_request_id :: string
  rc_method :: string
  rc_operation :: string
  rc_bucket :: "bucket_name option"
  rc_key :: "object_key option"
  rc_upload_id :: "upload_id option"
  rc_part_number :: "part_number option"
  rc_content_length :: "nat option"

record s3_error_context =
  ec_request_id :: string
  ec_operation :: string

record s3_response_context =
  xc_request_id :: string
  xc_operation :: string
  xc_bucket :: "bucket_name option"
  xc_key :: "object_key option"

record authorization_context =
  zc_principal :: request_principal
  zc_bucket :: bucket_name
  zc_key :: "object_key option"
  zc_action :: s3_action

record operation_context =
  oc_operation :: s3_operation
  oc_action :: s3_action

record target_context =
  gc_bucket :: bucket_name
  gc_key :: "object_key option"
  gc_action :: s3_action

record upload_policy_context =
  uc_request_id :: string
  uc_bucket :: bucket_name
  uc_key :: object_key
  uc_action :: s3_action
  uc_headers :: headers

text \<open>An \<open>http::Uri\<close>, as far as the endpoint reads it.\<close>

record uri =
  uri_path :: string
  uri_query :: "string option"

record authentication_request =
  aq_method :: string
  aq_uri :: uri
  aq_headers :: headers

record tenant_limit_context =
  tc_request_id :: string
  tc_tenant :: tenant_id
  tc_principal :: request_principal
  tc_method :: string
  tc_operation :: s3_operation
  tc_action :: s3_action
  tc_bucket :: "bucket_name option"
  tc_key :: "object_key option"
  tc_upload_id :: "upload_id option"
  tc_part_number :: "part_number option"
  tc_content_length :: "nat option"

record tenant_operation_outcome =
  to_status :: nat
  to_timed_out :: bool
  to_error_code :: "string option"
  to_error_message :: "string option"
  to_decoded_bytes :: "nat option"

definition TenantOperationOutcome_success :: "nat \<Rightarrow> nat option \<Rightarrow> tenant_operation_outcome" where
  "TenantOperationOutcome_success status decoded =
     \<lparr>to_status = status, to_timed_out = False, to_error_code = None, to_error_message = None,
      to_decoded_bytes = decoded\<rparr>"

definition TenantOperationOutcome_error :: "s3_error \<Rightarrow> nat option \<Rightarrow> tenant_operation_outcome" where
  "TenantOperationOutcome_error e decoded =
     \<lparr>to_status = err_status e, to_timed_out = False, to_error_code = Some (err_code e),
      to_error_message = Some (err_message e), to_decoded_bytes = decoded\<rparr>"

definition TenantOperationOutcome_timed_out :: "s3_error \<Rightarrow> tenant_operation_outcome" where
  "TenantOperationOutcome_timed_out e =
     \<lparr>to_status = err_status e, to_timed_out = True, to_error_code = Some (err_code e),
      to_error_message = Some (err_message e), to_decoded_bytes = None\<rparr>"

text \<open>A lease: the timeout (in nanoseconds) and whether an application permit is held.\<close>

record tenant_operation_lease =
  tl_timeout :: "nat option"
  tl_permit :: bool

definition TenantOperationLease_new :: tenant_operation_lease where
  "TenantOperationLease_new = \<lparr>tl_timeout = None, tl_permit = False\<rparr>"

definition TenantOperationLease_timeout ::
  "nat \<Rightarrow> tenant_operation_lease \<Rightarrow> tenant_operation_lease" where
  "TenantOperationLease_timeout t l = l\<lparr>tl_timeout := Some t\<rparr>"

definition TenantOperationLease_with_timeout :: "nat \<Rightarrow> tenant_operation_lease" where
  "TenantOperationLease_with_timeout t = TenantOperationLease_timeout t TenantOperationLease_new"

definition TenantOperationLease_permit :: "tenant_operation_lease \<Rightarrow> tenant_operation_lease" where
  "TenantOperationLease_permit l = l\<lparr>tl_permit := True\<rparr>"

definition Noop_begin_operation :: "tenant_limit_context \<Rightarrow> tenant_operation_lease s3res" where
  "Noop_begin_operation ctx = Ok TenantOperationLease_new"

section \<open>Properties\<close>

lemma validate_tenant_id_Ok [res_simps]:
  "validate_tenant_id v = Ok u \<longleftrightarrow> v \<noteq> [] \<and> length v \<le> 256 \<and> \<not> has_control_char v"
  by (simp add: validate_tenant_id_def MAX_TENANT_ID_LEN_def res_simps)

lemma TenantId_parse_Ok [res_simps]:
  "TenantId_parse v = Ok t \<longleftrightarrow> t = v \<and> v \<noteq> [] \<and> length v \<le> 256 \<and> \<not> has_control_char v"
  by (auto simp: TenantId_parse_def res_simps)

lemma TenantId_from_principal_parse:
  "TenantId_from_principal p = TenantId_parse (RequestPrincipal_display p)"
  by (cases p) simp_all

text \<open>
  The tenant of a request is the displayed principal, and it exists exactly when that text
  is not empty, has at most 256 bytes and no control character; an anonymous request always
  has one. Two principals share a tenant exactly when they are displayed alike.
\<close>

lemma tenant_ids_exact:
  "(TenantId_from_principal p = Ok t \<longleftrightarrow>
      t = RequestPrincipal_display p \<and> t \<noteq> [] \<and> length t \<le> 256 \<and> \<not> has_control_char t)
   \<and> TenantId_from_principal RP_Anonymous = Ok ''anonymous''
   \<and> (TenantId_from_principal p = TenantId_from_principal q \<and> is_ok (TenantId_from_principal p)
      \<longleftrightarrow> TenantId_from_principal p = Ok (RequestPrincipal_display q))"
proof -
  have "TenantId_from_principal RP_Anonymous = Ok ''anonymous''"
    by (simp add: TenantId_from_principal_parse res_simps is_ascii_control_def)
  moreover have "TenantId_parse a = TenantId_parse b \<and> (\<exists>c. TenantId_parse a = Ok c)
      \<longleftrightarrow> TenantId_parse a = Ok b" for a b
    by (metis TenantId_parse_Ok)
  ultimately show ?thesis
    unfolding TenantId_from_principal_parse is_ok_iff
    by (intro conjI) (auto simp: TenantId_parse_Ok)
qed

lemma hdr_get_all_redact:
  "hdr_get_all (redact_header m hs) n =
     (if n = m \<and> hdr_contains hs m then [''<redacted>''] else hdr_get_all hs n)"
proof (cases "n = m")
  case False
  then have "hdr_get_all (hdr_insert m v hs) n = hdr_get_all hs n" for v
    by (simp add: hdr_get_all_def hdr_insert_def) (metis (no_types, lifting))
  with False show ?thesis by (simp add: redact_header_def)
qed (simp add: redact_header_def)

lemma hdr_contains_redact [simp]: "hdr_contains (redact_header m hs) n \<longleftrightarrow> hdr_contains hs n"
  by (auto simp: hdr_contains_get_all hdr_get_all_redact)

lemma hdr_get_all_fold_redact:
  "hdr_get_all (fold redact_header ms hs) n =
     (if n \<in> set ms \<and> hdr_contains hs n then [''<redacted>''] else hdr_get_all hs n)"
  by (induction ms arbitrary: hs) (auto simp: hdr_get_all_redact)

text \<open>
  Redaction leaves no value of a credential header: each of the eight names that is present
  has the single value \<open><redacted>\<close> afterwards, and every other name keeps all its values in
  order.
\<close>

lemma redaction_exact:
  "hdr_get_all (redacted_headers hs) n =
     (if n \<in> set REDACTED_HEADERS \<and> hdr_contains hs n then [''<redacted>''] else hdr_get_all hs n)"
  by (simp add: redacted_headers_def hdr_get_all_fold_redact)

end
