(* ===== verification/S3_Auth.thy ===== *)
theory S3_Auth
  imports S3_Hooks Aws_Chunked "HOL-Library.Product_Lexorder"
begin

text \<open>
  SigV4 authentication and authorization (\<open>src/auth.rs\<close>), one definition per function.

  The clock \<open>Utc::now()\<close>, read once per request, is the argument \<open>now\<close> (nanoseconds since
  the epoch). Two chrono operations of this file panic on values out of range, so the
  functions above them return \<open>Fail e\<close> for an error value and \<open>Panic\<close> for a panic.
\<close>

section \<open>Panics\<close>

datatype 'e fail = Fail 'e | Panic

abbreviation lift_err :: "('a, 'e) result \<Rightarrow> ('a, 'e fail) result" where
  "lift_err \<equiv> map_err Fail"

definition or_panic :: "'a option \<Rightarrow> ('a, 'e fail) result" where
  "or_panic = ok_or Panic"

section \<open>Data\<close>

datatype auth_error =
    AE_UnsupportedAlgorithm
  | AE_MalformedAuthorization
  | AE_MissingAuthorizationField string
  | AE_DuplicateAuthorizationField string
  | AE_InvalidCredentialScope
  | AE_UnknownAccessKey
  | AE_InactiveAccessKey
  | AE_RegionMismatch
  | AE_CredentialDateMismatch
  | AE_InvalidTimestamp
  | AE_RequestTimeTooSkewed
  | AE_ExpiredPresignedUrl
  | AE_InvalidSessionToken
  | AE_MissingSignedHeader string
  | AE_InvalidSignedHeaders
  | AE_MissingPresignedField string
  | AE_DuplicatePresignedField string
  | AE_InvalidExpires
  | AE_InvalidQueryEncoding
  | AE_InvalidHeaderValue string
  | AE_InvalidPayloadHashMode
  | AE_DuplicateHeader string
  | AE_SignatureMismatch
  | AE_InvalidSignature
  | AE_Crypto

type_synonym 'a ares = "('a, auth_error) result"

fun auth_error_display :: "auth_error \<Rightarrow> string" where
  "auth_error_display AE_UnsupportedAlgorithm = ''unsupported authorization algorithm''"
| "auth_error_display AE_MalformedAuthorization = ''malformed authorization header''"
| "auth_error_display (AE_MissingAuthorizationField f) = ''authorization header is missing '' @ f"
| "auth_error_display (AE_DuplicateAuthorizationField f) =
     ''authorization header field '' @ f @ '' must not appear more than once''"
| "auth_error_display AE_InvalidCredentialScope = ''invalid credential scope''"
| "auth_error_display AE_UnknownAccessKey = ''unknown access key''"
| "auth_error_display AE_InactiveAccessKey = ''inactive access key''"
| "auth_error_display AE_RegionMismatch = ''credential region is not configured''"
| "auth_error_display AE_CredentialDateMismatch = ''credential date does not match x-amz-date''"
| "auth_error_display AE_InvalidTimestamp = ''request timestamp is invalid''"
| "auth_error_display AE_RequestTimeTooSkewed = ''request time is too skewed''"
| "auth_error_display AE_ExpiredPresignedUrl = ''presigned URL has expired''"
| "auth_error_display AE_InvalidSessionToken = ''session token is missing or invalid''"
| "auth_error_display (AE_MissingSignedHeader h) = ''missing signed header '' @ h"
| "auth_error_display AE_InvalidSignedHeaders = ''signed headers are invalid''"
| "auth_error_display (AE_MissingPresignedField f) = ''presigned URL is missing '' @ f"
| "auth_error_display (AE_DuplicatePresignedField f) =
     ''presigned URL field '' @ f @ '' must not appear more than once''"
| "auth_error_display AE_InvalidExpires = ''presigned URL expiration is invalid''"
| "auth_error_display AE_InvalidQueryEncoding =
     ''query string contains invalid percent-encoded UTF-8''"
| "auth_error_display (AE_InvalidHeaderValue h) = ''invalid signed header value for '' @ h"
| "auth_error_display AE_InvalidPayloadHashMode =
     ''unsupported x-amz-content-sha256 payload mode''"
| "auth_error_display (AE_DuplicateHeader h) = h @ '' must not appear more than once''"
| "auth_error_display AE_SignatureMismatch = ''signature mismatch''"
| "auth_error_display AE_InvalidSignature = ''signature must be lowercase 64-character hex''"
| "auth_error_display AE_Crypto = ''failed to compute authentication HMAC''"

fun map_auth_error :: "auth_error \<Rightarrow> s3_error" where
  "map_auth_error AE_SignatureMismatch = signature_does_not_match"
| "map_auth_error AE_Crypto = internal_error ''failed to compute authentication HMAC''"
| "map_auth_error AE_RequestTimeTooSkewed = request_time_too_skewed"
| "map_auth_error AE_ExpiredPresignedUrl = access_denied ''Request has expired''"
| "map_auth_error AE_InvalidCredentialScope =
     authorization_header_malformed (auth_error_display AE_InvalidCredentialScope)"
| "map_auth_error AE_RegionMismatch =
     authorization_header_malformed (auth_error_display AE_RegionMismatch)"
| "map_auth_error AE_CredentialDateMismatch =
     authorization_header_malformed (auth_error_display AE_CredentialDateMismatch)"
| "map_auth_error other = access_denied (auth_error_display other)"

datatype auth_mode = AM_HeaderSigV4 | AM_PresignedUrl | AM_Anonymous | AM_Custom

record auth_context =
  ax_mode :: auth_mode
  ax_principal :: request_principal
  ax_access_key_id :: "access_key_id option"
  ax_streaming_signing :: "signing_context option"

record header_auth =
  ha_access_key_id :: access_key_id
  ha_streaming_signing :: signing_context

datatype canonical_query_mode = CQ_IncludeAll | CQ_ExcludePresignedSignature

datatype payload_hash_source = PS_Header | PS_UnsignedPayload

record parsed_authorization =
  pa_credential :: string
  pa_signed_headers :: string
  pa_signature :: string

record credential_scope =
  crs_access_key_id :: string
  crs_date :: string
  crs_region :: string
  crs_service :: string
  crs_terminal :: string

definition PRESIGNED_AUTH_FIELDS :: "string list" where
  "PRESIGNED_AUTH_FIELDS =
     [''X-Amz-Algorithm'', ''X-Amz-Credential'', ''X-Amz-Date'', ''X-Amz-Expires'',
      ''X-Amz-SignedHeaders'', ''X-Amz-Signature'', ''X-Amz-Security-Token'']"

section \<open>Parsing the Authorization header and the credential scope\<close>

definition validate_signature :: "string \<Rightarrow> unit ares" where
  "validate_signature v = ensure (length v = 64 \<and> list_all is_lower_hex v) AE_InvalidSignature"

definition required_field :: "(string, string) btmap \<Rightarrow> string \<Rightarrow> string ares" where
  "required_field fs name = ok_or (AE_MissingAuthorizationField name) (bt_get fs name)"

fun authorization_fields ::
  "string list \<Rightarrow> (string, string) btmap \<Rightarrow> (string, string) btmap ares" where
  "authorization_fields [] fs = Ok fs"
| "authorization_fields (part # parts) fs =
     (case split_once (CHR ''='') (trim part) of
        None \<Rightarrow> Err AE_MalformedAuthorization
      | Some (name, value) \<Rightarrow>
          if bt_contains fs name then Err (AE_DuplicateAuthorizationField name)
          else authorization_fields parts (bt_insert name value fs))"

definition ParsedAuthorization_parse :: "string \<Rightarrow> parsed_authorization ares" where
  "ParsedAuthorization_parse value =
     and_then (ok_or AE_UnsupportedAlgorithm (strip_prefix ''AWS4-HMAC-SHA256 '' value)) (\<lambda>rest.
     and_then (authorization_fields (split_on (CHR '','') rest) bt_empty) (\<lambda>fs.
     and_then (required_field fs ''Signature'') (\<lambda>signature.
     and_then (validate_signature signature) (\<lambda>_.
     and_then (required_field fs ''Credential'') (\<lambda>credential.
     and_then (required_field fs ''SignedHeaders'') (\<lambda>signed_headers.
     Ok \<lparr>pa_credential = credential, pa_signed_headers = signed_headers,
         pa_signature = signature\<rparr>))))))"

definition CredentialScope_parse :: "string \<Rightarrow> credential_scope ares" where
  "CredentialScope_parse value =
     (case split_on (CHR ''/'') value of
        [key, date, region, service, terminal] \<Rightarrow>
          if list_ex (\<lambda>p. p = []) [key, date, region, service, terminal]
          then Err AE_InvalidCredentialScope
          else if length date \<noteq> 8 \<or> \<not> list_all is_ascii_digit date
          then Err AE_InvalidCredentialScope
          else Ok \<lparr>crs_access_key_id = key, crs_date = date, crs_region = region,
                  crs_service = service, crs_terminal = terminal\<rparr>
      | _ \<Rightarrow> Err AE_InvalidCredentialScope)"

section \<open>Percent coding and the canonical request\<close>

definition auth_percent_decode :: "ext \<Rightarrow> string \<Rightarrow> string ares" where
  "auth_percent_decode E v = ok_or AE_InvalidQueryEncoding (x_percent_decode E v)"

definition is_unreserved :: "char \<Rightarrow> bool" where
  "is_unreserved c \<longleftrightarrow> is_ascii_uppercase c \<or> is_ascii_lowercase c \<or> is_ascii_digit c
     \<or> c = CHR ''-'' \<or> c = CHR ''.'' \<or> c = CHR ''_'' \<or> c = CHR ''~''"

text \<open>\<open>format!("%{byte:02X}")\<close>.\<close>

definition upper_digit :: "nat \<Rightarrow> char" where
  "upper_digit d = (if d < 10 then char_of (48 + d) else char_of (55 + d))"

definition percent_byte :: "char \<Rightarrow> string" where
  "percent_byte c =
     [CHR ''%'', upper_digit (code_of c div 16), upper_digit (code_of c mod 16)]"

definition encode_byte :: "bool \<Rightarrow> char \<Rightarrow> string" where
  "encode_byte preserve_slash c =
     (if is_unreserved c then [c]
      else if c = CHR ''/'' \<and> preserve_slash then [c]
      else percent_byte c)"

definition aws_uri_encode :: "bytes \<Rightarrow> bool \<Rightarrow> string" where
  "aws_uri_encode bs preserve_slash = concat (map (encode_byte preserve_slash) bs)"

fun canonical_uri :: "string \<Rightarrow> string" where
  "canonical_uri [] = []"
| "canonical_uri (c # s) =
     (if is_unreserved c \<or> c = CHR ''/'' then c # canonical_uri s
      else case s of
             a # b # t \<Rightarrow>
               if c = CHR ''%'' \<and> is_ascii_hexdigit a \<and> is_ascii_hexdigit b
               then CHR ''%'' # ascii_upper a # ascii_upper b # canonical_uri t
               else percent_byte c @ canonical_uri s
           | _ \<Rightarrow> percent_byte c @ canonical_uri s)"

text \<open>\<open>pair.split_once('=').unwrap_or((pair, ""))\<close>.\<close>

definition query_pair :: "string \<Rightarrow> string \<times> string" where
  "query_pair pair =
     (case split_once (CHR ''='') pair of None \<Rightarrow> (pair, []) | Some nv \<Rightarrow> nv)"

text \<open>The decoded parameters in order, less the signature of a presigned URL.\<close>

fun canonical_params ::
  "ext \<Rightarrow> canonical_query_mode \<Rightarrow> string list \<Rightarrow> (string \<times> string) list ares" where
  "canonical_params E mode [] = Ok []"
| "canonical_params E mode (pair # pairs) =
     (let (name, value) = query_pair pair in
      and_then (auth_percent_decode E name) (\<lambda>name.
      if mode = CQ_ExcludePresignedSignature \<and> name = ''X-Amz-Signature''
      then canonical_params E mode pairs
      else and_then (auth_percent_decode E value) (\<lambda>value.
           map_ok ((#) (aws_uri_encode name False, aws_uri_encode value False))
             (canonical_params E mode pairs))))"

definition canonical_query :: "ext \<Rightarrow> string \<Rightarrow> canonical_query_mode \<Rightarrow> string ares" where
  "canonical_query E query mode =
     (if query = [] then Ok []
      else map_ok (\<lambda>params. join_with ''&'' (map (\<lambda>(n, v). n @ ''='' @ v) (sort params)))
             (canonical_params E mode (split_on (CHR ''&'') query)))"

fun validate_header_names :: "string option \<Rightarrow> string list \<Rightarrow> unit ares" where
  "validate_header_names previous [] = Ok ()"
| "validate_header_names previous (name # names) =
     and_then (ensure (\<not> list_ex (\<lambda>b. is_ascii_uppercase b \<or> is_ascii_control b) name)
       AE_InvalidSignedHeaders) (\<lambda>_.
     and_then (ensure (case previous of None \<Rightarrow> True | Some p \<Rightarrow> \<not> name \<le> p)
       AE_InvalidSignedHeaders) (\<lambda>_.
     validate_header_names (Some name) names))"

definition validate_signed_headers :: "string list \<Rightarrow> unit ares" where
  "validate_signed_headers names =
     and_then (ensure (\<not> (names = [] \<or> list_ex (\<lambda>n. n = []) names)) AE_InvalidSignedHeaders) (\<lambda>_.
     and_then (validate_header_names None names) (\<lambda>_.
     ensure (''host'' \<in> set names) (AE_MissingSignedHeader ''host'')))"

definition validate_amz_headers_are_signed :: "headers \<Rightarrow> string list \<Rightarrow> unit ares" where
  "validate_amz_headers_are_signed hs names =
     for_each (\<lambda>name. ensure (\<not> (starts_with name ''x-amz-'' \<and> name \<notin> set names))
       (AE_MissingSignedHeader name)) (map fst hs)"

definition validate_singleton_auth_headers :: "headers \<Rightarrow> unit ares" where
  "validate_singleton_auth_headers hs =
     for_each (\<lambda>name. ensure (\<not> length (hdr_get_all hs name) > 1) (AE_DuplicateHeader name))
       [''x-amz-date'', ''x-amz-content-sha256'', ''x-amz-security-token'']"

definition auth_header_str :: "ext \<Rightarrow> headers \<Rightarrow> string \<Rightarrow> string ares" where
  "auth_header_str E hs name =
     and_then (ok_or (AE_MissingSignedHeader name) (hdr_get hs name)) (\<lambda>v.
     ok_or (AE_InvalidHeaderValue name) (x_to_str E v))"

text \<open>\<open>str::split_whitespace\<close>: \<open>ws_len s\<close> is the length of a white space at the start of \<open>s\<close>.\<close>

fun ws_len :: "string \<Rightarrow> nat" where
  "ws_len [] = 0"
| "ws_len [a] = (if ws1 a then 1 else 0)"
| "ws_len [a, b] = (if ws1 a then 1 else if ws2 a b then 2 else 0)"
| "ws_len (a # b # c # s) =
     (if ws1 a then 1 else if ws2 a b then 2 else if ws3 a b c then 3 else 0)"

definition flush_word :: "string \<Rightarrow> string list \<Rightarrow> string list" where
  "flush_word w ws = (if w = [] then ws else rev w # ws)"

function split_words :: "string \<Rightarrow> string \<Rightarrow> string list" where
  "split_words w [] = flush_word w []"
| "split_words w (c # s) =
     (if ws_len (c # s) = 0 then split_words (c # w) s
      else flush_word w (split_words [] (drop (ws_len (c # s)) (c # s))))"
  by pat_completeness auto
termination
  by (relation "measure (\<lambda>(w, s). length s)") auto

definition normalize_header_value :: "string \<Rightarrow> string" where
  "normalize_header_value v = join_with '' '' (split_words [] v)"

definition canonical_header_value :: "ext \<Rightarrow> headers \<Rightarrow> string \<Rightarrow> string ares" where
  "canonical_header_value E hs name =
     (let header_values = hdr_get_all hs name in
      if header_values = [] then Err (AE_MissingSignedHeader name)
      else map_ok (join_with '','')
             (collect_res (\<lambda>v. map_ok normalize_header_value
                (ok_or (AE_InvalidHeaderValue name) (x_to_str E v))) header_values))"

fun canonical_header_map ::
  "ext \<Rightarrow> headers \<Rightarrow> string list \<Rightarrow> (string, string) btmap \<Rightarrow> (string, string) btmap ares" where
  "canonical_header_map E hs [] values = Ok values"
| "canonical_header_map E hs (name # names) values =
     and_then (canonical_header_value E hs name) (\<lambda>value.
     canonical_header_map E hs names (bt_insert name value values))"

definition canonical_headers :: "ext \<Rightarrow> headers \<Rightarrow> string list \<Rightarrow> string ares" where
  "canonical_headers E hs names =
     map_ok (\<lambda>values. concat (map (\<lambda>(n, v). n @ '':'' @ v @ [LF]) values))
       (canonical_header_map E hs names bt_empty)"

fun canonical_payload_hash :: "ext \<Rightarrow> headers \<Rightarrow> payload_hash_source \<Rightarrow> string ares" where
  "canonical_payload_hash E hs PS_Header =
     and_then (map_err (\<lambda>_. AE_InvalidPayloadHashMode) (payload_hash_mode E hs)) (\<lambda>mode.
     ok_or (AE_MissingSignedHeader ''x-amz-content-sha256'') (PayloadHashMode_canonical_value mode))"
| "canonical_payload_hash E hs PS_UnsignedPayload = Ok ''UNSIGNED-PAYLOAD''"

definition canonical_request ::
  "ext \<Rightarrow> string \<Rightarrow> uri \<Rightarrow> headers \<Rightarrow> string \<Rightarrow> canonical_query_mode \<Rightarrow> payload_hash_source
     \<Rightarrow> string ares" where
  "canonical_request E method u hs signed_headers query_mode source =
     (let names = split_on (CHR '';'') signed_headers in
      and_then (canonical_query E (case uri_query u of None \<Rightarrow> [] | Some q \<Rightarrow> q) query_mode) (\<lambda>query.
      and_then (validate_signed_headers names) (\<lambda>_.
      and_then (validate_amz_headers_are_signed hs names) (\<lambda>_.
      and_then (validate_singleton_auth_headers hs) (\<lambda>_.
      and_then (canonical_headers E hs names) (\<lambda>hdrs.
      and_then (canonical_payload_hash E hs source) (\<lambda>payload_hash.
      Ok (method @ [LF] @ canonical_uri (uri_path u) @ [LF] @ query @ [LF] @ hdrs @ [LF]
          @ signed_headers @ [LF] @ payload_hash))))))))"

section \<open>Keys and signatures\<close>

definition auth_hmac_sha256 :: "ext \<Rightarrow> bytes \<Rightarrow> bytes \<Rightarrow> bytes ares" where
  "auth_hmac_sha256 E key data = ok_or AE_Crypto (x_hmac_sha256 E key data)"

definition signing_key :: "ext \<Rightarrow> string \<Rightarrow> string \<Rightarrow> string \<Rightarrow> bytes ares" where
  "signing_key E secret date region =
     and_then (auth_hmac_sha256 E (''AWS4'' @ secret) date) (\<lambda>k_date.
     and_then (auth_hmac_sha256 E k_date region) (\<lambda>k_region.
     and_then (auth_hmac_sha256 E k_region ''s3'') (\<lambda>k_service.
     auth_hmac_sha256 E k_service ''aws4_request'')))"

definition auth_string_to_sign :: "ext \<Rightarrow> string \<Rightarrow> credential_scope \<Rightarrow> string \<Rightarrow> string" where
  "auth_string_to_sign E amz_date credential request =
     ''AWS4-HMAC-SHA256'' @ [LF] @ amz_date @ [LF] @ crs_date credential @ ''/''
     @ crs_region credential @ ''/s3/aws4_request'' @ [LF] @ x_hex_encode E (x_sha256 E request)"

section \<open>Session tokens and time\<close>

definition validate_header_session_token :: "ext \<Rightarrow> string option \<Rightarrow> headers \<Rightarrow> unit ares" where
  "validate_header_session_token E expected hs =
     (case expected of
        None \<Rightarrow> Ok ()
      | Some tok \<Rightarrow>
          and_then (auth_header_str E hs ''x-amz-security-token'') (\<lambda>actual.
          ensure (actual = tok) AE_InvalidSessionToken))"

definition required_query :: "(string, string) btmap \<Rightarrow> string \<Rightarrow> string ares" where
  "required_query q name = ok_or (AE_MissingPresignedField name) (bt_get q name)"

definition validate_presigned_session_token ::
  "string option \<Rightarrow> (string, string) btmap \<Rightarrow> unit ares" where
  "validate_presigned_session_token expected q =
     (case expected of
        None \<Rightarrow> Ok ()
      | Some tok \<Rightarrow>
          and_then (required_query q ''X-Amz-Security-Token'') (\<lambda>actual.
          ensure (actual = tok) AE_InvalidSessionToken))"

definition parse_amz_date :: "ext \<Rightarrow> string \<Rightarrow> int ares" where
  "parse_amz_date E v = ok_or AE_InvalidTimestamp (x_parse_amz_date E v)"

definition validate_timestamp ::
  "ext \<Rightarrow> int \<Rightarrow> string \<Rightarrow> int \<Rightarrow> (unit, auth_error fail) result" where
  "validate_timestamp E now amz_date max_skew_seconds =
     and_then (lift_err (parse_amz_date E amz_date)) (\<lambda>request_time.
     let skew = (if request_time > now then request_time - now else now - request_time) in
     and_then (or_panic (x_duration_seconds E max_skew_seconds)) (\<lambda>limit.
     ensure (\<not> skew > limit) (Fail AE_RequestTimeTooSkewed)))"

definition validate_presigned_expiry ::
  "ext \<Rightarrow> int \<Rightarrow> int \<Rightarrow> nat \<Rightarrow> int \<Rightarrow> (unit, auth_error fail) result" where
  "validate_presigned_expiry E now request_time expires max_skew_seconds =
     and_then (or_panic (x_duration_seconds E max_skew_seconds)) (\<lambda>skew.
     and_then (or_panic (x_time_add E now skew)) (\<lambda>latest.
     and_then (ensure (\<not> latest < request_time) (Fail AE_RequestTimeTooSkewed)) (\<lambda>_.
     and_then (or_panic (x_duration_seconds E (int expires))) (\<lambda>life.
     and_then (or_panic (x_time_add E request_time life)) (\<lambda>expiry.
     ensure (\<not> now > expiry) (Fail AE_ExpiredPresignedUrl))))))"

section \<open>Header and presigned authentication\<close>

fun query_fields_loop ::
  "ext \<Rightarrow> string list \<Rightarrow> (string, string) btmap \<Rightarrow> (string, string) btmap ares" where
  "query_fields_loop E [] m = Ok m"
| "query_fields_loop E (pair # pairs) m =
     (let (name, value) = query_pair pair in
      and_then (auth_percent_decode E name) (\<lambda>name.
      and_then (ensure (\<not> (name \<in> set PRESIGNED_AUTH_FIELDS \<and> bt_contains m name))
        (AE_DuplicatePresignedField name)) (\<lambda>_.
      and_then (auth_percent_decode E value) (\<lambda>value.
      query_fields_loop E pairs (bt_insert name value m)))))"

definition query_fields :: "ext \<Rightarrow> string \<Rightarrow> (string, string) btmap ares" where
  "query_fields E query = query_fields_loop E (split_on (CHR ''&'') query) bt_empty"

definition is_presigned_query :: "ext \<Rightarrow> string \<Rightarrow> bool" where
  "is_presigned_query E query =
     list_ex (\<lambda>pair. x_percent_decode E (fst (query_pair pair)) = Some ''X-Amz-Algorithm'')
       (split_on (CHR ''&'') query)"

definition check_credential_scope :: "auth_state \<Rightarrow> credential_scope \<Rightarrow> stored_access_key ares" where
  "check_credential_scope st credential =
     and_then (ok_or AE_UnknownAccessKey
       (AuthState_credential st (crs_access_key_id credential))) (\<lambda>key.
     and_then (ensure (sk_active key) AE_InactiveAccessKey) (\<lambda>_.
     and_then (ensure (crs_region credential = au_region st) AE_RegionMismatch) (\<lambda>_.
     and_then (ensure (\<not> (crs_service credential \<noteq> ''s3'' \<or> crs_terminal credential \<noteq> ''aws4_request''))
       AE_InvalidCredentialScope) (\<lambda>_.
     Ok key))))"

definition verify_header_auth ::
  "ext \<Rightarrow> int \<Rightarrow> auth_state \<Rightarrow> string \<Rightarrow> uri \<Rightarrow> headers \<Rightarrow> string
     \<Rightarrow> (header_auth, auth_error fail) result" where
  "verify_header_auth E now st method u hs authorization =
     and_then (lift_err (ParsedAuthorization_parse authorization)) (\<lambda>parsed.
     and_then (lift_err (CredentialScope_parse (pa_credential parsed))) (\<lambda>credential.
     and_then (lift_err (check_credential_scope st credential)) (\<lambda>key.
     and_then (lift_err (auth_header_str E hs ''x-amz-date'')) (\<lambda>amz_date.
     and_then (ensure (starts_with amz_date (crs_date credential)) (Fail AE_CredentialDateMismatch)) (\<lambda>_.
     and_then (validate_timestamp E now amz_date (au_max_skew_seconds st)) (\<lambda>_.
     and_then (lift_err (validate_header_session_token E (sk_session_token key) hs)) (\<lambda>_.
     and_then (lift_err (canonical_request E method u hs (pa_signed_headers parsed)
       CQ_IncludeAll PS_Header)) (\<lambda>request.
     and_then (lift_err (signing_key E (sk_secret_key key) (crs_date credential)
       (crs_region credential))) (\<lambda>skey.
     and_then (lift_err (auth_hmac_sha256 E skey
       (auth_string_to_sign E amz_date credential request))) (\<lambda>mac.
     if x_hex_encode E mac = pa_signature parsed
     then Ok \<lparr>ha_access_key_id = sk_access_key_id key,
            ha_streaming_signing =
              \<lparr>sc_signing_key = skey, sc_seed_signature = pa_signature parsed,
               sc_amz_date = amz_date,
               sc_credential_scope =
                 crs_date credential @ ''/'' @ crs_region credential @ ''/s3/aws4_request''\<rparr>\<rparr>
     else Err (Fail AE_SignatureMismatch)))))))))))"

definition verify_presigned_url ::
  "ext \<Rightarrow> int \<Rightarrow> auth_state \<Rightarrow> string \<Rightarrow> uri \<Rightarrow> headers
     \<Rightarrow> (access_key_id, auth_error fail) result" where
  "verify_presigned_url E now st method u hs =
     and_then (lift_err (ok_or (AE_MissingPresignedField ''X-Amz-Algorithm'') (uri_query u))) (\<lambda>raw.
     and_then (lift_err (query_fields E raw)) (\<lambda>q.
     and_then (lift_err (required_query q ''X-Amz-Algorithm'')) (\<lambda>algorithm.
     and_then (ensure (algorithm = ''AWS4-HMAC-SHA256'') (Fail AE_UnsupportedAlgorithm)) (\<lambda>_.
     and_then (lift_err (required_query q ''X-Amz-Credential'')) (\<lambda>cred.
     and_then (lift_err (CredentialScope_parse cred)) (\<lambda>credential.
     and_then (lift_err (check_credential_scope st credential)) (\<lambda>key.
     and_then (lift_err (required_query q ''X-Amz-Date'')) (\<lambda>amz_date.
     and_then (ensure (starts_with amz_date (crs_date credential)) (Fail AE_CredentialDateMismatch)) (\<lambda>_.
     and_then (lift_err (parse_amz_date E amz_date)) (\<lambda>request_time.
     and_then (lift_err (validate_presigned_session_token (sk_session_token key) q)) (\<lambda>_.
     and_then (lift_err (required_query q ''X-Amz-Expires'')) (\<lambda>expires_text.
     and_then (lift_err (ok_or AE_InvalidExpires (parse_u32 expires_text))) (\<lambda>expires.
     and_then (ensure (1 \<le> expires \<and> expires \<le> 604800) (Fail AE_InvalidExpires)) (\<lambda>_.
     and_then (validate_presigned_expiry E now request_time expires (au_max_skew_seconds st)) (\<lambda>_.
     and_then (lift_err (required_query q ''X-Amz-SignedHeaders'')) (\<lambda>signed_headers.
     and_then (lift_err (required_query q ''X-Amz-Signature'')) (\<lambda>provided.
     and_then (lift_err (validate_signature provided)) (\<lambda>_.
     and_then (lift_err (canonical_request E method u hs signed_headers
       CQ_ExcludePresignedSignature PS_UnsignedPayload)) (\<lambda>request.
     and_then (lift_err (signing_key E (sk_secret_key key) (crs_date credential)
       (crs_region credential))) (\<lambda>skey.
     and_then (lift_err (auth_hmac_sha256 E skey
       (auth_string_to_sign E amz_date credential request))) (\<lambda>mac.
     if x_hex_encode E mac = provided
     then Ok (sk_access_key_id key)
     else Err (Fail AE_SignatureMismatch))))))))))))))))))))))"

section \<open>Authentication and authorization\<close>

definition authenticate ::
  "ext \<Rightarrow> int \<Rightarrow> auth_state \<Rightarrow> string \<Rightarrow> uri \<Rightarrow> headers \<Rightarrow> (auth_context, s3_error fail) result" where
  "authenticate E now st method u hs =
     (let values = hdr_get_all hs ''authorization'' in
      if length values > 1
      then Err (Fail (access_denied ''Authorization header must not appear more than once''))
      else case values of
        v # _ \<Rightarrow>
          and_then (lift_err (ok_or (access_denied ''invalid Authorization header'') (x_to_str E v)))
            (\<lambda>value.
          map_ok (\<lambda>ha. \<lparr>ax_mode = AM_HeaderSigV4,
                       ax_principal = RP_AccessKey (ha_access_key_id ha),
                       ax_access_key_id = Some (ha_access_key_id ha),
                       ax_streaming_signing = Some (ha_streaming_signing ha)\<rparr>)
            (map_err (map_fail map_auth_error) (verify_header_auth E now st method u hs value)))
      | [] \<Rightarrow>
          if (case uri_query u of None \<Rightarrow> False | Some q \<Rightarrow> is_presigned_query E q) then
            map_ok (\<lambda>i. \<lparr>ax_mode = AM_PresignedUrl, ax_principal = RP_AccessKey i,
                        ax_access_key_id = Some i, ax_streaming_signing = None\<rparr>)
              (map_err (map_fail map_auth_error) (verify_presigned_url E now st method u hs))
          else if au_allow_anonymous st then
            Ok \<lparr>ax_mode = AM_Anonymous, ax_principal = RP_Anonymous, ax_access_key_id = None,
                ax_streaming_signing = None\<rparr>
          else Err (Fail (access_denied ''Access Denied'')))"

definition authorize ::
  "auth_state \<Rightarrow> auth_context \<Rightarrow> bucket_name \<Rightarrow> s3_action \<Rightarrow> unit s3res" where
  "authorize st auth bucket action =
     (if ax_mode auth = AM_Custom then Ok ()
      else if ax_mode auth = AM_Anonymous then
        (if permits_anonymous_bucket st bucket then Ok ()
         else Err (access_denied (''Anonymous access is not authorized for bucket '' @ bucket)))
      else case ax_access_key_id auth of
        None \<Rightarrow> Err (access_denied ''Access Denied'')
      | Some i \<Rightarrow>
          if permits_credential st i bucket action then Ok ()
          else Err (access_denied (''Access key is not authorized for '' @ S3Action_as_str action
                 @ '' on bucket '' @ bucket)))"

end
