(* ===== verification/S3_App.thy ===== *)
theory S3_App
  imports S3_Auth Multipart_Complete
begin

text \<open>
  The application state (\<open>src/lib.rs\<close>) and what the request helpers of
  \<open>src/handlers/request.rs\<close> do with it.

  An \<open>app_state\<close> holds the validated configuration and the hooks; a hook is a function of the
  context it is given, or absent. What a request changes is the \<open>world\<close>: both stores, the
  permits left in the four semaphores, and one event for each point at which the observer (if
  one is registered) or the tenant limits provider is called. What a request draws from
  outside, its clocks, UUIDs and write faults, is the record \<open>env\<close>.
\<close>

section \<open>Admission control\<close>

record admission =
  ad_s3_requests :: nat
  ad_object_writers :: nat
  ad_multipart_part_writers :: nat
  ad_aws_chunked_decoders :: nat

text \<open>
  \<open>Semaphore::new\<close> panics above \<open>Semaphore::MAX_PERMITS\<close>, here the argument \<open>max_permits\<close>;
  \<open>None\<close> is that panic.
\<close>

definition Semaphore_new :: "nat \<Rightarrow> nat \<Rightarrow> nat option" where
  "Semaphore_new max_permits n = (if n \<le> max_permits then Some n else None)"

definition AdmissionControl_new :: "nat \<Rightarrow> validated_upload_limits \<Rightarrow> admission option" where
  "AdmissionControl_new max_permits L =
     Option.bind (Semaphore_new max_permits (vl_max_concurrent_s3_requests L)) (\<lambda>requests.
     Option.bind (Semaphore_new max_permits (vl_max_active_object_writers L)) (\<lambda>writers.
     Option.bind (Semaphore_new max_permits (vl_max_active_multipart_part_writers L)) (\<lambda>parts.
     Option.bind (Semaphore_new max_permits (vl_max_active_aws_chunked_decoders L)) (\<lambda>decoders.
     Some \<lparr>ad_s3_requests = requests, ad_object_writers = writers,
           ad_multipart_part_writers = parts, ad_aws_chunked_decoders = decoders\<rparr>))))"

section \<open>State\<close>

datatype event =
    Ev_Observe s3_request_context
  | Ev_Begin tenant_limit_context
  | Ev_Finish tenant_limit_context tenant_operation_outcome

record world =
  wd_store :: multipart
  wd_admission :: admission
  wd_events :: "event list"

record app_state =
  app_config :: config
  app_auth :: auth_state
  app_io_tuning :: io_tuning
  app_upload_processors :: "processor list"
  app_error_mapper :: "(s3_error_context \<Rightarrow> s3_error \<Rightarrow> s3_error) option"
  app_response_mapper :: "(s3_response_context \<Rightarrow> response \<Rightarrow> response) option"
  app_authentication_provider ::
    "(authentication_request \<Rightarrow> authentication_result s3res) option"
  app_authorization_policy :: "(authorization_context \<Rightarrow> unit s3res) option"
  app_operation_policy :: "(operation_context \<Rightarrow> unit s3res) option"
  app_target_policy :: "(target_context \<Rightarrow> unit s3res) option"
  app_upload_policy :: "(upload_policy_context \<Rightarrow> unit s3res) option"
  app_begin_operation :: "tenant_limit_context \<Rightarrow> tenant_operation_lease s3res"
  app_disabled_operations :: "s3_action list"
  app_codec :: codec

text \<open>
  One HTTP request: method, URI, headers and the frames of its body.
\<close>

record request =
  rq_method :: string
  rq_uri :: uri
  rq_headers :: headers
  rq_body :: body

text \<open>
  \<open>ev_now\<close> is the application clock, \<open>ev_utc\<close> is \<open>Utc::now()\<close>, \<open>ev_uuid\<close> are the fresh
  UUIDs in the order they are drawn, \<open>ev_writes\<close> the outcomes of the writes into the staging
  file, and \<open>ev_timeout\<close> the state in which a tenant timeout cancels the operation, if one
  does.
\<close>

record env =
  ev_now :: timestamp
  ev_utc :: int
  ev_uuid :: "nat \<Rightarrow> string"
  ev_writes :: "(nat \<times> string) option list"
  ev_timeout :: "world option"

type_synonym 'a handler = "(world, 'a, s3_error fail) io"

definition on_store :: "(multipart, 'a, 'e) io \<Rightarrow> (world, 'a, 'e) io" where
  "on_store m w = (case m (wd_store w) of (r, st) \<Rightarrow> (r, w\<lparr>wd_store := st\<rparr>))"

definition emit :: "event \<Rightarrow> (world, unit, 'e) io" where
  "emit e w = (Ok (), w\<lparr>wd_events := wd_events w @ [e]\<rparr>)"

text \<open>A value computed without effects; its \<open>?\<close> returns an S3 error.\<close>

definition try_res :: "'a s3res \<Rightarrow> 'a handler" where
  "try_res r = io_lift (lift_err r)"

section \<open>Hooks\<close>

definition authenticate_with_provider ::
  "app_state \<Rightarrow> authentication_request \<Rightarrow> authentication_result s3res option" where
  "authenticate_with_provider A rq = map_option (\<lambda>p. p rq) (app_authentication_provider A)"

definition app_map_error :: "app_state \<Rightarrow> s3_error_context \<Rightarrow> s3_error \<Rightarrow> s3_error" where
  "app_map_error A ctx e = (case app_error_mapper A of None \<Rightarrow> e | Some f \<Rightarrow> f ctx e)"

definition app_map_response :: "app_state \<Rightarrow> s3_response_context \<Rightarrow> response \<Rightarrow> response" where
  "app_map_response A ctx r = (case app_response_mapper A of None \<Rightarrow> r | Some f \<Rightarrow> f ctx r)"

definition allow_operation :: "app_state \<Rightarrow> operation_context \<Rightarrow> unit s3res" where
  "allow_operation A ctx =
     (if oc_action ctx \<in> set (app_disabled_operations A) then Err method_not_allowed
      else case app_operation_policy A of None \<Rightarrow> Ok () | Some f \<Rightarrow> f ctx)"

definition allow_target :: "app_state \<Rightarrow> target_context \<Rightarrow> unit s3res" where
  "allow_target A ctx = (case app_target_policy A of None \<Rightarrow> Ok () | Some f \<Rightarrow> f ctx)"

definition allow_upload :: "app_state \<Rightarrow> upload_policy_context \<Rightarrow> unit s3res" where
  "allow_upload A ctx = (case app_upload_policy A of None \<Rightarrow> Ok () | Some f \<Rightarrow> f ctx)"

definition authorize_with_policy :: "app_state \<Rightarrow> authorization_context \<Rightarrow> unit s3res" where
  "authorize_with_policy A ctx =
     (case app_authorization_policy A of None \<Rightarrow> Ok () | Some f \<Rightarrow> f ctx)"

definition begin_tenant_operation ::
  "app_state \<Rightarrow> tenant_limit_context \<Rightarrow> tenant_operation_lease handler" where
  "begin_tenant_operation A ctx =
     io_bind (emit (Ev_Begin ctx)) (\<lambda>_. try_res (app_begin_operation A ctx))"

definition finish_tenant_operation ::
  "tenant_limit_context \<Rightarrow> tenant_operation_outcome \<Rightarrow> (world, unit, 'e) io" where
  "finish_tenant_operation ctx outcome = emit (Ev_Finish ctx outcome)"

section \<open>Permits\<close>

text \<open>
  \<open>try_acquire_owned\<close> takes a permit if one is left; the permit goes back when its guard is
  dropped at the end of the scope, on every path out of it.
\<close>

definition try_acquire ::
  "(admission \<Rightarrow> nat) \<Rightarrow> ((nat \<Rightarrow> nat) \<Rightarrow> admission \<Rightarrow> admission) \<Rightarrow> string \<Rightarrow> unit handler" where
  "try_acquire avail upd what w =
     (if avail (wd_admission w) = 0 then (Err (Fail (slow_down what)), w)
      else (Ok (), w\<lparr>wd_admission := upd (\<lambda>n. n - 1) (wd_admission w)\<rparr>))"

definition release ::
  "((nat \<Rightarrow> nat) \<Rightarrow> admission \<Rightarrow> admission) \<Rightarrow> world \<Rightarrow> world" where
  "release upd w = w\<lparr>wd_admission := upd Suc (wd_admission w)\<rparr>"

definition with_permit ::
  "unit handler \<Rightarrow> (world \<Rightarrow> world) \<Rightarrow> 'a handler \<Rightarrow> 'a handler" where
  "with_permit acquire give_back body =
     io_bind acquire (\<lambda>_ w. case body w of (r, w') \<Rightarrow> (r, give_back w'))"

definition try_acquire_s3_request :: "unit handler" where
  "try_acquire_s3_request = try_acquire ad_s3_requests ad_s3_requests_update
     ''too many active S3 requests; retry the request''"

definition try_acquire_object_writer :: "unit handler" where
  "try_acquire_object_writer = try_acquire ad_object_writers ad_object_writers_update
     ''too many active object uploads; retry the request''"

definition try_acquire_multipart_part_writer :: "unit handler" where
  "try_acquire_multipart_part_writer =
     try_acquire ad_multipart_part_writers ad_multipart_part_writers_update
       ''too many active multipart part uploads; retry the request''"

definition try_acquire_aws_chunked_decoder :: "unit handler" where
  "try_acquire_aws_chunked_decoder =
     try_acquire ad_aws_chunked_decoders ad_aws_chunked_decoders_update
       ''too many active aws-chunked uploads; retry the request''"

definition with_aws_chunked_decoder :: "ext \<Rightarrow> headers \<Rightarrow> 'a handler \<Rightarrow> 'a handler" where
  "with_aws_chunked_decoder E hs body =
     (if is_aws_chunked_request E hs
      then with_permit try_acquire_aws_chunked_decoder (release ad_aws_chunked_decoders_update) body
      else body)"

section \<open>Request helpers\<close>

definition authenticate_request ::
  "ext \<Rightarrow> env \<Rightarrow> app_state \<Rightarrow> request \<Rightarrow> (auth_context, s3_error fail) result" where
  "authenticate_request E V A rq =
     (case authenticate_with_provider A
             \<lparr>aq_method = rq_method rq, aq_uri = rq_uri rq, aq_headers = rq_headers rq\<rparr> of
        Some result \<Rightarrow>
          map_ok (\<lambda>ar. \<lparr>ax_mode = AM_Custom, ax_principal = ar_principal ar,
                       ax_access_key_id = ar_access_key_id ar, ax_streaming_signing = None\<rparr>)
            (lift_err result)
      | None \<Rightarrow>
          authenticate E (ev_utc V) (app_auth A) (rq_method rq) (rq_uri rq) (rq_headers rq))"

definition request_host :: "ext \<Rightarrow> request \<Rightarrow> string option" where
  "request_host E rq = Option.bind (hdr_get (rq_headers rq) ''host'') (x_to_str E)"

definition resolve_request_target :: "ext \<Rightarrow> app_state \<Rightarrow> request \<Rightarrow> s3_target s3res" where
  "resolve_request_target E A rq =
     map_err (\<lambda>e. with_resource (invalid_request (target_error_display e)) (uri_path (rq_uri rq)))
       (resolve_s3_target E (uri_path (rq_uri rq)) (request_host E rq)
          (cf_virtual_host_base_domain (app_config A)))"

definition resolve_request_bucket :: "ext \<Rightarrow> app_state \<Rightarrow> request \<Rightarrow> bucket_name s3res" where
  "resolve_request_bucket E A rq =
     map_err (\<lambda>e. with_resource (invalid_request (target_error_display e)) (uri_path (rq_uri rq)))
       (resolve_bucket_name E (uri_path (rq_uri rq)) (request_host E rq)
          (cf_virtual_host_base_domain (app_config A)))"

definition authorize_request ::
  "app_state \<Rightarrow> auth_context \<Rightarrow> bucket_name \<Rightarrow> object_key option \<Rightarrow> s3_action \<Rightarrow> unit s3res" where
  "authorize_request A auth bucket key action =
     and_then (allow_target A \<lparr>gc_bucket = bucket, gc_key = key, gc_action = action\<rparr>) (\<lambda>_.
     and_then (authorize (app_auth A) auth bucket action) (\<lambda>_.
     authorize_with_policy A \<lparr>zc_principal = ax_principal auth, zc_bucket = bucket, zc_key = key,
       zc_action = action\<rparr>))"

definition validate_empty_payload_hash :: "ext \<Rightarrow> request \<Rightarrow> unit s3res" where
  "validate_empty_payload_hash E rq =
     validate_fixed_sha256_payload_hash E (rq_headers rq) (x_sha256 E [])"

end
