(* ===== verification/S3_Requests.thy ===== *)
theory S3_Requests
  imports S3_App
begin

text \<open>
  What is read from a request before any handler touches the stores: the framing headers
  (\<open>src/handlers/mod.rs\<close>), the metadata headers of an upload
  (\<open>src/handlers/upload_metadata.rs\<close>), query parameters and the detection of the operation
  (\<open>src/handlers/s3.rs\<close>).
\<close>

section \<open>Body framing\<close>

definition validate_content_length :: "ext \<Rightarrow> headers \<Rightarrow> content_length option s3res" where
  "validate_content_length E hs =
     (case hdr_get_all hs ''content-length'' of
        [] \<Rightarrow> Ok None
      | [v] \<Rightarrow>
          and_then (ok_or (invalid_request ''Content-Length must be valid ASCII'') (x_to_str E v)) (\<lambda>s.
          map_err (\<lambda>_. invalid_request ''Content-Length must be an integer'')
            (map_ok Some (ContentLength_from_str s)))
      | _ \<Rightarrow> Err (invalid_request ''Content-Length must not appear more than once''))"

record transfer_encoding =
  te_has_any :: bool
  te_has_chunked :: bool

fun transfer_encoding_pieces :: "string list \<Rightarrow> transfer_encoding \<Rightarrow> transfer_encoding s3res" where
  "transfer_encoding_pieces [] te = Ok te"
| "transfer_encoding_pieces (piece # pieces) te =
     (let encoding = trim piece in
      if encoding = [] then Err (invalid_request ''Transfer-Encoding must not contain empty values'')
      else if \<not> eq_ignore_ascii_case encoding ''chunked''
      then Err (invalid_request ''Unsupported Transfer-Encoding; only chunked is supported'')
      else transfer_encoding_pieces pieces \<lparr>te_has_any = True, te_has_chunked = True\<rparr>)"

fun transfer_encoding_values :: "ext \<Rightarrow> bytes list \<Rightarrow> transfer_encoding \<Rightarrow> transfer_encoding s3res" where
  "transfer_encoding_values E [] te = Ok te"
| "transfer_encoding_values E (v # vs) te =
     and_then (ok_or (invalid_request ''Transfer-Encoding must be valid ASCII'') (x_to_str E v)) (\<lambda>s.
     and_then (transfer_encoding_pieces (split_on (CHR '','') s) te) (\<lambda>te'.
     transfer_encoding_values E vs te'))"

definition validate_transfer_encoding :: "ext \<Rightarrow> headers \<Rightarrow> transfer_encoding s3res" where
  "validate_transfer_encoding E hs =
     transfer_encoding_values E (hdr_get_all hs ''transfer-encoding'')
       \<lparr>te_has_any = False, te_has_chunked = False\<rparr>"

definition validate_supported_request_body_length :: "ext \<Rightarrow> headers \<Rightarrow> unit s3res" where
  "validate_supported_request_body_length E hs =
     and_then (validate_content_length E hs) (\<lambda>content_length.
     and_then (validate_transfer_encoding E hs) (\<lambda>te.
     if te_has_chunked te then
       (if content_length \<noteq> None \<and> \<not> is_aws_chunked_request E hs
        then Err (invalid_request
          ''Content-Length must not be used with Transfer-Encoding for non aws-chunked uploads'')
        else Ok ())
     else if content_length \<noteq> None then Ok ()
     else Err missing_content_length))"

definition validate_empty_request_body_headers :: "ext \<Rightarrow> headers \<Rightarrow> string \<Rightarrow> unit s3res" where
  "validate_empty_request_body_headers E hs operation =
     and_then (validate_content_length E hs) (\<lambda>content_length.
     and_then (validate_transfer_encoding E hs) (\<lambda>te.
     if te_has_any te
     then Err (invalid_request (operation @ '' does not support Transfer-Encoding''))
     else if (case content_length of None \<Rightarrow> False | Some n \<Rightarrow> n \<noteq> 0)
     then Err (invalid_request (operation @ '' requires Content-Length: 0''))
     else Ok ()))"

section \<open>Upload metadata\<close>

definition optional_header :: "ext \<Rightarrow> headers \<Rightarrow> string \<Rightarrow> string option s3res" where
  "optional_header E hs name =
     (case hdr_get_all hs name of
        [] \<Rightarrow> Ok None
      | [v] \<Rightarrow> map_ok Some (ok_or (invalid_request (name @ '' must be valid ASCII'')) (x_to_str E v))
      | _ \<Rightarrow> Err (invalid_request (name @ '' must not appear more than once'')))"

definition content_encoding_metadata :: "ext \<Rightarrow> headers \<Rightarrow> string option s3res" where
  "content_encoding_metadata E hs =
     map_ok (\<lambda>v. case v of
         None \<Rightarrow> None
       | Some s \<Rightarrow>
           (let encodings = filter (\<lambda>e. e \<noteq> [] \<and> \<not> eq_ignore_ascii_case e ''aws-chunked'')
                  (map trim (split_on (CHR '','') s))
            in if encodings = [] then None else Some (join_with '', '' encodings)))
       (optional_header E hs ''content-encoding'')"

definition optional_checksum_algorithm :: "ext \<Rightarrow> headers \<Rightarrow> checksum_name option s3res" where
  "optional_checksum_algorithm E hs =
     and_then (optional_header E hs ''x-amz-checksum-algorithm'') (\<lambda>v. case v of
         None \<Rightarrow> Ok None
       | Some s \<Rightarrow>
           (let u = to_ascii_uppercase s in
            if u = ''CRC32'' then Ok (Some Crc32)
            else if u = ''CRC32C'' then Ok (Some Crc32c)
            else if u = ''SHA1'' then Ok (Some Sha1)
            else if u = ''SHA256'' then Ok (Some Sha256)
            else if u = ''SHA512'' then Ok (Some Sha512)
            else Err (invalid_request ''Checksum algorithm not supported'')))"

definition optional_checksum_type :: "ext \<Rightarrow> headers \<Rightarrow> checksum_type option s3res" where
  "optional_checksum_type E hs =
     and_then (optional_header E hs ''x-amz-checksum-type'') (\<lambda>v. case v of
         None \<Rightarrow> Ok None
       | Some s \<Rightarrow>
           (let u = to_ascii_uppercase s in
            if u = ''COMPOSITE'' then Ok (Some Composite)
            else if u = ''FULL_OBJECT'' then Ok (Some FullObject)
            else Err (invalid_request ''x-amz-checksum-type must be COMPOSITE or FULL_OBJECT'')))"

fun collect_user_metadata_loop ::
  "ext \<Rightarrow> headers \<Rightarrow> (string, string) btmap \<Rightarrow> (string, string) btmap s3res" where
  "collect_user_metadata_loop E [] m = Ok m"
| "collect_user_metadata_loop E ((name, v) # hs) m =
     (if \<not> starts_with name ''x-amz-meta-'' then collect_user_metadata_loop E hs m
      else and_then (ok_or (invalid_request (name @ '' must be valid ASCII'')) (x_to_str E v)) (\<lambda>s.
           if bt_contains m name
           then Err (invalid_request (name @ '' must not appear more than once''))
           else collect_user_metadata_loop E hs (bt_insert name s m)))"

definition collect_user_metadata :: "ext \<Rightarrow> headers \<Rightarrow> (string, string) btmap s3res" where
  "collect_user_metadata E hs = collect_user_metadata_loop E hs bt_empty"

definition collect_upload_metadata :: "ext \<Rightarrow> headers \<Rightarrow> upload_metadata s3res" where
  "collect_upload_metadata E hs =
     and_then (optional_header E hs ''content-type'') (\<lambda>content_type.
     and_then (content_encoding_metadata E hs) (\<lambda>content_encoding.
     and_then (optional_header E hs ''content-disposition'') (\<lambda>content_disposition.
     and_then (optional_header E hs ''content-language'') (\<lambda>content_language.
     and_then (optional_header E hs ''cache-control'') (\<lambda>cache_control.
     and_then (optional_header E hs ''expires'') (\<lambda>expires.
     and_then (optional_header E hs ''x-amz-tagging'') (\<lambda>tagging.
     and_then (optional_checksum_algorithm E hs) (\<lambda>checksum_algorithm.
     and_then (optional_checksum_type E hs) (\<lambda>checksum_type.
     and_then (collect_user_metadata E hs) (\<lambda>user_metadata.
     Ok \<lparr>um_content_type = content_type, um_content_encoding = content_encoding,
         um_content_disposition = content_disposition, um_content_language = content_language,
         um_cache_control = cache_control, um_expires = expires, um_tagging = tagging,
         um_checksum_algorithm = checksum_algorithm, um_checksum_type = checksum_type,
         um_user_metadata = user_metadata\<rparr>))))))))))"

definition UNSUPPORTED_UPLOAD_HEADERS :: "string list" where
  "UNSUPPORTED_UPLOAD_HEADERS =
     [''x-amz-server-side-encryption'', ''x-amz-server-side-encryption-aws-kms-key-id'',
      ''x-amz-server-side-encryption-context'',
      ''x-amz-server-side-encryption-customer-algorithm'',
      ''x-amz-server-side-encryption-customer-key'',
      ''x-amz-server-side-encryption-customer-key-md5'', ''x-amz-object-lock-mode'',
      ''x-amz-object-lock-retain-until-date'', ''x-amz-object-lock-legal-hold'',
      ''x-amz-website-redirect-location'', ''x-amz-copy-source'', ''x-amz-copy-source-if-match'',
      ''x-amz-copy-source-if-none-match'', ''x-amz-copy-source-if-modified-since'',
      ''x-amz-copy-source-if-unmodified-since'', ''x-amz-copy-source-range'']"

definition validate_upload_headers :: "headers \<Rightarrow> unit s3res" where
  "validate_upload_headers hs =
     for_each (\<lambda>name. ensure (\<not> hdr_contains hs name)
       (invalid_request (''Unsupported upload header: '' @ name))) UNSUPPORTED_UPLOAD_HEADERS"

section \<open>Query parameters\<close>

definition percent_decode_checked :: "ext \<Rightarrow> string \<Rightarrow> string s3res" where
  "percent_decode_checked E v =
     ok_or (invalid_request ''query string contains invalid percent-encoded UTF-8'')
       (x_percent_decode E v)"

fun query_param_values_checked_loop :: "ext \<Rightarrow> string \<Rightarrow> string list \<Rightarrow> string list s3res" where
  "query_param_values_checked_loop E name [] = Ok []"
| "query_param_values_checked_loop E name (pair # pairs) =
     (let (key, value) = query_pair pair in
      and_then (percent_decode_checked E key) (\<lambda>k.
      if k = name
      then and_then (percent_decode_checked E value) (\<lambda>v.
           map_ok ((#) v) (query_param_values_checked_loop E name pairs))
      else query_param_values_checked_loop E name pairs))"

definition query_param_values_checked :: "ext \<Rightarrow> string \<Rightarrow> string \<Rightarrow> string list s3res" where
  "query_param_values_checked E query name =
     query_param_values_checked_loop E name (split_on (CHR ''&'') query)"

definition unique_query_param :: "ext \<Rightarrow> string \<Rightarrow> string \<Rightarrow> string option s3res" where
  "unique_query_param E query name =
     and_then (query_param_values_checked E query name) (\<lambda>values.
     case values of
       [] \<Rightarrow> Ok None
     | [v] \<Rightarrow> Ok (Some v)
     | _ \<Rightarrow> Err (invalid_request (name @ '' must not appear more than once'')))"

definition query_param_values :: "ext \<Rightarrow> string \<Rightarrow> string \<Rightarrow> string list" where
  "query_param_values E query name =
     List.map_filter (\<lambda>pair.
       let (key, value) = query_pair pair in
       if x_percent_decode E key = Some name then x_percent_decode E value else None)
       (split_on (CHR ''&'') query)"

definition query_param :: "ext \<Rightarrow> string \<Rightarrow> string \<Rightarrow> string option" where
  "query_param E query name =
     (case query_param_values E query name of [] \<Rightarrow> None | v # _ \<Rightarrow> Some v)"

fun unique_query_flag_loop :: "ext \<Rightarrow> string \<Rightarrow> string list \<Rightarrow> nat \<Rightarrow> nat s3res" where
  "unique_query_flag_loop E name [] n = Ok n"
| "unique_query_flag_loop E name (pair # pairs) n =
     (let (key, value) = query_pair pair in
      and_then (percent_decode_checked E key) (\<lambda>k.
      unique_query_flag_loop E name pairs
        (if k = name \<and> (value = [] \<or> split_once (CHR ''='') pair = None) then Suc n else n)))"

definition unique_query_flag :: "ext \<Rightarrow> string \<Rightarrow> string \<Rightarrow> bool s3res" where
  "unique_query_flag E query name =
     and_then (unique_query_flag_loop E name (split_on (CHR ''&'') query) 0) (\<lambda>n.
     if n > 1 then Err (invalid_request (name @ '' must not appear more than once''))
     else Ok (n = 1))"

section \<open>Detecting the operation\<close>

datatype detected_operation =
    DO_Implemented s3_operation
  | DO_ListObjectsV2
  | DO_Unsupported
  | DO_MethodNotAllowed

fun DetectedOperation_name :: "detected_operation \<Rightarrow> string" where
  "DetectedOperation_name (DO_Implemented op) = S3Operation_name op"
| "DetectedOperation_name DO_ListObjectsV2 = ''ListObjectsV2''"
| "DetectedOperation_name DO_Unsupported = ''Unsupported''"
| "DetectedOperation_name DO_MethodNotAllowed = ''MethodNotAllowed''"

definition parse_upload_id_value :: "ext \<Rightarrow> string \<Rightarrow> upload_id s3res" where
  "parse_upload_id_value E v = map_err (\<lambda>_. invalid_request ''invalid upload ID'') (UploadId_parse E v)"

definition parse_part_number_value :: "string \<Rightarrow> part_number s3res" where
  "parse_part_number_value v =
     and_then (ok_or (invalid_request ''partNumber must be an integer'') (parse_u16 v)) (\<lambda>n.
     map_err (\<lambda>_. invalid_request ''partNumber must be in 1..=10000'') (PartNumber_parse n))"

definition has_object_route :: "ext \<Rightarrow> request \<Rightarrow> string option \<Rightarrow> bool" where
  "has_object_route E rq base =
     (let path = strip_slash (uri_path (rq_uri rq)) in
      if (case (request_host E rq, base) of
            (Some host, Some base_domain) \<Rightarrow> has_virtual_hosted_bucket host base_domain
          | _ \<Rightarrow> False)
      then path \<noteq> []
      else case split_once (CHR ''/'') path of
             Some (bucket, key) \<Rightarrow> bucket \<noteq> [] \<and> key \<noteq> []
           | None \<Rightarrow> False)"

text \<open>The arms for \<open>POST\<close>; \<open>None\<close> falls through to the rest.\<close>

definition detect_post :: "ext \<Rightarrow> string \<Rightarrow> s3_operation option s3res" where
  "detect_post E query =
     and_then (unique_query_flag E query ''uploads'') (\<lambda>has_uploads.
     and_then (unique_query_param E query ''uploadId'') (\<lambda>upload_id.
     if has_uploads \<and> upload_id \<noteq> None
     then Err (invalid_request ''multipart operation query is ambiguous'')
     else if has_uploads then Ok (Some Op_CreateMultipartUpload)
     else case upload_id of
            Some u \<Rightarrow> map_ok (\<lambda>i. Some (Op_CompleteMultipartUpload i)) (parse_upload_id_value E u)
          | None \<Rightarrow> Ok None))"

definition detect_put :: "ext \<Rightarrow> string option \<Rightarrow> string option \<Rightarrow> detected_operation s3res" where
  "detect_put E part_number upload_id =
     (case (upload_id, part_number) of
        (Some _, None) \<Rightarrow> Err (invalid_request ''partNumber is required'')
      | (None, Some _) \<Rightarrow> Err (invalid_request ''uploadId is required'')
      | (Some u, Some n) \<Rightarrow>
          and_then (parse_upload_id_value E u) (\<lambda>i.
          and_then (parse_part_number_value n) (\<lambda>k.
          Ok (DO_Implemented (Op_UploadPart i k))))
      | (None, None) \<Rightarrow> Ok (DO_Implemented Op_PutObject))"

definition detect_get :: "ext \<Rightarrow> string \<Rightarrow> string option \<Rightarrow> bool \<Rightarrow> detected_operation s3res" where
  "detect_get E query upload_id object_route =
     (case upload_id of
        Some u \<Rightarrow> map_ok (\<lambda>i. DO_Implemented (Op_ListParts i)) (parse_upload_id_value E u)
      | None \<Rightarrow>
          and_then (unique_query_param E query ''list-type'') (\<lambda>list_type.
          case list_type of
            Some t \<Rightarrow> Ok (if t = ''2'' then DO_ListObjectsV2 else DO_Unsupported)
          | None \<Rightarrow>
              Ok (if object_route then DO_Implemented Op_GetObject else DO_MethodNotAllowed)))"

definition detect_operation ::
  "ext \<Rightarrow> request \<Rightarrow> string option \<Rightarrow> string \<Rightarrow> detected_operation s3res" where
  "detect_operation E rq base query =
     (let method = rq_method rq in
      if method = ''HEAD'' then
        Ok (DO_Implemented (if has_object_route E rq base then Op_HeadObject else Op_HeadBucket))
      else
        and_then (if method = ''POST'' then detect_post E query else Ok None) (\<lambda>post.
        case post of
          Some op \<Rightarrow> Ok (DO_Implemented op)
        | None \<Rightarrow>
            and_then (unique_query_param E query ''partNumber'') (\<lambda>part_number.
            and_then (unique_query_param E query ''uploadId'') (\<lambda>upload_id.
            if method = ''PUT'' then detect_put E part_number upload_id
            else if method = ''DELETE'' then
              (case upload_id of
                 Some u \<Rightarrow> map_ok (\<lambda>i. DO_Implemented (Op_AbortMultipartUpload i)) (parse_upload_id_value E u)
               | None \<Rightarrow>
                   Ok (if has_object_route E rq base then DO_Implemented Op_DeleteObject
                       else DO_MethodNotAllowed))
            else if method = ''GET'' then detect_get E query upload_id (has_object_route E rq base)
            else Ok DO_MethodNotAllowed))))"

end
