(* ===== verification/Object_Handlers.thy ===== *)
theory Object_Handlers
  imports S3_Requests
begin

text \<open>
  The handlers of single objects and buckets: \<open>src/handlers/get_object.rs\<close>,
  \<open>head_object.rs\<close>, \<open>put_object.rs\<close>, \<open>delete_object.rs\<close>, \<open>head_bucket.rs\<close>. A handler runs
  on the \<open>world\<close>; a response body that streams a file is the bytes the stream yields.
\<close>

section \<open>More third-party functions\<close>

record web =
  w_header_name :: "string \<Rightarrow> string option"  \<comment> \<open>\<open>HeaderName::try_from\<close>\<close>
  w_build_error :: "string \<Rightarrow> string \<Rightarrow> string"  \<comment> \<open>the display of the builder's error\<close>
  w_rfc2822 :: "string \<Rightarrow> int option"  \<comment> \<open>\<open>DateTime::parse_from_rfc2822\<close>\<close>
  w_rfc850 :: "string \<Rightarrow> int option"  \<comment> \<open>\<open>parse_from_str(_, "%A, %d-%b-%y %H:%M:%S GMT")\<close>\<close>
  w_asctime :: "string \<Rightarrow> int option"  \<comment> \<open>\<open>parse_from_str(_, "%a %b %e %H:%M:%S %Y")\<close>\<close>
  w_format_http :: "int \<Rightarrow> string"  \<comment> \<open>\<open>format("%a, %d %b %Y %H:%M:%S GMT")\<close>\<close>
  w_format_rfc3339 :: "int \<Rightarrow> string"  \<comment> \<open>\<open>to_rfc3339_opts(Millis, true)\<close>\<close>
  w_to_bytes :: "body \<Rightarrow> nat \<Rightarrow> (bytes, string) result"  \<comment> \<open>\<open>axum::body::to_bytes\<close>\<close>
  w_complete_xml :: "string \<Rightarrow> ((nat option \<times> string option) list, string) result"
    \<comment> \<open>\<open>quick_xml::de::from_str\<close>: part numbers and ETags\<close>

text \<open>\<open>http::response::Builder\<close>: the status and headers so far, or its first error.\<close>

type_synonym builder = "(nat \<times> headers, string) result"

definition builder_new :: "nat \<Rightarrow> builder" where
  "builder_new status = Ok (status, [])"

definition builder_header :: "ext \<Rightarrow> web \<Rightarrow> string \<Rightarrow> string \<Rightarrow> builder \<Rightarrow> builder" where
  "builder_header E W name v b =
     and_then b (\<lambda>(status, hs).
     case w_header_name W name of
       None \<Rightarrow> Err (w_build_error W name v)
     | Some n \<Rightarrow>
         if x_header_value_ok E v then Ok (status, hdr_append n v hs)
         else Err (w_build_error W name v))"

text \<open>A header with a constant name.\<close>

definition builder_const :: "ext \<Rightarrow> web \<Rightarrow> string \<Rightarrow> string \<Rightarrow> builder \<Rightarrow> builder" where
  "builder_const E W name v b =
     and_then b (\<lambda>(status, hs).
     if x_header_value_ok E v then Ok (status, hdr_append name v hs)
     else Err (w_build_error W name v))"

definition builder_option :: "ext \<Rightarrow> web \<Rightarrow> string \<Rightarrow> string option \<Rightarrow> builder \<Rightarrow> builder" where
  "builder_option E W name v b =
     (case v of None \<Rightarrow> b | Some x \<Rightarrow> builder_const E W name x b)"

definition builder_map :: "ext \<Rightarrow> web \<Rightarrow> (string, string) btmap \<Rightarrow> builder \<Rightarrow> builder" where
  "builder_map E W m b = fold (\<lambda>(n, v). builder_header E W n v) m b"

definition builder_body :: "bytes \<Rightarrow> builder \<Rightarrow> response s3res" where
  "builder_body body b =
     map_err (\<lambda>m. internal_error (''failed to build response: '' @ m))
       (map_ok (\<lambda>(status, hs). \<lparr>rsp_status = status, rsp_headers = hs, rsp_body = body,
                                rsp_decoded_bytes = None\<rparr>) b)"

definition record_decoded_body_bytes :: "nat \<Rightarrow> response \<Rightarrow> response" where
  "record_decoded_body_bytes n r = r\<lparr>rsp_decoded_bytes := Some n\<rparr>"

section \<open>Object metadata headers and conditional requests\<close>

definition object_metadata_response_builder_with_status_and_length ::
  "ext \<Rightarrow> web \<Rightarrow> object_metadata \<Rightarrow> string \<Rightarrow> nat \<Rightarrow> nat \<Rightarrow> builder" where
  "object_metadata_response_builder_with_status_and_length E W md request_id status len =
     (let b0 = builder_const E W ''last-modified'' (w_format_http W (om_last_modified md))
                 (builder_const E W ''etag'' (om_etag md)
                 (builder_const E W ''content-length'' (show_nat len)
                 (builder_const E W ''accept-ranges'' ''bytes''
                 (builder_const E W ''x-amz-request-id'' request_id (builder_new status)))));
          b1 = builder_option E W ''x-amz-tagging'' (om_tagging md)
                 (builder_option E W ''expires'' (om_expires md)
                 (builder_option E W ''cache-control'' (om_cache_control md)
                 (builder_option E W ''content-language'' (om_content_language md)
                 (builder_option E W ''content-disposition'' (om_content_disposition md)
                 (builder_option E W ''content-encoding'' (om_content_encoding md)
                 (builder_option E W ''content-type'' (om_content_type md) b0))))));
          b2 = builder_map E W (om_user_metadata md) b1;
          b3 = (if om_checksums md = [] then b2
                else builder_const E W ''x-amz-checksum-type'' ''FULL_OBJECT'' b2)
      in builder_map E W (om_checksums md) b3)"

definition object_metadata_response_builder ::
  "ext \<Rightarrow> web \<Rightarrow> object_metadata \<Rightarrow> string \<Rightarrow> builder" where
  "object_metadata_response_builder E W md request_id =
     object_metadata_response_builder_with_status_and_length E W md request_id 200 (om_size md)"

definition strong_etag_condition_matches :: "string \<Rightarrow> string \<Rightarrow> bool" where
  "strong_etag_condition_matches v tag \<longleftrightarrow>
     list_ex (\<lambda>c. trim c = ''*'' \<or> trim c = tag) (split_on (CHR '','') v)"

definition weak_etag_value :: "string \<Rightarrow> string" where
  "weak_etag_value v = (case strip_prefix ''W/'' v of Some r \<Rightarrow> r | None \<Rightarrow> v)"

definition weak_etag_condition_matches :: "string \<Rightarrow> string \<Rightarrow> bool" where
  "weak_etag_condition_matches v tag \<longleftrightarrow>
     list_ex (\<lambda>c. trim c = ''*'' \<or> weak_etag_value (trim c) = weak_etag_value tag)
       (split_on (CHR '','') v)"

text \<open>\<open>DateTime::timestamp\<close>: whole seconds.\<close>

definition timestamp_seconds :: "int \<Rightarrow> int" where
  "timestamp_seconds t = t div 1000000000"

definition parse_http_datetime :: "web \<Rightarrow> string \<Rightarrow> string \<Rightarrow> int s3res" where
  "parse_http_datetime W v name =
     (case w_rfc2822 W v of
        Some t \<Rightarrow> Ok t
      | None \<Rightarrow>
          (case w_rfc850 W v of
             Some t \<Rightarrow> Ok t
           | None \<Rightarrow>
               ok_or (invalid_argument (name @ '' must be an HTTP-date'')) (w_asctime W v)))"

abbreviation precondition_error :: s3_error where
  "precondition_error \<equiv>
     precondition_failed ''At least one of the preconditions you specified did not hold.''"

definition not_modified_response ::
  "ext \<Rightarrow> web \<Rightarrow> object_metadata \<Rightarrow> string \<Rightarrow> response s3res" where
  "not_modified_response E W md request_id =
     builder_body [] (object_metadata_response_builder_with_status_and_length E W md request_id 304 0)"

text \<open>The four tests of \<open>conditional_response\<close>, in order; \<open>None\<close> continues.\<close>

definition check_if_match :: "ext \<Rightarrow> headers \<Rightarrow> object_metadata \<Rightarrow> unit s3res" where
  "check_if_match E hs md =
     (case hdr_get hs ''if-match'' of
        None \<Rightarrow> Ok ()
      | Some b \<Rightarrow>
          and_then (ok_or (invalid_request ''If-Match must be valid ASCII'') (x_to_str E b)) (\<lambda>v.
          ensure (strong_etag_condition_matches v (om_etag md)) precondition_error))"

definition check_if_none_match :: "ext \<Rightarrow> headers \<Rightarrow> object_metadata \<Rightarrow> bool s3res" where
  "check_if_none_match E hs md =
     (case hdr_get hs ''if-none-match'' of
        None \<Rightarrow> Ok False
      | Some b \<Rightarrow>
          map_ok (\<lambda>v. weak_etag_condition_matches v (om_etag md))
            (ok_or (invalid_request ''If-None-Match must be valid ASCII'') (x_to_str E b)))"

definition check_if_unmodified_since :: "ext \<Rightarrow> web \<Rightarrow> headers \<Rightarrow> object_metadata \<Rightarrow> unit s3res" where
  "check_if_unmodified_since E W hs md =
     (case hdr_get hs ''if-unmodified-since'' of
        None \<Rightarrow> Ok ()
      | Some b \<Rightarrow>
          if hdr_contains hs ''if-match'' then Ok ()
          else
            and_then (ok_or (invalid_request ''If-Unmodified-Since must be valid ASCII'') (x_to_str E b)) (\<lambda>v.
            and_then (parse_http_datetime W v ''If-Unmodified-Since'') (\<lambda>since.
            ensure (\<not> timestamp_seconds (om_last_modified md) > timestamp_seconds since)
              precondition_error)))"

definition check_if_modified_since :: "ext \<Rightarrow> web \<Rightarrow> headers \<Rightarrow> object_metadata \<Rightarrow> bool s3res" where
  "check_if_modified_since E W hs md =
     (case hdr_get hs ''if-modified-since'' of
        None \<Rightarrow> Ok False
      | Some b \<Rightarrow>
          if hdr_contains hs ''if-none-match'' then Ok False
          else
            and_then (ok_or (invalid_request ''If-Modified-Since must be valid ASCII'') (x_to_str E b)) (\<lambda>v.
            map_ok (\<lambda>since. timestamp_seconds (om_last_modified md) \<le> timestamp_seconds since)
              (parse_http_datetime W v ''If-Modified-Since'')))"

definition conditional_response ::
  "ext \<Rightarrow> web \<Rightarrow> headers \<Rightarrow> object_metadata \<Rightarrow> string \<Rightarrow> response option s3res" where
  "conditional_response E W hs md request_id =
     and_then (check_if_match E hs md) (\<lambda>_.
     and_then (check_if_none_match E hs md) (\<lambda>none_match.
     if none_match then map_ok Some (not_modified_response E W md request_id)
     else
       and_then (check_if_unmodified_since E W hs md) (\<lambda>_.
       and_then (check_if_modified_since E W hs md) (\<lambda>unmodified.
       if unmodified then map_ok Some (not_modified_response E W md request_id)
       else Ok None))))"

section \<open>HeadObject, HeadBucket, DeleteObject\<close>

text \<open>Lifting a store call: its error becomes an S3 error.\<close>

definition object_call :: "string \<Rightarrow> (fs, 'a, store_error) io \<Rightarrow> 'a handler" where
  "object_call what m =
     io_map_err (\<lambda>e. Fail (internal_error (what @ store_error_display e))) (on_store (on_fs m))"

definition head_object_handler ::
  "ext \<Rightarrow> web \<Rightarrow> app_state \<Rightarrow> request \<Rightarrow> string \<Rightarrow> auth_context \<Rightarrow> response handler" where
  "head_object_handler E W A rq request_id auth =
     io_bind (try_res (resolve_request_target E A rq)) (\<lambda>target.
     io_bind (try_res (authorize_request A auth (tgt_bucket target) (Some (tgt_key target))
       Act_HeadObject)) (\<lambda>_.
     io_bind (try_res (validate_empty_payload_hash E rq)) (\<lambda>_.
     io_bind (object_call ''failed to read object metadata: ''
       (head_object E (app_codec A) (tgt_bucket target) (tgt_key target))) (\<lambda>found.
     io_bind (try_res (ok_or no_such_key found)) (\<lambda>md.
     io_bind (try_res (conditional_response E W (rq_headers rq) md request_id)) (\<lambda>early.
     case early of
       Some r \<Rightarrow> io_return r
     | None \<Rightarrow> try_res (builder_body [] (object_metadata_response_builder E W md request_id))))))))"

definition head_bucket_handler ::
  "ext \<Rightarrow> web \<Rightarrow> app_state \<Rightarrow> request \<Rightarrow> string \<Rightarrow> auth_context \<Rightarrow> response handler" where
  "head_bucket_handler E W A rq request_id auth =
     io_bind (try_res (resolve_request_bucket E A rq)) (\<lambda>bucket.
     io_bind (try_res (authorize_request A auth bucket None Act_HeadBucket)) (\<lambda>_.
     io_bind (try_res (validate_empty_payload_hash E rq)) (\<lambda>_.
     try_res (builder_body []
       (builder_const E W ''content-length'' ''0''
       (builder_const E W ''x-amz-request-id'' request_id (builder_new 200)))))))"

definition delete_object_handler ::
  "ext \<Rightarrow> web \<Rightarrow> app_state \<Rightarrow> request \<Rightarrow> string \<Rightarrow> auth_context \<Rightarrow> response handler" where
  "delete_object_handler E W A rq request_id auth =
     io_bind (try_res (resolve_request_target E A rq)) (\<lambda>target.
     io_bind (try_res (authorize_request A auth (tgt_bucket target) (Some (tgt_key target))
       Act_DeleteObject)) (\<lambda>_.
     io_bind (try_res (validate_empty_payload_hash E rq)) (\<lambda>_.
     io_bind (object_call ''failed to delete object: ''
       (delete_object E (tgt_bucket target) (tgt_key target))) (\<lambda>_.
     try_res (builder_body []
       (builder_const E W ''content-length'' ''0''
       (builder_const E W ''x-amz-request-id'' request_id (builder_new 204))))))))"

section \<open>GetObject\<close>

record byte_range =
  br_start :: nat
  br_end :: nat

definition ByteRange_len :: "byte_range \<Rightarrow> nat" where
  "ByteRange_len r = br_end r - br_start r + 1"

definition parse_range_number :: "string \<Rightarrow> nat s3res" where
  "parse_range_number v =
     ok_or (invalid_range ''Range contains an invalid byte position'') (parse_u64 v)"

definition unsatisfiable_range_error :: "ext \<Rightarrow> nat \<Rightarrow> s3_error" where
  "unsatisfiable_range_error E object_size =
     (let e = invalid_range ''Range is not satisfiable'';
          v = ''bytes */'' @ show_nat object_size
      in if x_header_value_ok E v then with_header e ''content-range'' v else e)"

definition parse_range_spec :: "ext \<Rightarrow> string \<Rightarrow> string \<Rightarrow> nat \<Rightarrow> byte_range s3res" where
  "parse_range_spec E start_text end_text object_size =
     (if start_text \<noteq> [] \<and> end_text \<noteq> [] then
        and_then (parse_range_number start_text) (\<lambda>start.
        and_then (parse_range_number end_text) (\<lambda>last.
        if start > last \<or> start \<ge> object_size then Err (unsatisfiable_range_error E object_size)
        else Ok \<lparr>br_start = start, br_end = min last (object_size - 1)\<rparr>))
      else if start_text \<noteq> [] then
        and_then (parse_range_number start_text) (\<lambda>start.
        if start \<ge> object_size then Err (unsatisfiable_range_error E object_size)
        else Ok \<lparr>br_start = start, br_end = object_size - 1\<rparr>)
      else if end_text \<noteq> [] then
        and_then (parse_range_number end_text) (\<lambda>suffix_len.
        if suffix_len = 0 then Err (unsatisfiable_range_error E object_size)
        else Ok \<lparr>br_start = object_size - suffix_len, br_end = object_size - 1\<rparr>)
      else Err (unsatisfiable_range_error E object_size))"

definition parse_range_header :: "ext \<Rightarrow> headers \<Rightarrow> nat \<Rightarrow> byte_range option s3res" where
  "parse_range_header E hs object_size =
     (case hdr_get hs ''range'' of
        None \<Rightarrow> Ok None
      | Some b \<Rightarrow>
          and_then (ok_or (invalid_range ''Range must be valid ASCII'') (x_to_str E b)) (\<lambda>v.
          and_then (ok_or (invalid_range ''Only bytes ranges are supported'') (strip_prefix ''bytes='' v)) (\<lambda>spec.
          if CHR '','' \<in> set spec then Err (invalid_range ''Multiple byte ranges are not supported'')
          else
            and_then (ok_or (invalid_range ''Range must use bytes=start-end syntax'')
              (split_once (CHR ''-'') spec)) (\<lambda>(start_text, end_text).
            if object_size = 0 then Err (unsatisfiable_range_error E object_size)
            else map_ok Some (parse_range_spec E start_text end_text object_size)))))"

definition OVERRIDES :: "(string \<times> string) list" where
  "OVERRIDES =
     [(''response-cache-control'', ''cache-control''),
      (''response-content-disposition'', ''content-disposition''),
      (''response-content-encoding'', ''content-encoding''),
      (''response-content-language'', ''content-language''),
      (''response-content-type'', ''content-type''),
      (''response-expires'', ''expires'')]"

fun apply_overrides :: "ext \<Rightarrow> string \<Rightarrow> (string \<times> string) list \<Rightarrow> builder \<Rightarrow> builder s3res" where
  "apply_overrides E query [] b = Ok b"
| "apply_overrides E query ((query_name, target) # os) b =
     and_then (unique_query_param E query query_name) (\<lambda>value.
     case value of
       None \<Rightarrow> apply_overrides E query os b
     | Some v \<Rightarrow>
         if \<not> x_header_value_ok E v
         then Err (invalid_request (query_name @ '' is not a valid header value''))
         else case b of
                Err _ \<Rightarrow> Err (internal_error ''failed to apply response header override'')
              | Ok (status, hs) \<Rightarrow> apply_overrides E query os (Ok (status, hdr_insert target v hs)))"

definition apply_response_overrides :: "ext \<Rightarrow> builder \<Rightarrow> string \<Rightarrow> builder s3res" where
  "apply_response_overrides E b query = apply_overrides E query OVERRIDES b"

text \<open>The chunks a file stream yields: full buffers and a rest, until a read returns nothing.\<close>

function file_stream :: "bytes \<Rightarrow> nat \<Rightarrow> bytes list" where
  "file_stream content buffer_size =
     (let chunk = take buffer_size content in
      if chunk = [] then [] else chunk # file_stream (drop buffer_size content) buffer_size)"
  by pat_completeness auto
termination
  by (relation "measure (\<lambda>(c, _). length c)") auto

function file_stream_limited :: "bytes \<Rightarrow> nat \<Rightarrow> nat \<Rightarrow> bytes list" where
  "file_stream_limited content remaining buffer_size =
     (if remaining = 0 then []
      else let limit = min remaining buffer_size; chunk = take limit content in
        if chunk = [] then []
        else chunk # file_stream_limited (drop limit content) (remaining - length chunk) buffer_size)"
  by pat_completeness auto
termination
  by (relation "measure (\<lambda>(c, _, _). length c)") auto

declare file_stream.simps [simp del] file_stream_limited.simps [simp del]

abbreviation request_query :: "request \<Rightarrow> string" where
  "request_query rq \<equiv> (case uri_query (rq_uri rq) of None \<Rightarrow> [] | Some q \<Rightarrow> q)"

definition get_object_response ::
  "ext \<Rightarrow> web \<Rightarrow> app_state \<Rightarrow> request \<Rightarrow> string \<Rightarrow> object_metadata \<Rightarrow> bytes \<Rightarrow> byte_range option
     \<Rightarrow> response s3res" where
  "get_object_response E W A rq request_id md content rng =
     (let buffer = io_object_stream_buffer_size (app_io_tuning A) in
      case rng of
        Some r \<Rightarrow>
          (let b = builder_const E W ''content-range''
                (''bytes '' @ show_nat (br_start r) @ ''-'' @ show_nat (br_end r) @ ''/'' @ show_nat (om_size md))
                (object_metadata_response_builder_with_status_and_length E W md request_id 206
                  (ByteRange_len r))
           in and_then (apply_response_overrides E b (request_query rq)) (\<lambda>b'.
              builder_body (concat (file_stream_limited (drop (br_start r) content)
                (ByteRange_len r) buffer)) b'))
      | None \<Rightarrow>
          and_then (apply_response_overrides E (object_metadata_response_builder E W md request_id)
            (request_query rq)) (\<lambda>b'.
          builder_body (concat (file_stream content buffer)) b'))"

text \<open>\<open>file.seek\<close> on the opened file: it may fail and changes no file.\<close>

definition seek_file :: "unit handler" where
  "seek_file =
     io_map_err (\<lambda>e. Fail (internal_error (''failed to seek object: '' @ io_error_display e)))
       (on_store (on_fs fs_step))"

definition get_object_handler ::
  "ext \<Rightarrow> web \<Rightarrow> app_state \<Rightarrow> request \<Rightarrow> string \<Rightarrow> auth_context \<Rightarrow> response handler" where
  "get_object_handler E W A rq request_id auth =
     io_bind (try_res (resolve_request_target E A rq)) (\<lambda>target.
     io_bind (try_res (authorize_request A auth (tgt_bucket target) (Some (tgt_key target))
       Act_GetObject)) (\<lambda>_.
     io_bind (try_res (validate_empty_payload_hash E rq)) (\<lambda>_.
     io_bind (object_call ''failed to open object: ''
       (open_object E (app_codec A) (tgt_bucket target) (tgt_key target))) (\<lambda>found.
     io_bind (try_res (ok_or no_such_key found)) (\<lambda>(md, content).
     io_bind (try_res (conditional_response E W (rq_headers rq) md request_id)) (\<lambda>early.
     case early of
       Some r \<Rightarrow> io_return r
     | None \<Rightarrow>
         io_bind (try_res (parse_range_header E (rq_headers rq) (om_size md))) (\<lambda>rng.
         io_bind (case rng of None \<Rightarrow> io_return () | Some _ \<Rightarrow> seek_file) (\<lambda>_.
         try_res (get_object_response E W A rq request_id md content rng)))))))))"

section \<open>PutObject\<close>

text \<open>The processors with the UUIDs of their replacement files.\<close>

definition numbered_processors :: "env \<Rightarrow> nat \<Rightarrow> processor list \<Rightarrow> (processor \<times> string) list" where
  "numbered_processors V n ps = zip ps (map (\<lambda>i. ev_uuid V (n + i)) [0..<length ps])"

definition put_object_metadata ::
  "ext \<Rightarrow> env \<Rightarrow> app_state \<Rightarrow> s3_target \<Rightarrow> upload_metadata \<Rightarrow> uploaded_body \<Rightarrow> final_upload_body
     \<Rightarrow> object_metadata" where
  "put_object_metadata E V A target um ub fb =
     \<lparr>om_bucket = tgt_bucket target, om_key = tgt_key target, om_size = fu_size fb,
      om_etag = ETag_from_hex_md5 (x_hex_encode E (dg_md5 (fu_digests fb))),
      om_content_type = um_content_type um, om_content_encoding = um_content_encoding um,
      om_content_disposition = um_content_disposition um,
      om_content_language = um_content_language um, om_cache_control = um_cache_control um,
      om_expires = um_expires um, om_tagging = um_tagging um,
      om_user_metadata = um_user_metadata um,
      om_checksums = (if app_upload_processors A = [] then up_checksums ub
        else checksum_values_for_requested_headers E (up_checksums ub) (fu_digests fb)),
      om_last_modified = ev_now V\<rparr>"

definition put_object_response ::
  "ext \<Rightarrow> web \<Rightarrow> object_metadata \<Rightarrow> string \<Rightarrow> response s3res" where
  "put_object_response E W md request_id =
     (let b0 = builder_const E W ''content-length'' ''0''
                 (builder_const E W ''x-amz-request-id'' request_id
                 (builder_const E W ''etag'' (om_etag md) (builder_new 200)));
          b1 = (if om_checksums md = [] then b0
                else builder_const E W ''x-amz-checksum-type'' ''FULL_OBJECT'' b0)
      in map_ok (record_decoded_body_bytes (om_size md)) (builder_body [] (builder_map E W (om_checksums md) b1)))"

text \<open>
  The part of \<open>handle_put_object\<close> that owns the staging file, from the finished write to
  the commit. A \<open>None\<close> from the body reader is its unreachable arm, a panic.
\<close>

definition put_staged ::
  "ext \<Rightarrow> web \<Rightarrow> env \<Rightarrow> app_state \<Rightarrow> s3_target \<Rightarrow> upload_metadata \<Rightarrow> string \<Rightarrow> uploaded_body
     \<Rightarrow> staged_object \<Rightarrow> response handler" where
  "put_staged E W V A target um request_id ub staged =
     (let ctx = \<lparr>pc_request_id = request_id, pc_bucket = tgt_bucket target, pc_key = tgt_key target,
            pc_operation = ProcPutObject, pc_original_size = up_size ub,
            pc_content_type = um_content_type um, pc_user_metadata = um_user_metadata um\<rparr>
      in
      io_bind (io_map_err Fail (on_store (on_fs (process_staged_upload
        (numbered_processors V 1 (app_upload_processors A)) staged ctx)))) (\<lambda>staged.
      io_match (on_store (on_fs (summarize_file E
        (io_upload_summary_buffer_size (app_io_tuning A)) (st_path staged)))) (\<lambda>r. case r of
        Err e \<Rightarrow> io_ignore (on_store (on_fs (staged_discard staged))) (io_fail (Fail e))
      | Ok fb \<Rightarrow>
          if fu_size fb > ul_max_object_size (cf_upload_limits (app_config A))
          then io_ignore (on_store (on_fs (staged_discard staged)))
                 (io_fail (Fail (entity_too_large
                   ''Your proposed upload exceeds the maximum allowed size.'')))
          else
            let md = put_object_metadata E V A target um ub fb in
            io_bind (object_call ''failed to commit object: ''
              (commit_staged_object E (app_codec A) staged md)) (\<lambda>_.
            try_res (put_object_response E W md request_id)))))"

definition put_body ::
  "ext \<Rightarrow> web \<Rightarrow> env \<Rightarrow> app_state \<Rightarrow> request \<Rightarrow> s3_target \<Rightarrow> upload_metadata \<Rightarrow> string \<Rightarrow> auth_context
     \<Rightarrow> response handler" where
  "put_body E W V A rq target um request_id auth =
     io_bind (object_call ''failed to create temporary object: ''
       (create_temp_object (ev_uuid V 0))) (\<lambda>temp.
     case write_upload_body E (rq_headers rq) (rq_body rq) (fresh_sink (ev_writes V)) ''object body''
            (ax_streaming_signing auth) (ul_max_object_size (cf_upload_limits (app_config A))) of
       (w, outcome) \<Rightarrow>
         (let temp = temp\<lparr>tw_bytes := sk_bytes w\<rparr> in
          case outcome of
            None \<Rightarrow> io_ignore (on_store (on_fs (temp_discard temp))) (io_fail Panic)
          | Some (Err e) \<Rightarrow> io_ignore (on_store (on_fs (temp_discard temp))) (io_fail (Fail e))
          | Some (Ok ub) \<Rightarrow>
              io_bind (object_call ''failed to flush object body: '' (temp_finish temp)) (\<lambda>staged.
              put_staged E W V A target um request_id ub staged)))"

definition handle_put_object ::
  "ext \<Rightarrow> web \<Rightarrow> env \<Rightarrow> app_state \<Rightarrow> request \<Rightarrow> string \<Rightarrow> auth_context \<Rightarrow> response handler" where
  "handle_put_object E W V A rq request_id auth =
     io_bind (try_res (resolve_request_target E A rq)) (\<lambda>target.
     io_bind (try_res (map_err (\<lambda>e. with_resource e (uri_path (rq_uri rq)))
       (validate_supported_request_body_length E (rq_headers rq)))) (\<lambda>_.
     io_bind (try_res (validate_upload_headers (rq_headers rq))) (\<lambda>_.
     io_bind (try_res (authorize_request A auth (tgt_bucket target) (Some (tgt_key target))
       Act_PutObject)) (\<lambda>_.
     io_bind (try_res (allow_upload A \<lparr>uc_request_id = request_id, uc_bucket = tgt_bucket target,
       uc_key = tgt_key target, uc_action = Act_PutObject, uc_headers = rq_headers rq\<rparr>)) (\<lambda>_.
     io_bind (try_res (collect_upload_metadata E (rq_headers rq))) (\<lambda>um.
     with_permit try_acquire_object_writer (release ad_object_writers_update)
       (with_aws_chunked_decoder E (rq_headers rq)
         (put_body E W V A rq target um request_id auth))))))))"

end
