(* ===== verification/Multipart_Handlers.thy ===== *)
theory Multipart_Handlers
  imports Object_Handlers
begin

text \<open>
  The handlers of multipart uploads (\<open>src/handlers/multipart.rs\<close>): create, upload a part, list
  parts, abort, complete.
\<close>

section \<open>Shared helpers\<close>

definition COMPLETE_MULTIPART_XML_LIMIT :: nat where
  "COMPLETE_MULTIPART_XML_LIMIT = 8 * 1024 * 1024"

fun map_store_error :: "store_error \<Rightarrow> s3_error" where
  "map_store_error SE_NoSuchUpload = no_such_upload"
| "map_store_error SE_InvalidPart =
     invalid_part ''One or more parts could not be found or the ETag did not match.''"
| "map_store_error SE_EntityTooSmall =
     entity_too_small ''Your proposed upload is smaller than the minimum allowed object size.''"
| "map_store_error SE_EntityTooLarge =
     entity_too_large ''Your proposed upload exceeds the maximum allowed size.''"
| "map_store_error (SE_Checksum e) = e"
| "map_store_error (SE_Processor e) = e"
| "map_store_error other =
     internal_error (''storage operation failed: '' @ store_error_display other)"

definition store_call :: "(multipart, 'a, store_error) io \<Rightarrow> 'a handler" where
  "store_call m = io_map_err (\<lambda>e. Fail (map_store_error e)) (on_store m)"

definition xml_response :: "ext \<Rightarrow> web \<Rightarrow> nat \<Rightarrow> string \<Rightarrow> string \<Rightarrow> response s3res" where
  "xml_response E W status request_id body =
     builder_body body
       (builder_const E W ''x-amz-request-id'' request_id
       (builder_const E W ''content-type'' ''application/xml; charset=utf-8'' (builder_new status)))"

text \<open>One line \<open>  <name>text</name>\<close> of a result document, and the document around the lines.\<close>

definition xml_line :: "string \<Rightarrow> string \<Rightarrow> string" where
  "xml_line name content =
     ''  <'' @ name @ ''>'' @ content @ ''</'' @ name @ ''>'' @ [LF]"

definition xml_document :: "string \<Rightarrow> string \<Rightarrow> string" where
  \<open>xml_document root content =
     ''<?xml version="1.0" encoding="UTF-8"?>'' @ [LF] @
     ''<'' @ root @ '' xmlns="http://s3.amazonaws.com/doc/2006-03-01/">'' @ [LF] @
     content @ ''</'' @ root @ ''>'' @ [LF]\<close>

definition validate_upload_session_target ::
  "ext \<Rightarrow> app_state \<Rightarrow> request \<Rightarrow> auth_context \<Rightarrow> upload_id \<Rightarrow> upload_session handler" where
  "validate_upload_session_target E A rq auth u w =
     (try_res (
        and_then (ok_or no_such_upload (get_upload u (wd_store w))) (\<lambda>session.
        and_then (ensure (is_open session) no_such_upload) (\<lambda>_.
        and_then (resolve_request_target E A rq) (\<lambda>target.
        and_then (ensure (\<not> (tgt_bucket target \<noteq> us_bucket session \<or> tgt_key target \<noteq> us_key session))
          no_such_upload) (\<lambda>_.
        and_then (ensure (\<not> (case us_owner session of
              None \<Rightarrow> False | Some owner \<Rightarrow> ax_access_key_id auth \<noteq> Some owner)) no_such_upload) (\<lambda>_.
        Ok session))))))) w"

section \<open>CreateMultipartUpload\<close>

definition create_multipart_upload ::
  "ext \<Rightarrow> web \<Rightarrow> env \<Rightarrow> app_state \<Rightarrow> request \<Rightarrow> string \<Rightarrow> auth_context \<Rightarrow> response handler" where
  "create_multipart_upload E W V A rq request_id auth =
     io_bind (try_res (validate_empty_request_body_headers E (rq_headers rq) ''CreateMultipartUpload'')) (\<lambda>_.
     io_bind (try_res (validate_upload_headers (rq_headers rq))) (\<lambda>_.
     io_bind (try_res (validate_empty_payload_hash E rq)) (\<lambda>_.
     io_bind (try_res (resolve_request_target E A rq)) (\<lambda>target.
     io_bind (try_res (authorize_request A auth (tgt_bucket target) (Some (tgt_key target))
       Act_CreateMultipartUpload)) (\<lambda>_.
     io_bind (try_res (allow_upload A \<lparr>uc_request_id = request_id, uc_bucket = tgt_bucket target,
       uc_key = tgt_key target, uc_action = Act_CreateMultipartUpload, uc_headers = rq_headers rq\<rparr>)) (\<lambda>_.
     io_bind (try_res (collect_upload_metadata E (rq_headers rq))) (\<lambda>um.
     io_bind (store_call (create_upload (app_codec A) (ev_uuid V 0) (ev_uuid V 1) (ev_now V)
       (tgt_bucket target) (tgt_key target) (ax_access_key_id auth) um)) (\<lambda>session.
     try_res (xml_response E W 200 request_id
       (xml_document ''InitiateMultipartUploadResult''
         (xml_line ''Bucket'' (escape_xml (us_bucket session)) @
          xml_line ''Key'' (escape_xml (us_key session)) @
          xml_line ''UploadId'' (escape_xml (us_upload_id session)))))))))))))"

section \<open>UploadPart\<close>

definition discard_part_and_fail :: "temp_part \<Rightarrow> s3_error fail \<Rightarrow> 'a handler" where
  "discard_part_and_fail temp e = io_ignore (on_store (on_fs (part_discard temp))) (io_fail e)"

definition upload_part_body ::
  "ext \<Rightarrow> web \<Rightarrow> env \<Rightarrow> app_state \<Rightarrow> request \<Rightarrow> string \<Rightarrow> upload_id \<Rightarrow> part_number \<Rightarrow> auth_context
     \<Rightarrow> response handler" where
  "upload_part_body E W V A rq request_id u n auth =
     io_bind (store_call (create_temp_part (ev_uuid V 0) u n)) (\<lambda>temp.
     case write_upload_body E (rq_headers rq) (rq_body rq) (fresh_sink (ev_writes V)) ''part body''
            (ax_streaming_signing auth) (ul_max_part_size (cf_upload_limits (app_config A))) of
       (w, outcome) \<Rightarrow>
         (let temp = temp\<lparr>tp_bytes := sk_bytes w\<rparr> in
          case outcome of
            None \<Rightarrow> discard_part_and_fail temp Panic
          | Some (Err e) \<Rightarrow> discard_part_and_fail temp (Fail e)
          | Some (Ok ub) \<Rightarrow>
              io_match (on_store (on_fs (part_flush temp))) (\<lambda>flushed.
              case flushed of
                Err e \<Rightarrow> discard_part_and_fail temp
                  (Fail (internal_error (''failed to flush part body: '' @ io_error_display e)))
              | Ok _ \<Rightarrow>
                  let tag = ETag_from_hex_md5 (x_hex_encode E (up_md5_digest ub)) in
                  io_bind (store_call (commit_part (app_codec A) (ev_uuid V 1) (ev_uuid V 2) (ev_now V)
                    u n (tp_path temp)
                    \<lparr>ct_size = up_size ub, ct_md5 = up_md5_digest ub, ct_etag = tag,
                     ct_checksums = up_checksums ub\<rparr>)) (\<lambda>_.
                  try_res (map_ok (record_decoded_body_bytes (up_size ub))
                    (builder_body [] (builder_map E W (up_checksums ub)
                      (builder_const E W ''content-length'' ''0''
                      (builder_const E W ''x-amz-request-id'' request_id
                      (builder_const E W ''etag'' tag (builder_new 200)))))))))))"

definition upload_part ::
  "ext \<Rightarrow> web \<Rightarrow> env \<Rightarrow> app_state \<Rightarrow> request \<Rightarrow> string \<Rightarrow> upload_id \<Rightarrow> part_number \<Rightarrow> auth_context
     \<Rightarrow> response handler" where
  "upload_part E W V A rq request_id u n auth =
     io_bind (try_res (validate_supported_request_body_length E (rq_headers rq))) (\<lambda>_.
     io_bind (try_res (validate_upload_headers (rq_headers rq))) (\<lambda>_.
     io_bind (validate_upload_session_target E A rq auth u) (\<lambda>session.
     io_bind (try_res (authorize_request A auth (us_bucket session) (Some (us_key session))
       Act_UploadPart)) (\<lambda>_.
     io_bind (try_res (allow_upload A \<lparr>uc_request_id = request_id, uc_bucket = us_bucket session,
       uc_key = us_key session, uc_action = Act_UploadPart, uc_headers = rq_headers rq\<rparr>)) (\<lambda>_.
     with_permit try_acquire_multipart_part_writer (release ad_multipart_part_writers_update)
       (with_aws_chunked_decoder E (rq_headers rq)
         (upload_part_body E W V A rq request_id u n auth)))))))"

section \<open>ListParts\<close>

record list_parts_page_request =
  lp_max_parts :: nat
  lp_part_number_marker :: nat

definition ListPartsPageRequest_parse :: "ext \<Rightarrow> string \<Rightarrow> list_parts_page_request s3res" where
  "ListPartsPageRequest_parse E query =
     and_then (unique_query_param E query ''max-parts'') (\<lambda>max_text.
     and_then (case max_text of
         None \<Rightarrow> Ok 1000
       | Some v \<Rightarrow>
           and_then (ok_or (invalid_argument ''max-parts must be an integer'') (parse_u64 v)) (\<lambda>n.
           if n = 0 then Err (invalid_argument ''max-parts must be in 1..=1000'')
           else Ok (min n 1000))) (\<lambda>max_parts.
     and_then (unique_query_param E query ''part-number-marker'') (\<lambda>marker_text.
     and_then (case marker_text of
         None \<Rightarrow> Ok 0
       | Some v \<Rightarrow>
           and_then (ok_or (invalid_argument ''part-number-marker must be an integer'') (parse_u16 v)) (\<lambda>m.
           if m > 10000 then Err (invalid_argument ''part-number-marker must be in 0..=10000'')
           else Ok m)) (\<lambda>marker.
     Ok \<lparr>lp_max_parts = max_parts, lp_part_number_marker = marker\<rparr>))))"

text \<open>The parts of one page, whether more follow, and the marker of the next page.\<close>

definition list_parts_page ::
  "upload_session \<Rightarrow> list_parts_page_request \<Rightarrow> part_metadata list \<times> bool \<times> part_number option" where
  "list_parts_page session page =
     (let matching = take (lp_max_parts page + 1)
            (filter (\<lambda>p. pm_part_number p > lp_part_number_marker page) (map snd (us_parts session)));
          is_truncated = length matching > lp_max_parts page;
          listed = take (lp_max_parts page) matching
      in (listed, is_truncated,
          if is_truncated \<and> listed \<noteq> [] then Some (pm_part_number (last listed)) else None))"

definition part_checksum_xml :: "(string, string) btmap \<Rightarrow> string" where
  "part_checksum_xml checksums =
     concat (map (\<lambda>(name, value). case from_header_name name of
         None \<Rightarrow> []
       | Some c \<Rightarrow> ''  '' @ xml_line (xml_element_name c) (escape_xml value)) checksums)"

definition part_xml :: "web \<Rightarrow> part_metadata \<Rightarrow> string" where
  "part_xml W p =
     ''  <Part>'' @ [LF] @
     ''  '' @ xml_line ''PartNumber'' (show_nat (pm_part_number p)) @
     ''  '' @ xml_line ''LastModified'' (w_format_rfc3339 W (pm_last_modified p)) @
     ''  '' @ xml_line ''ETag'' (escape_xml (pm_etag p)) @
     ''  '' @ xml_line ''Size'' (show_nat (pm_size p)) @
     part_checksum_xml (pm_checksums p) @
     ''  </Part>'' @ [LF]"

definition list_parts_xml ::
  "web \<Rightarrow> upload_session \<Rightarrow> list_parts_page_request \<Rightarrow> string" where
  "list_parts_xml W session page =
     (case list_parts_page session page of (listed, is_truncated, next_marker) \<Rightarrow>
      xml_document ''ListPartsResult''
        (xml_line ''Bucket'' (escape_xml (us_bucket session)) @
         xml_line ''Key'' (escape_xml (us_key session)) @
         xml_line ''UploadId'' (escape_xml (us_upload_id session)) @
         xml_line ''PartNumberMarker'' (show_nat (lp_part_number_marker page)) @
         xml_line ''MaxParts'' (show_nat (lp_max_parts page)) @
         xml_line ''IsTruncated'' (if is_truncated then ''true'' else ''false'') @
         (case next_marker of None \<Rightarrow> [] | Some m \<Rightarrow> xml_line ''NextPartNumberMarker'' (show_nat m)) @
         concat (map (part_xml W) listed)))"

definition list_parts ::
  "ext \<Rightarrow> web \<Rightarrow> app_state \<Rightarrow> request \<Rightarrow> string \<Rightarrow> upload_id \<Rightarrow> auth_context \<Rightarrow> response handler" where
  "list_parts E W A rq request_id u auth =
     io_bind (try_res (ListPartsPageRequest_parse E (request_query rq))) (\<lambda>page.
     io_bind (validate_upload_session_target E A rq auth u) (\<lambda>session.
     io_bind (try_res (authorize_request A auth (us_bucket session) (Some (us_key session))
       Act_ListMultipartUploadParts)) (\<lambda>_.
     io_bind (try_res (validate_empty_payload_hash E rq)) (\<lambda>_.
     try_res (xml_response E W 200 request_id (list_parts_xml W session page))))))"

section \<open>AbortMultipartUpload\<close>

definition abort_multipart_upload ::
  "ext \<Rightarrow> web \<Rightarrow> env \<Rightarrow> app_state \<Rightarrow> request \<Rightarrow> string \<Rightarrow> upload_id \<Rightarrow> auth_context \<Rightarrow> response handler" where
  "abort_multipart_upload E W V A rq request_id u auth =
     io_bind (try_res (validate_empty_request_body_headers E (rq_headers rq) ''AbortMultipartUpload'')) (\<lambda>_.
     io_bind (validate_upload_session_target E A rq auth u) (\<lambda>session.
     io_bind (try_res (authorize_request A auth (us_bucket session) (Some (us_key session))
       Act_AbortMultipartUpload)) (\<lambda>_.
     io_bind (try_res (validate_empty_payload_hash E rq)) (\<lambda>_.
     io_bind (store_call (abort_upload (app_codec A) (ev_uuid V 0) u)) (\<lambda>_.
     try_res (builder_body []
       (builder_const E W ''content-length'' ''0''
       (builder_const E W ''x-amz-request-id'' request_id (builder_new 204)))))))))"

section \<open>CompleteMultipartUpload\<close>

definition completion_location :: "ext \<Rightarrow> request \<Rightarrow> string" where
  "completion_location E rq =
     (case request_host E rq of
        None \<Rightarrow> uri_path (rq_uri rq)
      | Some host \<Rightarrow> ''http://'' @ host @ uri_path (rq_uri rq))"

definition parse_completed_part :: "nat option \<times> string option \<Rightarrow> completed_part s3res" where
  "parse_completed_part p =
     (case p of (number, tag) \<Rightarrow>
      and_then (ok_or (malformed_xml ''PartNumber is required'') number) (\<lambda>n.
      and_then (map_err (\<lambda>_. invalid_part ''PartNumber must be in 1..=10000'') (PartNumber_parse n)) (\<lambda>n.
      and_then (ok_or (malformed_xml ''ETag is required'') tag) (\<lambda>t.
      and_then (map_err (\<lambda>_. invalid_part ''ETag is invalid'') (ETag_parse t)) (\<lambda>t.
      Ok \<lparr>cp_part_number = n, cp_etag = t\<rparr>)))))"

definition parse_completed_parts :: "web \<Rightarrow> string \<Rightarrow> completed_part list s3res" where
  "parse_completed_parts W xml =
     and_then (map_err malformed_xml (w_complete_xml W xml)) (\<lambda>parts.
     collect_res parse_completed_part parts)"

fun ascending_pairs :: "nat list \<Rightarrow> bool" where
  "ascending_pairs (a # b # ns) = (\<not> a \<ge> b \<and> ascending_pairs (b # ns))"
| "ascending_pairs _ = True"

definition validate_ascending_parts :: "completed_part list \<Rightarrow> unit s3res" where
  "validate_ascending_parts parts =
     ensure (ascending_pairs (map cp_part_number parts))
       (invalid_part ''Parts must be specified in ascending PartNumber order.'')"

definition complete_multipart_response ::
  "ext \<Rightarrow> web \<Rightarrow> request \<Rightarrow> string \<Rightarrow> object_metadata \<Rightarrow> response s3res" where
  "complete_multipart_response E W rq request_id md =
     (let b0 = builder_const E W ''x-amz-request-id'' request_id
                 (builder_const E W ''content-type'' ''application/xml; charset=utf-8'' (builder_new 200));
          b1 = (if om_checksums md = [] then b0
                else builder_const E W ''x-amz-checksum-type'' ''FULL_OBJECT'' b0);
          body = xml_document ''CompleteMultipartUploadResult''
            (xml_line ''Location'' (escape_xml (completion_location E rq)) @
             xml_line ''Bucket'' (escape_xml (om_bucket md)) @
             xml_line ''Key'' (escape_xml (om_key md)) @
             xml_line ''ETag'' (escape_xml (om_etag md)))
      in map_ok (record_decoded_body_bytes (om_size md))
           (builder_body body (builder_map E W (om_checksums md) b1)))"

definition completion_request ::
  "ext \<Rightarrow> web \<Rightarrow> request \<Rightarrow> (completed_part list \<times> checksum_request) s3res" where
  "completion_request E W rq =
     and_then (map_err (\<lambda>m. invalid_request (''failed to read completion XML: '' @ m))
       (w_to_bytes W (rq_body rq) COMPLETE_MULTIPART_XML_LIMIT)) (\<lambda>body.
     and_then (validate_fixed_sha256_payload_hash E (rq_headers rq) (x_sha256 E body)) (\<lambda>_.
     and_then (ensure (utf8_valid body)
       (invalid_request ''CompleteMultipartUpload XML must be valid UTF-8'')) (\<lambda>_.
     and_then (parse_completed_parts W body) (\<lambda>parts.
     and_then (ensure (parts \<noteq> [])
       (invalid_part ''CompleteMultipartUpload must include at least one part'')) (\<lambda>_.
     and_then (validate_ascending_parts parts) (\<lambda>_.
     and_then (ChecksumRequest_from_headers E (rq_headers rq)) (\<lambda>checksums.
     Ok (parts, checksums))))))))"

definition complete_multipart_upload ::
  "ext \<Rightarrow> web \<Rightarrow> env \<Rightarrow> app_state \<Rightarrow> request \<Rightarrow> string \<Rightarrow> upload_id \<Rightarrow> auth_context \<Rightarrow> response handler" where
  "complete_multipart_upload E W V A rq request_id u auth =
     io_bind (validate_upload_session_target E A rq auth u) (\<lambda>session.
     io_bind (try_res (authorize_request A auth (us_bucket session) (Some (us_key session))
       Act_CompleteMultipartUpload)) (\<lambda>_.
     io_bind (try_res (completion_request E W rq)) (\<lambda>(parts, checksums).
     io_bind (store_call (complete_upload E (app_codec A) (ev_uuid V 0) (ev_uuid V 1) (ev_uuid V 2)
       (ev_uuid V 3) (ev_now V)
       \<lparr>cr_upload_id = u, cr_parts = parts, cr_checksums = checksums,
        cr_limits = cf_upload_limits (app_config A),
        cr_copy_buffer = io_multipart_complete_buffer_size (app_io_tuning A),
        cr_summary_buffer = io_upload_summary_buffer_size (app_io_tuning A),
        cr_request_id = request_id,
        cr_processors = numbered_processors V 4 (app_upload_processors A)\<rparr>)) (\<lambda>md.
     try_res (complete_multipart_response E W rq request_id md)))))"

end
