(* ===== verification/Handler_Props.thy ===== *)
theory Handler_Props
  imports Multipart_Handlers Multipart_Props "HOL-Library.Code_Target_Nat"
begin

text \<open>
  What the read-only parts of the handlers compute: byte ranges and the bodies they select,
  and the pages of a part listing.
\<close>

section \<open>File streams\<close>

lemma concat_file_stream: "0 < n \<Longrightarrow> concat (file_stream content n) = content"
proof (induction content n rule: file_stream.induct)
  case (1 content n)
  then show ?case
    by (subst file_stream.simps) (cases "content = []"; simp add: Let_def)
qed

lemma concat_file_stream_limited:
  "0 < n \<Longrightarrow> concat (file_stream_limited content remaining n) = take remaining content"
proof (induction content remaining n rule: file_stream_limited.induct)
  case (1 content remaining n)
  show ?case
  proof (cases "remaining = 0 \<or> content = []")
    case True
    then show ?thesis by (subst file_stream_limited.simps) (auto simp: Let_def)
  next
    case False
    let ?k = "min remaining n"
    have "concat (file_stream_limited content remaining n)
        = take ?k content @ take (remaining - length (take ?k content)) (drop ?k content)"
      using False 1 by (subst file_stream_limited.simps) (simp add: Let_def)
    also have "\<dots> = take remaining content"
    proof (cases "?k \<le> length content")
      case True
      then have "take remaining content = take (?k + (remaining - ?k)) content" by simp
      also have "\<dots> = take ?k content @ take (remaining - ?k) (drop ?k content)"
        by (rule take_add)
      finally show ?thesis using True by (simp add: min.absorb2)
    qed simp
    finally show ?thesis .
  qed
qed

section \<open>Byte ranges\<close>

text \<open>
  The positions of an object of size \<open>n\<close> that \<open>bytes=s-e\<close> selects: from \<open>s\<close>, up to and
  including \<open>e\<close> where given, or the last \<open>e\<close> bytes when \<open>s\<close> is empty.
\<close>

definition selected :: "nat \<Rightarrow> string \<Rightarrow> string \<Rightarrow> nat set" where
  "selected n s e =
     {i. i < n \<and> (if s = [] then n \<le> i + the (parse_u64 e)
                 else the (parse_u64 s) \<le> i \<and> (e = [] \<or> i \<le> the (parse_u64 e)))}"

definition range_syntax :: "string \<Rightarrow> string \<Rightarrow> bool" where
  "range_syntax s e \<longleftrightarrow> (s \<noteq> [] \<or> e \<noteq> []) \<and> CHR '','' \<notin> set s \<and> CHR '','' \<notin> set e \<and> CHR ''-'' \<notin> set s
     \<and> (s \<noteq> [] \<longrightarrow> parse_u64 s \<noteq> None) \<and> (e \<noteq> [] \<longrightarrow> parse_u64 e \<noteq> None)"

lemma interval_eq_iff:
  fixes a b c d :: nat
  assumes "a \<le> b"
  shows "{a..b} = {c..d} \<and> c \<le> d \<longleftrightarrow> a = c \<and> b = d"
  using assms by auto

lemma parse_range_spec_Ok:
  assumes "0 < n"
  shows "parse_range_spec E s e n = Ok r \<longleftrightarrow>
    (s \<noteq> [] \<or> e \<noteq> []) \<and> (s \<noteq> [] \<longrightarrow> parse_u64 s \<noteq> None) \<and> (e \<noteq> [] \<longrightarrow> parse_u64 e \<noteq> None)
    \<and> selected n s e \<noteq> {} \<and> selected n s e = {br_start r..br_end r}"
proof -
  obtain a b where r: "r = \<lparr>br_start = a, br_end = b\<rparr>" by (cases r)
  consider (both) "s \<noteq> []" "e \<noteq> []" | (start) "s \<noteq> []" "e = []" | (suffix) "s = []" "e \<noteq> []" | (none) "s = []" "e = []"
    by blast
  then show ?thesis
  proof cases
    case both
    show ?thesis
    proof (cases "parse_u64 s = None \<or> parse_u64 e = None")
      case True
      with both have "parse_range_spec E s e n \<noteq> Ok r"
        by (auto simp: parse_range_spec_def parse_range_number_def res_simps)
      with True both show ?thesis by auto
    next
      case False
      then obtain x y where xy: "parse_u64 s = Some x" "parse_u64 e = Some y" by auto
      have sel: "selected n s e = (if x \<le> min y (n - 1) then {x..min y (n - 1)} else {})"
        using both xy assms by (auto simp: selected_def)
      have "parse_range_spec E s e n = Ok r \<longleftrightarrow> x \<le> min y (n - 1) \<and> a = x \<and> b = min y (n - 1)"
        using both xy assms r by (auto simp: parse_range_spec_def parse_range_number_def)
      with sel both xy r show ?thesis
        using interval_eq_iff [of x "min y (n - 1)" a b] by auto
    qed
  next
    case start
    show ?thesis
    proof (cases "parse_u64 s")
      case None
      with start show ?thesis by (auto simp: parse_range_spec_def parse_range_number_def)
    next
      case (Some x)
      have sel: "selected n s e = (if x \<le> n - 1 then {x..n - 1} else {})"
        using start Some assms by (auto simp: selected_def)
      have "parse_range_spec E s e n = Ok r \<longleftrightarrow> x \<le> n - 1 \<and> a = x \<and> b = n - 1"
        using start Some assms r by (auto simp: parse_range_spec_def parse_range_number_def)
      with sel start Some r show ?thesis
        using interval_eq_iff [of x "n - 1" a b] by auto
    qed
  next
    case suffix
    show ?thesis
    proof (cases "parse_u64 e")
      case None
      with suffix show ?thesis by (auto simp: parse_range_spec_def parse_range_number_def)
    next
      case (Some k)
      have sel: "selected n s e = (if k = 0 then {} else {n - k..n - 1})"
        using suffix Some assms by (auto simp: selected_def)
      have "parse_range_spec E s e n = Ok r \<longleftrightarrow> k \<noteq> 0 \<and> a = n - k \<and> b = n - 1"
        using suffix Some assms r by (auto simp: parse_range_spec_def parse_range_number_def)
      with sel suffix Some r assms show ?thesis
        using interval_eq_iff [of "n - k" "n - 1" a b] by auto
    qed
  next
    case none
    then show ?thesis by (simp add: parse_range_spec_def)
  qed
qed

lemma parse_range_header_Some:
  "parse_range_header E hs n = Ok (Some r) \<longleftrightarrow>
     (\<exists>v s e. hdr_get hs ''range'' = Some v \<and> x_to_str E v = Some (''bytes='' @ s @ ''-'' @ e)
        \<and> range_syntax s e \<and> selected n s e \<noteq> {} \<and> selected n s e = {br_start r..br_end r})"
  (is "?L \<longleftrightarrow> ?R")
proof -
  have none: "selected 0 s e = {}" for s e by (simp add: selected_def)
  show ?thesis
  proof
    assume ?L
    then obtain v s e where v: "hdr_get hs ''range'' = Some v" "x_to_str E v = Some (''bytes='' @ s @ CHR ''-'' # e)"
      and c: "CHR '','' \<notin> set s" "CHR '','' \<notin> set e" "CHR ''-'' \<notin> set s" and n: "0 < n"
      and p: "parse_range_spec E s e n = Ok r"
      by (auto simp: parse_range_header_def res_simps str_simps split: option.splits if_splits)
    from p [unfolded parse_range_spec_Ok [OF n]] v c show ?R
      by (auto simp: range_syntax_def)
  next
    assume ?R
    then obtain v s e where v: "hdr_get hs ''range'' = Some v" "x_to_str E v = Some (''bytes='' @ s @ ''-'' @ e)"
      and c: "range_syntax s e" and sel: "selected n s e \<noteq> {}" "selected n s e = {br_start r..br_end r}"
      by blast
    from sel none have "0 < n" by (cases n) auto
    with c sel have "parse_range_spec E s e n = Ok r"
      by (subst parse_range_spec_Ok) (auto simp: range_syntax_def)
    moreover have "strip_prefix ''bytes='' (''bytes='' @ s @ ''-'' @ e) = Some (s @ CHR ''-'' # e)"
      by (simp add: strip_prefix_Some)
    moreover have "split_once (CHR ''-'') (s @ CHR ''-'' # e) = Some (s, e)"
      using c by (simp add: range_syntax_def)
    ultimately show ?L
      using v c \<open>0 < n\<close> by (simp add: parse_range_header_def range_syntax_def)
  qed
qed

lemma slice_eq_map:
  assumes "a + k \<le> length xs"
  shows "take k (drop a xs) = map ((!) xs) [a..<a + k]"
  using assms by (intro nth_equalityI) (simp_all add: min.absorb2)

lemma interval_bounds:
  fixes a b n :: nat
  assumes "S = {a..b}" "S \<noteq> {}" "S \<subseteq> {..<n}"
  shows "a \<le> b \<and> b < n"
  using assms by auto

text \<open>
  C27. A range request is honoured exactly when it is one well-formed \<open>bytes\<close> range that selects
  at least one byte, and then the range is exactly the selected positions; it lies within the
  object, and the streamed body is exactly those bytes, as many as the announced length.
\<close>

theorem range_requests_exact:
  "(parse_range_header E hs n = Ok (Some r) \<longleftrightarrow>
      (\<exists>v s e. hdr_get hs ''range'' = Some v \<and> x_to_str E v = Some (''bytes='' @ s @ ''-'' @ e)
        \<and> range_syntax s e \<and> selected n s e \<noteq> {} \<and> selected n s e = {br_start r..br_end r}))
   \<and> (parse_range_header E hs n = Ok (Some r) \<and> length content = n \<and> 0 < buffer \<longrightarrow>
      br_start r \<le> br_end r \<and> br_end r < n
      \<and> concat (file_stream_limited (drop (br_start r) content) (ByteRange_len r) buffer)
          = map ((!) content) [br_start r..<Suc (br_end r)]
      \<and> length (concat (file_stream_limited (drop (br_start r) content) (ByteRange_len r) buffer))
          = ByteRange_len r)"
proof -
  have "br_start r \<le> br_end r \<and> br_end r < n
      \<and> concat (file_stream_limited (drop (br_start r) content) (ByteRange_len r) buffer)
          = map ((!) content) [br_start r..<Suc (br_end r)]
      \<and> length (concat (file_stream_limited (drop (br_start r) content) (ByteRange_len r) buffer))
          = ByteRange_len r"
    if p: "parse_range_header E hs n = Ok (Some r)" and l: "length content = n" "0 < buffer"
  proof -
    from p obtain s e where sel: "selected n s e = {br_start r..br_end r}" "selected n s e \<noteq> {}"
      unfolding parse_range_header_Some by blast
    have "selected n s e \<subseteq> {..<n}" by (auto simp: selected_def)
    note b = interval_bounds [OF sel this]
    have "take (ByteRange_len r) (drop (br_start r) content) = map ((!) content) [br_start r..<Suc (br_end r)]"
      using b l slice_eq_map [of "br_start r" "ByteRange_len r" content]
      by (simp add: ByteRange_len_def)
    moreover have "length (take (ByteRange_len r) (drop (br_start r) content)) = ByteRange_len r"
      using b l unfolding ByteRange_len_def length_take length_drop by linarith
    ultimately show ?thesis
      using b by (simp only: concat_file_stream_limited [OF l(2)] simp_thms)
  qed
  note body = this
  show ?thesis
    by (intro conjI [OF parse_range_header_Some] impI) (elim conjE, rule body)
qed

theorem range_requests_exact_witness:
  "concat (file_stream_limited (drop 1 ''abcde'') 3 2) = ''bcd''"
proof -
  let ?r = "\<lparr>br_start = 1, br_end = 3\<rparr>"
  have "parse_range_header ext0 [(''range'', ''bytes=1-3'')] 5 = Ok (Some ?r)"
    by code_simp
  with range_requests_exact [of ext0 "[(''range'', ''bytes=1-3'')]" 5 ?r "''abcde''" 2]
  show ?thesis by (simp add: ByteRange_len_def upt_rec)
qed

section \<open>Pages of parts\<close>

text \<open>
  A client that lists the parts of an upload page by page, each time with the marker the
  previous page returned. The fuel bounds the number of pages; \<open>None\<close> is running out of it.
\<close>

fun list_all_pages :: "nat \<Rightarrow> upload_session \<Rightarrow> nat \<Rightarrow> nat \<Rightarrow> part_metadata list option" where
  "list_all_pages 0 session max_parts marker = None"
| "list_all_pages (Suc fuel) session max_parts marker =
     (case list_parts_page session \<lparr>lp_max_parts = max_parts, lp_part_number_marker = marker\<rparr> of
        (listed, True, Some m) \<Rightarrow> map_option ((@) listed) (list_all_pages fuel session max_parts m)
      | (listed, _) \<Rightarrow> Some listed)"

lemma parts_ascending:
  assumes "session_ok u us" "bt_invar (us_parts us)"
  shows "sorted_wrt (<) (map pm_part_number (map snd (us_parts us)))"
proof -
  have "pm_part_number p = k" if "(k, p) \<in> set (us_parts us)" for k p
    using that assms by (auto simp: session_ok_def bt_get_def bt_invar_def strict_sorted_iff dest: map_of_is_SomeI)
  then have "map pm_part_number (map snd (us_parts us)) = map fst (us_parts us)" by auto
  with assms show ?thesis unfolding bt_invar_def by argo
qed

lemma filter_above_take:
  fixes f :: "'a \<Rightarrow> nat"
  assumes "sorted_wrt (<) (map f xs)" "k < length xs" "0 < k"
  shows "filter (\<lambda>p. f (xs ! (k - 1)) < f p) xs = drop k xs"
proof -
  let ?m = "f (xs ! (k - 1))"
  have less: "f (xs ! i) < f (xs ! j)" if "i < j" "j < length xs" for i j
    using sorted_wrt_nth_less [OF assms(1), of i j] that by simp
  have low: "\<not> ?m < f p" if "p \<in> set (take k xs)" for p
  proof -
    from that obtain i where "i < k" "p = xs ! i" by (auto simp: in_set_conv_nth)
    with less [of i "k - 1"] assms show ?thesis by (cases "i = k - 1") force+
  qed
  have high: "?m < f p" if "p \<in> set (drop k xs)" for p
  proof -
    from that obtain i where "i < length xs - k" "p = xs ! (k + i)" by (auto simp: in_set_conv_nth)
    with less [of "k - 1" "k + i"] assms show ?thesis by simp
  qed
  have "filter (\<lambda>p. ?m < f p) (take k xs @ drop k xs) = drop k xs"
    unfolding filter_append using low high by (simp add: filter_empty_conv filter_id_conv)
  then show ?thesis by simp
qed

text \<open>One page: the first \<open>n\<close> of the parts above the marker, and the marker for the rest.\<close>

lemma list_parts_page_split:
  assumes "xs = filter (\<lambda>p. marker < pm_part_number p) (map snd (us_parts us))" "0 < n"
  shows "list_parts_page us \<lparr>lp_max_parts = n, lp_part_number_marker = marker\<rparr> =
    (take n xs, n < length xs,
     if n < length xs then Some (pm_part_number (xs ! (n - 1))) else None)"
proof -
  have "take n (take (n + 1) xs) = take n xs" by (simp add: min_def)
  moreover have "length (take (n + 1) xs) > n \<longleftrightarrow> n < length xs" by auto
  moreover have "last (take n xs) = xs ! (n - 1)" if "n < length xs"
  proof -
    have "take n xs \<noteq> []" using that assms(2) by (cases xs; cases n) auto
    then have "last (take n xs) = take n xs ! (length (take n xs) - 1)" by (rule last_conv_nth)
    with that assms(2) show ?thesis by (simp add: min_def)
  qed
  ultimately show ?thesis
    using assms(2) by (auto simp: list_parts_page_def Let_def simp flip: assms(1))
qed

lemma list_all_pages_filter:
  assumes "session_ok u us" "bt_invar (us_parts us)" "0 < n"
    and "length (filter (\<lambda>p. marker < pm_part_number p) (map snd (us_parts us))) < fuel"
  shows "list_all_pages fuel us n marker = Some (filter (\<lambda>p. marker < pm_part_number p) (map snd (us_parts us)))"
  using assms(4)
proof (induction fuel arbitrary: marker)
  case (Suc fuel)
  let ?all = "map snd (us_parts us)"
  let ?xs = "filter (\<lambda>p. marker < pm_part_number p) ?all"
  note page = list_parts_page_split [OF refl assms(3), of us marker]
  show ?case
  proof (cases "n < length ?xs")
    case True
    let ?m = "pm_part_number (?xs ! (n - 1))"
    have "marker < ?m" using nth_mem [of "n - 1" ?xs] True by auto
    then have "filter (\<lambda>p. ?m < pm_part_number p) ?all = filter (\<lambda>p. ?m < pm_part_number p) ?xs"
      by (auto simp: filter_filter intro!: filter_cong)
    also have "\<dots> = drop n ?xs"
      using parts_ascending [OF assms(1,2)] True assms(3)
      by (intro filter_above_take) (auto simp: sorted_wrt_map intro: sorted_wrt_filter)
    finally have rest: "filter (\<lambda>p. ?m < pm_part_number p) ?all = drop n ?xs" .
    then have "list_all_pages fuel us n ?m = Some (drop n ?xs)"
      using Suc.IH [of ?m] Suc.prems True assms(3) by simp
    with page True show ?thesis by simp
  next
    case False
    with page show ?thesis by simp
  qed
qed simp

text \<open>
  C28. Listing parts terminates and misses nothing: a client that follows the markers from the
  start, with any page size of at least one, needs at most one page more than there are parts
  and receives every part of the upload exactly once, in ascending order.
\<close>

theorem listing_complete:
  assumes "session_ok u us" "bt_invar (us_parts us)" "0 < n"
    and "list_all (\<lambda>p. 0 < pm_part_number p) (map snd (us_parts us))"
  shows "list_all_pages (Suc (length (us_parts us))) us n 0 = Some (map snd (us_parts us))
    \<and> sorted_wrt (<) (map pm_part_number (map snd (us_parts us)))"
proof -
  have all: "filter (\<lambda>p. 0 < pm_part_number p) (map snd (us_parts us)) = map snd (us_parts us)"
    using assms(4) by (simp add: filter_id_conv list_all_iff)
  have "length (filter (\<lambda>p. 0 < pm_part_number p) (map snd (us_parts us))) < Suc (length (us_parts us))"
    by (simp add: all)
  from list_all_pages_filter [OF assms(1,2,3) this] parts_ascending [OF assms(1,2)] show ?thesis
    by (simp only: all simp_thms)
qed

theorem listing_complete_witness:
  "\<exists>us. map fst (us_parts us) = [2, 5, 9] \<and> list_all_pages 4 us 2 0 = Some (map snd (us_parts us))"
proof -
  define part where "part k = \<lparr>pm_part_number = k, pm_size = 1, pm_etag = ''e'', pm_md5 = [], pm_checksums = [],
    pm_last_modified = 0\<rparr>" for k
  define us where "us = \<lparr>us_upload_id = ''u'', us_bucket = ''b'', us_key = ''k'', us_initiated = 0, us_state = Open,
    us_owner = None, us_metadata = undefined, us_parts = [(2, part 2), (5, part 5), (9, part 9)]\<rparr>"
  have "session_ok ''u'' us" "bt_invar (us_parts us)"
    by (auto simp: session_ok_def bt_get_def us_def part_def bt_invar_def split: if_splits)
  moreover have "list_all (\<lambda>p. 0 < pm_part_number p) (map snd (us_parts us))"
    by (simp add: us_def part_def)
  ultimately have "list_all_pages (Suc (length (us_parts us))) us 2 0 = Some (map snd (us_parts us))"
    using listing_complete [of "''u''" us 2] by simp
  moreover have "map fst (us_parts us) = [2, 5, 9]" "Suc (length (us_parts us)) = 4"
    by (simp_all add: us_def)
  ultimately show ?thesis by metis
qed

end
