(* ===== verification/S3_Dispatch.thy ===== *)
theory S3_Dispatch
  imports Multipart_Handlers
begin

text \<open>
  The request pipeline (\<open>src/handlers/s3.rs\<close>): admission, detection of the operation,
  operation policy, authentication, tenant limits, the handler, and the mapping of errors and
  responses. Logging is left out; the calls to the observer and to the tenant limits provider
  are the events of the \<open>world\<close>.

  A request that panics in a handler has no response; the result is then \<open>None\<close>.
\<close>

section \<open>Context of a request\<close>

record request_log_context =
  lc_bucket :: "bucket_name option"
  lc_key :: "object_key option"
  lc_key_sha256 :: "string option"
  lc_upload_id :: "upload_id option"
  lc_part_number :: "part_number option"

definition object_key_sha256 :: "ext \<Rightarrow> object_key \<Rightarrow> string" where
  "object_key_sha256 E key = x_hex_encode E (x_sha256 E key)"

definition request_log_context_of ::
  "ext \<Rightarrow> request \<Rightarrow> string option \<Rightarrow> string \<Rightarrow> request_log_context" where
  "request_log_context_of E rq base query =
     (let upload_id = Option.bind (query_param E query ''uploadId'') (\<lambda>v. res_ok (UploadId_parse E v));
          part_number = Option.bind (query_param E query ''partNumber'') (\<lambda>v. res_ok (PartNumber_from_str v));
          host = request_host E rq;
          path = uri_path (rq_uri rq)
      in case resolve_s3_target E path host base of
           Ok target \<Rightarrow>
             \<lparr>lc_bucket = Some (tgt_bucket target), lc_key = Some (tgt_key target),
              lc_key_sha256 = Some (object_key_sha256 E (tgt_key target)),
              lc_upload_id = upload_id, lc_part_number = part_number\<rparr>
         | Err _ \<Rightarrow>
             \<lparr>lc_bucket = res_ok (resolve_bucket_name E path host base), lc_key = None,
              lc_key_sha256 = None, lc_upload_id = upload_id, lc_part_number = part_number\<rparr>)"

record parsed_s3_request =
  ps_operation :: "detected_operation s3res"
  ps_log_context :: request_log_context

definition ParsedS3Request_parse ::
  "ext \<Rightarrow> request \<Rightarrow> string option \<Rightarrow> string \<Rightarrow> parsed_s3_request" where
  "ParsedS3Request_parse E rq base query =
     \<lparr>ps_operation = detect_operation E rq base query,
      ps_log_context = request_log_context_of E rq base query\<rparr>"

text \<open>\<open>status.is_success()\<close>: 200 to 299.\<close>

definition without_head_response_body :: "response \<Rightarrow> response" where
  "without_head_response_body r =
     (let hs = (if \<not> (200 \<le> rsp_status r \<and> rsp_status r < 300)
                then hdr_insert ''content-length'' ''0'' (rsp_headers r) else rsp_headers r)
      in r\<lparr>rsp_headers := hs, rsp_body := []\<rparr>)"

definition error_response ::
  "ext \<Rightarrow> app_state \<Rightarrow> string \<Rightarrow> string \<Rightarrow> s3_error \<Rightarrow> response" where
  "error_response E A operation request_id e =
     into_response_with_request_id E
       (app_map_error A \<lparr>ec_request_id = request_id, ec_operation = operation\<rparr> e) request_id"

section \<open>Dispatch\<close>

fun dispatch_implemented_operation ::
  "ext \<Rightarrow> web \<Rightarrow> env \<Rightarrow> app_state \<Rightarrow> request \<Rightarrow> s3_operation \<Rightarrow> string \<Rightarrow> auth_context \<Rightarrow> response handler" where
  "dispatch_implemented_operation E W V A rq Op_HeadObject i auth = head_object_handler E W A rq i auth"
| "dispatch_implemented_operation E W V A rq Op_HeadBucket i auth = head_bucket_handler E W A rq i auth"
| "dispatch_implemented_operation E W V A rq Op_CreateMultipartUpload i auth =
     create_multipart_upload E W V A rq i auth"
| "dispatch_implemented_operation E W V A rq (Op_UploadPart u n) i auth =
     upload_part E W V A rq i u n auth"
| "dispatch_implemented_operation E W V A rq Op_PutObject i auth = handle_put_object E W V A rq i auth"
| "dispatch_implemented_operation E W V A rq (Op_CompleteMultipartUpload u) i auth =
     complete_multipart_upload E W V A rq i u auth"
| "dispatch_implemented_operation E W V A rq (Op_AbortMultipartUpload u) i auth =
     abort_multipart_upload E W V A rq i u auth"
| "dispatch_implemented_operation E W V A rq Op_DeleteObject i auth = delete_object_handler E W A rq i auth"
| "dispatch_implemented_operation E W V A rq (Op_ListParts u) i auth = list_parts E W A rq i u auth"
| "dispatch_implemented_operation E W V A rq Op_GetObject i auth = get_object_handler E W A rq i auth"

text \<open>
  A timeout drops the operation's future at an await point: the state it leaves is
  \<open>ev_timeout\<close>, with the permits of the dropped guards given back.
\<close>

definition operation_outcome :: "response s3res \<Rightarrow> tenant_operation_outcome" where
  "operation_outcome r =
     (case r of
        Ok response \<Rightarrow>
          TenantOperationOutcome_success (rsp_status response) (rsp_decoded_bytes response)
      | Err e \<Rightarrow> TenantOperationOutcome_error e None)"

definition dispatch_tenant_limited_operation ::
  "ext \<Rightarrow> web \<Rightarrow> env \<Rightarrow> app_state \<Rightarrow> request \<Rightarrow> s3_operation \<Rightarrow> string \<Rightarrow> auth_context
     \<Rightarrow> tenant_limit_context \<Rightarrow> response handler" where
  "dispatch_tenant_limited_operation E W V A rq op request_id auth ctx =
     io_bind (begin_tenant_operation A ctx) (\<lambda>lease.
     case (tl_timeout lease, ev_timeout V) of
       (Some _, Some w') \<Rightarrow> (\<lambda>w.
         (let e = slow_down ''operation timed out'' in
          io_bind (finish_tenant_operation ctx (TenantOperationOutcome_timed_out e))
            (\<lambda>_. io_fail (Fail e))
            (w'\<lparr>wd_admission := wd_admission w, wd_events := wd_events w\<rparr>)))
     | _ \<Rightarrow>
         io_match (dispatch_implemented_operation E W V A rq op request_id auth) (\<lambda>r. case r of
           Err Panic \<Rightarrow> io_fail Panic
         | Err (Fail e) \<Rightarrow>
             io_bind (finish_tenant_operation ctx (operation_outcome (Err e))) (\<lambda>_. io_fail (Fail e))
         | Ok response \<Rightarrow>
             io_bind (finish_tenant_operation ctx (operation_outcome (Ok response))) (\<lambda>_.
             io_return response)))"

definition tenant_context ::
  "request \<Rightarrow> string \<Rightarrow> s3_operation \<Rightarrow> auth_context \<Rightarrow> tenant_id \<Rightarrow> request_log_context \<Rightarrow> nat option
     \<Rightarrow> tenant_limit_context" where
  "tenant_context rq request_id op auth tenant lc clen =
     \<lparr>tc_request_id = request_id, tc_tenant = tenant, tc_principal = ax_principal auth,
      tc_method = rq_method rq, tc_operation = op, tc_action = S3Operation_action op,
      tc_bucket = lc_bucket lc, tc_key = lc_key lc, tc_upload_id = lc_upload_id lc,
      tc_part_number = lc_part_number lc, tc_content_length = clen\<rparr>"

definition dispatch ::
  "ext \<Rightarrow> web \<Rightarrow> env \<Rightarrow> app_state \<Rightarrow> request \<Rightarrow> detected_operation s3res \<Rightarrow> string
     \<Rightarrow> request_log_context \<Rightarrow> nat option \<Rightarrow> response handler" where
  "dispatch E W V A rq detected request_id lc clen =
     io_bind (try_res detected) (\<lambda>d. case d of
       DO_Implemented op \<Rightarrow>
         io_bind (try_res (allow_operation A
           \<lparr>oc_operation = op, oc_action = S3Operation_action op\<rparr>)) (\<lambda>_.
         io_bind (io_lift (authenticate_request E V A rq)) (\<lambda>auth.
         io_bind (try_res (map_err (\<lambda>_. access_denied ''invalid custom principal id'')
           (TenantId_from_principal (ax_principal auth)))) (\<lambda>tenant.
         dispatch_tenant_limited_operation E W V A rq op request_id auth
           (tenant_context rq request_id op auth tenant lc clen))))
     | DO_ListObjectsV2 \<Rightarrow> io_fail (Fail (not_implemented ''ListObjectsV2 is not implemented''))
     | DO_Unsupported \<Rightarrow> io_fail (Fail (invalid_argument ''list-type must be 2''))
     | DO_MethodNotAllowed \<Rightarrow> io_fail (Fail method_not_allowed))"

section \<open>One request\<close>

definition request_content_length :: "ext \<Rightarrow> request \<Rightarrow> nat option" where
  "request_content_length E rq =
     Option.bind (hdr_get (rq_headers rq) ''content-length'') (\<lambda>b.
     Option.bind (x_to_str E b) parse_u64)"

definition handle_s3_request ::
  "ext \<Rightarrow> web \<Rightarrow> env \<Rightarrow> app_state \<Rightarrow> string \<Rightarrow> request \<Rightarrow> world \<Rightarrow> response option \<times> world" where
  "handle_s3_request E W V A request_id rq w0 =
     (let query = request_query rq;
          parsed = ParsedS3Request_parse E rq (cf_virtual_host_base_domain (app_config A)) query;
          operation = (case ps_operation parsed of
             Ok d \<Rightarrow> DetectedOperation_name d | Err _ \<Rightarrow> ''InvalidRequest'');
          lc = ps_log_context parsed;
          clen = request_content_length E rq;
          w1 = snd (emit (Ev_Observe \<lparr>rc_request_id = request_id, rc_method = rq_method rq,
             rc_operation = operation, rc_bucket = lc_bucket lc, rc_key = lc_key lc,
             rc_upload_id = lc_upload_id lc, rc_part_number = lc_part_number lc,
             rc_content_length = clen\<rparr>) w0 :: (unit, s3_error) result \<times> world);
          (result, w2) = with_permit try_acquire_s3_request (release ad_s3_requests_update)
             (dispatch E W V A rq (ps_operation parsed) request_id lc clen) w1
      in case result of
           Err Panic \<Rightarrow> (None, w2)
         | _ \<Rightarrow>
             (let r1 = (case result of
                  Ok r \<Rightarrow> r
                | Err (Fail e) \<Rightarrow> error_response E A operation request_id e);
                  r2 = (if rq_method rq = ''HEAD'' then without_head_response_body r1 else r1);
                  r3 = app_map_response A \<lparr>xc_request_id = request_id, xc_operation = operation,
                     xc_bucket = lc_bucket lc, xc_key = lc_key lc\<rparr> r2
              in (Some r3, w2)))"

end
