(* ===== verification/Auth_Canonical.thy ===== *)
theory Auth_Canonical
  imports S3_Auth "HOL-Library.Multiset"
begin

text \<open>
  What the canonical request of \<open>src/auth.rs\<close> determines: percent coding loses nothing, the
  canonical query is the multiset of decoded parameters, and the six parts of a canonical
  request can be read back from its lines.
\<close>

section \<open>Percent coding\<close>

text \<open>
  The documented behaviour of \<open>percent_decode_str(_).decode_utf8()\<close>: every \<open>%\<close> followed by
  two hexadecimal digits becomes that byte, everything else stays, and the result is returned
  when it is UTF-8.
\<close>

definition percent_decode_spec :: "ext \<Rightarrow> bool" where
  "percent_decode_spec E \<longleftrightarrow> x_percent_decode E = percent_decode0"

lemma percent_decode_spec_ext0: "percent_decode_spec ext0"
  by (simp add: percent_decode_spec_def ext0_def)

lemma code_of_lt_256 [simp]: "code_of c < 256"
  by simp

lemma div16_lt: "code_of c div 16 < 16" "code_of c mod 16 < 16"
  by (simp_all add: less_mult_imp_div_less)

lemma upper_digit_code: "d < 16 \<Longrightarrow> code_of (upper_digit d) = (if d < 10 then 48 + d else 55 + d)"
  by (auto simp: upper_digit_def)

lemma upper_digit_unreserved: "d < 16 \<Longrightarrow> is_unreserved (upper_digit d)"
  by (auto simp: is_unreserved_def is_ascii_uppercase_def is_ascii_digit_def upper_digit_code)

lemma hex_digit_val_upper_digit: "d < 16 \<Longrightarrow> hex_digit_val (upper_digit d) = Some d"
  by (auto simp: is_ascii_digit_def upper_digit_code)

lemma hex_digit_val_Some: "(\<exists>d. hex_digit_val c = Some d) \<longleftrightarrow> is_ascii_hexdigit c"
  by (auto simp: is_ascii_hexdigit_def)

lemma ascii_upper_hexdigit:
  assumes "is_ascii_hexdigit c"
  shows "is_unreserved (ascii_upper c) \<and> hex_digit_val (ascii_upper c) = hex_digit_val c"
proof -
  consider "is_ascii_digit c" | "65 \<le> code_of c \<and> code_of c \<le> 70" | "97 \<le> code_of c \<and> code_of c \<le> 102"
    using assms by (auto simp: is_ascii_hexdigit_def)
  then show ?thesis
    by cases (auto simp: ascii_upper_def is_unreserved_def ascii_defs)
qed

declare hex_digit_val.simps [simp del]

lemma percent_not_unreserved: "\<not> is_unreserved (CHR ''%'')"
  by (simp add: is_unreserved_def ascii_defs)

lemma pdb_plain: "c \<noteq> CHR ''%'' \<Longrightarrow> percent_decode_bytes0 (c # s) = c # percent_decode_bytes0 s"
  by (cases "c # s" rule: percent_decode_bytes0.cases) auto

lemma pdb_code:
  "hex_digit_val a = Some x \<Longrightarrow> hex_digit_val b = Some y \<Longrightarrow>
     percent_decode_bytes0 (CHR ''%'' # a # b # s) = char_of (16 * x + y) # percent_decode_bytes0 s"
  by simp

lemma pdb_percent_byte: "percent_decode_bytes0 (percent_byte c @ s) = c # percent_decode_bytes0 s"
  using div16_lt [of c]
  by (simp add: percent_byte_def hex_digit_val_upper_digit)

lemma pdb_stray_percent:
  "\<not> (\<exists>a b t. s = a # b # t \<and> is_ascii_hexdigit a \<and> is_ascii_hexdigit b) \<Longrightarrow>
     percent_decode_bytes0 (CHR ''%'' # s) = CHR ''%'' # percent_decode_bytes0 s"
proof (cases "CHR ''%'' # s" rule: percent_decode_bytes0.cases)
  case (4 a b c t)
  moreover assume "\<not> (\<exists>a b t. s = a # b # t \<and> is_ascii_hexdigit a \<and> is_ascii_hexdigit b)"
  ultimately have "hex_digit_val b = None \<or> hex_digit_val c = None"
    using hex_digit_val_Some by (metis list.inject option.exhaust)
  with 4 show ?thesis by (auto split: option.split)
qed simp_all

declare canonical_uri.simps(2) [simp del]

text \<open>One step of \<open>canonical_uri\<close>, by the three cases of its match.\<close>

lemma canonical_uri_cases [case_names Nil safe code other]:
  obtains "p = []"
    | c s where "p = c # s" "is_unreserved c \<or> c = CHR ''/''" "canonical_uri p = c # canonical_uri s"
    | a b t where "p = CHR ''%'' # a # b # t" "is_ascii_hexdigit a" "is_ascii_hexdigit b"
        "canonical_uri p = CHR ''%'' # ascii_upper a # ascii_upper b # canonical_uri t"
    | c s where "p = c # s"
        "\<not> (c = CHR ''%'' \<and> (\<exists>a b t. s = a # b # t \<and> is_ascii_hexdigit a \<and> is_ascii_hexdigit b))"
        "canonical_uri p = percent_byte c @ canonical_uri s"
proof (cases p)
  case (Cons c s)
  consider "is_unreserved c \<or> c = CHR ''/''"
    | a b t where "c = CHR ''%''" "s = a # b # t" "is_ascii_hexdigit a" "is_ascii_hexdigit b"
    | "\<not> (is_unreserved c \<or> c = CHR ''/'')"
        "\<not> (c = CHR ''%'' \<and> (\<exists>a b t. s = a # b # t \<and> is_ascii_hexdigit a \<and> is_ascii_hexdigit b))"
    by blast
  then show thesis
  proof cases
    case 1
    with Cons that(2) show ?thesis by (simp add: canonical_uri.simps(2))
  next
    case 2
    with Cons that(3) percent_not_unreserved show ?thesis by (simp add: canonical_uri.simps(2))
  next
    case 3
    then have "canonical_uri p = percent_byte c @ canonical_uri s"
      unfolding Cons canonical_uri.simps
      by (simp only: if_False split: list.split if_split) blast
    with 3 Cons that(4) show ?thesis by blast
  qed
qed (use that in blast)

text \<open>Canonicalisation of a path keeps what the path decodes to.\<close>

lemma canonical_uri_decodes: "percent_decode_bytes0 (canonical_uri p) = percent_decode_bytes0 p"
proof (induction p rule: length_induct)
  case (1 p)
  show ?case
  proof (cases p rule: canonical_uri_cases)
    case (safe c s)
    then have "c \<noteq> CHR ''%''" using percent_not_unreserved by auto
    with safe 1 show ?thesis by (simp add: pdb_plain)
  next
    case (code a b t)
    have ih: "percent_decode_bytes0 (canonical_uri t) = percent_decode_bytes0 t"
      using 1 code(1) by simp
    from code obtain x y where v: "hex_digit_val a = Some x" "hex_digit_val b = Some y"
      using hex_digit_val_Some by metis
    moreover have "hex_digit_val (ascii_upper a) = Some x" "hex_digit_val (ascii_upper b) = Some y"
      using code v ascii_upper_hexdigit by simp_all
    ultimately show ?thesis
      unfolding code(4) by (simp only: code(1) pdb_code ih)
  next
    case (other c s)
    have "percent_decode_bytes0 (c # s) = c # percent_decode_bytes0 s"
    proof (cases "c = CHR ''%''")
      case True
      with other(2) have "\<not> (\<exists>a b t. s = a # b # t \<and> is_ascii_hexdigit a \<and> is_ascii_hexdigit b)"
        by blast
      from pdb_stray_percent [OF this] True show ?thesis by simp
    qed (rule pdb_plain)
    with other 1 show ?thesis by (simp add: pdb_percent_byte)
  qed simp
qed

lemma percent_byte_alphabet: "x \<in> set (percent_byte c) \<Longrightarrow> is_unreserved x \<or> x = CHR ''%''"
  using div16_lt [of c] by (auto simp: percent_byte_def upper_digit_unreserved)

lemma canonical_uri_alphabet:
  "x \<in> set (canonical_uri p) \<Longrightarrow> is_unreserved x \<or> x = CHR ''/'' \<or> x = CHR ''%''"
proof (induction p rule: length_induct)
  case (1 p)
  show ?case
  proof (cases p rule: canonical_uri_cases)
    case (safe c s)
    with 1 show ?thesis by auto
  next
    case (code a b t)
    then have "is_unreserved (ascii_upper a)" "is_unreserved (ascii_upper b)"
      using ascii_upper_hexdigit by blast+
    moreover have "is_unreserved x \<or> x = CHR ''/'' \<or> x = CHR ''%''" if "x \<in> set (canonical_uri t)"
      using 1(1) [rule_format, of t] code(1) that by simp
    ultimately show ?thesis
      using 1(2) unfolding code(4) by auto
  next
    case (other c s)
    with 1 percent_byte_alphabet show ?thesis by auto
  qed (use 1 in simp)
qed

lemma aws_uri_encode_alphabet:
  "x \<in> set (aws_uri_encode bs False) \<Longrightarrow> is_unreserved x \<or> x = CHR ''%''"
  by (auto simp: aws_uri_encode_def encode_byte_def split: if_splits dest: percent_byte_alphabet)

lemma pdb_aws_uri_encode: "percent_decode_bytes0 (aws_uri_encode bs sl) = bs"
proof (induction bs)
  case Nil
  then show ?case by (simp add: aws_uri_encode_def)
next
  case (Cons c bs)
  have "percent_decode_bytes0 (encode_byte sl c @ s) = c # percent_decode_bytes0 s" for s
    using percent_not_unreserved
    by (auto simp: encode_byte_def pdb_percent_byte intro!: pdb_plain)
  with Cons show ?case by (simp add: aws_uri_encode_def)
qed

lemma aws_uri_encode_inj: "aws_uri_encode a sl = aws_uri_encode b sl \<Longrightarrow> a = b"
  by (metis pdb_aws_uri_encode)

section \<open>The canonical query\<close>

text \<open>
  The parameters of a query as the receiver reads them: decoded names and values in order,
  less the signature of a presigned URL. The empty query has none.
\<close>

fun decoded_params ::
  "ext \<Rightarrow> canonical_query_mode \<Rightarrow> string list \<Rightarrow> (string \<times> string) list ares" where
  "decoded_params E mode [] = Ok []"
| "decoded_params E mode (pair # pairs) =
     (let (name, value) = query_pair pair in
      and_then (auth_percent_decode E name) (\<lambda>name.
      if mode = CQ_ExcludePresignedSignature \<and> name = ''X-Amz-Signature''
      then decoded_params E mode pairs
      else and_then (auth_percent_decode E value) (\<lambda>value.
           map_ok ((#) (name, value)) (decoded_params E mode pairs))))"

definition query_params ::
  "ext \<Rightarrow> canonical_query_mode \<Rightarrow> string \<Rightarrow> (string \<times> string) list ares" where
  "query_params E mode q = (if q = [] then Ok [] else decoded_params E mode (split_on (CHR ''&'') q))"

definition encode_param :: "string \<times> string \<Rightarrow> string \<times> string" where
  "encode_param p = (aws_uri_encode (fst p) False, aws_uri_encode (snd p) False)"

definition render_params :: "(string \<times> string) list \<Rightarrow> string" where
  "render_params ps = join_with ''&'' (map (\<lambda>(n, v). n @ ''='' @ v) ps)"

lemma canonical_params_decoded:
  "canonical_params E mode pairs = map_ok (map encode_param) (decoded_params E mode pairs)"
proof (induction pairs)
  case (Cons pair pairs)
  obtain n v where "query_pair pair = (n, v)" by (cases "query_pair pair")
  with Cons show ?case
    by (cases "auth_percent_decode E n"; cases "auth_percent_decode E v";
        cases "decoded_params E mode pairs"; cases mode) (simp_all add: encode_param_def)
qed simp

lemma map_ok_map_ok: "map_ok f (map_ok g m) = map_ok (\<lambda>x. f (g x)) m"
  by (cases m) simp_all

lemma canonical_query_params:
  "canonical_query E q mode =
     map_ok (\<lambda>ps. render_params (sort (map encode_param ps))) (query_params E mode q)"
  by (simp add: canonical_query_def query_params_def canonical_params_decoded render_params_def
      map_ok_map_ok)

lemma encode_param_inj: "inj encode_param"
  by (auto simp: inj_def encode_param_def dest: aws_uri_encode_inj)

lemma separators_reserved:
  "\<not> is_unreserved (CHR ''&'')" "\<not> is_unreserved (CHR ''='')" "\<not> is_unreserved LF"
  "CHR ''&'' \<noteq> CHR ''%''" "CHR ''='' \<noteq> CHR ''%''" "LF \<noteq> CHR ''%''" "LF \<noteq> CHR ''/''"
  by (simp_all add: is_unreserved_def ascii_defs)

lemma aws_uri_encode_no_sep:
  "CHR ''&'' \<notin> set (aws_uri_encode s False)" "CHR ''='' \<notin> set (aws_uri_encode s False)"
  "LF \<notin> set (aws_uri_encode s False)"
  using aws_uri_encode_alphabet [of _ s] separators_reserved by blast+

abbreviation encoded :: "string \<times> string \<Rightarrow> bool" where
  "encoded p \<equiv> CHR ''&'' \<notin> set (fst p) \<and> CHR ''&'' \<notin> set (snd p) \<and> CHR ''='' \<notin> set (fst p)"

lemma encoded_encode_param: "encoded (encode_param p)"
  by (simp add: encode_param_def aws_uri_encode_no_sep)

lemma render_params_inj:
  assumes "list_all encoded ps" "list_all encoded qs" "render_params ps = render_params qs"
  shows "ps = qs"
proof -
  let ?line = "\<lambda>(n, v). n @ ''='' @ v"
  have split: "split_on (CHR ''&'') (render_params xs) = map ?line xs"
    if "xs \<noteq> []" "list_all encoded xs" for xs
    unfolding render_params_def using that
    by (intro split_on_join_with) (auto simp: list_all_iff)
  have nonempty: "render_params xs \<noteq> []" if "xs \<noteq> []" for xs
    using that by (cases xs; cases "tl xs") (auto simp: render_params_def)
  have lines: "map ?line ps = map ?line qs"
  proof (cases "ps = [] \<or> qs = []")
    case True
    moreover have "render_params [] = []" by (simp add: render_params_def)
    ultimately have "ps = [] \<and> qs = []"
      using assms(3) nonempty by metis
    then show ?thesis by simp
  next
    case False
    then have "map ?line ps = split_on (CHR ''&'') (render_params ps)"
      and "map ?line qs = split_on (CHR ''&'') (render_params qs)"
      using split [of ps] split [of qs] assms(1,2) by simp_all
    with assms(3) show ?thesis by simp
  qed
  have "inj_on ?line {p. encoded p}"
  proof (rule inj_onI, clarsimp)
    fix n v n' v' :: string
    assume "CHR ''='' \<notin> set n" "CHR ''='' \<notin> set n'" "n @ CHR ''='' # v = n' @ CHR ''='' # v'"
    then show "n = n' \<and> v = v'"
      by (metis split_once_append option.inject prod.inject)
  qed
  moreover have "set ps \<union> set qs \<subseteq> {p. encoded p}"
    using assms(1,2) by (auto simp: list_all_iff)
  ultimately show ?thesis
    by (rule map_inj_on [OF lines inj_on_subset])
qed

lemma sort_eq_iff_mset: "sort xs = sort ys \<longleftrightarrow> mset xs = mset ys"
proof
  assume "sort xs = sort ys"
  then have "mset (sort xs) = mset (sort ys)" by simp
  then show "mset xs = mset ys" by simp
next
  assume "mset xs = mset ys"
  then show "sort xs = sort ys"
    by (intro properties_for_sort) simp_all
qed

lemma canonical_query_eq_iff:
  assumes "query_params E mode q = Ok ps" "query_params E mode q' = Ok ps'"
  shows "canonical_query E q mode = canonical_query E q' mode \<longleftrightarrow> mset ps = mset ps'"
proof -
  let ?enc = "\<lambda>xs. sort (map encode_param xs)"
  have "list_all encoded (?enc xs)" for xs
    by (auto simp: list_all_iff encoded_encode_param)
  then have "render_params (?enc ps) = render_params (?enc ps') \<longleftrightarrow> ?enc ps = ?enc ps'"
    by (auto intro: render_params_inj)
  also have "\<dots> \<longleftrightarrow> image_mset encode_param (mset ps) = image_mset encode_param (mset ps')"
    by (simp add: sort_eq_iff_mset)
  also have "\<dots> \<longleftrightarrow> mset ps = mset ps'"
    using multiset.inj_map [OF encode_param_inj] by (simp add: inj_eq)
  finally show ?thesis
    by (simp add: canonical_query_params assms)
qed

section \<open>The lines of a canonical request\<close>

lemma set_join_with: "set (join_with sep xs) \<subseteq> set sep \<union> \<Union> (set ` set xs)"
  by (induction sep xs rule: join_with.induct) auto

lemma canonical_query_no_LF: "canonical_query E q mode = Ok s \<Longrightarrow> LF \<notin> set s"
proof -
  assume "canonical_query E q mode = Ok s"
  then obtain ps where "s = render_params (sort (map encode_param ps))"
    by (auto simp: canonical_query_params res_simps)
  moreover have "LF \<notin> set (n @ ''='' @ v)" if "(n, v) \<in> encode_param ` set ps" for n v
    using that aws_uri_encode_no_sep(3) by (auto simp: encode_param_def)
  ultimately show ?thesis
    using set_join_with [of "''&''" "map (\<lambda>(n, v). n @ ''='' @ v) (sort (map encode_param ps))"]
    by (fastforce simp: render_params_def)
qed

lemma canonical_uri_no_LF: "LF \<notin> set (canonical_uri p)"
  using canonical_uri_alphabet [of LF p] separators_reserved by blast

lemma split_lines:
  "(\<And>l. l \<in> set ls \<Longrightarrow> c \<notin> set l) \<Longrightarrow>
     split_on c (concat (map (\<lambda>l. l @ [c]) ls) @ r) = ls @ split_on c r"
  by (induction ls) (simp_all add: split_on_append_sep)

lemma ws_len_pos_LF: "ws_len (LF # s) = 1"
  by (cases "LF # s" rule: ws_len.cases) (auto simp: ws1_def)

lemma split_words_no_LF:
  "LF \<notin> set w \<Longrightarrow> x \<in> set (split_words w s) \<Longrightarrow> LF \<notin> set x"
proof (induction w s rule: split_words.induct)
  case (1 w)
  then show ?case by (auto simp: flush_word_def split: if_splits)
next
  case (2 w c s)
  show ?case
  proof (cases "ws_len (c # s) = 0")
    case True
    then have "c \<noteq> LF" using ws_len_pos_LF by auto
    with 2 True show ?thesis by simp
  next
    case False
    with 2 show ?thesis by (auto simp: flush_word_def split: if_splits)
  qed
qed

lemma normalize_header_value_no_LF: "LF \<notin> set (normalize_header_value v)"
  using set_join_with [of "'' ''" "split_words [] v"] split_words_no_LF [of "[]" _ v]
  by (fastforce simp: normalize_header_value_def)

lemma canonical_header_value_no_LF:
  assumes "canonical_header_value E hs n = Ok v"
  shows "LF \<notin> set v"
proof -
  from assms obtain xs where v: "v = join_with '','' xs"
    and "list_all2 (\<lambda>b x. map_ok normalize_header_value
           (ok_or (AE_InvalidHeaderValue n) (x_to_str E b)) = Ok x) (hdr_get_all hs n) xs"
    by (auto simp: canonical_header_value_def Let_def res_simps split: if_splits)
  then have "LF \<notin> set x" if "x \<in> set xs" for x
    using that normalize_header_value_no_LF
    by (auto simp: res_simps list_all2_conv_all_nth in_set_conv_nth)
  then show ?thesis
    using set_join_with [of "'',''" xs] unfolding v by fastforce
qed

lemma canonical_header_map_get:
  assumes "canonical_header_map E hs names m = Ok m'" "bt_invar m"
  shows "bt_invar m'
    \<and> (\<forall>n. n \<in> set names \<longrightarrow> (\<exists>v. canonical_header_value E hs n = Ok v \<and> bt_get m' n = Some v))
    \<and> (\<forall>n. n \<notin> set names \<longrightarrow> bt_get m' n = bt_get m n)"
  using assms
proof (induction names arbitrary: m)
  case (Cons a names)
  then obtain v where v: "canonical_header_value E hs a = Ok v"
    and "canonical_header_map E hs names (bt_insert a v m) = Ok m'"
    by (auto simp: res_simps)
  with Cons.IH [of "bt_insert a v m"] Cons.prems(2) show ?case
    by (cases "a \<in> set names") auto
qed simp

lemma keys_by_get: "set (map fst m) = {k. bt_get m k \<noteq> None}"
  by (auto simp: bt_get_def map_of_eq_None_iff image_iff)

lemma bt_keys_unique:
  assumes "bt_invar m" "bt_invar m'" "\<And>k. bt_get m k = None \<longleftrightarrow> bt_get m' k = None"
  shows "map fst m = map fst m'"
  using assms by (intro sorted_distinct_set_unique)
    (auto simp: keys_by_get bt_invar_def strict_sorted_iff
      simp del: set_map)

lemma map_pairs_eq:
  assumes "map fst m = map fst m'" "map (\<lambda>(n, v). n @ c # v) m = map (\<lambda>(n, v). n @ c # v) m'"
  shows "m = m'"
  using assms by (induction m arbitrary: m') (auto simp: Cons_eq_map_conv)

lemma validate_header_names_Ok:
  "validate_header_names p names = Ok u \<Longrightarrow> n \<in> set names \<Longrightarrow>
     list_all (\<lambda>b. \<not> is_ascii_uppercase b \<and> \<not> is_ascii_control b) n"
  by (induction p names rule: validate_header_names.induct)
    (auto simp: res_simps list_ex_iff list_all_iff)

lemma LF_control: "is_ascii_control LF"
  by (simp add: is_ascii_control_def)

lemma validate_signed_headers_no_LF:
  "validate_signed_headers names = Ok u \<Longrightarrow> n \<in> set names \<Longrightarrow> LF \<notin> set n"
  using LF_control by (auto simp: validate_signed_headers_def res_simps list_all_iff
      dest!: validate_header_names_Ok)

lemma canonical_payload_hash_no_LF:
  assumes "canonical_payload_hash E hs src = Ok ph"
  shows "LF \<notin> set ph"
proof (cases src)
  case PS_Header
  with assms obtain mode where "payload_hash_mode E hs = Ok mode"
    and v: "PayloadHashMode_canonical_value mode = Some ph"
    by (auto simp: res_simps)
  then obtain val where "PayloadHashMode_parse E val = Ok mode"
    by (auto simp: payload_hash_mode_def res_simps)
  then have "list_all is_lower_hex h" if "mode = PH_FixedSha256 h d" for h d
    using that by (auto dest!: PayloadHashMode_parse_fixed simp: is_lowercase_sha256_hex_def)
  moreover have "\<not> is_lower_hex LF" by (simp add: ascii_defs)
  ultimately show ?thesis
    using v by (cases mode) (auto simp: list_all_iff)
qed (use assms in auto)

text \<open>The lines of a canonical request are its parts.\<close>

lemma canonical_request_lines:
  assumes "canonical_request E method u hs sh mode src = Ok s" "LF \<notin> set method"
  obtains q m ph where
    "canonical_query E (case uri_query u of None \<Rightarrow> [] | Some q \<Rightarrow> q) mode = Ok q"
    "canonical_header_map E hs (split_on (CHR '';'') sh) bt_empty = Ok m"
    "canonical_payload_hash E hs src = Ok ph"
    "split_on LF s = method # canonical_uri (uri_path u) # q
       # map (\<lambda>(n, v). n @ CHR '':'' # v) m @ [[], sh, ph]"
proof -
  let ?names = "split_on (CHR '';'') sh"
  from assms(1) obtain q m ph where
    q: "canonical_query E (case uri_query u of None \<Rightarrow> [] | Some q \<Rightarrow> q) mode = Ok q"
    and v: "validate_signed_headers ?names = Ok ()"
    and m: "canonical_header_map E hs ?names bt_empty = Ok m"
    and ph: "canonical_payload_hash E hs src = Ok ph"
    and s: "s = method @ [LF] @ canonical_uri (uri_path u) @ [LF] @ q @ [LF]
         @ concat (map (\<lambda>(n, v). n @ '':'' @ v @ [LF]) m) @ [LF] @ sh @ [LF] @ ph"
    by (auto simp: canonical_request_def Let_def res_simps canonical_headers_def)
  have names: "LF \<notin> set n" if "n \<in> set ?names" for n
    using validate_signed_headers_no_LF [OF v that] .
  have "LF \<notin> set (n @ CHR '':'' # w)" if "(n, w) \<in> set m" for n w
  proof -
    have "bt_get m n = Some w"
      using that canonical_header_map_get [OF m] by (simp add: bt_entry_iff)
    then have "n \<in> set ?names \<and> canonical_header_value E hs n = Ok w"
      using canonical_header_map_get [OF m] by (cases "n \<in> set ?names") fastforce+
    with names canonical_header_value_no_LF show ?thesis by auto
  qed
  then have lines: "split_on LF (concat (map (\<lambda>l. l @ [LF]) (map (\<lambda>(n, v). n @ CHR '':'' # v) m)) @ r)
      = map (\<lambda>(n, v). n @ CHR '':'' # v) m @ split_on LF r" for r
    by (intro split_lines) auto
  have "LF \<notin> set sh"
    using set_join_with [of "'';''" ?names] names by fastforce
  then have "split_on LF s = method # canonical_uri (uri_path u) # q
       # map (\<lambda>(n, v). n @ CHR '':'' # v) m @ [[], sh, ph]"
    using lines [of "LF # sh @ LF # ph"] assms(2) canonical_uri_no_LF canonical_query_no_LF [OF q]
      canonical_payload_hash_no_LF [OF ph] s
    by (simp add: split_on_append_sep comp_def case_prod_unfold)
  with q m ph that show ?thesis by blast
qed

lemma header_maps_agree:
  assumes "canonical_header_map E hs names bt_empty = Ok m"
    and "canonical_header_map E hs' names bt_empty = Ok m'"
    and "map (\<lambda>(n, v). n @ CHR '':'' # v) m = map (\<lambda>(n, v). n @ CHR '':'' # v) m'"
    and "n \<in> set names"
  shows "canonical_header_value E hs n = canonical_header_value E hs' n"
proof -
  note g = canonical_header_map_get [OF assms(1)] canonical_header_map_get [OF assms(2)]
  have "bt_get m k = None \<longleftrightarrow> bt_get m' k = None" for k
    using g by (cases "k \<in> set names") fastforce+
  then have "map fst m = map fst m'"
    using g by (intro bt_keys_unique) auto
  then have "m = m'"
    by (rule map_pairs_eq) (rule assms(3))
  with g assms(4) show ?thesis by force
qed

lemma canonical_uri_decode_eq:
  assumes "percent_decode_spec E" "canonical_uri p = canonical_uri p'"
  shows "x_percent_decode E p = x_percent_decode E p'"
proof -
  have "percent_decode_bytes0 p = percent_decode_bytes0 p'"
    using assms(2) canonical_uri_decodes by metis
  with assms(1) show ?thesis
    by (simp add: percent_decode_spec_def percent_decode0_def Let_def)
qed

lemma canonical_query_Ok_params: "canonical_query E q mode = Ok s \<Longrightarrow> \<exists>ps. query_params E mode q = Ok ps"
  by (auto simp: canonical_query_params res_simps)

abbreviation query_of :: "uri \<Rightarrow> string" where
  "query_of u \<equiv> (case uri_query u of None \<Rightarrow> [] | Some q \<Rightarrow> q)"

text \<open>
  C16. A signature cannot be moved to another request: two requests with the same canonical
  request have the same method, paths that percent-decode alike (so the same bucket and key),
  the same multiset of decoded query parameters, the same list of signed headers with the same
  normalised values, and the same payload hash.
\<close>

theorem canonical_request_binds:
  assumes "percent_decode_spec E"
    and "canonical_request E method u hs sh mode src = Ok s"
    and "canonical_request E method' u' hs' sh' mode src = Ok s"
    and "LF \<notin> set method" "LF \<notin> set method'"
  shows "method = method'
    \<and> x_percent_decode E (uri_path u) = x_percent_decode E (uri_path u')
    \<and> (\<exists>ps ps'. query_params E mode (query_of u) = Ok ps
         \<and> query_params E mode (query_of u') = Ok ps' \<and> mset ps = mset ps')
    \<and> sh = sh'
    \<and> (\<forall>n\<in>set (split_on (CHR '';'') sh).
         canonical_header_value E hs n = canonical_header_value E hs' n)
    \<and> canonical_payload_hash E hs src = canonical_payload_hash E hs' src"
proof -
  obtain q m ph where r:
    "canonical_query E (query_of u) mode = Ok q"
    "canonical_header_map E hs (split_on (CHR '';'') sh) bt_empty = Ok m"
    "canonical_payload_hash E hs src = Ok ph"
    "split_on LF s = method # canonical_uri (uri_path u) # q
       # map (\<lambda>(n, v). n @ CHR '':'' # v) m @ [[], sh, ph]"
    by (rule canonical_request_lines [OF assms(2,4)])
  obtain q' m' ph' where r':
    "canonical_query E (query_of u') mode = Ok q'"
    "canonical_header_map E hs' (split_on (CHR '';'') sh') bt_empty = Ok m'"
    "canonical_payload_hash E hs' src = Ok ph'"
    "split_on LF s = method' # canonical_uri (uri_path u') # q'
       # map (\<lambda>(n, v). n @ CHR '':'' # v) m' @ [[], sh', ph']"
    by (rule canonical_request_lines [OF assms(3,5)])
  from r(4) r'(4) have same: "method = method'" "canonical_uri (uri_path u) = canonical_uri (uri_path u')"
    "q = q'" "map (\<lambda>(n, v). n @ CHR '':'' # v) m = map (\<lambda>(n, v). n @ CHR '':'' # v) m'"
    "sh = sh'" "ph = ph'"
    by simp_all
  obtain ps ps' where ps: "query_params E mode (query_of u) = Ok ps"
    "query_params E mode (query_of u') = Ok ps'"
    using r(1) r'(1) canonical_query_Ok_params by blast
  moreover have "mset ps = mset ps'"
    using canonical_query_eq_iff [OF ps] r(1) r'(1) same(3) by simp
  moreover have "\<forall>n\<in>set (split_on (CHR '';'') sh).
      canonical_header_value E hs n = canonical_header_value E hs' n"
    using header_maps_agree [OF r(2) r'(2) [folded same(5)] same(4)] by blast
  ultimately show ?thesis
    using same(1,5,6) r(3) r'(3) canonical_uri_decode_eq [OF assms(1) same(2)] by simp
qed

definition ex_listed_headers :: headers where
  "ex_listed_headers = [(''host'', ''h''), (''x-amz-content-sha256'', ''UNSIGNED-PAYLOAD'')]"

theorem canonical_request_binds_witness:
  "x_percent_decode ext0 ''/b/%7ek'' = x_percent_decode ext0 ''/b/%7Ek''"
proof -
  let ?req = "\<lambda>p q. canonical_request ext0 ''GET'' \<lparr>uri_path = p, uri_query = Some q\<rparr>
      ex_listed_headers ''host;x-amz-content-sha256'' CQ_IncludeAll PS_Header"
  have "is_ok (?req ''/b/%7ek'' ''b=2&a=1'')" "?req ''/b/%7Ek'' ''a=1&b=2'' = ?req ''/b/%7ek'' ''b=2&a=1''"
    by code_simp+
  then obtain s where s: "?req ''/b/%7ek'' ''b=2&a=1'' = Ok s" "?req ''/b/%7Ek'' ''a=1&b=2'' = Ok s"
    by (auto simp: is_ok_iff)
  show ?thesis
    using canonical_request_binds [OF percent_decode_spec_ext0 s] by simp
qed

end
