(* ===== verification/Dispatch_Props.thy ===== *)
theory Dispatch_Props
  imports S3_Dispatch Auth_Props
begin

text \<open>
  Properties of the request pipeline: permits are given back, every request is answered, a
  tenant operation that was begun is finished once, and nothing is read or changed without
  authentication and authorization.
\<close>

section \<open>A calculus for handlers\<close>

text \<open>
  \<open>quiet m\<close>: \<open>m\<close> leaves the permits and the hook events as they were. \<open>tidy m\<close>: so does the
  handler \<open>m\<close>, and it does not panic.
\<close>

definition quiet :: "(world, 'a, 'e) io \<Rightarrow> bool" where
  "quiet m \<longleftrightarrow> (\<forall>w. wd_admission (snd (m w)) = wd_admission w \<and> wd_events (snd (m w)) = wd_events w)"

definition tidy :: "'a handler \<Rightarrow> bool" where
  "tidy m \<longleftrightarrow> quiet m \<and> (\<forall>w. fst (m w) \<noteq> Err Panic)"

named_theorems tidy_intros "handlers that keep permits and events and do not panic"

lemma tidyI:
  "(\<And>w. wd_admission (snd (m w)) = wd_admission w \<and> wd_events (snd (m w)) = wd_events w \<and> fst (m w) \<noteq> Err Panic)
     \<Longrightarrow> tidy m"
  by (simp add: tidy_def quiet_def)

lemma tidyD:
  assumes "tidy m" "m w = (r, w')"
  shows "wd_admission w' = wd_admission w" "wd_events w' = wd_events w" "r \<noteq> Err Panic"
proof -
  have "snd (m w) = w'" "fst (m w) = r" using assms(2) by simp_all
  with assms(1) show "wd_admission w' = wd_admission w" "wd_events w' = wd_events w" "r \<noteq> Err Panic"
    unfolding tidy_def quiet_def by auto
qed

lemma quiet_on_store [tidy_intros]: "quiet (on_store m)"
  by (simp add: quiet_def on_store_def split: prod.split)

lemma tidy_basics [tidy_intros]: "tidy (io_return x)" "tidy (io_fail (Fail e))" "tidy (try_res r)"
  by (cases r; auto simp: tidy_def quiet_def io_simps try_res_def)+

lemma tidy_bind [tidy_intros]:
  assumes "tidy m" "\<And>x. tidy (k x)"
  shows "tidy (io_bind m k)"
proof (rule tidyI)
  fix w
  obtain r w1 where m: "m w = (r, w1)" by force
  show "wd_admission (snd (io_bind m k w)) = wd_admission w \<and> wd_events (snd (io_bind m k w)) = wd_events w
    \<and> fst (io_bind m k w) \<noteq> Err Panic"
  proof (cases r)
    case (Ok x)
    obtain r2 w2 where "k x w1 = (r2, w2)" by force
    with tidyD [OF assms(1) m] tidyD [OF assms(2) this] m Ok show ?thesis by (simp add: io_bind_def)
  qed (use tidyD [OF assms(1) m] m in \<open>simp add: io_bind_def\<close>)
qed

lemma tidy_match [tidy_intros]:
  assumes "quiet m" "\<And>r. tidy (k r)"
  shows "tidy (io_match m k)"
  using assms by (auto simp: tidy_def quiet_def io_match_def split: prod.split) (metis snd_conv)+

lemma tidy_ignore [tidy_intros]: "quiet m \<Longrightarrow> tidy n \<Longrightarrow> tidy (io_ignore m n)"
  unfolding io_ignore_def by (rule tidy_match)

lemma tidy_map_err [tidy_intros]:
  assumes "quiet m" "\<And>e. f e \<noteq> Panic"
  shows "tidy (io_map_err f m)"
proof (rule tidyI)
  fix w
  obtain r w' where m: "m w = (r, w')" by force
  with assms(1) have "wd_admission w' = wd_admission w" "wd_events w' = wd_events w"
    unfolding quiet_def by (metis snd_conv)+
  with m assms(2) show "wd_admission (snd (io_map_err f m w)) = wd_admission w
    \<and> wd_events (snd (io_map_err f m w)) = wd_events w \<and> fst (io_map_err f m w) \<noteq> Err Panic"
    by (cases r) (simp_all add: io_map_err_def)
qed

lemma tidy_if [tidy_intros]: "(b \<Longrightarrow> tidy m) \<Longrightarrow> (\<not> b \<Longrightarrow> tidy n) \<Longrightarrow> tidy (if b then m else n)"
  by simp

lemma tidy_option [tidy_intros]:
  "tidy m \<Longrightarrow> (\<And>x. tidy (k x)) \<Longrightarrow> tidy (case y of None \<Rightarrow> m | Some x \<Rightarrow> k x)"
  by (cases y) simp_all

lemma tidy_result [tidy_intros]:
  "(\<And>x. tidy (k x)) \<Longrightarrow> (\<And>e. tidy (h e)) \<Longrightarrow> tidy (case y of Ok x \<Rightarrow> k x | Err e \<Rightarrow> h e)"
  by (cases y) simp_all

lemma tidy_prod [tidy_intros]: "(\<And>a b. tidy (k a b)) \<Longrightarrow> tidy (case p of (a, b) \<Rightarrow> k a b)"
  by (cases p) simp

text \<open>A permit that was taken is given back, whatever the body returns.\<close>

definition permit_field :: "(admission \<Rightarrow> nat) \<Rightarrow> ((nat \<Rightarrow> nat) \<Rightarrow> admission \<Rightarrow> admission) \<Rightarrow> bool" where
  "permit_field avail upd \<longleftrightarrow> (\<forall>a. avail a \<noteq> 0 \<longrightarrow> upd Suc (upd (\<lambda>n. n - 1) a) = a)"

lemma permit_fields:
  "permit_field ad_s3_requests ad_s3_requests_update"
  "permit_field ad_object_writers ad_object_writers_update"
  "permit_field ad_multipart_part_writers ad_multipart_part_writers_update"
  "permit_field ad_aws_chunked_decoders ad_aws_chunked_decoders_update"
  unfolding permit_field_def by (auto intro!: admission.equality)

text \<open>One permit around a body: either none was left, or the body ran and the permit is back.\<close>

lemma with_permit_cases:
  assumes "with_permit (try_acquire avail upd what) (release upd) m w = (r, w')"
  obtains (refused) "avail (wd_admission w) = 0" "r = Err (Fail (slow_down what))" "w' = w"
  | (ran) w2 where "avail (wd_admission w) \<noteq> 0"
      "m (w\<lparr>wd_admission := upd (\<lambda>n. n - 1) (wd_admission w)\<rparr>) = (r, w2)"
      "w' = w2\<lparr>wd_admission := upd Suc (wd_admission w2)\<rparr>"
  using assms
  by (auto simp: with_permit_def try_acquire_def release_def io_bind_def split: if_splits prod.splits)

lemma tidy_with_permit:
  assumes "permit_field avail upd" "tidy m"
  shows "tidy (with_permit (try_acquire avail upd what) (release upd) m)"
proof (rule tidyI)
  fix w
  obtain r w' where run: "with_permit (try_acquire avail upd what) (release upd) m w = (r, w')" by force
  then have "wd_admission w' = wd_admission w \<and> wd_events w' = wd_events w \<and> r \<noteq> Err Panic"
  proof (cases rule: with_permit_cases)
    case (ran w2)
    with tidyD [OF assms(2) ran(2)] assms(1) show ?thesis by (simp add: permit_field_def)
  qed simp
  with run show "wd_admission (snd (with_permit (try_acquire avail upd what) (release upd) m w)) = wd_admission w
    \<and> wd_events (snd (with_permit (try_acquire avail upd what) (release upd) m w)) = wd_events w
    \<and> fst (with_permit (try_acquire avail upd what) (release upd) m w) \<noteq> Err Panic"
    by simp
qed

lemma tidy_permits [tidy_intros]:
  assumes "tidy m"
  shows "tidy (with_permit try_acquire_object_writer (release ad_object_writers_update) m)"
    "tidy (with_permit try_acquire_multipart_part_writer (release ad_multipart_part_writers_update) m)"
    "tidy (with_permit try_acquire_aws_chunked_decoder (release ad_aws_chunked_decoders_update) m)"
  unfolding try_acquire_object_writer_def try_acquire_multipart_part_writer_def try_acquire_aws_chunked_decoder_def
  by (intro tidy_with_permit permit_fields assms)+

lemma tidy_decoder [tidy_intros]: "tidy m \<Longrightarrow> tidy (with_aws_chunked_decoder E hs m)"
  unfolding with_aws_chunked_decoder_def by (intro tidy_intros)

lemma tidy_calls [tidy_intros]:
  "tidy (object_call what m)" "tidy (store_call n)" "tidy seek_file" "tidy (discard_part_and_fail t (Fail e))"
  unfolding object_call_def store_call_def seek_file_def discard_part_and_fail_def
  by (intro tidy_intros; simp)+

lemma tidy_session_target [tidy_intros]: "tidy (validate_upload_session_target E A rq auth u)"
proof (rule tidyI)
  fix w
  show "wd_admission (snd (validate_upload_session_target E A rq auth u w)) = wd_admission w \<and>
    wd_events (snd (validate_upload_session_target E A rq auth u w)) = wd_events w \<and>
    fst (validate_upload_session_target E A rq auth u w) \<noteq> Err Panic"
    unfolding validate_upload_session_target_def using tidy_basics(3) [unfolded tidy_def quiet_def] by blast
qed

section \<open>The operations\<close>

lemma tidy_object_handlers:
  "tidy (head_object_handler E W A rq i auth)" "tidy (head_bucket_handler E W A rq i auth)"
  "tidy (delete_object_handler E W A rq i auth)" "tidy (get_object_handler E W A rq i auth)"
  unfolding head_object_handler_def head_bucket_handler_def delete_object_handler_def get_object_handler_def
  by (intro tidy_intros; simp)+

lemma tidy_put_staged: "tidy (put_staged E W V A target um i ub staged)"
  unfolding put_staged_def Let_def by (intro tidy_intros; simp)

lemma tidy_put_body [tidy_intros]: "tidy (put_body E W V A rq target um i auth)"
proof -
  obtain w r where "write_upload_body E (rq_headers rq) (rq_body rq) (fresh_sink (ev_writes V)) ''object body''
     (ax_streaming_signing auth) (ul_max_object_size (cf_upload_limits (app_config A))) = (w, Some r)"
    using write_upload_body_total by blast
  then show ?thesis
    unfolding put_body_def Let_def by (cases r) (auto intro!: tidy_intros tidy_put_staged)
qed

lemma tidy_upload_part_body [tidy_intros]: "tidy (upload_part_body E W V A rq i u n auth)"
proof -
  obtain w r where "write_upload_body E (rq_headers rq) (rq_body rq) (fresh_sink (ev_writes V)) ''part body''
     (ax_streaming_signing auth) (ul_max_part_size (cf_upload_limits (app_config A))) = (w, Some r)"
    using write_upload_body_total by blast
  then show ?thesis
    unfolding upload_part_body_def Let_def by (cases r) (auto intro!: tidy_intros)
qed

lemma tidy_put_object: "tidy (handle_put_object E W V A rq i auth)"
  unfolding handle_put_object_def by (intro tidy_intros)

lemma tidy_multipart_handlers:
  "tidy (create_multipart_upload E W V A rq i auth)" "tidy (upload_part E W V A rq i u n auth)"
  "tidy (list_parts E W A rq i u auth)" "tidy (abort_multipart_upload E W V A rq i u auth)"
  "tidy (complete_multipart_upload E W V A rq i u auth)"
  unfolding create_multipart_upload_def upload_part_def list_parts_def abort_multipart_upload_def
    complete_multipart_upload_def
  by (intro tidy_intros)+

lemma tidy_operations: "tidy (dispatch_implemented_operation E W V A rq op i auth)"
  by (cases op) (simp_all add: tidy_object_handlers tidy_put_object tidy_multipart_handlers)

section \<open>A concrete application\<close>

definition ex_web :: web where
  "ex_web = \<lparr>w_header_name = Some, w_build_error = (\<lambda>n v. n), w_rfc2822 = (\<lambda>_. None), w_rfc850 = (\<lambda>_. None),
     w_asctime = (\<lambda>_. None), w_format_http = (\<lambda>_. ''date''), w_format_rfc3339 = (\<lambda>_. ''date''),
     w_to_bytes = (\<lambda>body limit. case body of [] \<Rightarrow> Ok [] | f # _ \<Rightarrow> f), w_complete_xml = (\<lambda>_. Ok [])\<rparr>"

definition ex_app :: "codec \<Rightarrow> app_state" where
  "ex_app J = \<lparr>app_config = Config_new ''/data'', app_auth = ex_auth_state, app_io_tuning = IoTuning_default,
     app_upload_processors = [], app_error_mapper = None, app_response_mapper = None,
     app_authentication_provider = None, app_authorization_policy = None, app_operation_policy = None,
     app_target_policy = None, app_upload_policy = None, app_begin_operation = Noop_begin_operation,
     app_disabled_operations = [], app_codec = J\<rparr>"

definition ex_env :: env where
  "ex_env = \<lparr>ev_now = 7, ev_utc = ex_now, ev_uuid = (\<lambda>n. ''id'' @ replicate n (CHR ''x'')), ev_writes = [],
     ev_timeout = None\<rparr>"

definition ex_world :: world where
  "ex_world = \<lparr>wd_store = \<lparr>ms_fs = \<lparr>fs_nodes = bt_of_list [([''tmp''], DirNode)], fs_faults = []\<rparr>, ms_sessions = []\<rparr>,
     wd_admission = \<lparr>ad_s3_requests = 2, ad_object_writers = 1, ad_multipart_part_writers = 1,
       ad_aws_chunked_decoders = 1\<rparr>, wd_events = []\<rparr>"

definition ex_delete :: request where
  "ex_delete = \<lparr>rq_method = ''DELETE'', rq_uri = \<lparr>uri_path = ''/bucket/key'', uri_query = None\<rparr>,
     rq_headers = [(''host'', ''localhost'')], rq_body = []\<rparr>"

abbreviation ex_run :: "response option \<times> world" where
  "ex_run \<equiv> handle_s3_request ext0 ex_web ex_env (ex_app ex_codec) ''r'' ex_delete ex_world"

section \<open>The pipeline\<close>

text \<open>
  A run of a tenant operation: refused by the provider, or begun and finished once, with an
  outcome that says what the request returns.
\<close>

definition outcome_matches :: "(response, s3_error fail) result \<Rightarrow> tenant_operation_outcome \<Rightarrow> bool" where
  "outcome_matches r out \<longleftrightarrow>
     (case r of
        Ok response \<Rightarrow> out = TenantOperationOutcome_success (rsp_status response) (rsp_decoded_bytes response)
      | Err (Fail e) \<Rightarrow>
          out = TenantOperationOutcome_error e None \<or> out = TenantOperationOutcome_timed_out e
      | Err Panic \<Rightarrow> False)"

lemma tenant_run:
  assumes "dispatch_tenant_limited_operation E W V A rq op i auth ctx w = (r, w')"
  obtains (refused) e where "app_begin_operation A ctx = Err e" "r = Err (Fail e)"
      "w' = w\<lparr>wd_events := wd_events w @ [Ev_Begin ctx]\<rparr>"
  | (timeout) lease t e where "app_begin_operation A ctx = Ok lease" "ev_timeout V = Some t" "r = Err (Fail e)"
      "w' = t\<lparr>wd_admission := wd_admission w,
              wd_events := wd_events w @ [Ev_Begin ctx, Ev_Finish ctx (TenantOperationOutcome_timed_out e)]\<rparr>"
  | (ran) lease w2 where "app_begin_operation A ctx = Ok lease"
      "dispatch_implemented_operation E W V A rq op i auth (w\<lparr>wd_events := wd_events w @ [Ev_Begin ctx]\<rparr>) = (r, w2)"
      "wd_store w' = wd_store w2" "wd_admission w' = wd_admission w"
      "\<exists>out. wd_events w' = wd_events w @ [Ev_Begin ctx, Ev_Finish ctx out] \<and> outcome_matches r out"
proof -
  let ?w1 = "w\<lparr>wd_events := wd_events w @ [Ev_Begin ctx]\<rparr>"
  obtain r2 w2 where op: "dispatch_implemented_operation E W V A rq op i auth ?w1 = (r2, w2)" by force
  note tidy = tidyD [OF tidy_operations op]
  show thesis
  proof (cases "app_begin_operation A ctx")
    case (Err e)
    with assms refused show thesis
      by (simp add: dispatch_tenant_limited_operation_def begin_tenant_operation_def emit_def try_res_def io_simps)
  next
    case (Ok lease)
    note begun = Ok
    show thesis
    proof (cases "tl_timeout lease \<noteq> None \<and> ev_timeout V \<noteq> None")
      case True
      then obtain d t where dt: "tl_timeout lease = Some d" "ev_timeout V = Some t" by blast
      with assms begun show thesis
        by (intro timeout [of lease t "slow_down ''operation timed out''"])
          (simp_all add: dispatch_tenant_limited_operation_def begin_tenant_operation_def finish_tenant_operation_def
            emit_def try_res_def io_simps Let_def)
    next
      case False
      then have "(r, w') = (case r2 of
          Err Panic \<Rightarrow> (Err Panic, w2)
        | Err (Fail e) \<Rightarrow> (r2, w2\<lparr>wd_events := wd_events w2 @ [Ev_Finish ctx (TenantOperationOutcome_error e None)]\<rparr>)
        | Ok response \<Rightarrow> (r2, w2\<lparr>wd_events := wd_events w2 @ [Ev_Finish ctx
            (TenantOperationOutcome_success (rsp_status response) (rsp_decoded_bytes response))]\<rparr>))"
        using assms begun op
        by (auto simp: dispatch_tenant_limited_operation_def begin_tenant_operation_def finish_tenant_operation_def
            emit_def try_res_def io_simps operation_outcome_def split: option.splits result.splits fail.splits)
      with tidy begun op show thesis
        by (intro ran [of lease w2]) (auto simp: outcome_matches_def split: result.splits fail.splits)
    qed
  qed
qed

text \<open>A dispatched request: refused before the tenant limits, or run under them.\<close>

lemma dispatch_cases:
  assumes "dispatch E W V A rq detected i lc clen w = (r, w')"
  obtains (refused) e where "r = Err e" "w' = w" "e = Panic \<longrightarrow> authenticate_request E V A rq = Err Panic"
  | (limited) op auth tenant where "detected = Ok (DO_Implemented op)"
      "allow_operation A \<lparr>oc_operation = op, oc_action = S3Operation_action op\<rparr> = Ok ()"
      "authenticate_request E V A rq = Ok auth"
      "TenantId_from_principal (ax_principal auth) = Ok tenant"
      "dispatch_tenant_limited_operation E W V A rq op i auth (tenant_context rq i op auth tenant lc clen) w = (r, w')"
proof (cases detected)
  case (Err e)
  with assms refused [of "Fail e"] show thesis by (simp add: dispatch_def try_res_def io_simps)
next
  case (Ok d)
  note detected = Ok
  show thesis
  proof (cases d)
    case (DO_Implemented op)
    note run = assms [unfolded dispatch_def detected DO_Implemented]
    show thesis
    proof (cases "allow_operation A \<lparr>oc_operation = op, oc_action = S3Operation_action op\<rparr>")
      case (Err e)
      with run refused [of "Fail e"] show thesis by (simp add: try_res_def io_simps)
    next
      case (Ok u)
      note allowed = Ok
      show thesis
      proof (cases "authenticate_request E V A rq")
        case (Err e)
        with run allowed refused [of e] show thesis by (simp add: try_res_def io_simps)
      next
        case (Ok auth)
        note authenticated = Ok
        show thesis
        proof (cases "TenantId_from_principal (ax_principal auth)")
          case (Err e)
          with run allowed authenticated refused [of "Fail (access_denied ''invalid custom principal id'')"]
          show thesis by (simp add: try_res_def io_simps)
        next
          case (Ok tenant)
          with run allowed authenticated detected DO_Implemented limited [of op auth tenant]
          show thesis by (simp add: try_res_def io_simps)
        qed
      qed
    qed
  qed (use assms detected refused in \<open>auto simp: dispatch_def try_res_def io_simps\<close>)
qed

text \<open>
  One request: what the client receives for the result of the dispatch, and the run itself,
  with the observer called first and the request permit held around the dispatch.
\<close>

definition headless :: "request \<Rightarrow> response \<Rightarrow> response" where
  "headless rq r = (if rq_method rq = ''HEAD'' then without_head_response_body r else r)"

definition answer ::
  "ext \<Rightarrow> app_state \<Rightarrow> string \<Rightarrow> request \<Rightarrow> string \<Rightarrow> s3_response_context
     \<Rightarrow> (response, s3_error fail) result \<Rightarrow> response option" where
  "answer E A i rq operation ctx r =
     (case r of
        Err Panic \<Rightarrow> None
      | Err (Fail e) \<Rightarrow> Some (app_map_response A ctx (headless rq (error_response E A operation i e)))
      | Ok response \<Rightarrow> Some (app_map_response A ctx (headless rq response)))"

abbreviation detected_operation_of :: "ext \<Rightarrow> app_state \<Rightarrow> request \<Rightarrow> detected_operation s3res" where
  "detected_operation_of E A rq \<equiv>
     detect_operation E rq (cf_virtual_host_base_domain (app_config A)) (request_query rq)"

lemma answer_shape:
  obtains "r = Err Panic" | e where "r = Err (Fail e)" | x where "r = Ok x"
  by (cases r) (metis fail.exhaust)+

lemma handle_run:
  assumes "handle_s3_request E W V A i rq w = (resp, w')"
  obtains (busy) operation ctx obs where "ad_s3_requests (wd_admission w) = 0"
      "resp = answer E A i rq operation ctx (Err (Fail (slow_down ''too many active S3 requests; retry the request'')))"
      "w' = w\<lparr>wd_events := wd_events w @ [Ev_Observe obs]\<rparr>"
  | (ran) operation ctx obs lc clen r w2 where "ad_s3_requests (wd_admission w) \<noteq> 0"
      "resp = answer E A i rq operation ctx r"
      "dispatch E W V A rq (detected_operation_of E A rq) i lc clen
         (w\<lparr>wd_events := wd_events w @ [Ev_Observe obs],
            wd_admission := ad_s3_requests_update (\<lambda>n. n - 1) (wd_admission w)\<rparr>) = (r, w2)"
      "w' = w2\<lparr>wd_admission := ad_s3_requests_update Suc (wd_admission w2)\<rparr>"
proof -
  let ?base = "cf_virtual_host_base_domain (app_config A)"
  let ?lc = "request_log_context_of E rq ?base (request_query rq)"
  let ?clen = "request_content_length E rq"
  obtain op where op: "(case detected_operation_of E A rq of Ok d \<Rightarrow> DetectedOperation_name d
      | Err _ \<Rightarrow> ''InvalidRequest'') = op" by blast
  let ?obs = "\<lparr>rc_request_id = i, rc_method = rq_method rq, rc_operation = op, rc_bucket = lc_bucket ?lc,
      rc_key = lc_key ?lc, rc_upload_id = lc_upload_id ?lc, rc_part_number = lc_part_number ?lc,
      rc_content_length = ?clen\<rparr>"
  let ?ctx = "\<lparr>xc_request_id = i, xc_operation = op, xc_bucket = lc_bucket ?lc, xc_key = lc_key ?lc\<rparr>"
  let ?w1 = "w\<lparr>wd_events := wd_events w @ [Ev_Observe ?obs]\<rparr>"
  obtain r w2 where run: "with_permit try_acquire_s3_request (release ad_s3_requests_update)
      (dispatch E W V A rq (detected_operation_of E A rq) i ?lc ?clen) ?w1 = (r, w2)" by force
  have resp: "resp = answer E A i rq op ?ctx r" "w' = w2"
    using assms run
    by (cases rule: answer_shape [of r];
        simp add: handle_s3_request_def ParsedS3Request_parse_def Let_def emit_def op answer_def headless_def)+
  from run [unfolded try_acquire_s3_request_def] show thesis
  proof (cases rule: with_permit_cases)
    case refused
    with resp show thesis by (intro busy [of op ?ctx ?obs]) simp_all
  next
    case ran': (ran w3)
    with resp show thesis by (intro ran [of op ?ctx r ?lc ?clen ?obs w3]) simp_all
  qed
qed

text \<open>The dispatch gives back every permit it takes and panics only in the authentication.\<close>

lemma dispatch_permits:
  assumes "dispatch E W V A rq detected i lc clen w = (r, w')"
  shows "wd_admission w' = wd_admission w" "r = Err Panic \<longrightarrow> authenticate_request E V A rq = Err Panic"
proof -
  have "wd_admission w' = wd_admission w \<and> (r = Err Panic \<longrightarrow> authenticate_request E V A rq = Err Panic)"
    using assms
  proof (cases rule: dispatch_cases)
    case (limited op auth tenant)
    from limited(5) show ?thesis
      by (cases rule: tenant_run) (auto simp: outcome_matches_def)
  qed simp
  then show "wd_admission w' = wd_admission w" "r = Err Panic \<longrightarrow> authenticate_request E V A rq = Err Panic"
    by simp_all
qed

text \<open>
  Permits are conserved: after a request, however it ended (an answer, an error at any point, a
  tenant timeout, a panic), every semaphore has as many free permits as before; a request
  that finds no request permit leaves the stores untouched.
\<close>

lemma permits_conserved:
  assumes "handle_s3_request E W V A i rq w = (resp, w')"
  shows "wd_admission w' = wd_admission w
    \<and> (ad_s3_requests (wd_admission w) = 0 \<longrightarrow> wd_store w' = wd_store w)"
  using assms
proof (cases rule: handle_run)
  case (ran operation ctx obs lc clen r w2)
  with dispatch_permits(1) [OF ran(3)] permit_fields(1) show ?thesis
    by (simp add: permit_field_def)
qed simp

lemma authenticate_request_panic_free:
  assumes "app_authentication_provider A \<noteq> None \<or> sane_clock E (ev_utc V) (au_max_skew_seconds (app_auth A))"
  shows "panic_free (authenticate_request E V A rq)"
  using assms
  by (cases "app_authentication_provider A")
    (auto simp: authenticate_request_def authenticate_with_provider_def
      intro: authenticate_panic_free panic_free_map_ok panic_free_lift)



section \<open>Tenant accounting\<close>

text \<open>What a dispatch adds to the hook events.\<close>

definition accounted :: "app_state \<Rightarrow> string \<Rightarrow> event list \<Rightarrow> bool \<Rightarrow> bool" where
  "accounted A i evs changed \<longleftrightarrow>
     (evs = [] \<and> \<not> changed)
     \<or> (\<exists>ctx e. evs = [Ev_Begin ctx] \<and> app_begin_operation A ctx = Err e \<and> \<not> changed)
     \<or> (\<exists>ctx lease out. evs = [Ev_Begin ctx, Ev_Finish ctx out] \<and> app_begin_operation A ctx = Ok lease
          \<and> tc_request_id ctx = i \<and> TenantId_from_principal (tc_principal ctx) = Ok (tc_tenant ctx)
          \<and> tc_action ctx = S3Operation_action (tc_operation ctx))"

lemma dispatch_accounted:
  assumes "dispatch E W V A rq detected i lc clen w = (r, w')"
  shows "\<exists>evs. wd_events w' = wd_events w @ evs \<and> accounted A i evs (wd_store w' \<noteq> wd_store w)"
  using assms
proof (cases rule: dispatch_cases)
  case (refused e)
  then show ?thesis by (simp add: accounted_def)
next
  case (limited op auth tenant)
  let ?ctx = "tenant_context rq i op auth tenant lc clen"
  have ctx: "tc_request_id ?ctx = i" "TenantId_from_principal (tc_principal ?ctx) = Ok (tc_tenant ?ctx)"
    "tc_action ?ctx = S3Operation_action (tc_operation ?ctx)"
    using limited(4) by (simp_all add: tenant_context_def)
  have finished: "accounted A i [Ev_Begin ?ctx, Ev_Finish ?ctx out] b" if "app_begin_operation A ?ctx = Ok lease" for lease out b
    unfolding accounted_def using that ctx by blast
  from limited(5) show ?thesis
  proof (cases rule: tenant_run)
    case (refused e)
    then show ?thesis by (intro exI [of _ "[Ev_Begin ?ctx]"]) (auto simp: accounted_def)
  next
    case (timeout lease t e)
    then show ?thesis using finished [OF timeout(1)] by auto
  next
    case (ran lease w2)
    then show ?thesis using finished [OF ran(1)] by auto
  qed
qed

text \<open>
  C22. Tenant operations are accounted for: a request calls the observer first; then it either never
  reaches the tenant limits, or is refused by them, or is begun and finished exactly once, with
  the same context, which names the tenant of the authenticated principal. The stores change
  only in the last case.
\<close>

theorem tenant_accounting:
  assumes "handle_s3_request E W V A i rq w = (resp, w')"
  shows "\<exists>obs evs. wd_events w' = wd_events w @ Ev_Observe obs # evs
    \<and> accounted A i evs (wd_store w' \<noteq> wd_store w)"
  using assms
proof (cases rule: handle_run)
  case (busy operation ctx obs)
  then show ?thesis by (auto simp: accounted_def)
next
  case (ran operation ctx obs lc clen r w2)
  with dispatch_accounted [OF ran(3)] show ?thesis by auto
qed

theorem tenant_accounting_witness:
  "\<exists>obs evs. wd_events (snd ex_run) = Ev_Observe obs # evs
     \<and> accounted (ex_app ex_codec) ''r'' evs (wd_store (snd ex_run) \<noteq> wd_store ex_world)"
  using tenant_accounting [of ext0 ex_web ex_env "ex_app ex_codec" "''r''" ex_delete ex_world "fst ex_run" "snd ex_run"]
  by (simp add: ex_world_def)

section \<open>Access control\<close>

text \<open>
  \<open>refuses m w\<close>: from the state \<open>w\<close> the handler returns an error and does not touch the stores.
\<close>

definition refuses :: "'a handler \<Rightarrow> world \<Rightarrow> bool" where
  "refuses m w \<longleftrightarrow> (\<exists>e w'. m w = (Err e, w') \<and> wd_store w' = wd_store w)"

lemma refuses_bind_try:
  "(\<And>x. r = Ok x \<Longrightarrow> refuses (k x) w) \<Longrightarrow> refuses (io_bind (try_res r) k) w"
  by (cases r) (auto simp: refuses_def try_res_def io_simps)

lemma refuses_bind_session:
  assumes "\<And>s t. get_upload u (wd_store w) = Some s \<Longrightarrow> is_open s \<Longrightarrow> resolve_request_target E A rq = Ok t \<Longrightarrow>
      us_bucket s = tgt_bucket t \<Longrightarrow> us_key s = tgt_key t \<Longrightarrow>
      us_owner s = None \<or> us_owner s = ax_access_key_id auth \<Longrightarrow> refuses (k s) w"
  shows "refuses (io_bind (validate_upload_session_target E A rq auth u) k) w"
proof -
  obtain r where v: "validate_upload_session_target E A rq auth u w = (r, w)"
    by (simp add: validate_upload_session_target_def try_res_def io_simps)
  show ?thesis
  proof (cases r)
    case (Ok s)
    with v have "get_upload u (wd_store w) = Some s \<and> is_open s \<and> (\<exists>t. resolve_request_target E A rq = Ok t \<and>
      us_bucket s = tgt_bucket t \<and> us_key s = tgt_key t) \<and> (us_owner s = None \<or> us_owner s = ax_access_key_id auth)"
      by (cases "us_owner s") (auto simp: validate_upload_session_target_def try_res_def io_simps res_simps)
    with assms v Ok show ?thesis by (auto simp: refuses_def io_bind_def)
  qed (use v in \<open>simp add: refuses_def io_bind_def\<close>)
qed

text \<open>The upload a request names, and what it takes to be granted an operation.\<close>

fun upload_of :: "s3_operation \<Rightarrow> upload_id option" where
  "upload_of (Op_UploadPart u n) = Some u"
| "upload_of (Op_CompleteMultipartUpload u) = Some u"
| "upload_of (Op_AbortMultipartUpload u) = Some u"
| "upload_of (Op_ListParts u) = Some u"
| "upload_of _ = None"

definition authorized :: "ext \<Rightarrow> app_state \<Rightarrow> request \<Rightarrow> auth_context \<Rightarrow> s3_operation \<Rightarrow> bool" where
  "authorized E A rq auth op \<longleftrightarrow>
     (if op = Op_HeadBucket
      then \<exists>b. resolve_request_bucket E A rq = Ok b
             \<and> authorize_request A auth b None (S3Operation_action op) = Ok ()
      else \<exists>t. resolve_request_target E A rq = Ok t
             \<and> authorize_request A auth (tgt_bucket t) (Some (tgt_key t)) (S3Operation_action op) = Ok ())"

definition owns_upload :: "ext \<Rightarrow> app_state \<Rightarrow> request \<Rightarrow> auth_context \<Rightarrow> multipart \<Rightarrow> upload_id \<Rightarrow> bool" where
  "owns_upload E A rq auth st u \<longleftrightarrow>
     (\<exists>s t. get_upload u st = Some s \<and> is_open s \<and> resolve_request_target E A rq = Ok t
        \<and> us_bucket s = tgt_bucket t \<and> us_key s = tgt_key t
        \<and> (us_owner s = None \<or> us_owner s = ax_access_key_id auth))"

definition granted :: "ext \<Rightarrow> app_state \<Rightarrow> request \<Rightarrow> auth_context \<Rightarrow> multipart \<Rightarrow> s3_operation \<Rightarrow> bool" where
  "granted E A rq auth st op \<longleftrightarrow>
     authorized E A rq auth op \<and> (\<forall>u. upload_of op = Some u \<longrightarrow> owns_upload E A rq auth st u)"

lemma handler_refuses:
  assumes "\<not> granted E A rq auth (wd_store w) op"
  shows "refuses (dispatch_implemented_operation E W V A rq op i auth) w"
proof (cases op)
  case Op_PutObject
  with assms show ?thesis
    by (auto simp: handle_put_object_def granted_def authorized_def intro!: refuses_bind_try)
next
  case Op_CreateMultipartUpload
  with assms show ?thesis
    by (auto simp: create_multipart_upload_def granted_def authorized_def intro!: refuses_bind_try)
next
  case (Op_UploadPart u n)
  with assms show ?thesis
    by (auto simp: upload_part_def granted_def authorized_def owns_upload_def
        intro!: refuses_bind_try refuses_bind_session)
next
  case (Op_CompleteMultipartUpload u)
  with assms show ?thesis
    by (auto simp: complete_multipart_upload_def granted_def authorized_def owns_upload_def
        intro!: refuses_bind_try refuses_bind_session)
next
  case (Op_AbortMultipartUpload u)
  with assms show ?thesis
    by (auto simp: abort_multipart_upload_def granted_def authorized_def owns_upload_def
        intro!: refuses_bind_try refuses_bind_session)
next
  case (Op_ListParts u)
  with assms show ?thesis
    by (auto simp: list_parts_def granted_def authorized_def owns_upload_def
        intro!: refuses_bind_try refuses_bind_session)
next
  case Op_HeadBucket
  with assms show ?thesis
    by (auto simp: head_bucket_handler_def granted_def authorized_def intro!: refuses_bind_try)
next
  case Op_HeadObject
  with assms show ?thesis
    by (auto simp: head_object_handler_def granted_def authorized_def intro!: refuses_bind_try)
next
  case Op_GetObject
  with assms show ?thesis
    by (auto simp: get_object_handler_def granted_def authorized_def intro!: refuses_bind_try)
next
  case Op_DeleteObject
  with assms show ?thesis
    by (auto simp: delete_object_handler_def granted_def authorized_def intro!: refuses_bind_try)
qed

text \<open>What a request must satisfy in the state it arrives in.\<close>

definition access_granted :: "ext \<Rightarrow> env \<Rightarrow> app_state \<Rightarrow> request \<Rightarrow> world \<Rightarrow> bool" where
  "access_granted E V A rq w \<longleftrightarrow>
     (\<exists>op auth. detected_operation_of E A rq = Ok (DO_Implemented op)
        \<and> S3Operation_action op \<notin> set (app_disabled_operations A)
        \<and> allow_operation A \<lparr>oc_operation = op, oc_action = S3Operation_action op\<rparr> = Ok ()
        \<and> authenticate_request E V A rq = Ok auth
        \<and> granted E A rq auth (wd_store w) op)"

lemma dispatch_refuses:
  assumes "dispatch E W V A rq (detected_operation_of E A rq) i lc clen w = (r, w')"
    and "\<not> access_granted E V A rq w" "ev_timeout V = None"
  shows "wd_store w' = wd_store w \<and> (\<exists>e. r = Err e)"
  using assms(1)
proof (cases rule: dispatch_cases)
  case (limited op auth tenant)
  let ?ctx = "tenant_context rq i op auth tenant lc clen"
  have "S3Operation_action op \<notin> set (app_disabled_operations A)"
    using limited(2) by (auto simp: allow_operation_def split: if_splits)
  with limited(1-3) assms(2) have "\<not> granted E A rq auth (wd_store w) op"
    unfolding access_granted_def by blast
  then have "refuses (dispatch_implemented_operation E W V A rq op i auth)
      (w\<lparr>wd_events := wd_events w @ [Ev_Begin ?ctx]\<rparr>)"
    by (intro handler_refuses) simp
  with limited(5) assms(3) show ?thesis
    by (cases rule: tenant_run) (auto simp: refuses_def)
qed simp

text \<open>
  C1. Access control is complete: a request that is not for an enabled operation, or does not
  authenticate, or whose principal is not authorized for that action on the bucket and key the
  request resolves to, or that names a multipart upload of another target or another owner,
  leaves the stores unchanged and is answered with an error response.
\<close>

theorem access_control_complete:
  assumes "handle_s3_request E W V A i rq w = (resp, w')"
    and "\<not> access_granted E V A rq w" "ev_timeout V = None"
  shows "wd_store w' = wd_store w
    \<and> (\<forall>r. resp = Some r \<longrightarrow>
         (\<exists>operation ctx e. r = app_map_response A ctx (headless rq (error_response E A operation i e))))"
  using assms(1)
proof (cases rule: handle_run)
  case (busy operation ctx obs)
  then show ?thesis by (auto simp: answer_def)
next
  case (ran operation ctx obs lc clen r w2)
  have "\<not> access_granted E V A rq (w\<lparr>wd_events := wd_events w @ [Ev_Observe obs],
      wd_admission := ad_s3_requests_update (\<lambda>n. n - 1) (wd_admission w)\<rparr>)"
    using assms(2) by (simp add: access_granted_def)
  from dispatch_refuses [OF ran(3) this assms(3)] ran show ?thesis
    by (auto simp: answer_def split: fail.splits) blast
qed

text \<open>An unsigned request is refused by an application that does not allow anonymous access.\<close>

theorem access_control_complete_witness:
  "wd_store (snd ex_run) = wd_store ex_world"
proof -
  have "is_ok (authenticate_request ext0 ex_env (ex_app ex_codec) ex_delete) = False"
    by code_simp
  then have "\<not> access_granted ext0 ex_env (ex_app ex_codec) ex_delete ex_world"
    by (auto simp: access_granted_def)
  moreover have "ev_timeout ex_env = None" by (simp add: ex_env_def)
  ultimately show ?thesis
    using access_control_complete [of ext0 ex_web ex_env "ex_app ex_codec" "''r''" ex_delete ex_world "fst ex_run" "snd ex_run"]
    by simp
qed

end
