(* ===== verification/End_To_End.thy ===== *)
theory End_To_End
  imports Dispatch_Props Handler_Props
begin

text \<open>
  Handlers composed with the stores: what a successful PUT makes visible, and what a successful
  GET serves of a visible object.
\<close>

section \<open>Successful runs\<close>

lemma try_res_Ok: "try_res r w = (Ok x, w') \<longleftrightarrow> r = Ok x \<and> w' = w"
  by (cases r) (auto simp: try_res_def io_simps)

lemma object_call_Ok:
  "object_call what m w = (Ok x, w') \<longleftrightarrow>
     (\<exists>s. m (ms_fs (wd_store w)) = (Ok x, s) \<and> w' = w\<lparr>wd_store := (wd_store w)\<lparr>ms_fs := s\<rparr>\<rparr>)"
proof -
  obtain r s where "m (ms_fs (wd_store w)) = (r, s)" by force
  then show ?thesis
    by (cases r) (auto simp: object_call_def on_store_def on_fs_def io_map_err_def)
qed

lemma on_fs_run:
  "on_store (on_fs m) w = (r, w') \<longleftrightarrow>
     (\<exists>s. m (ms_fs (wd_store w)) = (r, s) \<and> w' = w\<lparr>wd_store := (wd_store w)\<lparr>ms_fs := s\<rparr>\<rparr>)"
  by (auto simp: on_store_def on_fs_def split: prod.splits)

lemma with_permit_Ok:
  assumes "with_permit (try_acquire avail upd what) (release upd) m w = (Ok y, w')"
  shows "\<exists>w1 w2. m w1 = (Ok y, w2) \<and> wd_store w1 = wd_store w \<and> wd_store w' = wd_store w2"
  using assms
proof (cases rule: with_permit_cases)
  case (ran w2)
  show ?thesis
    by (intro exI [of _ "w\<lparr>wd_admission := upd (\<lambda>n. n - 1) (wd_admission w)\<rparr>"] exI [of _ w2])
      (simp only: ran(2,3), simp)
qed simp

lemma with_decoder_Ok:
  assumes "with_aws_chunked_decoder E hs m w = (Ok y, w')"
  shows "\<exists>w1 w2. m w1 = (Ok y, w2) \<and> wd_store w1 = wd_store w \<and> wd_store w' = wd_store w2"
proof (cases "is_aws_chunked_request E hs")
  case True
  show ?thesis
    by (rule with_permit_Ok [OF assms [unfolded with_aws_chunked_decoder_def try_acquire_aws_chunked_decoder_def
      if_P [OF True]]])
next
  case False
  with assms show ?thesis by (auto simp: with_aws_chunked_decoder_def)
qed

text \<open>Every body that is read within the limit has the checksums its request declares.\<close>

lemma written_body_Ok:
  assumes "write_upload_body E hs body (fresh_sink fs) t ctx m = (sink, Some (Ok ub))" "m < u64_max"
  shows "checksums_match E hs (sk_bytes sink) ub" "length (sk_bytes sink) \<le> m"
proof -
  from assms obtain s' ts where inv: "upload_inv m (sink, s')"
    and hash: "hashers s' = hashers (UploadBodyState_new E hs)" and fin: "finish_upload E hs s' ts = Ok ub"
    by (rule write_upload_body_inv)
  show "checksums_match E hs (sk_bytes sink) ub" "length (sk_bytes sink) \<le> m"
    using finish_upload_Ok [OF fin inv hash] inv by (auto simp: upload_inv_def)
qed

section \<open>PUT\<close>

text \<open>\<open>serde_json\<close> reads back the metadata it wrote.\<close>

definition json_law :: "codec \<Rightarrow> bool" where
  "json_law J \<longleftrightarrow> (\<forall>md json. j_object_encode J md = Some json \<longrightarrow> j_object_decode J json = Some md)"

lemma json_law_codable: "json_law J \<Longrightarrow> j_object_encode J md \<noteq> None \<Longrightarrow> codable J md"
  by (auto simp: json_law_def codable_def)

lemma put_staged_visible:
  assumes run: "put_staged E W V A t um i ub (staged_of tid) w = (Ok resp, w')"
    and staged: "files (ms_fs (wd_store w)) [''tmp'', tid @ ''.part''] = Some body" "length body < u64_max"
      "dir_in (ms_fs (wd_store w)) [''tmp'']"
    and conf: "app_upload_processors A = []" "0 < io_upload_summary_buffer_size (app_io_tuning A)"
      "json_law (app_codec A)"
  shows "\<exists>md. visible E (app_codec A) (ms_fs (wd_store w')) (tgt_bucket t, tgt_key t) = Some (md, body)
    \<and> om_size md = length body \<and> om_etag md = ETag_from_hex_md5 (x_hex_encode E (x_md5 E body))"
proof -
  let ?n = "io_upload_summary_buffer_size (app_io_tuning A)" and ?s = "ms_fs (wd_store w)"
  let ?p = "[''tmp'', tid @ ''.part'']"
  have path: "st_path (staged_of tid) = ?p" by (simp add: staged_of_def)
  obtain r s1 where sum: "summarize_file E ?n ?p ?s = (r, s1)" by force
  show ?thesis
  proof (cases r)
    case (Err e)
    with run sum conf(1) path show ?thesis
      by (auto simp: put_staged_def Let_def numbered_processors_def io_simps on_store_def on_fs_def split: prod.splits)
  next
    case (Ok fb)
    have fb: "fu_size fb = length body" "fu_digests fb = digests_of E body" "fs_nodes s1 = fs_nodes ?s"
      using summarize_file_Ok [OF sum [unfolded Ok] conf(2)] staged by auto
    let ?md = "put_object_metadata E V A t um ub fb"
    obtain s2 where commit: "commit_staged_object E (app_codec A) (staged_of tid) ?md s1 = (Ok (), s2)"
      and w': "ms_fs (wd_store w') = s2"
      using run sum Ok conf(1) path
      by (auto simp: put_staged_def Let_def numbered_processors_def io_simps on_store_def on_fs_def object_call_def
          try_res_def res_simps split: prod.splits if_splits result.splits)
    have tmp: "files s1 ?p = Some body" "dir_in s1 [''tmp'']"
      using staged fb(3) by simp_all
    have "codable (app_codec A) ?md"
      by (rule json_law_codable [OF conf(3) commit_encodes [OF commit tmp]])
    from commit_visible [OF commit tmp this] w' fb show ?thesis
      by (simp add: put_object_metadata_def digests_of_def)
  qed
qed

text \<open>The body a request delivers, as \<open>handle_put_object\<close> reads it.\<close>

abbreviation read_put_body :: "ext \<Rightarrow> env \<Rightarrow> app_state \<Rightarrow> request \<Rightarrow> auth_context \<Rightarrow> sink \<times> uploaded_body s3res option" where
  "read_put_body E V A rq auth \<equiv>
     write_upload_body E (rq_headers rq) (rq_body rq) (fresh_sink (ev_writes V)) ''object body''
       (ax_streaming_signing auth) (ul_max_object_size (cf_upload_limits (app_config A)))"

lemma put_body_visible:
  assumes run: "put_body E W V A rq t um i auth w = (Ok resp, w')"
    and conf: "app_upload_processors A = []" "0 < io_upload_summary_buffer_size (app_io_tuning A)"
      "ul_max_object_size (cf_upload_limits (app_config A)) < u64_max" "json_law (app_codec A)"
  shows "\<exists>sink ub md. read_put_body E V A rq auth = (sink, Some (Ok ub))
    \<and> visible E (app_codec A) (ms_fs (wd_store w')) (tgt_bucket t, tgt_key t) = Some (md, sk_bytes sink)
    \<and> om_size md = length (sk_bytes sink)
    \<and> om_etag md = ETag_from_hex_md5 (x_hex_encode E (x_md5 E (sk_bytes sink)))"
proof -
  let ?tid = "ev_uuid V 0"
  let ?tmp = "\<lparr>tw_temp_id = ?tid, tw_path = [''tmp'', ?tid @ ''.part''], tw_bytes = []\<rparr>"
  obtain sink r where rd: "read_put_body E V A rq auth = (sink, Some r)"
    using write_upload_body_total by blast
  from run obtain tw s1 where c: "create_temp_object ?tid (ms_fs (wd_store w)) = (Ok tw, s1)"
    by (auto simp: put_body_def io_bind_Ok object_call_Ok)
  from create_temp_object_Ok [OF this] have tw: "tw = ?tmp" "dir_in s1 [''tmp'']" by simp_all
  show ?thesis
  proof (cases r)
    case (Err e)
    with run rd show ?thesis
      by (auto simp: put_body_def io_bind_Ok Let_def io_ignore_def io_match_def io_fail_def split: prod.splits)
  next
    case (Ok ub)
    from run c rd Ok tw obtain st s2 where
      fin: "temp_finish (?tmp\<lparr>tw_bytes := sk_bytes sink\<rparr>) s1 = (Ok st, s2)"
      and put: "put_staged E W V A t um i ub st (w\<lparr>wd_store := (wd_store w)\<lparr>ms_fs := s2\<rparr>\<rparr>) = (Ok resp, w')"
      by (auto simp: put_body_def io_bind_Ok object_call_Ok Let_def)
    have "st = staged_of ?tid" "files s2 [''tmp'', ?tid @ ''.part''] = Some (sk_bytes sink)" "dir_in s2 [''tmp'']"
      using temp_finish_Ok [of ?tid "sk_bytes sink" s1 st s2] fin tw(2) by simp_all
    moreover have "length (sk_bytes sink) < u64_max"
      using written_body_Ok(2) [OF rd [unfolded Ok] conf(3)] conf(3) by simp
    ultimately show ?thesis
      using put_staged_visible [of E W V A t um i ub ?tid "w\<lparr>wd_store := (wd_store w)\<lparr>ms_fs := s2\<rparr>\<rparr>" resp w'
          "sk_bytes sink"] put conf rd Ok by auto
  qed
qed

lemma put_object_visible:
  assumes run: "handle_put_object E W V A rq i auth w = (Ok resp, w')"
    and t: "resolve_request_target E A rq = Ok t"
    and conf: "app_upload_processors A = []" "0 < io_upload_summary_buffer_size (app_io_tuning A)"
      "ul_max_object_size (cf_upload_limits (app_config A)) < u64_max" "json_law (app_codec A)"
  shows "\<exists>sink ub md. read_put_body E V A rq auth = (sink, Some (Ok ub))
    \<and> visible E (app_codec A) (ms_fs (wd_store w')) (tgt_bucket t, tgt_key t) = Some (md, sk_bytes sink)
    \<and> om_size md = length (sk_bytes sink)
    \<and> om_etag md = ETag_from_hex_md5 (x_hex_encode E (x_md5 E (sk_bytes sink)))"
proof -
  from run t obtain um where
    "with_permit try_acquire_object_writer (release ad_object_writers_update)
       (with_aws_chunked_decoder E (rq_headers rq) (put_body E W V A rq t um i auth)) w = (Ok resp, w')"
    by (auto simp: handle_put_object_def io_bind_Ok try_res_Ok)
  from with_permit_Ok [OF this [unfolded try_acquire_object_writer_def]] obtain w1 w2 where
    "with_aws_chunked_decoder E (rq_headers rq) (put_body E W V A rq t um i auth) w1 = (Ok resp, w2)"
    and w2: "wd_store w' = wd_store w2" by blast
  from with_decoder_Ok [OF this(1)] obtain w3 w4 where
    "put_body E W V A rq t um i auth w3 = (Ok resp, w4)" and "wd_store w2 = wd_store w4" by blast
  with put_body_visible [OF this(1) conf] w2 show ?thesis by simp
qed

section \<open>GET\<close>

lemma builder_body_Ok: "builder_body body b = Ok r \<Longrightarrow> rsp_body r = body"
  by (cases b) (auto simp: builder_body_def)

text \<open>A GET that succeeds on a visible object answers 304, or the object, or the range.\<close>

definition serves :: "ext \<Rightarrow> request \<Rightarrow> bytes \<Rightarrow> response \<Rightarrow> bool" where
  "serves E rq content r \<longleftrightarrow>
     (case parse_range_header E (rq_headers rq) (length content) of
        Err e \<Rightarrow> False
      | Ok None \<Rightarrow> rsp_body r = content
      | Ok (Some rng) \<Rightarrow> rsp_body r = take (ByteRange_len rng) (drop (br_start rng) content))"

lemma get_object_serves:
  assumes run: "get_object_handler E W A rq i auth w = (Ok r, w')"
    and t: "resolve_request_target E A rq = Ok t"
    and vis: "visible E (app_codec A) (ms_fs (wd_store w)) (tgt_bucket t, tgt_key t) = Some (md, content)"
    and conf: "0 < io_object_stream_buffer_size (app_io_tuning A)" "om_size md = length content"
  shows "conditional_response E W (rq_headers rq) md i = Ok (Some r)
    \<or> conditional_response E W (rq_headers rq) md i = Ok None \<and> serves E rq content r"
proof -
  from run t obtain found w1 where
    op: "object_call ''failed to open object: '' (open_object E (app_codec A) (tgt_bucket t) (tgt_key t)) w
       = (Ok found, w1)"
    and rest: "\<exists>md' content' early. found = Some (md', content')
       \<and> conditional_response E W (rq_headers rq) md' i = Ok early
       \<and> (case early of Some x \<Rightarrow> r = x
          | None \<Rightarrow> \<exists>rng. parse_range_header E (rq_headers rq) (om_size md') = Ok rng
              \<and> get_object_response E W A rq i md' content' rng = Ok r)"
    unfolding get_object_handler_def io_bind_Ok try_res_Ok
    by (elim exE conjE) (auto simp: io_bind_Ok try_res_Ok res_simps io_return_def split: option.splits)
  have "found = Some (md, content)"
    using op open_object_Ok vis by (fastforce simp: object_call_Ok)
  with rest obtain early where e: "conditional_response E W (rq_headers rq) md i = Ok early"
    and resp: "case early of Some x \<Rightarrow> r = x
          | None \<Rightarrow> \<exists>rng. parse_range_header E (rq_headers rq) (om_size md) = Ok rng
              \<and> get_object_response E W A rq i md content rng = Ok r"
    by auto
  show ?thesis
  proof (cases early)
    case None
    with resp obtain rng where p: "parse_range_header E (rq_headers rq) (length content) = Ok rng"
      and body: "get_object_response E W A rq i md content rng = Ok r"
      by (auto simp: conf(2))
    have "serves E rq content r"
      using body p concat_file_stream [OF conf(1)] concat_file_stream_limited [OF conf(1)]
      by (cases rng) (auto simp: serves_def get_object_response_def Let_def res_simps dest!: builder_body_Ok)
    with e None show ?thesis by simp
  qed (use e resp in simp)
qed

end
