(* ===== verification/Request_Frames.thy ===== *)
theory Request_Frames
  imports End_To_End Multipart_Machine
begin

text \<open>
  What a request may change: the footprint of each operation on the file tree and on the
  session table, whatever its outcome and whatever faults occur.
\<close>

section \<open>Frames of handlers\<close>

text \<open>
  \<open>frames A U m w\<close>: from the state \<open>w\<close> with well-formed sessions, \<open>m\<close> changes no file and
  removes no directory outside \<open>A\<close>, changes no session outside \<open>U\<close>, and leaves well-formed
  sessions.
\<close>

definition stays :: "path set \<Rightarrow> upload_id set \<Rightarrow> multipart \<Rightarrow> multipart \<Rightarrow> bool" where
  "stays A U st st' \<longleftrightarrow> same_off A (ms_fs st) (ms_fs st')
     \<and> (\<forall>u. u \<notin> U \<longrightarrow> bt_get (ms_sessions st') u = bt_get (ms_sessions st) u) \<and> sessions_wf st'"

definition frames :: "path set \<Rightarrow> upload_id set \<Rightarrow> (world, 'a, 'e) io \<Rightarrow> world \<Rightarrow> bool" where
  "frames A U m w \<longleftrightarrow> (sessions_wf (wd_store w) \<longrightarrow> stays A U (wd_store w) (wd_store (snd (m w))))"

named_theorems frames_intros "frame rules of handlers"

lemma stays_refl: "sessions_wf st \<Longrightarrow> stays A U st st"
  by (simp add: stays_def)

lemma stays_wf: "stays A U st st' \<Longrightarrow> sessions_wf st'"
  by (simp add: stays_def)

lemma stays_trans: "stays A U st st1 \<Longrightarrow> stays A U st1 st2 \<Longrightarrow> stays A U st st2"
  by (auto simp: stays_def intro: same_off_trans)

lemma stays_mono: "stays A U st st' \<Longrightarrow> A \<subseteq> B \<Longrightarrow> U \<subseteq> X \<Longrightarrow> stays B X st st'"
  by (auto simp: stays_def intro: same_off_mono)

lemma framesD:
  "frames A U m w \<Longrightarrow> m w = (r, w') \<Longrightarrow> sessions_wf (wd_store w) \<Longrightarrow> stays A U (wd_store w) (wd_store w')"
  by (simp add: frames_def)

lemma frames_mono: "frames A U m w \<Longrightarrow> A \<subseteq> B \<Longrightarrow> U \<subseteq> X \<Longrightarrow> frames B X m w"
  using stays_mono by (auto simp: frames_def)

lemma frames_pure: "wd_store (snd (m w)) = wd_store w \<Longrightarrow> frames A U m w"
  by (simp add: frames_def stays_refl)

lemma frames_basics [frames_intros]:
  "frames A U (io_return x) w" "frames A U (io_fail e) w" "frames A U (try_res r) w"
  by (rule frames_pure, simp add: io_simps try_res_def)+

lemma frames_match [frames_intros]:
  assumes "frames A U m w" "\<And>r w'. m w = (r, w') \<Longrightarrow> frames A U (k r) w'"
  shows "frames A U (io_match m k) w"
proof -
  obtain r w1 where m: "m w = (r, w1)" by force
  obtain q w2 where k: "k r w1 = (q, w2)" by force
  have "stays A U (wd_store w) (wd_store w2)" if wf: "sessions_wf (wd_store w)"
  proof -
    note s = framesD [OF assms(1) m wf]
    from s framesD [OF assms(2) [OF m] k stays_wf [OF s]] show ?thesis by (rule stays_trans)
  qed
  with m k show ?thesis by (simp add: frames_def io_match_def)
qed

lemma frames_bind [frames_intros]:
  assumes "frames A U m w" "\<And>x w'. m w = (Ok x, w') \<Longrightarrow> frames A U (k x) w'"
  shows "frames A U (io_bind m k) w"
  unfolding bind_as_match using assms
  by (auto intro!: frames_match frames_basics split: result.split)

lemma frames_ignore [frames_intros]: "frames A U m w \<Longrightarrow> (\<And>w'. frames A U n w') \<Longrightarrow> frames A U (io_ignore m n) w"
  unfolding io_ignore_def by (rule frames_match)

lemma frames_map_err [frames_intros]: "frames A U m w \<Longrightarrow> frames A U (io_map_err f m) w"
  by (cases "m w") (simp add: frames_def io_map_err_def)

lemma frames_cases [frames_intros]:
  "(b \<Longrightarrow> frames A U m w) \<Longrightarrow> (\<not> b \<Longrightarrow> frames A U n w) \<Longrightarrow> frames A U (if b then m else n) w"
  "frames A U m1 w \<Longrightarrow> (\<And>x. frames A U (k1 x) w) \<Longrightarrow> frames A U (case y1 of None \<Rightarrow> m1 | Some x \<Rightarrow> k1 x) w"
  "(\<And>x. frames A U (k2 x) w) \<Longrightarrow> (\<And>e. frames A U (h2 e) w) \<Longrightarrow>
     frames A U (case y2 of Ok x \<Rightarrow> k2 x | Err e \<Rightarrow> h2 e) w"
  "(\<And>a c. frames A U (k3 a c) w) \<Longrightarrow> frames A U (case y3 of (a, c) \<Rightarrow> k3 a c) w"
  by (simp_all split: option.split result.split prod.split)

lemma frames_on_store: "mframe A U m \<Longrightarrow> frames A U (on_store m) w"
  using mframeD(2-4) by (fastforce simp: frames_def stays_def on_store_def split: prod.split)

lemma frames_touches: "touches B m \<Longrightarrow> B \<subseteq> A \<Longrightarrow> frames A U (on_store (on_fs m)) w"
  by (intro frames_on_store mframe_touches)

lemma frames_calls:
  "mframe A U m \<Longrightarrow> frames A U (store_call m) w"
  "touches B n \<Longrightarrow> B \<subseteq> A \<Longrightarrow> frames A U (object_call what n) w"
  unfolding store_call_def object_call_def
  by (intro frames_map_err frames_on_store, assumption) (intro frames_map_err frames_touches, assumption+)

text \<open>The checks of a handler do not change the state.\<close>

lemma frames_bind_try:
  assumes "\<And>x. r = Ok x \<Longrightarrow> frames A U (k x) w"
  shows "frames A U (io_bind (try_res r) k) w"
  by (cases r) (use assms in \<open>auto simp: frames_def try_res_def io_simps stays_refl\<close>)

lemma session_target_Ok:
  assumes "validate_upload_session_target E A rq auth u w = (Ok s, w')"
  obtains t where "w' = w" "get_upload u (wd_store w) = Some s" "is_open s"
    "resolve_request_target E A rq = Ok t" "us_bucket s = tgt_bucket t" "us_key s = tgt_key t"
    "us_owner s = None \<or> us_owner s = ax_access_key_id auth"
proof -
  from assms show thesis
    unfolding validate_upload_session_target_def try_res_Ok and_then_Ok ensure_Ok ok_or_Ok
    by (elim exE conjE, intro that) (auto split: option.splits)
qed

lemma frames_bind_session:
  assumes "\<And>s t. get_upload u (wd_store w) = Some s \<Longrightarrow> is_open s \<Longrightarrow> resolve_request_target E A rq = Ok t \<Longrightarrow>
      us_bucket s = tgt_bucket t \<Longrightarrow> us_key s = tgt_key t \<Longrightarrow> frames B U (k s) w"
  shows "frames B U (io_bind (validate_upload_session_target E A rq auth u) k) w"
proof (rule frames_bind)
  show "frames B U (validate_upload_session_target E A rq auth u) w"
    by (rule frames_pure) (simp add: validate_upload_session_target_def try_res_def io_simps)
next
  fix s w'
  assume "validate_upload_session_target E A rq auth u w = (Ok s, w')"
  then show "frames B U (k s) w'"
    by (rule session_target_Ok) (simp add: assms)
qed

text \<open>Taking and giving back a permit leaves the stores alone.\<close>

lemma frames_with_permit:
  assumes "\<And>w'. wd_store w' = wd_store w \<Longrightarrow> frames A U m w'"
  shows "frames A U (with_permit (try_acquire avail upd what) (release upd) m) w"
proof -
  obtain r w' where run: "with_permit (try_acquire avail upd what) (release upd) m w = (r, w')" by force
  then have "sessions_wf (wd_store w) \<Longrightarrow> stays A U (wd_store w) (wd_store w')"
  proof (cases rule: with_permit_cases)
    case (ran w2)
    assume "sessions_wf (wd_store w)"
    with framesD [OF assms ran(2)] ran(3) show ?thesis by simp
  qed (simp add: stays_refl)
  with run show ?thesis by (simp add: frames_def)
qed

lemma frames_permits [frames_intros]:
  assumes "\<And>w'. wd_store w' = wd_store w \<Longrightarrow> frames A U m w'"
  shows "frames A U (with_permit try_acquire_object_writer (release ad_object_writers_update) m) w"
    "frames A U (with_permit try_acquire_multipart_part_writer (release ad_multipart_part_writers_update) m) w"
    "frames A U (with_aws_chunked_decoder E hs m) w"
  unfolding try_acquire_object_writer_def try_acquire_multipart_part_writer_def with_aws_chunked_decoder_def
    try_acquire_aws_chunked_decoder_def
  by (auto intro!: frames_with_permit frames_cases assms)

section \<open>The footprint of an operation\<close>

text \<open>The objects and the uploads an operation may change.\<close>

fun writes_target :: "s3_operation \<Rightarrow> bool" where
  "writes_target Op_PutObject = True"
| "writes_target Op_DeleteObject = True"
| "writes_target (Op_CompleteMultipartUpload u) = True"
| "writes_target op = False"

definition op_keys :: "ext \<Rightarrow> app_state \<Rightarrow> request \<Rightarrow> s3_operation \<Rightarrow> store_key set" where
  "op_keys E A rq op =
     (case resolve_request_target E A rq of
        Ok t \<Rightarrow> if writes_target op then {(tgt_bucket t, tgt_key t)} else {}
      | Err e \<Rightarrow> {})"

fun op_uploads :: "env \<Rightarrow> s3_operation \<Rightarrow> upload_id set" where
  "op_uploads V Op_CreateMultipartUpload = {ev_uuid V 0}"
| "op_uploads V (Op_UploadPart u n) = {u}"
| "op_uploads V (Op_CompleteMultipartUpload u) = {u}"
| "op_uploads V (Op_AbortMultipartUpload u) = {u}"
| "op_uploads V op = {}"

definition pair_files :: "ext \<Rightarrow> store_key \<Rightarrow> path set" where
  "pair_files E k = {object_path E (fst k) (snd k), metadata_path E (fst k) (snd k)}"

definition tmp_files :: "path set" where
  "tmp_files = {p. hd p = ''tmp''}"

definition op_files :: "ext \<Rightarrow> env \<Rightarrow> app_state \<Rightarrow> request \<Rightarrow> s3_operation \<Rightarrow> path set" where
  "op_files E V A rq op =
     tmp_files \<union> (\<Union>k\<in>op_keys E A rq op. pair_files E k) \<union> (\<Union>u\<in>op_uploads V op. upload_files u)"

lemma touches_reads:
  "touches {} (head_object E J b k)" "touches {} (open_object E J b k)"
proof -
  show h: "touches {} (head_object E J b k)" for b k
    unfolding head_object_def
    by (intro touches_match touches_intros, split result.split)
      (auto intro!: touches_bind touches_match touches_intros split: result.split io_error.split)
  show "touches {} (open_object E J b k)"
    unfolding open_object_def
    by (intro touches_bind h, split option.split)
      (auto intro!: touches_match touches_intros split: result.split io_error.split)
qed

lemma frames_readers:
  "frames A U (head_object_handler E W a rq i auth) w" "frames A U (head_bucket_handler E W a rq i auth) w"
  "frames A U (get_object_handler E W a rq i auth) w" "frames A U (list_parts E W a rq i u auth) w"
proof -
  have "frames A U seek_file w" for w
    unfolding seek_file_def by (intro frames_map_err frames_touches [OF touches_step]) auto
  then show "frames A U (head_object_handler E W a rq i auth) w" "frames A U (head_bucket_handler E W a rq i auth) w"
    "frames A U (get_object_handler E W a rq i auth) w" "frames A U (list_parts E W a rq i u auth) w"
    unfolding head_object_handler_def head_bucket_handler_def get_object_handler_def list_parts_def
    by (intro frames_bind_session frames_bind frames_cases frames_basics frames_calls(2) [OF touches_reads(1)]
      frames_calls(2) [OF touches_reads(2)]; simp)+
qed

lemma frames_delete:
  assumes "\<And>t. resolve_request_target E a rq = Ok t \<Longrightarrow> pair_files E (tgt_bucket t, tgt_key t) \<subseteq> A"
  shows "frames A U (delete_object_handler E W a rq i auth) w"
proof -
  have "frames A U (object_call what (delete_object E (tgt_bucket t) (tgt_key t))) w"
    if "resolve_request_target E a rq = Ok t" for what t w
    using assms [OF that] by (intro frames_calls(2) [OF touches_delete]) (auto simp: pair_files_def)
  then show ?thesis
    unfolding delete_object_handler_def by (intro frames_bind_try frames_bind frames_basics)
qed

lemma frames_put_staged:
  assumes "\<forall>p\<in>set (app_upload_processors a). confined p" "tmp_files \<subseteq> A"
    and "pair_files E (tgt_bucket t, tgt_key t) \<subseteq> A"
  shows "frames A U (put_staged E W V a t um i ub (staged_of tid)) w"
proof -
  have conf: "confined p" if "(p, uuid) \<in> set (numbered_processors V 1 (app_upload_processors a))" for p uuid
    using assms(1) that by (auto simp: numbered_processors_def dest: set_zip_leftD)
  have proc: "touches tmp_files (process_staged_upload (numbered_processors V 1 (app_upload_processors a)) (staged_of tid) ctx)" for ctx
    unfolding process_staged_upload_def
    by (intro touches_bind touches_for touches_return)
      (auto intro!: touches_process_one conf simp: staged_of_def replacement_path_def tmp_files_def)
  have known: "st = staged_of tid" if "io_map_err Fail (on_store (on_fs (process_staged_upload ps (staged_of tid) ctx))) w = (Ok st, w')"
    for ps ctx w st w'
    using that by (auto simp: process_staged_upload_def io_map_err_def on_store_def on_fs_def io_simps res_simps
        split: prod.splits result.splits)
  have sd: "touches tmp_files (staged_discard (staged_of tid))"
    unfolding staged_discard_def by (rule touches_mono [OF touches_helpers(2)]) (simp add: staged_of_def tmp_files_def)
  have com: "touches A (commit_staged_object E J (staged_of tid) (put_object_metadata E V a t um ub fb))" for J fb
    by (rule touches_mono [OF touches_commit])
      (use assms temp_files_tmp in \<open>auto simp: put_object_metadata_def pair_files_def tmp_files_def\<close>)
  show ?thesis
    unfolding put_staged_def Let_def
    apply (intro frames_bind frames_map_err frames_touches [OF proc assms(2)])
    apply (drule known, hypsubst)
    apply (intro frames_match frames_cases frames_ignore frames_bind frames_basics frames_touches [OF sd assms(2)]
      frames_touches [OF touches_summarize [where A = "{}"]] frames_calls(2) [OF com]; simp)
    done
qed

lemma touches_create_temp: "touches tmp_files (create_temp_object tid)"
  unfolding create_temp_object_def Let_def
  by (intro touches_bind touches_intros) (rule touches_mono [OF touches_calls(3)], simp add: tmp_files_def)

lemma frames_put_body:
  assumes "\<forall>p\<in>set (app_upload_processors a). confined p" "tmp_files \<subseteq> A"
    and "pair_files E (tgt_bucket t, tgt_key t) \<subseteq> A"
  shows "frames A U (put_body E W V a rq t um i auth) w"
proof -
  let ?tid = "ev_uuid V 0"
  let ?tmp = "\<lambda>b. \<lparr>tw_temp_id = ?tid, tw_path = [''tmp'', ?tid @ ''.part''], tw_bytes = b\<rparr>"
  have known: "tw = ?tmp []" if "object_call what (create_temp_object ?tid) w = (Ok tw, w')" for what tw w w'
    using that create_temp_object_Ok by (auto simp: object_call_Ok)
  have fin: "st = staged_of ?tid" if "object_call what (temp_finish (?tmp b)) w = (Ok st, w')" for what b st w w'
    using that temp_finish_Ok by (auto simp: object_call_Ok)
  have t: "touches tmp_files (temp_finish (?tmp b))" "touches tmp_files (temp_discard (?tmp b))" for b
    by (rule touches_mono [OF touches_temp(2)], simp add: tmp_files_def)
      (unfold temp_discard_def, rule touches_mono [OF touches_helpers(2)], simp add: tmp_files_def)
  obtain sink r where rd: "read_put_body E V a rq auth = (sink, Some r)"
    using write_upload_body_total by blast
  have finish: "frames A U (io_bind (object_call what (temp_finish (?tmp b))) (put_staged E W V a t um i ub)) w" for what b ub w
    by (intro frames_bind frames_calls(2) [OF t(1) assms(2)], drule fin, hypsubst) (rule frames_put_staged [OF assms])
  show ?thesis
    unfolding put_body_def Let_def
    by (intro frames_bind frames_calls(2) [OF touches_create_temp assms(2)], drule known)
      (cases r; simp add: rd; intro finish frames_ignore frames_basics frames_touches [OF t(2) assms(2)])
qed

lemma frames_put:
  assumes "\<forall>p\<in>set (app_upload_processors a). confined p" "tmp_files \<subseteq> A"
    and "\<And>t. resolve_request_target E a rq = Ok t \<Longrightarrow> pair_files E (tgt_bucket t, tgt_key t) \<subseteq> A"
  shows "frames A U (handle_put_object E W V a rq i auth) w"
  unfolding handle_put_object_def
  by (intro frames_bind_try frames_permits frames_put_body assms)

lemma frames_upload_part_body:
  assumes "upload_files u \<subseteq> A" "u \<in> U"
  shows "frames A U (upload_part_body E W V a rq i u n auth) w"
proof -
  have su: "session_files u \<subseteq> A" using assms(1) session_files_upload by blast
  have known: "tp_path tp \<in> A" if "store_call (create_temp_part tid u n) w = (Ok tp, w')" for tid tp w w'
    using that su upload_dir_paths(2)
    by (auto simp: store_call_def io_map_err_def on_store_def create_temp_part_def io_bind_Ok Let_def io_return_def
        res_simps split: prod.splits)
  have d: "frames A U (discard_part_and_fail tp e) w" if "tp_path tp \<in> A" for tp e and w
    unfolding discard_part_and_fail_def part_discard_def
    by (intro frames_ignore frames_basics frames_touches [OF touches_helpers(2)]) (use that in simp)
  have f: "frames A U (on_store (on_fs (part_flush tp))) w" if "tp_path tp \<in> A" for tp w
    unfolding part_flush_def by (intro frames_touches [OF touches_calls(2)]) (use that in simp)
  obtain sink r where rd: "write_upload_body E (rq_headers rq) (rq_body rq) (fresh_sink (ev_writes V)) ''part body''
     (ax_streaming_signing auth) (ul_max_part_size (cf_upload_limits (app_config a))) = (sink, Some r)"
    using write_upload_body_total by blast
  show ?thesis
    unfolding upload_part_body_def Let_def
    by (intro frames_bind frames_calls(1) mframe_create_temp_part [OF su], drule known)
      (cases r; simp add: rd; intro d f frames_match frames_cases frames_bind frames_basics frames_calls(1)
        mframe_commit_part [OF assms]; simp)
qed

lemma frames_multipart:
  assumes "\<And>u. u \<in> U \<Longrightarrow> upload_files u \<subseteq> A"
  shows "ev_uuid V 0 \<in> U \<Longrightarrow> frames A U (create_multipart_upload E W V a rq i auth) w"
    and "u \<in> U \<Longrightarrow> frames A U (upload_part E W V a rq i u n auth) w"
    and "u \<in> U \<Longrightarrow> frames A U (abort_multipart_upload E W V a rq i u auth) w"
proof -
  have su: "session_files u \<subseteq> A" if "u \<in> U" for u
    using assms [OF that] session_files_upload by blast
  show "frames A U (create_multipart_upload E W V a rq i auth) w" if "ev_uuid V 0 \<in> U"
    unfolding create_multipart_upload_def
    by (intro frames_bind_try frames_bind frames_basics frames_calls(1) mframe_create_upload su that)
  show "frames A U (upload_part E W V a rq i u n auth) w" if "u \<in> U"
    unfolding upload_part_def
    by (intro frames_bind_try frames_bind_session frames_permits frames_upload_part_body assms that)
  show "frames A U (abort_multipart_upload E W V a rq i u auth) w" if "u \<in> U"
    unfolding abort_multipart_upload_def
    by (intro frames_bind_try frames_bind_session frames_bind frames_basics frames_calls(1) mframe_abort_upload assms that)
qed

text \<open>A completion changes the upload, the temporary files and the pair of the session's object.\<close>

lemma completion_keeps_dirs:
  assumes "bt_get (ms_sessions st) (cr_upload_id req) = Some us" "p \<notin> upload_files (cr_upload_id req)"
    and "touches A (commit_completed E J x0 now (us\<lparr>us_state := Completing\<rparr>) req)"
  shows "preserved (\<lambda>st. dir_in (ms_fs st) p) (complete_upload E J x0 x1 x2 x3 now req) st"
proof -
  let ?I = "\<lambda>st. dir_in (ms_fs st) p" and ?u = "cr_upload_id req"
  have t: "preserved ?I (on_fs m) st" if "touches B m" for B and m :: "(fs, 'a, 'e) io" and st
    using touchesD(2) [OF that] by (auto simp: preserved_def on_fs_def split: prod.split)
  have d: "preserved ?I (on_fs (fs_remove_dir_all (upload_dir ?u))) st" for st
    using remove_dir_same_off [of "upload_dir ?u" "ms_fs st" _ _ "upload_files ?u"] assms(2)
    by (auto simp: preserved_def on_fs_def upload_files_def same_off_def split: prod.split)
  have pure: "preserved ?I (put_session v us) st" "preserved ?I (drop_session v) st" "preserved ?I (get_session v) st" for v us st
    by (simp_all add: preserved_def put_session_def drop_session_def get_session_def)
  have mark: "preserved ?I (mark_upload_state v state) st" for v state st
    unfolding mark_upload_state_def by (intro preserved_bind preserved_cases preserved_basics pure)
  have finish: "preserved ?I (finish_completion J x2 ?u) st" for st
    unfolding finish_completion_def
    by (intro preserved_bind preserved_ignore preserved_cases preserved_basics mark pure d t [OF touches_persist]
        t [OF touches_helpers(2)])
  have restore: "preserved ?I (restore_open_upload J x3 ?u) st" for st
    unfolding restore_open_upload_def
    by (intro preserved_bind preserved_ignore preserved_cases preserved_basics mark t [OF touches_persist])
  have start: "preserved ?I (begin_completion J x1 ?u) st"
    unfolding begin_completion_def Let_def
    by (intro preserved_bind preserved_ignore preserved_basics pure t [OF touches_persist])
      (simp add: preserved_def get_open_upload_eq split: option.split)
  have known: "v = us\<lparr>us_state := Completing\<rparr>" if "begin_completion J x1 ?u st = (Ok v, st')" for v st'
    using that assms(1) by (auto simp: begin_completion_def get_open_upload_eq Let_def io_simps put_session_def split: if_splits prod.splits)
  show ?thesis
    unfolding complete_upload_def
    apply (rule preserved_bind [OF start], drule known, hypsubst)
    apply (unfold complete_upload_after_transition_def)
    apply (intro preserved_match preserved_bind preserved_cases preserved_ignore preserved_basics t [OF assms(3)] finish restore)
    done
qed

lemma complete_upload_stays:
  assumes run: "complete_upload E J x0 x1 x2 x3 now req st = (r, st')" and wf: "sessions_wf st"
    and us: "bt_get (ms_sessions st) (cr_upload_id req) = Some us"
    and conf: "cr_copy_buffer req > 0" "\<forall>(p, uuid)\<in>set (cr_processors req). confined p"
  shows "stays (completion_files E us \<union> upload_files (cr_upload_id req)) {cr_upload_id req} st st'"
proof -
  let ?u = "cr_upload_id req" and ?A = "completion_files E us \<union> upload_files (cr_upload_id req)"
  have com: "touches (completion_files E us) (commit_completed E J x0 now (us\<lparr>us_state := Completing\<rparr>) req)"
  proof -
    have "touches (completion_files E (us\<lparr>us_state := Completing\<rparr>))
        (commit_completed E J x0 now (us\<lparr>us_state := Completing\<rparr>) req)"
      using conf by (intro touches_commit_completed) auto
    then show ?thesis by (simp add: completion_files_def)
  qed
  have su: "p \<notin> session_files ?u" if "p \<notin> upload_files ?u" for p
    using that session_files_upload by blast
  have fr: "(\<forall>p. p \<notin> ?A \<longrightarrow> files (ms_fs st') p = files (ms_fs st) p)
      \<and> (\<forall>v. v \<notin> {?u} \<longrightarrow> bt_get (ms_sessions st') v = bt_get (ms_sessions st) v) \<and> sessions_wf st'"
    using run wf refl
  proof (cases rule: complete_upload_cases)
    case (failed us' e s1 s2)
    with us touchesD(1) [OF com, of s1 "Err e" s2] su wf show ?thesis by (auto simp: sessions_wf_def)
  next
    case (completed us' md s1 s2)
    with us touchesD(1) [OF com, of s1 "Ok md" s2] su wf show ?thesis by (auto simp: sessions_wf_def)
  qed (use wf in auto)
  have "dir_in (ms_fs st') p" if "p \<notin> ?A" "dir_in (ms_fs st) p" for p
    using preservedD [OF completion_keeps_dirs [OF us _ com] run that(2)] that(1) wf us
    by (auto simp: sessions_wf_def session_ok_id)
  with fr show ?thesis by (simp add: stays_def same_off_def)
qed

lemma frames_complete_upload:
  assumes us: "get_upload u (wd_store w) = Some us" "us_bucket us = b" "us_key us = k"
    and req: "cr_upload_id req = u" "cr_copy_buffer req > 0" "\<forall>(p, uuid)\<in>set (cr_processors req). confined p"
    and A: "tmp_files \<subseteq> A" "upload_files u \<subseteq> A" "u \<in> U" "pair_files E (b, k) \<subseteq> A"
  shows "frames A U (store_call (complete_upload E J x0 x1 x2 x3 now req)) w"
proof -
  obtain r st' where run: "complete_upload E J x0 x1 x2 x3 now req (wd_store w) = (r, st')" by force
  have sub: "completion_files E us \<union> upload_files u \<subseteq> A"
    using A us(2,3) by (auto simp: completion_files_def pair_files_def tmp_files_def)
  have "bt_get (ms_sessions (wd_store w)) (cr_upload_id req) = Some us"
    using us(1) req(1) by (simp add: get_upload_def)
  from complete_upload_stays [OF run _ this req(2,3)] have "stays A U (wd_store w) st'" if "sessions_wf (wd_store w)"
    using that sub A(3) unfolding req(1) by (blast intro: stays_mono)
  then show ?thesis
    unfolding store_call_def by (intro frames_map_err) (simp add: frames_def on_store_def run)
qed

lemma frames_complete:
  assumes conf: "\<forall>p\<in>set (app_upload_processors a). confined p" "0 < io_multipart_complete_buffer_size (app_io_tuning a)"
    and A: "tmp_files \<subseteq> A" "upload_files u \<subseteq> A" "u \<in> U"
      "\<And>t. resolve_request_target E a rq = Ok t \<Longrightarrow> pair_files E (tgt_bucket t, tgt_key t) \<subseteq> A"
  shows "frames A U (complete_multipart_upload E W V a rq i u auth) w"
proof -
  have p: "\<forall>(p, uuid)\<in>set (numbered_processors V n (app_upload_processors a)). confined p" for n
    using conf(1) by (auto simp: numbered_processors_def dest: set_zip_leftD)
  show ?thesis
    unfolding complete_multipart_upload_def
    by (rule frames_bind_session, intro frames_bind_try frames_cases frames_bind frames_basics, rule frames_complete_upload,
        assumption+) (simp_all add: conf(2) p A)
qed

text \<open>Every operation stays within its footprint.\<close>

lemma frames_operation:
  assumes "\<forall>p\<in>set (app_upload_processors a). confined p" "0 < io_multipart_complete_buffer_size (app_io_tuning a)"
  shows "frames (op_files E V a rq op) (op_uploads V op) (dispatch_implemented_operation E W V a rq op i auth) w"
proof -
  have sub: "tmp_files \<subseteq> op_files E V a rq op" "\<And>u. u \<in> op_uploads V op \<Longrightarrow> upload_files u \<subseteq> op_files E V a rq op"
    "\<And>t. resolve_request_target E a rq = Ok t \<Longrightarrow> writes_target op \<Longrightarrow>
      pair_files E (tgt_bucket t, tgt_key t) \<subseteq> op_files E V a rq op"
    by (auto simp: op_files_def op_keys_def)
  show ?thesis
    using sub assms
    by (cases op) (auto intro!: frames_readers frames_delete frames_put frames_multipart frames_complete)
qed

section \<open>Requests\<close>

text \<open>The objects and the uploads a request may change.\<close>

definition request_keys :: "ext \<Rightarrow> app_state \<Rightarrow> request \<Rightarrow> store_key set" where
  "request_keys E A rq =
     (case detected_operation_of E A rq of Ok (DO_Implemented op) \<Rightarrow> op_keys E A rq op | _ \<Rightarrow> {})"

definition request_uploads :: "ext \<Rightarrow> env \<Rightarrow> app_state \<Rightarrow> request \<Rightarrow> upload_id set" where
  "request_uploads E V A rq =
     (case detected_operation_of E A rq of Ok (DO_Implemented op) \<Rightarrow> op_uploads V op | _ \<Rightarrow> {})"

text \<open>Processors work on the files they are given, and the copy loop has a buffer.\<close>

definition regular :: "app_state \<Rightarrow> bool" where
  "regular A \<longleftrightarrow> (\<forall>p\<in>set (app_upload_processors A). confined p)
     \<and> 0 < io_multipart_complete_buffer_size (app_io_tuning A)"

lemma request_stays:
  assumes "handle_s3_request E W V A i rq w = (resp, w')" "sessions_wf (wd_store w)" "ev_timeout V = None" "regular A"
  shows "stays (tmp_files \<union> (\<Union>k\<in>request_keys E A rq. pair_files E k) \<union> (\<Union>u\<in>request_uploads E V A rq. upload_files u))
    (request_uploads E V A rq) (wd_store w) (wd_store w')"
  using assms(1)
proof (cases rule: handle_run)
  case busy
  with assms(2) show ?thesis by (simp add: stays_refl)
next
  case (ran operation ctx obs lc clen r w2)
  from ran(3) have "stays (tmp_files \<union> (\<Union>k\<in>request_keys E A rq. pair_files E k) \<union>
      (\<Union>u\<in>request_uploads E V A rq. upload_files u)) (request_uploads E V A rq) (wd_store w) (wd_store w2)"
  proof (cases rule: dispatch_cases)
    case (limited op auth tenant)
    have keys: "request_keys E A rq = op_keys E A rq op" "request_uploads E V A rq = op_uploads V op"
      using limited(1) by (simp_all add: request_keys_def request_uploads_def)
    from limited(5) show ?thesis
    proof (cases rule: tenant_run)
      case (ran lease w3)
      from framesD [OF frames_operation ran(2)] ran(3) assms(2,4) show ?thesis
        by (simp add: keys op_files_def regular_def)
    qed (use assms(2,3) in \<open>simp_all add: stays_refl\<close>)
  qed (use assms(2) in \<open>simp add: stays_refl\<close>)
  with ran(4) show ?thesis by simp
qed

lemma pair_files_apart: "key_apart E j k \<Longrightarrow> p \<in> pair_files E k \<Longrightarrow> p \<notin> pair_files E j"
  using key_apart_paths [of E "fst j" "snd j" "fst k" "snd k"] by (auto simp: pair_files_def)

lemma stays_files:
  assumes "stays (tmp_files \<union> (\<Union>k\<in>K. pair_files E k) \<union> (\<Union>u\<in>U. upload_files u)) U st st'"
  shows "(\<And>j. j \<in> K \<Longrightarrow> key_apart E j k) \<Longrightarrow> p \<in> pair_files E k \<Longrightarrow> files (ms_fs st') p = files (ms_fs st) p"
    and "v \<notin> U \<Longrightarrow> p \<in> upload_files v \<Longrightarrow> files (ms_fs st') p = files (ms_fs st) p"
proof -
  let ?A = "tmp_files \<union> (\<Union>k\<in>K. pair_files E k) \<union> (\<Union>u\<in>U. upload_files u)"
  have same: "p \<notin> ?A \<Longrightarrow> files (ms_fs st') p = files (ms_fs st) p" for p
    using assms by (simp add: stays_def same_off_def)
  have hd: "hd p = ''objects'' \<or> hd p = ''metadata''" if "p \<in> pair_files E k" for p k
    using that by (auto simp: pair_files_def)
  show "files (ms_fs st') p = files (ms_fs st) p" if "\<And>j. j \<in> K \<Longrightarrow> key_apart E j k" "p \<in> pair_files E k"
  proof (rule same)
    have "p \<notin> pair_files E j" if "j \<in> K" for j
      using that \<open>\<And>j. j \<in> K \<Longrightarrow> key_apart E j k\<close> \<open>p \<in> pair_files E k\<close> by (blast dest: pair_files_apart)
    moreover have "p \<notin> upload_files u" "p \<notin> tmp_files" for u
      using hd [OF that(2)] by (auto simp: tmp_files_def dest: upload_files_hd)
    ultimately show "p \<notin> ?A" by blast
  qed
  show "files (ms_fs st') p = files (ms_fs st) p" if "v \<notin> U" "p \<in> upload_files v"
  proof (rule same)
    have "p \<notin> upload_files u" if "u \<in> U" for u
      using that \<open>v \<notin> U\<close> \<open>p \<in> upload_files v\<close> upload_files_apart [of u v] by blast
    moreover have "p \<notin> pair_files E k" "p \<notin> tmp_files" for k
      using upload_files_hd [OF that(2)] by (auto simp: tmp_files_def dest: hd)
    ultimately show "p \<notin> ?A" by blast
  qed
qed

lemma stays_visible:
  assumes "stays (tmp_files \<union> (\<Union>k\<in>K. pair_files E k) \<union> (\<Union>u\<in>U. upload_files u)) U st st'"
    and "\<And>j. j \<in> K \<Longrightarrow> key_apart E j k"
  shows "visible E J (ms_fs st') k = visible E J (ms_fs st) k"
proof -
  have "visible E J (ms_fs st') (fst k, snd k) = visible E J (ms_fs st) (fst k, snd k)"
    by (intro visible_cong stays_files(1) [OF assms]) (simp_all add: pair_files_def)
  then show ?thesis by simp
qed

text \<open>
  C7. Requests are isolated: a request, whatever its outcome and whatever faults occur, keeps the
  session table well formed; it changes no object other than the target of a PUT, a DELETE or a
  completion (no object at all when it is a GET, a HEAD, a listing, or a step of a multipart upload
  before its completion); and it changes no multipart upload other than the one it creates or names,
  neither its session nor any of its files.
\<close>

theorem requests_isolated:
  assumes "handle_s3_request E W V A i rq w = (resp, w')" "sessions_wf (wd_store w)" "ev_timeout V = None" "regular A"
  shows "sessions_wf (wd_store w')
    \<and> (\<forall>k. (\<forall>j\<in>request_keys E A rq. key_apart E j k) \<longrightarrow>
        visible E (app_codec A) (ms_fs (wd_store w')) k = visible E (app_codec A) (ms_fs (wd_store w)) k)
    \<and> (\<forall>u. u \<notin> request_uploads E V A rq \<longrightarrow>
        bt_get (ms_sessions (wd_store w')) u = bt_get (ms_sessions (wd_store w)) u
        \<and> (\<forall>p\<in>upload_files u. files (ms_fs (wd_store w')) p = files (ms_fs (wd_store w)) p))"
proof (intro conjI allI impI ballI)
  note s = request_stays [OF assms]
  show "sessions_wf (wd_store w')" using s by (rule stays_wf)
  show "visible E (app_codec A) (ms_fs (wd_store w')) k = visible E (app_codec A) (ms_fs (wd_store w)) k"
    if "\<forall>j\<in>request_keys E A rq. key_apart E j k" for k
    using s that by (blast intro: stays_visible)
  show "bt_get (ms_sessions (wd_store w')) u = bt_get (ms_sessions (wd_store w)) u"
    if "u \<notin> request_uploads E V A rq" for u
    using s that by (simp add: stays_def same_off_def)
  show "files (ms_fs (wd_store w')) p = files (ms_fs (wd_store w)) p"
    if "u \<notin> request_uploads E V A rq" "p \<in> upload_files u" for u p
    using s that by (rule stays_files(2))
qed

text \<open>A DELETE beside an open upload.\<close>

definition ex_open_app :: "codec \<Rightarrow> app_state" where
  "ex_open_app J = (ex_app J)\<lparr>app_authentication_provider :=
     Some (\<lambda>_. Ok \<lparr>ar_principal = RP_AccessKey ''test'', ar_access_key_id = Some ''test''\<rparr>)\<rparr>"

definition ex_upload_world :: world where
  "ex_upload_world = ex_world\<lparr>wd_store := ex_store []\<rparr>"

abbreviation ex_delete_run :: "response option \<times> world" where
  "ex_delete_run \<equiv> handle_s3_request ext0 ex_web ex_env (ex_open_app ex_codec) ''r'' ex_delete ex_upload_world"

lemma ex_regular: "regular (ex_open_app J)"
  by (simp add: regular_def ex_open_app_def ex_app_def IoTuning_default_def)

theorem requests_isolated_witness:
  "map_option rsp_status (fst ex_delete_run) = Some 204
   \<and> bt_get (ms_sessions (wd_store (snd ex_delete_run))) ''U'' = Some ex_session
   \<and> files (ms_fs (wd_store (snd ex_delete_run))) (part_path ''U'' 1) = Some ''hello''"
proof -
  have run: "ex_delete_run = (fst ex_delete_run, snd ex_delete_run)" by simp
  have status: "map_option rsp_status (fst ex_delete_run) = Some 204" by code_simp
  have "request_uploads ext0 ex_env (ex_open_app ex_codec) ex_delete = {}" by code_simp
  moreover have "sessions_wf (wd_store ex_upload_world)" "ev_timeout ex_env = None"
    by (simp_all add: ex_upload_world_def ex_store_wf ex_env_def)
  ultimately have keep: "bt_get (ms_sessions (wd_store (snd ex_delete_run))) ''U'' = bt_get (ms_sessions (wd_store ex_upload_world)) ''U''
      \<and> (\<forall>p\<in>upload_files ''U''. files (ms_fs (wd_store (snd ex_delete_run))) p = files (ms_fs (wd_store ex_upload_world)) p)"
    using requests_isolated [OF run _ _ ex_regular] by blast
  have "bt_get (ms_sessions (wd_store ex_upload_world)) ''U'' = Some ex_session"
    "files (ms_fs (wd_store ex_upload_world)) (part_path ''U'' 1) = Some ''hello''"
    by code_simp+
  with keep status show ?thesis by simp
qed

end
