(* ===== verification/Session_Recovery.thy ===== *)
theory Session_Recovery
  imports Request_Frames Multipart_Startup
begin

text \<open>
  What a restart finds on disk: every \<open>session.json\<close> below the multipart directory decodes to a
  session of the directory it stands in. Every request keeps this invariant, so a restart loads a
  well-formed session table.
\<close>

section \<open>Sessions on disk\<close>

text \<open>\<open>serde_json\<close> reads back a session it has written.\<close>

definition session_law :: "codec \<Rightarrow> bool" where
  "session_law J \<longleftrightarrow> (\<forall>us json. j_session_encode J us = Some json \<longrightarrow> j_session_decode J json = Some us)"

definition disk_ok :: "codec \<Rightarrow> fs \<Rightarrow> bool" where
  "disk_ok J s \<longleftrightarrow> (\<forall>u json us. files s (session_path u) = Some json \<longrightarrow> j_session_decode J json = Some us \<longrightarrow> session_ok u us)"

definition recoverable :: "codec \<Rightarrow> multipart \<Rightarrow> bool" where
  "recoverable J st \<longleftrightarrow> sessions_wf st \<and> disk_ok J (ms_fs st)"

lemma disk_ok_shrinks:
  assumes "disk_ok J s" "\<And>u json. files s' (session_path u) = Some json \<Longrightarrow> files s (session_path u) = Some json"
  shows "disk_ok J s'"
  using assms unfolding disk_ok_def by blast

lemma recoverable_shrinks:
  assumes "recoverable J st" "sessions_wf st'"
    and "\<And>u json. files (ms_fs st') (session_path u) = Some json \<Longrightarrow> files (ms_fs st) (session_path u) = Some json"
  shows "recoverable J st'"
  using assms disk_ok_shrinks unfolding recoverable_def by blast

lemma session_tmp_neq: "''session.'' @ uuid @ ''.tmp'' \<noteq> ''session.json''"
proof
  assume "''session.'' @ uuid @ ''.tmp'' = ''session.json''"
  then have "last (''session.'' @ uuid @ ''.tmp'') = last ''session.json''" by simp
  then show False by simp
qed

text \<open>The only call that writes a session file writes the encoded session, or leaves the file.\<close>

lemma persist_session_file:
  assumes "persist_session J uuid us s = (r, s')" "us_upload_id us = u"
  shows "r = Ok () \<and> files s' (session_path u) = j_session_encode J us \<and> j_session_encode J us \<noteq> None
    \<or> (\<exists>e. r = Err e) \<and> files s' (session_path u) = files s (session_path u)"
proof -
  let ?sp = "session_path u" and ?tmp = "upload_dir u @ [''session.'' @ uuid @ ''.tmp'']"
  have neq: "?sp \<noteq> ?tmp" using session_tmp_neq [of uuid] by (auto simp: session_path_def)
  have par: "files s1 ?sp = files s ?sp" if "create_parent_dir ?sp s = (q, s1)" for q s1
    using touchesD(1) [OF touches_helpers(1) that, of ?sp "{}"] by simp
  have wr: "files s2 ?sp = files s1 ?sp" if "fs_write ?tmp json s1 = (q, s2)" for json q s1 s2
    using touchesD(1) [OF touches_calls(2) that, of ?sp] neq by simp
  have rm: "files s2 ?sp = files s1 ?sp" if "remove_file_if_exists ?tmp s1 = (q, s2)" for q s1 s2
    using touchesD(1) [OF touches_helpers(2) that, of ?sp] neq by simp
  have ren: "q = Ok () \<and> files s2 ?sp = files s1 ?tmp \<or> (\<exists>e. q = Err e) \<and> files s2 ?sp = files s1 ?sp"
    if "fs_rename ?tmp ?sp s1 = (q, s2)" for q s1 s2
    using that by (cases rule: fs_rename_cases) (use neq in auto)
  obtain r1 s1 where c: "create_parent_dir ?sp s = (r1, s1)" by fastforce
  show ?thesis
  proof (cases "j_session_encode J us")
    case None
    with assms c par [OF c] show ?thesis
      by (auto simp: persist_session_def Let_def io_simps res_simps split: result.splits)
  next
    case (Some json)
    obtain r2 s2 where w: "fs_write ?tmp json s1 = (r2, s2)" by fastforce
    obtain r3 s3 where n: "fs_rename ?tmp ?sp s2 = (r3, s3)" by fastforce
    obtain r4 s4 where d2: "remove_file_if_exists ?tmp s2 = (r4, s4)" by fastforce
    obtain r5 s5 where d3: "remove_file_if_exists ?tmp s3 = (r5, s5)" by fastforce
    have "persist_session J uuid us s = (case r1 of Err e \<Rightarrow> (Err e, s1) | Ok _ \<Rightarrow>
        (case r2 of Err e \<Rightarrow> (Err (SE_Io e), s4) | Ok _ \<Rightarrow>
          (case r3 of Err e \<Rightarrow> (Err (SE_Io e), s5) | Ok _ \<Rightarrow> (Ok (), s3))))"
      using c w n d2 d3 Some assms(2)
      by (simp add: persist_session_def Let_def io_simps split: result.split)
    moreover have "r2 = Ok y \<Longrightarrow> files s2 ?tmp = Some json" for y
      using fs_write_Ok [of id ?tmp json s1 y s2] w by (simp add: io_map_err_def)
    ultimately show ?thesis
      using assms(1) Some par [OF c] wr [OF w] ren [OF n] rm [OF d2] rm [OF d3]
      by (auto split: result.splits)
  qed
qed

lemma session_path_inj [simp]: "session_path u = session_path v \<longleftrightarrow> u = v"
  by (simp add: session_path_def upload_dir_def)

section \<open>Store calls keep the invariant\<close>

lemma recoverable_on_fs:
  assumes "\<And>s r s' u json. m s = (r, s') \<Longrightarrow> files s' (session_path u) = Some json \<Longrightarrow> files s (session_path u) = Some json"
  shows "preserved (recoverable J) (on_fs m) st"
proof (rule preservedI)
  fix r st'
  assume run: "on_fs m st = (r, st')" and rec: "recoverable J st"
  then obtain s' where s: "m (ms_fs st) = (r, s')" "st' = st\<lparr>ms_fs := s'\<rparr>" by (auto simp: on_fs_def split: prod.splits)
  show "recoverable J st'"
    by (rule recoverable_shrinks [OF rec]) (use rec s assms in \<open>auto simp: recoverable_def sessions_wf_def\<close>)
qed

lemma recoverable_touches:
  assumes "touches A m" "\<And>u. session_path u \<notin> A"
  shows "preserved (recoverable J) (on_fs m) st"
  by (rule recoverable_on_fs) (use assms touchesD(1) in metis)

lemma recoverable_remove_dir: "preserved (recoverable J) (on_fs (fs_remove_dir_all d)) st"
  by (rule recoverable_on_fs) (use remove_dir_all_only_removes in \<open>auto simp: only_removes_def\<close>)

lemma recoverable_remove_file: "preserved (recoverable J) (on_fs (remove_file_if_exists p)) st"
  by (rule recoverable_on_fs) (metis remove_file_only option.distinct(1))

lemma recoverable_persist:
  assumes "session_law J" "session_ok u us"
  shows "preserved (recoverable J) (on_fs (persist_session J uuid us)) st"
proof (rule preservedI)
  fix r st'
  assume run: "on_fs (persist_session J uuid us) st = (r, st')" and rec: "recoverable J st"
  then obtain s' where s: "persist_session J uuid us (ms_fs st) = (r, s')" "st' = st\<lparr>ms_fs := s'\<rparr>"
    by (auto simp: on_fs_def split: prod.splits)
  have id: "us_upload_id us = u" by (rule session_ok_id [OF assms(2)])
  have "files s' (session_path v) = files (ms_fs st) (session_path v)" if "v \<noteq> u" for v
    using touchesD(1) [OF touches_persist s(1), of "session_path v"] that id
    by (simp add: session_files_def session_path_def upload_dir_def)
  moreover have "session_ok u us'" if "files s' (session_path u) = Some json" "j_session_decode J json = Some us'" for json us'
    using persist_session_file [OF s(1) id]
  proof (elim disjE conjE)
    assume "files s' (session_path u) = j_session_encode J us"
    with that assms show ?thesis by (auto simp: session_law_def)
  next
    assume "files s' (session_path u) = files (ms_fs st) (session_path u)"
    with that rec show ?thesis by (auto simp: recoverable_def disk_ok_def)
  qed
  ultimately have "disk_ok J s'"
    using rec unfolding disk_ok_def recoverable_def by metis
  with rec s(2) show "recoverable J st'" by (auto simp: recoverable_def sessions_wf_def)
qed

lemma recoverable_get_session: "preserved I (get_session u) st"
  by (simp add: preserved_def get_session_def)

lemma recoverable_put_session: "session_ok u us \<Longrightarrow> preserved (recoverable J) (put_session u us) st"
  by (auto simp: preserved_def put_session_def recoverable_def sessions_wf_def)

lemma recoverable_drop_session: "preserved (recoverable J) (drop_session u) st"
  by (auto simp: preserved_def drop_session_def recoverable_def sessions_wf_def)

lemma recoverable_with_open:
  assumes "\<And>us. session_ok u us \<Longrightarrow> is_open us \<Longrightarrow> bt_get (ms_sessions st) u = Some us \<Longrightarrow> preserved (recoverable J) (k us) st"
  shows "preserved (recoverable J) (io_bind (get_open_upload u) k) st"
proof (rule preserved_bind)
  show "preserved (recoverable J) (get_open_upload u) st"
    by (simp add: preserved_def get_open_upload_eq split: option.split)
  fix us st'
  assume "get_open_upload u st = (Ok us, st')" "recoverable J st"
  then have "st' = st" "bt_get (ms_sessions st) u = Some us" "is_open us" "session_ok u us"
    by (auto simp: get_open_upload_eq recoverable_def sessions_wf_def split: option.splits if_splits)
  with assms show "preserved (recoverable J) (k us) st'" by simp
qed

lemma recoverable_create_upload:
  "session_law J \<Longrightarrow> preserved (recoverable J) (create_upload J u uuid now b k owner md) st"
  unfolding create_upload_def Let_def
  by (intro preserved_bind preserved_basics recoverable_persist [where u = u] recoverable_put_session
      recoverable_touches [OF touches_map_err [OF touches_calls(1)], of "{}"])
    (simp_all add: session_ok_def)

lemma recoverable_insert_part:
  assumes "pm_part_number pm = n" "\<And>us st'. session_ok u us \<Longrightarrow> preserved (recoverable J) (k us) st'"
  shows "preserved (recoverable J) (io_bind (insert_part u pm) k) st"
proof -
  have "io_bind (insert_part u pm) k = io_bind (get_open_upload u) (\<lambda>us.
     let us' = us\<lparr>us_parts := bt_insert (pm_part_number pm) pm (us_parts us)\<rparr>
     in io_bind (put_session u us') (\<lambda>_. k us'))"
    by (auto simp: fun_eq_iff insert_part_def io_simps Let_def split: prod.split result.split)
  then show ?thesis
    using assms by (auto simp: Let_def intro!: recoverable_with_open preserved_bind recoverable_put_session)
qed

text \<open>The files of a part and its temporaries are not session files.\<close>

lemma part_files_not_session [simp]:
  "part_path u n \<noteq> session_path v" "session_path v \<noteq> part_path u n" "part_backup u bid n \<noteq> session_path v"
  "session_path v \<noteq> part_backup u bid n"
  by (simp_all add: part_path_def parts_dir_def session_path_def part_backup_def upload_dir_def show_pad5_not_s)

lemma recoverable_restore_part:
  assumes "\<And>pm. prev = Some pm \<Longrightarrow> pm_part_number pm = n"
  shows "preserved (recoverable J) (restore_part_entry u n prev) st"
proof (rule preservedI)
  fix r st'
  assume "restore_part_entry u n prev st = (r, st')" "recoverable J st"
  then show "recoverable J st'"
    using assms by (cases prev) (auto simp: restore_part_entry_def get_session_def put_session_def io_simps recoverable_def
        sessions_wf_def split: option.splits if_splits)
qed

lemma recoverable_commit_part:
  assumes "session_law J" "\<And>v. T \<noteq> session_path v"
  shows "preserved (recoverable J) (commit_part J bid uuid now u n T part) st"
proof -
  have steps: "preserved (recoverable J) (on_fs (publish_part T (part_path u n) (backup_of us u bid n))) st"
      "preserved (recoverable J) (on_fs (discard_unpublished_part T (backup_of us u bid n))) st"
      "preserved (recoverable J) (on_fs (rollback_part_file (part_path u n) (backup_of us u bid n))) st" for us st
    using assms(2)
    by (intro recoverable_touches [OF touches_part_steps(1) [where A = "{part_path u n, T, part_backup u bid n}"]]
        recoverable_touches [OF touches_part_steps(2) [where A = "{part_path u n, T, part_backup u bid n}" and u = u and n = n]]
        recoverable_touches [OF touches_part_steps(3) [where A = "{part_path u n, T, part_backup u bid n}" and T = T]];
      auto simp: backup_of_def)+
  have prev: "bt_get (us_parts us) n = Some pm \<Longrightarrow> pm_part_number pm = n" if "session_ok u us" for us pm
    using that by (simp add: session_ok_def)
  show ?thesis
    unfolding commit_part_def Let_def part_backup_def [symmetric] backup_of_def [symmetric]
    apply (rule recoverable_with_open, rule preserved_match, rule steps(1))
    subgoal for us r s'
      apply (cases r; simp only: result.case)
       apply (rule recoverable_insert_part [where n = n], simp, rule preserved_match, erule recoverable_persist [OF assms(1)])
       apply (intro preserved_cases preserved_bind preserved_ignore preserved_basics recoverable_remove_file steps
          recoverable_restore_part)
       apply (erule (1) prev)
      apply (intro preserved_ignore steps preserved_basics)
      done
    done
qed

lemma recoverable_abort_upload:
  assumes "session_law J"
  shows "preserved (recoverable J) (abort_upload J uuid u) st"
  unfolding abort_upload_def Let_def
  by (intro recoverable_with_open preserved_bind preserved_match recoverable_persist [OF assms, where u = u]
      recoverable_put_session recoverable_remove_dir)
    (auto intro: recoverable_drop_session preserved_basics split: result.split io_error.split)

text \<open>Completion.\<close>

lemma recoverable_with_session:
  assumes "preserved (recoverable J) (k None) st"
    and "\<And>us. session_ok u us \<Longrightarrow> preserved (recoverable J) (k (Some us)) st"
  shows "preserved (recoverable J) (io_bind (get_session u) k) st"
proof (rule preserved_bind [OF recoverable_get_session])
  fix x st'
  assume "get_session u st = (Ok x, st')" "recoverable J st"
  then have "st' = st" "\<And>us. x = Some us \<Longrightarrow> session_ok u us"
    by (auto simp: get_session_def recoverable_def sessions_wf_def)
  with assms show "preserved (recoverable J) (k x) st'" by (cases x) auto
qed

lemma recoverable_marked:
  assumes "preserved (recoverable J) (k None) st"
    and "\<And>us st'. session_ok u us \<Longrightarrow> preserved (recoverable J) (k (Some us)) st'"
  shows "preserved (recoverable J) (io_bind (mark_upload_state u state) k) st"
proof -
  have "io_bind (mark_upload_state u state) k = io_bind (get_session u) (\<lambda>s. case s of None \<Rightarrow> k None
      | Some us \<Rightarrow> io_bind (put_session u (us\<lparr>us_state := state\<rparr>)) (\<lambda>_. k (Some (us\<lparr>us_state := state\<rparr>))))"
    by (auto simp: fun_eq_iff mark_upload_state_def io_simps split: prod.split result.split option.split)
  then show ?thesis
    using assms by (simp, intro recoverable_with_session) (auto intro!: preserved_bind recoverable_put_session)
qed

lemma completion_not_session: "session_path u \<notin> completion_files E us"
  by (auto simp: completion_files_def session_path_def upload_dir_def object_path_def metadata_path_def Let_def)

lemma recoverable_complete_upload:
  assumes "session_law J" "cr_copy_buffer req > 0" "\<forall>(p, uuid)\<in>set (cr_processors req). confined p"
  shows "preserved (recoverable J) (complete_upload E J x0 x1 x2 x3 now req) st"
proof -
  let ?u = "cr_upload_id req"
  have commit: "preserved (recoverable J) (on_fs (commit_completed E J x0 now us req)) st" for us st
    by (rule recoverable_touches [OF touches_commit_completed completion_not_session]) (use assms(2,3) in auto)
  have finish: "preserved (recoverable J) (finish_completion J x2 ?u) st" for st
    unfolding finish_completion_def
    by (intro recoverable_marked; simp)
      (intro preserved_ignore preserved_bind preserved_basics recoverable_remove_file recoverable_remove_dir
        recoverable_drop_session recoverable_persist [OF assms(1)]; assumption)+
  have restore: "preserved (recoverable J) (restore_open_upload J x3 ?u) st" for st
    unfolding restore_open_upload_def
    by (intro recoverable_marked; simp)
      (intro preserved_ignore preserved_basics recoverable_persist [OF assms(1)]; assumption?)+
  have start: "preserved (recoverable J) (begin_completion J x1 ?u) st" for st
    unfolding begin_completion_def Let_def
    by (intro recoverable_with_open preserved_bind preserved_ignore preserved_basics recoverable_put_session
        recoverable_persist [OF assms(1), where u = ?u]) simp_all
  have after: "preserved (recoverable J) (complete_upload_after_transition E J x0 x2 now us req) st" for us st
    unfolding complete_upload_after_transition_def by (intro preserved_bind preserved_basics commit finish)
  show ?thesis
    unfolding complete_upload_def
    by (intro preserved_bind preserved_match preserved_cases preserved_ignore preserved_basics start after restore)
qed

section \<open>Requests keep the invariant\<close>

lemma preserved_try: "preserved I (try_res r) w"
  by (simp add: preserved_def try_res_def io_simps)

text \<open>An invariant of the stores, on the state of the handlers.\<close>

abbreviation stores :: "(multipart \<Rightarrow> bool) \<Rightarrow> world \<Rightarrow> bool" where
  "stores I w \<equiv> I (wd_store w)"

abbreviation disk_inv :: "codec \<Rightarrow> world \<Rightarrow> bool" where
  "disk_inv J \<equiv> stores (recoverable J)"

lemma preserved_store: "preserved I m (wd_store w) \<Longrightarrow> preserved (stores I) (on_store m) w"
  by (cases "m (wd_store w)") (simp add: preserved_def on_store_def)

lemma preserved_store_call: "preserved I m (wd_store w) \<Longrightarrow> preserved (stores I) (store_call m) w"
  unfolding store_call_def by (intro preserved_map_err preserved_store)

lemma frames_disk_inv:
  assumes "frames A U m w" "\<And>u. session_path u \<notin> A"
  shows "preserved (disk_inv J) m w"
proof (rule preservedI)
  fix r w'
  assume run: "m w = (r, w')" and rec: "disk_inv J w"
  then have st: "stays A U (wd_store w) (wd_store w')" by (intro framesD [OF assms(1)]) (simp_all add: recoverable_def)
  show "disk_inv J w'"
    by (rule recoverable_shrinks [OF rec stays_wf [OF st]]) (use st assms(2) in \<open>simp add: stays_def same_off_def\<close>)
qed

lemma preserved_permits:
  assumes "\<And>w. preserved (stores I) m w"
  shows "preserved (stores I) (with_permit try_acquire_object_writer (release ad_object_writers_update) m) w"
    "preserved (stores I) (with_permit try_acquire_multipart_part_writer (release ad_multipart_part_writers_update) m) w"
    "preserved (stores I) (with_aws_chunked_decoder E hs m) w"
proof -
  have "preserved (stores I) (with_permit (try_acquire avail upd what) (release upd) m) w" for avail upd what w
  proof (rule preservedI)
    fix r w'
    assume run: "with_permit (try_acquire avail upd what) (release upd) m w = (r, w')" and "stores I w"
    from run show "stores I w'"
    proof (cases rule: with_permit_cases)
      case (ran w2)
      with preservedD [OF assms ran(2)] \<open>stores I w\<close> show ?thesis by simp
    qed (use \<open>stores I w\<close> in simp)
  qed
  with assms show "preserved (stores I) (with_permit try_acquire_object_writer (release ad_object_writers_update) m) w"
    "preserved (stores I) (with_permit try_acquire_multipart_part_writer (release ad_multipart_part_writers_update) m) w"
    "preserved (stores I) (with_aws_chunked_decoder E hs m) w"
    unfolding try_acquire_object_writer_def try_acquire_multipart_part_writer_def with_aws_chunked_decoder_def
      try_acquire_aws_chunked_decoder_def
    by (auto intro!: preserved_cases)
qed

lemma session_check_pure: "preserved (stores I) (validate_upload_session_target E A rq auth u) w"
  by (simp add: preserved_def validate_upload_session_target_def try_res_def io_simps)

text \<open>Receiving a part works on its temporary file, then commits the part.\<close>

definition part_temp :: "upload_id \<Rightarrow> part_number \<Rightarrow> string \<Rightarrow> path" where
  "part_temp u n tid = upload_dir u @ [show_pad5 n @ ''.'' @ tid @ ''.tmp'']"

lemma part_temp_neq [simp]:
  "part_temp u n tid \<noteq> session_path v" "session_path v \<noteq> part_temp u n tid" "part_temp u n tid \<noteq> part_path v m"
  "part_path v m \<noteq> part_temp u n tid"
  using show_pad5_not_s [of n "''.'' @ tid @ ''.tmp''"]
  by (auto simp: session_path_def part_path_def parts_dir_def part_temp_def upload_dir_def dest: sym)

lemma upload_part_body_preserves:
  fixes I :: "multipart \<Rightarrow> bool"
  assumes calls: "\<And>st s'. I st \<Longrightarrow> same_off {part_temp u n (ev_uuid V 0)} (ms_fs st) s' \<Longrightarrow> I (st\<lparr>ms_fs := s'\<rparr>)"
    and commit: "\<And>part st. preserved I (commit_part (app_codec a) (ev_uuid V 1) (ev_uuid V 2) (ev_now V) u n
        (part_temp u n (ev_uuid V 0)) part) st"
  shows "preserved (stores I) (upload_part_body E W V a rq i u n auth) w"
proof -
  let ?T = "part_temp u n (ev_uuid V 0)"
  have known: "tp_path tp = ?T" if "store_call (create_temp_part (ev_uuid V 0) u n) w = (Ok tp, w')" for tp w w'
    using that by (auto simp: store_call_def io_map_err_def on_store_def create_temp_part_def io_bind_Ok Let_def io_return_def
        part_temp_def res_simps split: prod.splits)
  have f: "preserved I (on_fs m) st" if "touches B m" "B \<subseteq> {?T}" for B and m :: "(fs, 'a, 'e) io" and st
    using touches_same_off [OF that] calls by (auto simp: preserved_def on_fs_def split: prod.split)
  have open_pure: "preserved I (get_open_upload u) st" for st
    by (simp add: preserved_def get_open_upload_eq split: option.split)
  have create: "preserved (stores I) (store_call (create_temp_part (ev_uuid V 0) u n)) w"
    unfolding create_temp_part_def Let_def part_temp_def [symmetric]
    by (intro preserved_store_call preserved_bind open_pure preserved_basics f [OF touches_helpers(1) empty_subsetI]
        f [OF touches_map_err [OF touches_calls(3)]] subset_refl)
  have d: "preserved (stores I) (discard_part_and_fail tp e) w" if "tp_path tp = ?T" for tp e w
    unfolding discard_part_and_fail_def part_discard_def
    by (intro preserved_ignore preserved_basics preserved_store f [OF touches_helpers(2)]) (simp add: that)
  have fl: "preserved (stores I) (on_store (on_fs (part_flush tp))) w" if "tp_path tp = ?T" for tp w
    unfolding part_flush_def by (intro preserved_store f [OF touches_calls(2)]) (simp add: that)
  obtain sink r where rd: "write_upload_body E (rq_headers rq) (rq_body rq) (fresh_sink (ev_writes V)) ''part body''
     (ax_streaming_signing auth) (ul_max_part_size (cf_upload_limits (app_config a))) = (sink, Some r)"
    using write_upload_body_total by blast
  show ?thesis
    unfolding upload_part_body_def Let_def
    by (intro preserved_bind create, drule known)
      (cases r; simp add: rd; intro d fl preserved_match preserved_cases preserved_bind preserved_basics preserved_try
        preserved_store_call commit [unfolded One_nat_def]; simp)
qed

lemma disk_inv_upload_part_body:
  assumes "session_law (app_codec a)"
  shows "preserved (disk_inv (app_codec a)) (upload_part_body E W V a rq i u n auth) w"
proof (rule upload_part_body_preserves)
  fix st s'
  assume rec: "recoverable (app_codec a) st" and s: "same_off {part_temp u n (ev_uuid V 0)} (ms_fs st) s'"
  show "recoverable (app_codec a) (st\<lparr>ms_fs := s'\<rparr>)"
    by (rule recoverable_shrinks [OF rec]) (use rec s in \<open>auto simp: recoverable_def sessions_wf_def same_off_def\<close>)
qed (rule recoverable_commit_part [OF assms], simp)

lemma disk_inv_operation:
  assumes "regular a" "session_law (app_codec a)"
  shows "preserved (disk_inv (app_codec a)) (dispatch_implemented_operation E W V a rq op i auth) w"
proof -
  let ?I = "disk_inv (app_codec a)"
  have conf: "\<forall>p\<in>set (app_upload_processors a). confined p" "0 < io_multipart_complete_buffer_size (app_io_tuning a)"
    using assms(1) by (simp_all add: regular_def)
  have p: "\<forall>(p, uuid)\<in>set (numbered_processors V n (app_upload_processors a)). confined p" for n
    using conf(1) by (auto simp: numbered_processors_def dest: set_zip_leftD)
  have direct: "preserved ?I (dispatch_implemented_operation E W V a rq op i auth) w" if "op_uploads V op = {}"
    by (rule frames_disk_inv [OF frames_operation [OF conf]])
      (auto simp: op_files_def that pair_files_def tmp_files_def session_path_def upload_dir_def object_path_def
        metadata_path_def Let_def)
  have create: "preserved ?I (create_multipart_upload E W V a rq i auth) w"
    unfolding create_multipart_upload_def
    by (intro preserved_bind preserved_basics preserved_try preserved_store_call recoverable_create_upload assms)
  have part: "preserved ?I (upload_part E W V a rq i u n auth) w" for u n
    unfolding upload_part_def
    by (intro preserved_bind preserved_basics preserved_try session_check_pure preserved_permits disk_inv_upload_part_body assms)
  have abort: "preserved ?I (abort_multipart_upload E W V a rq i u auth) w" for u
    unfolding abort_multipart_upload_def
    by (intro preserved_bind preserved_basics preserved_try session_check_pure preserved_store_call recoverable_abort_upload assms)
  have complete: "preserved ?I (complete_multipart_upload E W V a rq i u auth) w" for u
    unfolding complete_multipart_upload_def
    by (intro preserved_bind preserved_basics preserved_try session_check_pure preserved_store_call; (split prod.split)?;
        (intro allI impI preserved_bind preserved_basics preserved_try preserved_store_call recoverable_complete_upload assms)?)
      (simp_all add: p conf)
  show ?thesis
    using direct create part abort complete by (cases op) simp_all
qed

lemma request_recoverable:
  assumes "handle_s3_request E W V A i rq w = (resp, w')" "disk_inv (app_codec A) w" "ev_timeout V = None" "regular A"
    and "session_law (app_codec A)"
  shows "disk_inv (app_codec A) w'"
  using assms(1)
proof (cases rule: handle_run)
  case (ran operation ctx obs lc clen r w2)
  from ran(3) have "disk_inv (app_codec A) w2"
  proof (cases rule: dispatch_cases)
    case (limited op auth tenant)
    from limited(5) show ?thesis
    proof (cases rule: tenant_run)
      case (ran lease w3)
      from preservedD [OF disk_inv_operation [OF assms(4,5)] ran(2)] ran(3) assms(2) show ?thesis by simp
    qed (use assms(2,3) in simp_all)
  qed (use assms(2) in simp)
  with ran(4) show ?thesis by simp
qed (use assms(2) in simp)

end
