(* ===== verification/S3_Server.thy ===== *)
theory S3_Server
  imports S3_App
begin

text \<open>
  Construction of the application: the builder of \<open>src/lib.rs\<close>, its initialisation of stores and
  semaphores, and the command line and the credentials file of \<open>src/main.rs\<close>. The builder's
  custom stores, request id factory and router layers are code of the embedding application and
  are left out; the clock is the time argument, and whether an observer is registered does not
  change the state.
\<close>

section \<open>The builder\<close>

record app_builder =
  ab_config :: config
  ab_upload_processors :: "processor list"
  ab_io_tuning :: io_tuning
  ab_multipart_lifecycle :: multipart_lifecycle
  ab_error_mapper :: "(s3_error_context \<Rightarrow> s3_error \<Rightarrow> s3_error) option"
  ab_response_mapper :: "(s3_response_context \<Rightarrow> response \<Rightarrow> response) option"
  ab_authentication_provider :: "(authentication_request \<Rightarrow> authentication_result s3res) option"
  ab_authorization_policy :: "(authorization_context \<Rightarrow> unit s3res) option"
  ab_operation_policy :: "(operation_context \<Rightarrow> unit s3res) option"
  ab_target_policy :: "(target_context \<Rightarrow> unit s3res) option"
  ab_upload_policy :: "(upload_policy_context \<Rightarrow> unit s3res) option"
  ab_begin_operation :: "tenant_limit_context \<Rightarrow> tenant_operation_lease s3res"
  ab_disabled_operations :: "s3_action list"
  ab_health_path :: "string option"

definition AppState_builder :: "config \<Rightarrow> app_builder" where
  "AppState_builder config =
     \<lparr>ab_config = config, ab_upload_processors = [], ab_io_tuning = IoTuning_default,
      ab_multipart_lifecycle = MultipartLifecycle_default, ab_error_mapper = None,
      ab_response_mapper = None, ab_authentication_provider = None, ab_authorization_policy = None,
      ab_operation_policy = None, ab_target_policy = None, ab_upload_policy = None,
      ab_begin_operation = Noop_begin_operation, ab_disabled_operations = [],
      ab_health_path = Some ''/health''\<rparr>"

definition AppBuilder_io_tuning :: "io_tuning \<Rightarrow> app_builder \<Rightarrow> app_builder" where
  "AppBuilder_io_tuning v b = b\<lparr>ab_io_tuning := v\<rparr>"

definition AppBuilder_multipart_lifecycle :: "multipart_lifecycle \<Rightarrow> app_builder \<Rightarrow> app_builder" where
  "AppBuilder_multipart_lifecycle v b = b\<lparr>ab_multipart_lifecycle := v\<rparr>"

definition AppBuilder_upload_processor :: "processor \<Rightarrow> app_builder \<Rightarrow> app_builder" where
  "AppBuilder_upload_processor p b = b\<lparr>ab_upload_processors := ab_upload_processors b @ [p]\<rparr>"

definition AppBuilder_health_path :: "string \<Rightarrow> app_builder \<Rightarrow> app_builder" where
  "AppBuilder_health_path p b = b\<lparr>ab_health_path := Some p\<rparr>"

definition AppBuilder_disable_health_route :: "app_builder \<Rightarrow> app_builder" where
  "AppBuilder_disable_health_route b = b\<lparr>ab_health_path := None\<rparr>"

definition AppBuilder_on_error ::
  "(s3_error_context \<Rightarrow> s3_error \<Rightarrow> s3_error) \<Rightarrow> app_builder \<Rightarrow> app_builder" where
  "AppBuilder_on_error f b = b\<lparr>ab_error_mapper := Some f\<rparr>"

definition AppBuilder_on_response ::
  "(s3_response_context \<Rightarrow> response \<Rightarrow> response) \<Rightarrow> app_builder \<Rightarrow> app_builder" where
  "AppBuilder_on_response f b = b\<lparr>ab_response_mapper := Some f\<rparr>"

definition AppBuilder_authentication_provider ::
  "(authentication_request \<Rightarrow> authentication_result s3res) \<Rightarrow> app_builder \<Rightarrow> app_builder" where
  "AppBuilder_authentication_provider f b = b\<lparr>ab_authentication_provider := Some f\<rparr>"

definition AppBuilder_authorization_policy ::
  "(authorization_context \<Rightarrow> unit s3res) \<Rightarrow> app_builder \<Rightarrow> app_builder" where
  "AppBuilder_authorization_policy f b = b\<lparr>ab_authorization_policy := Some f\<rparr>"

definition AppBuilder_operation_policy ::
  "(operation_context \<Rightarrow> unit s3res) \<Rightarrow> app_builder \<Rightarrow> app_builder" where
  "AppBuilder_operation_policy f b = b\<lparr>ab_operation_policy := Some f\<rparr>"

text \<open>The set of disabled operations, as a list without repetitions.\<close>

definition AppBuilder_disable_operation :: "s3_action \<Rightarrow> app_builder \<Rightarrow> app_builder" where
  "AppBuilder_disable_operation a b = b\<lparr>ab_disabled_operations := List.insert a (ab_disabled_operations b)\<rparr>"

definition AppBuilder_target_policy ::
  "(target_context \<Rightarrow> unit s3res) \<Rightarrow> app_builder \<Rightarrow> app_builder" where
  "AppBuilder_target_policy f b = b\<lparr>ab_target_policy := Some f\<rparr>"

definition AppBuilder_upload_policy ::
  "(upload_policy_context \<Rightarrow> unit s3res) \<Rightarrow> app_builder \<Rightarrow> app_builder" where
  "AppBuilder_upload_policy f b = b\<lparr>ab_upload_policy := Some f\<rparr>"

definition AppBuilder_tenant_limits_provider ::
  "(tenant_limit_context \<Rightarrow> tenant_operation_lease s3res) \<Rightarrow> app_builder \<Rightarrow> app_builder" where
  "AppBuilder_tenant_limits_provider f b = b\<lparr>ab_begin_operation := f\<rparr>"

section \<open>Initialisation\<close>

datatype app_init_error =
    AI_Config config_error
  | AI_Store store_error
  | AI_RouterConfig string

text \<open>
  \<open>AppState::from_builder\<close> with the default stores: validate, build the credential index,
  initialise both stores, create the semaphores. \<open>Panic\<close> is the panic of a semaphore; \<open>J\<close> is
  the JSON codec the stores use.
\<close>

definition AppState_from_builder ::
  "nat \<Rightarrow> codec \<Rightarrow> timestamp \<Rightarrow> app_builder
     \<Rightarrow> (multipart, app_state \<times> admission, app_init_error fail) io" where
  "AppState_from_builder max_permits J now b =
     io_bind (io_lift (map_err (\<lambda>e. Fail (AI_Config e)) (Config_validate (ab_config b)))) (\<lambda>_.
     io_bind (io_lift (map_err (\<lambda>e. Fail (AI_Config e)) (IoTuning_validate (ab_io_tuning b)))) (\<lambda>_.
     io_bind (io_lift (map_err (\<lambda>e. Fail (AI_Config e))
       (UploadLimits_validated (cf_upload_limits (ab_config b))))) (\<lambda>limits.
     io_bind (io_lift (map_err (\<lambda>e. Fail (AI_Config e)) (AuthState_new (cf_auth (ab_config b))))) (\<lambda>auth.
     io_bind (io_map_err (\<lambda>e. Fail (AI_Store e)) (on_fs FileObjectStore_new)) (\<lambda>_.
     io_bind (io_map_err (\<lambda>e. Fail (AI_Store e))
       (FileMultipartStore_new J (ab_multipart_lifecycle b) now)) (\<lambda>_.
     io_bind (io_lift (or_panic (AdmissionControl_new max_permits limits))) (\<lambda>adm.
     io_return
       (\<lparr>app_config = ab_config b, app_auth = auth, app_io_tuning = ab_io_tuning b,
         app_upload_processors = ab_upload_processors b, app_error_mapper = ab_error_mapper b,
         app_response_mapper = ab_response_mapper b,
         app_authentication_provider = ab_authentication_provider b,
         app_authorization_policy = ab_authorization_policy b,
         app_operation_policy = ab_operation_policy b, app_target_policy = ab_target_policy b,
         app_upload_policy = ab_upload_policy b, app_begin_operation = ab_begin_operation b,
         app_disabled_operations = ab_disabled_operations b, app_codec = J\<rparr>, adm))))))))"

definition AppState_new ::
  "nat \<Rightarrow> codec \<Rightarrow> timestamp \<Rightarrow> config \<Rightarrow> (multipart, app_state \<times> admission, app_init_error fail) io" where
  "AppState_new max_permits J now config = AppState_from_builder max_permits J now (AppState_builder config)"

definition validate_health_path :: "string option \<Rightarrow> (unit, app_init_error) result" where
  "validate_health_path path =
     (case path of
        None \<Rightarrow> Ok ()
      | Some p \<Rightarrow>
          if starts_with p ''/'' \<and> length p > 1 \<and> CHR ''*'' \<notin> set p then Ok ()
          else Err (AI_RouterConfig
            (''health path must start with '' @ [CHR 0x27] @ ''/'' @ [CHR 0x27]
             @ '' and must not contain wildcards'')))"

text \<open>\<open>build_router\<close> up to the construction of the router, which gets the health path and the state.\<close>

definition AppBuilder_build_router ::
  "nat \<Rightarrow> codec \<Rightarrow> timestamp \<Rightarrow> app_builder
     \<Rightarrow> (multipart, string option \<times> app_state \<times> admission, app_init_error fail) io" where
  "AppBuilder_build_router max_permits J now b =
     io_bind (io_lift (map_err Fail (validate_health_path (ab_health_path b)))) (\<lambda>_.
     io_bind (AppState_from_builder max_permits J now b) (\<lambda>state.
     io_return (ab_health_path b, state)))"

section \<open>The command line\<close>

record cli =
  cli_addr :: string
  cli_storage_root :: string
  cli_allow_anonymous :: bool
  cli_access_key_id :: string
  cli_secret_key :: string
  cli_session_token :: "string option"
  cli_credentials_file :: "string option"
  cli_region :: string
  cli_max_skew_seconds :: int
  cli_allowed_buckets :: "string list"
  cli_allowed_actions :: "s3_action list"
  cli_virtual_host_base_domain :: "string option"
  cli_max_object_size :: "nat option"
  cli_max_part_size :: "nat option"
  cli_min_non_final_part_size :: "nat option"
  cli_max_concurrent_s3_requests :: "nat option"
  cli_max_active_object_writers :: "nat option"
  cli_max_active_multipart_part_writers :: "nat option"
  cli_max_active_aws_chunked_decoders :: "nat option"

fun unwrap_or :: "'a \<Rightarrow> 'a option \<Rightarrow> 'a" where
  "unwrap_or d None = d"
| "unwrap_or d (Some x) = x"

definition cli_upload_limits :: "cli \<Rightarrow> upload_limits" where
  "cli_upload_limits c =
     (let d = UploadLimits_default in
      \<lparr>ul_max_object_size = unwrap_or (ul_max_object_size d) (cli_max_object_size c),
       ul_max_part_size = unwrap_or (ul_max_part_size d) (cli_max_part_size c),
       ul_min_non_final_part_size =
         unwrap_or (ul_min_non_final_part_size d) (cli_min_non_final_part_size c),
       ul_max_concurrent_s3_requests =
         unwrap_or (ul_max_concurrent_s3_requests d) (cli_max_concurrent_s3_requests c),
       ul_max_active_object_writers =
         unwrap_or (ul_max_active_object_writers d) (cli_max_active_object_writers c),
       ul_max_active_multipart_part_writers =
         unwrap_or (ul_max_active_multipart_part_writers d) (cli_max_active_multipart_part_writers c),
       ul_max_active_aws_chunked_decoders =
         unwrap_or (ul_max_active_aws_chunked_decoders d) (cli_max_active_aws_chunked_decoders c)\<rparr>)"

definition cli_config :: "cli \<Rightarrow> access_key_config list \<Rightarrow> config" where
  "cli_config c credentials =
     \<lparr>cf_storage_root = cli_storage_root c,
      cf_auth = \<lparr>ac_allow_anonymous = cli_allow_anonymous c, ac_access_key_id = cli_access_key_id c,
        ac_secret_key = cli_secret_key c, ac_session_token = cli_session_token c,
        ac_region = cli_region c, ac_max_skew_seconds = cli_max_skew_seconds c,
        ac_allowed_buckets = btset_of (cli_allowed_buckets c),
        ac_allowed_actions = btset_of (cli_allowed_actions c), ac_credentials = credentials\<rparr>,
      cf_virtual_host_base_domain = cli_virtual_host_base_domain c,
      cf_upload_limits = cli_upload_limits c\<rparr>"

text \<open>
  The credentials file. An entry as it stands in the JSON text, where some fields may be absent,
  and as it is deserialized, with their defaults.
\<close>

record credential_json =
  cj_access_key_id :: string
  cj_secret_key :: string
  cj_session_token :: "string option"
  cj_active :: "bool option"
  cj_allowed_buckets :: "string list option"
  cj_allowed_actions :: "string list option"

record credential_file_entry =
  ce_access_key_id :: string
  ce_secret_key :: string
  ce_session_token :: "string option"
  ce_active :: bool
  ce_allowed_buckets :: "string list"
  ce_allowed_actions :: "string list"

definition default_active :: bool where
  "default_active = True"

definition CredentialFileEntry_deserialize :: "credential_json \<Rightarrow> credential_file_entry" where
  "CredentialFileEntry_deserialize e =
     \<lparr>ce_access_key_id = cj_access_key_id e, ce_secret_key = cj_secret_key e,
      ce_session_token = cj_session_token e, ce_active = unwrap_or default_active (cj_active e),
      ce_allowed_buckets = unwrap_or [] (cj_allowed_buckets e),
      ce_allowed_actions = unwrap_or [] (cj_allowed_actions e)\<rparr>"

fun ConfigError_display :: "config_error \<Rightarrow> string" where
  "ConfigError_display (InvalidUploadLimit m) = ''invalid upload limit: '' @ m"
| "ConfigError_display (InvalidIoTuning m) = ''invalid I/O tuning: '' @ m"
| "ConfigError_display (InvalidAuthConfig m) = ''invalid auth configuration: '' @ m"

definition parse_s3_action :: "string \<Rightarrow> (s3_action, string) result" where
  "parse_s3_action v = map_err ConfigError_display (S3Action_from_str v)"

definition CredentialFileEntry_try_into_config ::
  "credential_file_entry \<Rightarrow> (access_key_config, string) result" where
  "CredentialFileEntry_try_into_config e =
     and_then (collect_res parse_s3_action (ce_allowed_actions e)) (\<lambda>actions.
     Ok \<lparr>ak_access_key_id = ce_access_key_id e, ak_secret_key = ce_secret_key e,
         ak_session_token = ce_session_token e, ak_active = ce_active e,
         ak_allowed_buckets = btset_of (ce_allowed_buckets e),
         ak_allowed_actions = btset_of actions\<rparr>)"

text \<open>
  \<open>parse\<close> is the JSON reader: the entries of an array of objects with fields of the right types,
  or the message of the deserializer.
\<close>

definition parse_credentials_json ::
  "(string \<Rightarrow> (credential_json list, string) result) \<Rightarrow> string
     \<Rightarrow> (access_key_config list, string) result" where
  "parse_credentials_json parse json =
     and_then (map_err (\<lambda>m. ''failed to parse credentials file: '' @ m) (parse json)) (\<lambda>entries.
     collect_res (\<lambda>e. CredentialFileEntry_try_into_config (CredentialFileEntry_deserialize e)) entries)"

text \<open>The boxed error of \<open>main\<close>, by its origin.\<close>

datatype main_error =
    ME_Logging string
  | ME_CredentialsRead string
  | ME_CredentialsParse string
  | ME_Init app_init_error
  | ME_Listener string

text \<open>\<open>read\<close> is \<open>tokio::fs::read_to_string\<close>: the text of a file, or the message of an I/O error.\<close>

definition load_credentials_file ::
  "(string \<Rightarrow> (string, string) result) \<Rightarrow> (string \<Rightarrow> (credential_json list, string) result)
     \<Rightarrow> string option \<Rightarrow> (access_key_config list, main_error) result" where
  "load_credentials_file read parse path =
     (case path of
        None \<Rightarrow> Ok []
      | Some p \<Rightarrow>
          (case read p of
             Err m \<Rightarrow> Err (ME_CredentialsRead m)
           | Ok json \<Rightarrow>
               (case parse_credentials_json parse json of
                  Err m \<Rightarrow> Err (ME_CredentialsParse m)
                | Ok credentials \<Rightarrow> Ok credentials)))"

section \<open>What a started server satisfies\<close>

lemma admission_limit_Ok: "PositiveAdmissionLimit_new n what = Ok x \<longleftrightarrow> 0 < n \<and> x = n"
  by (auto simp: PositiveAdmissionLimit_new_def)

text \<open>
  Initialisation succeeds only with a valid configuration, and then the permits are exactly the
  configured limits, each at least one.
\<close>

lemma from_builder_Ok:
  assumes "AppState_from_builder max_permits J now b st = (Ok (A, adm), st')"
  shows "Config_validate (ab_config b) = Ok () \<and> app_config A = ab_config b
    \<and> AuthState_new (cf_auth (ab_config b)) = Ok (app_auth A)
    \<and> (let L = cf_upload_limits (ab_config b) in
        adm = \<lparr>ad_s3_requests = ul_max_concurrent_s3_requests L,
               ad_object_writers = ul_max_active_object_writers L,
               ad_multipart_part_writers = ul_max_active_multipart_part_writers L,
               ad_aws_chunked_decoders = ul_max_active_aws_chunked_decoders L\<rparr>
        \<and> 0 < ad_s3_requests adm \<and> 0 < ad_object_writers adm
        \<and> 0 < ad_multipart_part_writers adm \<and> 0 < ad_aws_chunked_decoders adm)"
proof -
  let ?L = "cf_upload_limits (ab_config b)"
  from assms obtain limits where v: "Config_validate (ab_config b) = Ok ()"
    and l: "UploadLimits_validated ?L = Ok limits"
    and auth: "AuthState_new (cf_auth (ab_config b)) = Ok (app_auth A)" "app_config A = ab_config b"
    and adm: "AdmissionControl_new max_permits limits = Some adm"
    unfolding AppState_from_builder_def io_bind_Ok
    by (elim exE conjE) (auto simp: io_lift_def io_return_def or_panic_def res_simps)
  have "adm = \<lparr>ad_s3_requests = vl_max_concurrent_s3_requests limits,
      ad_object_writers = vl_max_active_object_writers limits,
      ad_multipart_part_writers = vl_max_active_multipart_part_writers limits,
      ad_aws_chunked_decoders = vl_max_active_aws_chunked_decoders limits\<rparr>"
    using adm by (auto simp: AdmissionControl_new_def Semaphore_new_def bind_eq_Some_conv split: if_splits)
  moreover have "vl_max_concurrent_s3_requests limits = ul_max_concurrent_s3_requests ?L \<and> 0 < ul_max_concurrent_s3_requests ?L
      \<and> vl_max_active_object_writers limits = ul_max_active_object_writers ?L \<and> 0 < ul_max_active_object_writers ?L
      \<and> vl_max_active_multipart_part_writers limits = ul_max_active_multipart_part_writers ?L
      \<and> 0 < ul_max_active_multipart_part_writers ?L
      \<and> vl_max_active_aws_chunked_decoders limits = ul_max_active_aws_chunked_decoders ?L
      \<and> 0 < ul_max_active_aws_chunked_decoders ?L"
    using l by (auto simp: UploadLimits_validated_def admission_limit_Ok res_simps)
  ultimately show ?thesis using v auth by (simp add: Let_def)
qed

end
