(* ===== verification/Server_Runs.thy ===== *)
theory Server_Runs
  imports Session_Recovery S3_Server
begin

text \<open>
  The life of a server: starts on whatever the storage root holds, requests, and restarts. The
  invariant of the stores holds in every state of such a life; objects and acknowledged parts of
  uploads survive restarts.
\<close>

section \<open>Starting\<close>

text \<open>
  \<open>boots mp b A n st adm\<close>: on the tree \<open>n\<close>, after any number of starts that fail, a start with
  the builder \<open>b\<close> brings up the application \<open>A\<close> with the stores \<open>st\<close> and the permits \<open>adm\<close>.
  Each start has its own clock and its own faults.
\<close>

inductive boots :: "nat \<Rightarrow> app_builder \<Rightarrow> app_state \<Rightarrow> nodes \<Rightarrow> multipart \<Rightarrow> admission \<Rightarrow> bool"
  for mp b A where
  up: "AppState_from_builder mp (app_codec A) now b st0 = (Ok (A, adm), st) \<Longrightarrow> fs_nodes (ms_fs st0) = n \<Longrightarrow>
     boots mp b A n st adm"
| retry: "AppState_from_builder mp (app_codec A) now b st0 = (Err e, st1) \<Longrightarrow> fs_nodes (ms_fs st0) = n \<Longrightarrow>
     boots mp b A (fs_nodes (ms_fs st1)) st adm \<Longrightarrow> boots mp b A n st adm"

lemma from_builder_cases:
  assumes "AppState_from_builder mp J now b st = (r, st')"
  obtains (invalid) e where "r = Err e" "st' = st"
  | (objects) e s1 se where "r = Err e" "FileObjectStore_new (ms_fs st) = (Err se, s1)" "st' = st\<lparr>ms_fs := s1\<rparr>"
  | (multipart) s1 q where "FileObjectStore_new (ms_fs st) = (Ok (), s1)"
      "FileMultipartStore_new J (ab_multipart_lifecycle b) now (st\<lparr>ms_fs := s1\<rparr>) = (q, st')"
      "\<And>x. r = Ok x \<Longrightarrow> q = Ok ()"
proof -
  obtain qo s1 where o: "FileObjectStore_new (ms_fs st) = (qo, s1)" by force
  obtain qm st2 where m: "FileMultipartStore_new J (ab_multipart_lifecycle b) now (st\<lparr>ms_fs := s1\<rparr>) = (qm, st2)" by force
  let ?cfg = "ab_config b"
  show thesis
  proof (cases "\<exists>limits auth. Config_validate ?cfg = Ok () \<and> IoTuning_validate (ab_io_tuning b) = Ok ()
      \<and> UploadLimits_validated (cf_upload_limits ?cfg) = Ok limits \<and> AuthState_new (cf_auth ?cfg) = Ok auth")
    case False
    then have "(\<exists>e. r = Err e) \<and> st' = st"
      using assms unfolding AppState_from_builder_def
      by (cases "Config_validate ?cfg"; cases "IoTuning_validate (ab_io_tuning b)";
          cases "UploadLimits_validated (cf_upload_limits ?cfg)"; cases "AuthState_new (cf_auth ?cfg)")
        (auto simp: io_simps)
    then obtain e where "r = Err e" "st' = st" by blast
    then show thesis by (rule invalid)
  next
    case True
    then obtain limits auth where v: "Config_validate ?cfg = Ok ()" "IoTuning_validate (ab_io_tuning b) = Ok ()"
      "UploadLimits_validated (cf_upload_limits ?cfg) = Ok limits" "AuthState_new (cf_auth ?cfg) = Ok auth" by blast
    show thesis
    proof (cases qo)
      case (Err se)
      with assms v o have "(\<exists>e. r = Err e) \<and> st' = st\<lparr>ms_fs := s1\<rparr>"
        by (auto simp: AppState_from_builder_def io_simps on_fs_def)
      then obtain e where "r = Err e" "st' = st\<lparr>ms_fs := s1\<rparr>" by blast
      with o Err show thesis by (intro objects) auto
    next
      case (Ok x)
      note run = assms [unfolded AppState_from_builder_def] v o m Ok
      have "st' = st2 \<and> (\<forall>x. r = Ok x \<longrightarrow> qm = Ok ())"
      proof (cases qm)
        case (Ok y)
        with run show ?thesis
          by (cases "AdmissionControl_new mp limits") (simp_all add: io_simps on_fs_def or_panic_def)
      next
        case (Err e)
        with run show ?thesis by (auto simp: io_simps on_fs_def)
      qed
      with o m Ok show thesis by (intro multipart [of s1 qm]) auto
    qed
  qed
qed

text \<open>Opening the object store leaves the multipart directory alone.\<close>

lemma touches_object_startup: "touches {p. hd p \<noteq> ''multipart''} FileObjectStore_new"
proof -
  let ?A = "{p. hd p \<noteq> ''multipart''} :: path set"
  have rm: "touches ?A (remove_file_if_exists p)" if "hd p \<noteq> ''multipart''" for p
    by (rule touches_mono [OF touches_helpers(2)]) (use that in simp)
  have one: "touches ?A (cleanup_orphan here sfx there osfx prefix e)" if "here \<noteq> ''multipart''"
    for here sfx there osfx prefix e
    unfolding cleanup_orphan_def remove_unless_file_def using that
    by (auto intro!: touches_match touches_intros rm split: prod.split option.split result.split io_error.split)
  have "touches ?A (cleanup_orphans here sfx there osfx)" if "here \<noteq> ''multipart''" for here sfx there osfx
    unfolding cleanup_orphans_def
    by (intro touches_bind touches_for touches_intros) (auto intro!: touches_bind touches_for touches_intros one that split: prod.split)
  then show ?thesis
    unfolding FileObjectStore_new_def cleanup_stale_temp_files_def cleanup_orphaned_object_files_def
      cleanup_orphaned_metadata_files_def
    by (intro touches_bind touches_for touches_intros) (auto intro!: touches_intros rm split: prod.split)
qed

text \<open>Opening the multipart store only removes files, and only below its directory.\<close>

definition trimmed :: "fs \<Rightarrow> fs \<Rightarrow> bool" where
  "trimmed s0 s \<longleftrightarrow> (\<forall>p. files s p = files s0 p \<or> hd p = ''multipart'' \<and> files s p = None)"

lemma trimmed_trans: "trimmed s s1 \<Longrightarrow> trimmed s1 s2 \<Longrightarrow> trimmed s s2"
  unfolding trimmed_def by metis

lemma trimmed_refl [simp]: "trimmed s s"
  by (simp add: trimmed_def)

lemma trimmed_nodes: "fs_nodes s1 = fs_nodes s2 \<Longrightarrow> trimmed s s1 = trimmed s s2"
  by (simp add: trimmed_def)

lemma preserved_on_fs: "preserved I m (ms_fs st) \<Longrightarrow> preserved (\<lambda>st. I (ms_fs st)) (on_fs m) st"
  by (cases "m (ms_fs st)") (simp add: preserved_def on_fs_def)

lemma trims_call:
  assumes "\<And>s r s'. m s = (r, s') \<Longrightarrow> trimmed s s'"
  shows "preserved (\<lambda>st. trimmed s0 (ms_fs st)) (on_fs m) st"
  using assms trimmed_trans by (fastforce simp: preserved_def on_fs_def split: prod.split)

lemma touches_trims: "touches {} m \<Longrightarrow> m s = (r, s') \<Longrightarrow> trimmed s s'"
  using touchesD(1) by (fastforce simp: trimmed_def)

lemma remove_dir_trims:
  assumes "fs_remove_dir_all [''multipart'', name] s = (r, s')"
  shows "trimmed s s'"
  unfolding trimmed_def
proof
  fix p
  have "hd p = ''multipart''" if "under [''multipart'', name] p"
    using that by (cases p) (auto simp: under_def)
  moreover have "files s' p = files s p \<or> files s' p = None"
    using remove_dir_all_only_removes [OF assms] by (cases "files s' p") (auto simp: only_removes_def)
  ultimately show "files s' p = files s p \<or> hd p = ''multipart'' \<and> files s' p = None"
    using fs_remove_dir_all_files [OF assms] by blast
qed

lemma load_session_trims: "preserved (\<lambda>st. trimmed s0 (ms_fs st)) (load_session J lc now e) st"
proof (rule preservedI)
  fix r st'
  assume run: "load_session J lc now e st = (r, st')" and t: "trimmed s0 (ms_fs st)"
  obtain name dir where "e = (name, dir)" by force
  from run [unfolded this] show "trimmed s0 (ms_fs st')"
  proof (cases rule: load_session_cases)
    case (removed json us s1 q)
    then have "trimmed s1 (ms_fs st')" using remove_dir_trims by (elim disjE) auto
    then show ?thesis using trimmed_trans t trimmed_nodes [OF removed(4)] by blast
  qed (use t in \<open>simp_all add: trimmed_def\<close>)
qed

lemma multipart_startup_trims:
  assumes "FileMultipartStore_new J lc now st = (r, st')"
  shows "trimmed (ms_fs st) (ms_fs st')"
proof -
  let ?I = "\<lambda>st'. trimmed (ms_fs st) (ms_fs st')"
  have clean: "preserved (trimmed (ms_fs st)) multipart_cleanup_stale_temp_files s" for s
  proof -
    have rm: "preserved (trimmed (ms_fs st)) (remove_file_if_exists [''multipart'', a, c]) s" for a c s
    proof (rule preservedI)
      fix r s'
      assume run: "remove_file_if_exists [''multipart'', a, c] s = (r, s')" and t: "trimmed (ms_fs st) s"
      have "trimmed s s'" using remove_file_only [OF run] unfolding trimmed_def by (metis list.sel(1))
      with t show "trimmed (ms_fs st) s'" by (rule trimmed_trans)
    qed
    have rd: "preserved (trimmed (ms_fs st)) (se_io (fs_read_dir p)) s" for p s
      using touches_trims [OF touches_map_err [OF touches_calls(9)]] trimmed_trans
      by (intro preservedI) blast
    show ?thesis
      unfolding multipart_cleanup_stale_temp_files_def
      by (intro preserved_bind rd preserved_for; split prod.split)
        (auto intro!: preserved_cases preserved_bind preserved_for preserved_basics rd rm split: prod.split)
  qed
  have steps: "preserved ?I (on_fs (se_io (fs_create_dir_all p))) st1" "preserved ?I (on_fs (se_io (fs_read_dir p))) st1"
      "preserved ?I (on_fs multipart_cleanup_stale_temp_files) st1" for p st1
    by (rule trims_call, erule touches_trims [rotated], intro touches_map_err touches_calls)+
      (rule preserved_on_fs [OF clean])
  have reset: "preserved ?I (\<lambda>st. (Ok (), st\<lparr>ms_sessions := bt_empty\<rparr>)) st1" for st1
    by (simp add: preserved_def)
  have "preserved ?I (FileMultipartStore_new J lc now) st"
    unfolding FileMultipartStore_new_def load_sessions_def
    by (intro preserved_bind preserved_for preserved_cases preserved_basics load_session_trims steps reset)
  from preservedD [OF this assms] show ?thesis by (simp add: trimmed_def)
qed

text \<open>A start, whether it succeeds or not, keeps every object and trims the multipart directory.\<close>

lemma start_keeps:
  assumes "AppState_from_builder mp J now b st = (r, st')" "length (object_digest E c k) \<ge> 2"
  shows "visible E J' (ms_fs st') (c, k) = visible E J' (ms_fs st) (c, k)"
  using assms(1)
proof (cases rule: from_builder_cases)
  case (objects e s1 se)
  with startup_preserves_objects [OF objects(2) assms(2)] show ?thesis by simp
next
  case (multipart s1 q)
  have "trimmed s1 (ms_fs st')" using multipart_startup_trims [OF multipart(2)] by simp
  then have "visible E J' (ms_fs st') (c, k) = visible E J' s1 (c, k)"
    by (intro visible_cong) (auto simp: trimmed_def object_path_def metadata_path_def Let_def)
  with startup_preserves_objects [OF multipart(1) assms(2)] show ?thesis by simp
qed simp

lemma start_shrinks:
  assumes "AppState_from_builder mp J now b st = (r, st')" "files (ms_fs st') (session_path u) = Some json"
  shows "files (ms_fs st) (session_path u) = Some json"
  using assms(1)
proof (cases rule: from_builder_cases)
  case (objects e s1 se)
  with assms(2) touchesD(1) [OF touches_object_startup objects(2), of "session_path u"] show ?thesis
    by (simp add: session_path_def upload_dir_def)
next
  case (multipart s1 q)
  have "trimmed s1 (ms_fs st')" using multipart_startup_trims [OF multipart(2)] by simp
  with assms(2) have "files s1 (session_path u) = Some json"
    by (metis option.distinct(1) trimmed_def)
  with touchesD(1) [OF touches_object_startup multipart(1), of "session_path u"] show ?thesis
    by (simp add: session_path_def upload_dir_def)
qed (use assms(2) in simp)

lemma start_recoverable:
  assumes "AppState_from_builder mp J now b st = (Ok x, st')" "disk_ok J (ms_fs st)"
  shows "recoverable J st'"
  using assms(1)
proof (cases rule: from_builder_cases)
  case (multipart s1 q)
  then have run: "FileMultipartStore_new J (ab_multipart_lifecycle b) now (st\<lparr>ms_fs := s1\<rparr>) = (Ok (), st')" by simp
  have d1: "disk_ok J s1"
    by (rule disk_ok_shrinks [OF assms(2)])
      (use touchesD(1) [OF touches_object_startup multipart(1)] in \<open>simp add: session_path_def upload_dir_def\<close>)
  have "session_ok u us" if "bt_get (ms_sessions st') u = Some us" for u us
  proof -
    from new_loaded [OF run] that have id: "us_upload_id us = u" and "loadable J (ab_multipart_lifecycle b) now s1 us" by auto
    then obtain name json where "files s1 (session_path name) = Some json" "j_session_decode J json = Some us"
      by (auto simp: loadable_def session_path_def upload_dir_def)
    with d1 have "session_ok name us" by (auto simp: disk_ok_def)
    with id show ?thesis by (auto dest: session_ok_id)
  qed
  moreover have "disk_ok J (ms_fs st')"
    by (rule disk_ok_shrinks [OF assms(2)]) (rule start_shrinks [OF assms(1)])
  ultimately show ?thesis by (simp add: recoverable_def sessions_wf_def)
qed simp_all

lemma visible_nodes: "fs_nodes s = fs_nodes s' \<Longrightarrow> visible E J s k = visible E J s' k"
  by (simp add: visible_def split: option.split)

lemma disk_ok_nodes: "fs_nodes s = fs_nodes s' \<Longrightarrow> disk_ok J s \<longleftrightarrow> disk_ok J s'"
  by (simp add: disk_ok_def)

lemma boots_visible:
  assumes "boots mp b A n st adm" "fs_nodes s = n" "length (object_digest E c k) \<ge> 2"
  shows "visible E J (ms_fs st) (c, k) = visible E J s (c, k)"
  using assms(1,2)
proof (induction arbitrary: s rule: boots.induct)
  case (up now st0 adm st n)
  with start_keeps [OF up.hyps(1) assms(3)] visible_nodes [of s "ms_fs st0"] show ?case by simp
next
  case (retry now st0 e st1 n st adm)
  with start_keeps [OF retry.hyps(1) assms(3)] visible_nodes [of s "ms_fs st0"] show ?case by simp
qed

lemma boots_recoverable:
  assumes "boots mp b A n st adm" "fs_nodes s = n" "disk_ok (app_codec A) s"
  shows "recoverable (app_codec A) st"
  using assms
proof (induction arbitrary: s rule: boots.induct)
  case (up now st0 adm st n)
  with start_recoverable [OF up.hyps(1)] disk_ok_nodes [of s "ms_fs st0"] show ?case by simp
next
  case (retry now st0 e st1 n st adm)
  have "disk_ok (app_codec A) (ms_fs st0)" using retry.prems retry.hyps(2) disk_ok_nodes [of s "ms_fs st0"] by simp
  then have "disk_ok (app_codec A) (ms_fs st1)" by (rule disk_ok_shrinks) (rule start_shrinks [OF retry.hyps(1)])
  with retry.IH [OF refl] show ?case by blast
qed

section \<open>Requests and restarts\<close>

text \<open>
  A run of the server: requests that satisfy \<open>P\<close>, each with its own identifiers, clock and
  faults, and restarts. A restart finds the tree that the last request left, and nothing else of
  the state; the calls of that request may have failed from any point on.
\<close>

inductive server_run ::
  "ext \<Rightarrow> web \<Rightarrow> nat \<Rightarrow> app_builder \<Rightarrow> app_state \<Rightarrow> (env \<Rightarrow> request \<Rightarrow> bool) \<Rightarrow> world \<Rightarrow> world \<Rightarrow> bool"
  for E W mp b A P where
  idle: "server_run E W mp b A P w w"
| serve: "handle_s3_request E W V A i rq w = (resp, w1) \<Longrightarrow> ev_timeout V = None \<Longrightarrow> P V rq \<Longrightarrow>
     server_run E W mp b A P w1 w2 \<Longrightarrow> server_run E W mp b A P w w2"
| restart: "boots mp b A (fs_nodes (ms_fs (wd_store w))) st adm \<Longrightarrow>
     server_run E W mp b A P \<lparr>wd_store = st, wd_admission = adm, wd_events = []\<rparr> w2 \<Longrightarrow> server_run E W mp b A P w w2"

inductive_cases server_runE: "server_run E W mp b A P w w'"

text \<open>No request is a PUT, a DELETE or a completion of the object.\<close>

definition spares_object :: "ext \<Rightarrow> app_state \<Rightarrow> store_key \<Rightarrow> env \<Rightarrow> request \<Rightarrow> bool" where
  "spares_object E A k V rq \<longleftrightarrow> (\<forall>j\<in>request_keys E A rq. key_apart E j k)"

lemma server_run_recoverable:
  assumes "server_run E W mp b A P w w'" "regular A" "session_law (app_codec A)" "recoverable (app_codec A) (wd_store w)"
  shows "recoverable (app_codec A) (wd_store w')"
  using assms(1,4)
proof (induction rule: server_run.induct)
  case (serve V i rq w resp w1 w2)
  from request_recoverable [OF serve.hyps(1) serve.prems serve.hyps(2) assms(2,3)] show ?case by (rule serve.IH)
next
  case (restart w st adm w2)
  from restart.prems boots_recoverable [OF restart.hyps(1) refl] show ?case
    by (intro restart.IH) (simp add: recoverable_def)
qed

lemma server_run_visible:
  assumes "server_run E W mp b A (spares_object E A (c, k)) w w'" "regular A" "session_law (app_codec A)"
    and "recoverable (app_codec A) (wd_store w)" "length (object_digest E c k) \<ge> 2"
  shows "visible E J (ms_fs (wd_store w')) (c, k) = visible E J (ms_fs (wd_store w)) (c, k)"
  using assms(1,4)
proof (induction rule: server_run.induct)
  case (serve V i rq w resp w1 w2)
  have wf: "sessions_wf (wd_store w)" using serve.prems by (simp add: recoverable_def)
  have "visible E J (ms_fs (wd_store w1)) (c, k) = visible E J (ms_fs (wd_store w)) (c, k)"
    using serve.hyps(3)
    by (intro stays_visible [OF request_stays [OF serve.hyps(1) wf serve.hyps(2) assms(2)]]) (simp add: spares_object_def)
  with serve.IH [OF request_recoverable [OF serve.hyps(1) serve.prems serve.hyps(2) assms(2,3)]] show ?case by simp
next
  case (restart w st adm w2)
  have "recoverable (app_codec A) st"
    using restart.prems by (intro boots_recoverable [OF restart.hyps(1) refl]) (simp add: recoverable_def)
  with restart.IH boots_visible [OF restart.hyps(1) refl assms(5)] show ?case by simp
qed simp

section \<open>Started servers\<close>

abbreviation booted :: "multipart \<Rightarrow> admission \<Rightarrow> world" where
  "booted st adm \<equiv> \<lparr>wd_store = st, wd_admission = adm, wd_events = []\<rparr>"

text \<open>
  A server that was first started on a tree without upload sessions, and has been running since,
  with any requests and restarts.
\<close>

definition started :: "ext \<Rightarrow> web \<Rightarrow> nat \<Rightarrow> app_builder \<Rightarrow> app_state \<Rightarrow> world \<Rightarrow> bool" where
  "started E W mp b A w \<longleftrightarrow> (\<exists>n st adm. boots mp b A n st adm \<and> (\<forall>u. file_at n (session_path u) = None)
     \<and> server_run E W mp b A (\<lambda>_ _. True) (booted st adm) w)"

lemma startedI:
  "boots mp b A n st adm \<Longrightarrow> (\<And>u. file_at n (session_path u) = None) \<Longrightarrow>
   server_run E W mp b A (\<lambda>_ _. True) (booted st adm) w \<Longrightarrow> started E W mp b A w"
  unfolding started_def by blast

lemma from_builder_fields:
  assumes "AppState_from_builder mp J now b st = (Ok (A, adm), st')"
  shows "IoTuning_validate (ab_io_tuning b) = Ok () \<and> app_io_tuning A = ab_io_tuning b
    \<and> app_upload_processors A = ab_upload_processors b \<and> app_config A = ab_config b"
  using assms unfolding AppState_from_builder_def io_bind_Ok
  by (elim exE conjE) (auto simp: io_lift_def io_return_def or_panic_def res_simps)

lemma IoTuning_validate_Ok:
  "IoTuning_validate t = Ok () \<Longrightarrow> 0 < io_upload_summary_buffer_size t \<and> 0 < io_multipart_complete_buffer_size t
     \<and> 0 < io_object_stream_buffer_size t"
  by (auto simp: IoTuning_validate_def res_simps ensure_Ok)

lemma boots_fields:
  assumes "boots mp b A n st adm"
  shows "app_upload_processors A = ab_upload_processors b \<and> app_config A = ab_config b
    \<and> 0 < io_upload_summary_buffer_size (app_io_tuning A) \<and> 0 < io_multipart_complete_buffer_size (app_io_tuning A)
    \<and> 0 < io_object_stream_buffer_size (app_io_tuning A)"
  using assms
  by (induction rule: boots.induct) (auto dest!: from_builder_fields IoTuning_validate_Ok)

lemma started_fields:
  assumes "started E W mp b A w"
  shows "app_upload_processors A = ab_upload_processors b" "app_config A = ab_config b"
    "0 < io_upload_summary_buffer_size (app_io_tuning A)" "0 < io_object_stream_buffer_size (app_io_tuning A)"
    "\<forall>p\<in>set (ab_upload_processors b). confined p \<Longrightarrow> regular A"
  using assms boots_fields unfolding started_def regular_def by metis+

lemma started_recoverable:
  assumes "started E W mp b A w" "\<forall>p\<in>set (ab_upload_processors b). confined p" "session_law (app_codec A)"
  shows "recoverable (app_codec A) (wd_store w)"
proof -
  from assms(1) obtain n st adm where st: "boots mp b A n st adm" "\<forall>u. file_at n (session_path u) = None"
    "server_run E W mp b A (\<lambda>_ _. True) (booted st adm) w" by (auto simp: started_def)
  have "disk_ok (app_codec A) \<lparr>fs_nodes = n, fs_faults = []\<rparr>" using st(2) by (simp add: disk_ok_def)
  from boots_recoverable [OF st(1) _ this] have "recoverable (app_codec A) (wd_store (booted st adm))" by simp
  from server_run_recoverable [OF st(3) started_fields(5) [OF assms(1,2)] assms(3) this] show ?thesis .
qed

definition configured_permits :: "config \<Rightarrow> admission" where
  "configured_permits c = (let L = cf_upload_limits c in
     \<lparr>ad_s3_requests = ul_max_concurrent_s3_requests L, ad_object_writers = ul_max_active_object_writers L,
      ad_multipart_part_writers = ul_max_active_multipart_part_writers L,
      ad_aws_chunked_decoders = ul_max_active_aws_chunked_decoders L\<rparr>)"

lemma boots_permits: "boots mp b A n st adm \<Longrightarrow> adm = configured_permits (ab_config b)"
  by (induction rule: boots.induct) (auto dest: from_builder_Ok simp: configured_permits_def Let_def)

lemma server_run_permits:
  "server_run E W mp b A P w w' \<Longrightarrow> wd_admission w = configured_permits (ab_config b) \<Longrightarrow>
   wd_admission w' = configured_permits (ab_config b)"
proof (induction rule: server_run.induct)
  case (serve V i rq w resp w1 w2)
  with permits_conserved [OF serve.hyps(1)] show ?case by simp
next
  case (restart w st adm w2)
  with boots_permits [OF restart.hyps(1)] show ?case by simp
qed

text \<open>
  C10. The state stays sound through any life of the server: from a first start on a tree without
  upload sessions, in every state that any requests (whatever their bodies, outcomes and faults)
  and any restarts lead to, each session in memory stands under its own upload identifier with
  each part under its own number; so does every \<open>session.json\<close> that decodes, in the directory of
  its upload; and when no request is in progress all configured permits are free.
\<close>

theorem server_life_sound:
  assumes "started E W mp b A w" "\<forall>p\<in>set (ab_upload_processors b). confined p" "session_law (app_codec A)"
  shows "(\<forall>u us. bt_get (ms_sessions (wd_store w)) u = Some us \<longrightarrow> session_ok u us)
    \<and> (\<forall>u json us. files (ms_fs (wd_store w)) (session_path u) = Some json \<longrightarrow>
         j_session_decode (app_codec A) json = Some us \<longrightarrow> session_ok u us)
    \<and> wd_admission w = configured_permits (ab_config b)"
proof -
  from assms(1) obtain n st adm where "boots mp b A n st adm" "server_run E W mp b A (\<lambda>_ _. True) (booted st adm) w"
    by (auto simp: started_def)
  with boots_permits server_run_permits have "wd_admission w = configured_permits (ab_config b)" by fastforce
  with started_recoverable [OF assms] show ?thesis by (auto simp: recoverable_def sessions_wf_def disk_ok_def)
qed

text \<open>A start on an empty tree, a DELETE, and a restart during which the first start fails.\<close>

definition ex_builder :: app_builder where
  "ex_builder = AppBuilder_authentication_provider
     (\<lambda>_. Ok \<lparr>ar_principal = RP_AccessKey ''test'', ar_access_key_id = Some ''test''\<rparr>) (AppState_builder (Config_new ''/data''))"

abbreviation ex_tree_store :: "nodes \<Rightarrow> (string \<times> nat) option list \<Rightarrow> multipart" where
  "ex_tree_store n faults \<equiv> \<lparr>ms_fs = \<lparr>fs_nodes = n, fs_faults = faults\<rparr>, ms_sessions = []\<rparr>"

lemma ex_builder_start:
  assumes "FileObjectStore_new \<lparr>fs_nodes = n, fs_faults = []\<rparr> = (Ok (), \<lparr>fs_nodes = n', fs_faults = []\<rparr>)"
    and "FileMultipartStore_new J MultipartLifecycle_default 0 (ex_tree_store n' []) = (Ok (), st)"
  shows "AppState_from_builder (2 ^ 60) J 0 ex_builder (ex_tree_store n [])
    = (Ok (ex_open_app J, configured_permits (Config_new ''/data'')), st)"
proof -
  have c: "Config_validate (Config_new ''/data'') = Ok ()" "IoTuning_validate IoTuning_default = Ok ()"
    by code_simp+
  obtain limits where l: "UploadLimits_validated UploadLimits_default = Ok limits"
      "AdmissionControl_new (2 ^ 60) limits = Some (configured_permits (Config_new ''/data''))"
  proof -
    have "(case UploadLimits_validated UploadLimits_default of Err e \<Rightarrow> None
        | Ok limits \<Rightarrow> AdmissionControl_new (2 ^ 60) limits) = Some (configured_permits (Config_new ''/data''))"
      by code_simp
    then show thesis by (cases "UploadLimits_validated UploadLimits_default") (auto intro: that)
  qed
  show ?thesis
    using assms c l ex_auth_state_new
    by (simp add: AppState_from_builder_def ex_builder_def AppBuilder_authentication_provider_def AppState_builder_def
        Config_new_def io_simps on_fs_def or_panic_def ex_open_app_def ex_app_def)
qed

text \<open>What a start without faults leaves, and that it is a start.\<close>

definition ex_start :: "codec \<Rightarrow> nodes \<Rightarrow> (unit, store_error) result \<times> multipart" where
  "ex_start J n = (case FileObjectStore_new \<lparr>fs_nodes = n, fs_faults = []\<rparr> of
     (Ok _, s) \<Rightarrow> if fs_faults s = [] then FileMultipartStore_new J MultipartLifecycle_default 0 (ex_tree_store (fs_nodes s) [])
       else (Err SE_Json, ex_tree_store n [])
   | (Err e, s) \<Rightarrow> (Err e, ex_tree_store n []))"

abbreviation ex_booted :: "codec \<Rightarrow> nodes \<Rightarrow> world" where
  "ex_booted J n \<equiv> booted (snd (ex_start J n)) (configured_permits (Config_new ''/data''))"

lemma ex_boots:
  assumes "is_ok (fst (ex_start J n))"
  shows "boots (2 ^ 60) ex_builder (ex_open_app J) n (snd (ex_start J n)) (configured_permits (Config_new ''/data''))"
proof -
  from assms obtain s where o: "FileObjectStore_new \<lparr>fs_nodes = n, fs_faults = []\<rparr> = (Ok (), s)" "fs_faults s = []"
    and m: "FileMultipartStore_new J MultipartLifecycle_default 0 (ex_tree_store (fs_nodes s) []) = ex_start J n"
    by (auto simp: ex_start_def split: prod.splits result.splits if_splits)
  from assms have "ex_start J n = (Ok (), snd (ex_start J n))"
    by (metis is_ok_iff old.unit.exhaust prod.collapse)
  with o m have "AppState_from_builder (2 ^ 60) J 0 ex_builder (ex_tree_store n [])
      = (Ok (ex_open_app J, configured_permits (Config_new ''/data'')), snd (ex_start J n))"
    by (intro ex_builder_start [of n "fs_nodes s"]) simp_all
  then show ?thesis
    by (intro boots.up [of _ _ 0 _ "ex_tree_store n []"]) (simp_all add: ex_open_app_def ex_app_def)
qed

definition ex_plain_codec :: codec where
  "ex_plain_codec = ex_codec\<lparr>j_session_encode := (\<lambda>_. None), j_session_decode := (\<lambda>_. None)\<rparr>"

text \<open>One request of the examples, served before the rest of a run.\<close>

lemma ex_served:
  assumes "P ex_env rq" "server_run E W mp b A P (snd (handle_s3_request E W ex_env A i rq w)) w'"
  shows "server_run E W mp b A P w w'"
  by (rule server_run.serve [OF prod.collapse [symmetric] _ assms]) (simp add: ex_env_def)

lemmas ex_served_last = ex_served [OF _ server_run.idle]

abbreviation ex_first_run :: "response option \<times> world" where
  "ex_first_run \<equiv> handle_s3_request ext0 ex_web ex_env (ex_open_app ex_plain_codec) ''r'' ex_delete (ex_booted ex_plain_codec [])"

theorem server_life_sound_witness:
  "\<exists>w. started ext0 ex_web (2 ^ 60) ex_builder (ex_open_app ex_plain_codec) w
     \<and> wd_admission w = configured_permits (Config_new ''/data'') \<and> dir_in (ms_fs (wd_store w)) [''multipart'']"
proof -
  let ?J = ex_plain_codec and ?A = "ex_open_app ex_plain_codec" and ?n = "fs_nodes (ms_fs (wd_store (snd ex_first_run)))"
  have ok: "is_ok (fst (ex_start ?J []))" "is_ok (fst (ex_start ?J ?n))" "dir_in (ms_fs (snd (ex_start ?J ?n))) [''multipart'']"
    by code_simp+
  have run: "server_run ext0 ex_web (2 ^ 60) ex_builder ?A (\<lambda>_ _. True) (ex_booted ?J []) (ex_booted ?J ?n)"
    by (rule ex_served [OF _ server_run.restart [OF ex_boots [OF ok(2)] server_run.idle]]) simp
  have s: "started ext0 ex_web (2 ^ 60) ex_builder ?A (ex_booted ?J ?n)"
    by (rule startedI [OF ex_boots [OF ok(1)] _ run]) (simp add: file_at_def)
  have "session_law (app_codec ?A)" "\<forall>p\<in>set (ab_upload_processors ex_builder). confined p"
    by (simp_all add: session_law_def ex_open_app_def ex_app_def ex_plain_codec_def ex_builder_def
        AppBuilder_authentication_provider_def AppState_builder_def)
  with server_life_sound [OF s] ok(3) s show ?thesis
    by (auto simp: ex_builder_def AppBuilder_authentication_provider_def AppState_builder_def)
qed

end
