(* ===== verification/Upload_Durability.thy ===== *)
theory Upload_Durability
  imports Server_Runs
begin

text \<open>
  Acknowledged parts of a multipart upload: once UploadPart has answered with success, the entry
  of the part is in the session table and on disk, and requests for anything else and restarts
  keep both.
\<close>

section \<open>Paths of parts\<close>

lemma digits_val_zeros: "digits_val 10 0 (replicate k (CHR ''0'') @ s) = digits_val 10 0 s"
  by (induction k) (simp_all add: is_ascii_digit_def)

lemma show_pad5_inj: "show_pad5 n = show_pad5 m \<Longrightarrow> n = m"
proof -
  have "digits_val 10 0 (show_pad5 n) = Some n" for n
    unfolding show_pad5_def show_nat_def digits_val_zeros by (rule digits_val_show_radix) simp_all
  then show "show_pad5 n = show_pad5 m \<Longrightarrow> n = m" by (metis option.inject)
qed

lemma part_path_inj [simp]: "part_path u n = part_path u m \<longleftrightarrow> n = m"
  by (auto simp: part_path_def dest: show_pad5_inj)

lemma upload_dir_neq [simp]:
  "upload_dir u \<noteq> part_path u n" "upload_dir u \<noteq> part_backup u bid n" "upload_dir u \<noteq> part_temp u n tid"
  "part_path u n \<noteq> part_backup u bid m"
  by (simp_all add: upload_dir_def part_path_def parts_dir_def part_backup_def part_temp_def)

section \<open>A part that is kept\<close>

definition has_part :: "part_number \<Rightarrow> part_metadata \<Rightarrow> upload_session \<Rightarrow> bool" where
  "has_part n pm us \<longleftrightarrow> is_open us \<and> bt_get (us_parts us) n = Some pm"

definition part_stored :: "codec \<Rightarrow> upload_id \<Rightarrow> part_number \<Rightarrow> part_metadata \<Rightarrow> bytes \<Rightarrow> fs \<Rightarrow> bool" where
  "part_stored J u n pm body s \<longleftrightarrow>
     (\<exists>json us. files s (session_path u) = Some json \<and> j_session_decode J json = Some us \<and> has_part n pm us)
     \<and> files s (part_path u n) = Some body \<and> dir_in s (upload_dir u)"

definition part_kept :: "codec \<Rightarrow> upload_id \<Rightarrow> part_number \<Rightarrow> part_metadata \<Rightarrow> bytes \<Rightarrow> multipart \<Rightarrow> bool" where
  "part_kept J u n pm body st \<longleftrightarrow> recoverable J st
     \<and> (\<exists>us. bt_get (ms_sessions st) u = Some us \<and> has_part n pm us) \<and> part_stored J u n pm body (ms_fs st)"

lemma part_stored_same_off:
  assumes "part_stored J u n pm body s" "same_off A s s'" "session_path u \<notin> A" "part_path u n \<notin> A" "upload_dir u \<notin> A"
  shows "part_stored J u n pm body s'"
  using assms by (auto simp: part_stored_def same_off_def)

lemma part_kept_fs:
  assumes "part_kept J u n pm body st" "same_off A (ms_fs st) s'" "\<And>v. session_path v \<notin> A" "part_path u n \<notin> A"
    and "upload_dir u \<notin> A"
  shows "part_kept J u n pm body (st\<lparr>ms_fs := s'\<rparr>)"
proof -
  have "recoverable J (st\<lparr>ms_fs := s'\<rparr>)"
    by (rule recoverable_shrinks [of J st]) (use assms in \<open>auto simp: part_kept_def recoverable_def sessions_wf_def same_off_def\<close>)
  with assms part_stored_same_off [OF _ assms(2,3) assms(4,5)] show ?thesis by (simp add: part_kept_def)
qed

lemma kept_touches:
  assumes "touches A m" "\<And>v. session_path v \<notin> A" "part_path u n \<notin> A" "upload_dir u \<notin> A"
  shows "preserved (part_kept J u n pm body) (on_fs m) st"
  using part_kept_fs [OF _ touches_same_off [OF assms(1) subset_refl] assms(2-4)]
  by (auto simp: preserved_def on_fs_def split: prod.split)

lemma kept_persist:
  assumes "session_law J" "session_ok u us" "has_part n pm us"
  shows "preserved (part_kept J u n pm body) (on_fs (persist_session J uuid us)) st"
proof (rule preservedI)
  fix r st'
  assume run: "on_fs (persist_session J uuid us) st = (r, st')" and k: "part_kept J u n pm body st"
  then obtain s' where s: "persist_session J uuid us (ms_fs st) = (r, s')" "st' = st\<lparr>ms_fs := s'\<rparr>"
    by (auto simp: on_fs_def split: prod.splits)
  have id: "us_upload_id us = u" by (rule session_ok_id [OF assms(2)])
  have "recoverable J st'"
    using preservedD [OF recoverable_persist [OF assms(1,2)] run] k by (simp add: part_kept_def)
  moreover have "files s' (part_path u n) = files (ms_fs st) (part_path u n)" "dir_in (ms_fs st) p \<Longrightarrow> dir_in s' p" for p
    using touchesD(1,2) [OF touches_persist s(1)] by (auto simp: session_files_def part_path_def parts_dir_def upload_dir_def)
  moreover have "\<exists>json us'. files s' (session_path u) = Some json \<and> j_session_decode J json = Some us' \<and> has_part n pm us'"
    using persist_session_file [OF s(1) id]
  proof (elim disjE conjE)
    assume "files s' (session_path u) = j_session_encode J us" "j_session_encode J us \<noteq> None"
    with assms show ?thesis by (auto simp: session_law_def)
  qed (use k in \<open>auto simp: part_kept_def part_stored_def\<close>)
  ultimately show "part_kept J u n pm body st'"
    using k s(2) by (auto simp: part_kept_def part_stored_def)
qed

lemma kept_put:
  "session_ok u us \<Longrightarrow> has_part n pm us \<Longrightarrow> preserved (part_kept J u n pm body) (put_session u us) st"
  by (auto simp: preserved_def put_session_def part_kept_def recoverable_def sessions_wf_def)

lemma kept_with_open:
  assumes "\<And>us. session_ok u us \<Longrightarrow> has_part n pm us \<Longrightarrow> preserved (part_kept J u n pm body) (k us) st"
  shows "preserved (part_kept J u n pm body) (io_bind (get_open_upload u) k) st"
proof (rule preserved_bind)
  show "preserved (part_kept J u n pm body) (get_open_upload u) st"
    by (simp add: preserved_def get_open_upload_eq split: option.split)
  fix us st'
  assume "get_open_upload u st = (Ok us, st')" "part_kept J u n pm body st"
  then have "st' = st" "session_ok u us" "has_part n pm us"
    by (auto simp: get_open_upload_eq part_kept_def recoverable_def sessions_wf_def split: option.splits if_splits)
  with assms show "preserved (part_kept J u n pm body) (k us) st'" by simp
qed

lemma has_part_other: "m \<noteq> n \<Longrightarrow> has_part n pm (us\<lparr>us_parts := bt_insert m x (us_parts us)\<rparr>) = has_part n pm us"
  "m \<noteq> n \<Longrightarrow> has_part n pm (us\<lparr>us_parts := bt_remove m (us_parts us)\<rparr>) = has_part n pm us"
  by (auto simp: has_part_def is_open_def)

lemma kept_insert_part:
  assumes "pm_part_number x = m" "m \<noteq> n"
    and "\<And>us st'. session_ok u us \<Longrightarrow> has_part n pm us \<Longrightarrow> preserved (part_kept J u n pm body) (k us) st'"
  shows "preserved (part_kept J u n pm body) (io_bind (insert_part u x) k) st"
proof -
  have "io_bind (insert_part u x) k = io_bind (get_open_upload u) (\<lambda>us.
     let us' = us\<lparr>us_parts := bt_insert (pm_part_number x) x (us_parts us)\<rparr>
     in io_bind (put_session u us') (\<lambda>_. k us'))"
    by (auto simp: fun_eq_iff insert_part_def io_simps Let_def split: prod.split result.split)
  moreover have "preserved (part_kept J u n pm body) (io_bind (put_session u (us\<lparr>us_parts := bt_insert m x (us_parts us)\<rparr>))
      (\<lambda>_. k (us\<lparr>us_parts := bt_insert m x (us_parts us)\<rparr>))) st" if "session_ok u us" "has_part n pm us" for us
    using that assms(1,2) by (intro preserved_bind kept_put assms(3)) (simp_all add: has_part_other)
  ultimately show ?thesis using assms(1) by (simp add: Let_def kept_with_open)
qed

lemma kept_restore_part:
  assumes "\<And>pm'. prev = Some pm' \<Longrightarrow> pm_part_number pm' = m" "m \<noteq> n"
  shows "preserved (part_kept J u n pm body) (restore_part_entry u m prev) st"
proof (rule preservedI)
  fix r st'
  assume run: "restore_part_entry u m prev st = (r, st')" and k: "part_kept J u n pm body st"
  then have "recoverable J st'"
    using preservedD [OF recoverable_restore_part [OF assms(1)] run] by (simp add: part_kept_def)
  with run k assms(2) show "part_kept J u n pm body st'"
    by (cases prev) (auto simp: restore_part_entry_def get_session_def put_session_def io_simps part_kept_def has_part_other)
qed

lemma kept_commit_part:
  assumes "session_law J" "m \<noteq> n" "T = part_temp u m tid"
  shows "preserved (part_kept J u n pm body) (commit_part J bid uuid now u m T part) st"
proof -
  let ?I = "part_kept J u n pm body" and ?A = "{part_path u m, T, part_backup u bid m}"
  have A: "session_path v \<notin> ?A" "part_path u n \<notin> ?A" "upload_dir u \<notin> ?A" for v
    using assms(2,3) by auto
  have steps: "preserved ?I (on_fs (publish_part T (part_path u m) (backup_of us u bid m))) st"
      "preserved ?I (on_fs (discard_unpublished_part T (backup_of us u bid m))) st"
      "preserved ?I (on_fs (rollback_part_file (part_path u m) (backup_of us u bid m))) st"
      "backup_of us u bid m = Some b \<Longrightarrow> preserved ?I (on_fs (remove_file_if_exists b)) st"
    for us st b
    using A
    by (intro kept_touches [OF touches_part_steps(1) [where A = ?A]]
        kept_touches [OF touches_part_steps(2) [where A = ?A and u = u and n = m]]
        kept_touches [OF touches_part_steps(3) [where A = ?A and T = T]]
        kept_touches [OF touches_mono [OF touches_helpers(2), where B = ?A]];
      auto simp: backup_of_def)+
  have prev: "bt_get (us_parts us) m = Some pm' \<Longrightarrow> pm_part_number pm' = m" if "session_ok u us" for us pm'
    using that by (simp add: session_ok_def)
  show ?thesis
    unfolding commit_part_def Let_def part_backup_def [symmetric] backup_of_def [symmetric]
    apply (rule kept_with_open, rule preserved_match, rule steps(1))
    subgoal for us r s'
      apply (cases r; simp only: result.case)
       apply (rule kept_insert_part [where m = m, OF _ assms(2)], simp, rule preserved_match, erule (1) kept_persist [OF assms(1)])
       apply (intro preserved_cases preserved_bind preserved_ignore preserved_basics steps(1-3) kept_restore_part [OF _ assms(2)])
        apply (erule steps(4))
       apply (erule (1) prev)
      apply (intro preserved_ignore steps(1-3) preserved_basics)
      done
    done
qed

section \<open>Requests\<close>

text \<open>The request may change neither the upload nor, when it uploads a part of it, this part.\<close>

definition spares_part :: "ext \<Rightarrow> app_state \<Rightarrow> upload_id \<Rightarrow> part_number \<Rightarrow> env \<Rightarrow> request \<Rightarrow> bool" where
  "spares_part E A u n V rq \<longleftrightarrow> u \<notin> request_uploads E V A rq
     \<or> (\<exists>m. m \<noteq> n \<and> detected_operation_of E A rq = Ok (DO_Implemented (Op_UploadPart u m)))"

lemma stays_kept:
  assumes "stays (tmp_files \<union> (\<Union>k\<in>K. pair_files E k) \<union> (\<Union>v\<in>U. upload_files v)) U st st'" "u \<notin> U"
    and "part_kept J u n pm body st" "recoverable J st'"
  shows "part_kept J u n pm body st'"
proof -
  let ?A = "tmp_files \<union> (\<Union>k\<in>K. pair_files E k) \<union> (\<Union>v\<in>U. upload_files v)"
  have off: "p \<notin> ?A" if "p \<in> upload_files u" for p
  proof -
    have "hd p = ''multipart''" by (rule upload_files_hd [OF that])
    then have "p \<notin> tmp_files" "p \<notin> pair_files E k" for k
      by (auto simp: tmp_files_def pair_files_def object_path_def metadata_path_def Let_def)
    moreover have "p \<notin> upload_files v" if "v \<in> U" for v
      using upload_files_apart [of u v] that assms(2) \<open>p \<in> upload_files u\<close> by auto
    ultimately show ?thesis by simp
  qed
  have "session_path u \<in> upload_files u" "part_path u n \<in> upload_files u" "upload_dir u \<in> upload_files u"
    by (simp_all add: upload_files_def under_def session_path_def part_path_def parts_dir_def upload_dir_def)
  note off = this [THEN off]
  have "same_off ?A (ms_fs st) (ms_fs st')" "bt_get (ms_sessions st') u = bt_get (ms_sessions st) u"
    using assms(1,2) unfolding stays_def by blast+
  with part_stored_same_off [OF _ _ off] assms(3,4) show ?thesis unfolding part_kept_def by metis
qed

lemma kept_upload_part:
  assumes "session_law (app_codec a)" "m \<noteq> n"
  shows "preserved (stores (part_kept (app_codec a) u n pm body)) (upload_part E W V a rq i u m auth) w"
proof -
  have "preserved (stores (part_kept (app_codec a) u n pm body)) (upload_part_body E W V a rq i u m auth) w" for w
    by (rule upload_part_body_preserves, erule (1) part_kept_fs) (simp_all add: kept_commit_part [OF assms refl])
  then show ?thesis
    unfolding upload_part_def
    by (intro preserved_bind preserved_try session_check_pure preserved_permits)
qed

lemma request_kept:
  assumes "handle_s3_request E W V A i rq w = (resp, w')" "stores (part_kept (app_codec A) u n pm body) w"
    and "ev_timeout V = None" "regular A" "session_law (app_codec A)" "spares_part E A u n V rq"
  shows "stores (part_kept (app_codec A) u n pm body) w'"
proof (cases "u \<in> request_uploads E V A rq")
  case False
  have rec: "recoverable (app_codec A) (wd_store w)" using assms(2) by (simp add: part_kept_def)
  then have wf: "sessions_wf (wd_store w)" by (simp add: recoverable_def)
  show ?thesis
    by (rule stays_kept [OF request_stays [OF assms(1) wf assms(3,4)] False assms(2)])
      (rule request_recoverable [OF assms(1) rec assms(3-5)])
next
  case True
  with assms(6) obtain m where m: "m \<noteq> n" "detected_operation_of E A rq = Ok (DO_Implemented (Op_UploadPart u m))"
    by (auto simp: spares_part_def)
  from assms(1) show ?thesis
  proof (cases rule: handle_run)
    case (ran operation ctx obs lc clen r w2)
    from ran(3) have "stores (part_kept (app_codec A) u n pm body) w2"
    proof (cases rule: dispatch_cases)
      case (limited op auth tenant)
      with m(2) have op: "op = Op_UploadPart u m" by simp
      from limited(5) show ?thesis
      proof (cases rule: tenant_run)
        case (ran lease w3)
        from ran(2) [unfolded op] ran(3) assms(2) show ?thesis
          using preservedD [OF kept_upload_part [OF assms(5) m(1)]] by fastforce
      qed (use assms(2,3) in simp_all)
    qed (use assms(2) in simp)
    with ran(4) show ?thesis by simp
  qed (use assms(2) in simp)
qed

section \<open>Restarts\<close>

definition in_table :: "upload_id \<Rightarrow> part_number \<Rightarrow> part_metadata \<Rightarrow> multipart \<Rightarrow> bool" where
  "in_table u n pm st \<longleftrightarrow> (\<exists>us. bt_get (ms_sessions st) u = Some us \<and> has_part n pm us)"

definition disk_part :: "codec \<Rightarrow> upload_id \<Rightarrow> part_number \<Rightarrow> part_metadata \<Rightarrow> bytes \<Rightarrow> fs \<Rightarrow> bool" where
  "disk_part J u n pm body s \<longleftrightarrow> disk_ok J s \<and> part_stored J u n pm body s"

lemma disk_part_nodes: "fs_nodes s = fs_nodes s' \<Longrightarrow> disk_part J u n pm body s = disk_part J u n pm body s'"
  by (simp add: disk_part_def part_stored_def disk_ok_def)

lemma disk_part_touches:
  assumes "touches A m" "m s = (r, s')" "disk_part J u n pm body s" "\<And>v. session_path v \<notin> A" "part_path u n \<notin> A" "upload_dir u \<notin> A"
  shows "disk_part J u n pm body s'"
proof -
  note off = touches_same_off [OF assms(1) subset_refl assms(2)]
  have "disk_ok J s'"
    by (rule disk_ok_shrinks [of J s]) (use off assms(3,4) in \<open>auto simp: same_off_def disk_part_def\<close>)
  with part_stored_same_off [OF _ off assms(4-6)] assms(3) show ?thesis by (simp add: disk_part_def)
qed

lemma load_session_keeps:
  assumes "load_session J lc now (name, dir) st = (r, st')" "disk_part J u n pm body (ms_fs st)"
    and "lc_abort_incomplete_after lc = None"
  shows "disk_part J u n pm body (ms_fs st')"
    and "in_table u n pm st \<or> name = u \<and> dir \<and> r = Ok () \<Longrightarrow> in_table u n pm st'"
proof -
  let ?p = "[''multipart'', name, ''session.json'']"
  have p: "?p = session_path name" by (simp add: session_path_def upload_dir_def)
  obtain json0 us0 where u: "files (ms_fs st) (session_path u) = Some json0" "j_session_decode J json0 = Some us0" "has_part n pm us0"
    using assms(2) by (auto simp: disk_part_def part_stored_def)
  have live: "\<not> incomplete_upload_is_expired lc now us" for us
    using assms(3) by (simp add: incomplete_upload_is_expired_def)
  have "disk_part J u n pm body (ms_fs st') \<and> (in_table u n pm st \<or> name = u \<and> dir \<and> r = Ok () \<longrightarrow> in_table u n pm st')"
    using assms(1)
  proof (cases rule: load_session_cases)
    case skipped
    with assms(2) u show ?thesis
      using disk_part_nodes [OF skipped(1)] by (auto simp: p in_table_def)
  next
    case (removed json us s1 q)
    with u live have ne: "name \<noteq> u" by (auto simp: p has_part_def)
    have g: "disk_part J u n pm body s1" using assms(2) disk_part_nodes [OF removed(4)] by simp
    have "disk_part J u n pm body (ms_fs st')"
      using removed(6)
    proof
      assume rm: "fs_remove_dir_all [''multipart'', name] s1 = (q, ms_fs st')"
      have "disk_ok J (ms_fs st')"
        by (rule disk_ok_shrinks [of J s1])
          (use g remove_dir_all_only_removes [OF rm] in \<open>auto simp: disk_part_def only_removes_def\<close>)
      moreover have "part_stored J u n pm body (ms_fs st')"
        by (rule part_stored_same_off [OF _ remove_dir_same_off [OF rm subset_refl]])
          (use g ne in \<open>auto simp: disk_part_def under_def session_path_def part_path_def parts_dir_def upload_dir_def\<close>)
      ultimately show ?thesis by (simp add: disk_part_def)
    qed (use g in simp)
    with ne removed(5) show ?thesis by (simp add: in_table_def)
  next
    case (kept json us)
    with assms(2) have id: "us_upload_id us = name"
      by (auto simp: p disk_part_def disk_ok_def dest: session_ok_id)
    have "in_table u n pm st'" if "in_table u n pm st \<or> name = u"
      using that kept(7) kept(1,2) [unfolded p] u id by (cases "name = u") (auto simp: in_table_def)
    with assms(2) disk_part_nodes [OF kept(6)] show ?thesis by simp
  qed
  then show "disk_part J u n pm body (ms_fs st')"
    and "in_table u n pm st \<or> name = u \<and> dir \<and> r = Ok () \<Longrightarrow> in_table u n pm st'" by simp_all
qed

lemma load_all_keeps:
  assumes "io_for (load_session J lc now) es st = (r, st')" "disk_part J u n pm body (ms_fs st)"
    and "lc_abort_incomplete_after lc = None"
  shows "disk_part J u n pm body (ms_fs st')
    \<and> (r = Ok () \<longrightarrow> in_table u n pm st \<or> (u, True) \<in> set es \<longrightarrow> in_table u n pm st')"
  using assms(1,2)
proof (induction es arbitrary: st)
  case (Cons e es)
  obtain name dir where e: "e = (name, dir)" by force
  obtain q st1 where q: "load_session J lc now (name, dir) st = (q, st1)" by force
  note L = load_session_keeps [OF q Cons.prems(2) assms(3)]
  show ?case
  proof (cases q)
    case (Ok x)
    with Cons.prems(1) q e have "io_for (load_session J lc now) es st1 = (r, st')" by (simp add: io_simps)
    from Cons.IH [OF this L(1)] L(2) Ok e show ?thesis by auto
  next
    case (Err x)
    with Cons.prems(1) q e L(1) show ?thesis by (auto simp: io_simps)
  qed
qed (auto simp: io_return_def)

lemma stale_cleanup_touches:
  "touches {[''multipart'', a, f] |a f. \<exists>x. f = x @ ''.tmp''} multipart_cleanup_stale_temp_files"
proof -
  let ?A = "{[''multipart'', a, f] |a f. \<exists>x. f = x @ ''.tmp''}"
  have rm: "touches ?A (remove_file_if_exists [''multipart'', a, f])" if "strip_suffix ''.tmp'' f \<noteq> None" for a f
    by (rule touches_mono [OF touches_helpers(2)]) (use that in \<open>auto simp: strip_suffix_Some\<close>)
  show ?thesis
    unfolding multipart_cleanup_stale_temp_files_def
    by (intro touches_bind touches_for touches_intros; split prod.split)
      (auto intro!: touches_bind touches_for touches_intros rm split: prod.split simp: strip_suffix_Some)
qed

lemma read_dir_lists:
  assumes "se_io (fs_read_dir p) s = (Ok es, s')" "dir_in s (p @ [c])"
  shows "(c, True) \<in> set es"
proof -
  from assms(1) obtain q where "fs_read_dir p s = (q, s')" "q = Ok es"
    by (auto simp: io_map_err_def res_simps split: prod.splits)
  then have "es = children p (fs_nodes s)"
    unfolding fs_read_dir_def
    by (cases rule: faulty_cases) (auto simp: read_dir_i_def split: if_splits)
  moreover have "(p @ [c], DirNode) \<in> set (fs_nodes s)"
    using assms(2) by (auto simp: is_dir_def bt_get_def dest: map_of_SomeD)
  ultimately show ?thesis by (force simp: children_def)
qed

lemma multipart_startup_keeps:
  assumes "FileMultipartStore_new J lc now st = (r, st')" "disk_part J u n pm body (ms_fs st)"
    and "lc_abort_incomplete_after lc = None"
  shows "disk_part J u n pm body (ms_fs st') \<and> (r = Ok () \<longrightarrow> in_table u n pm st')"
proof -
  obtain q s1 where c: "se_io (fs_create_dir_all [''multipart'']) (ms_fs st) = (q, s1)" by force
  have d1: "disk_part J u n pm body s1"
    by (rule disk_part_touches [OF touches_map_err [OF touches_calls(1)] c assms(2), where A = "{}"]) simp_all
  let ?st1 = "st\<lparr>ms_fs := s1, ms_sessions := bt_empty\<rparr>"
  obtain es s2 where rd: "se_io (fs_read_dir [''multipart'']) s1 = (es, s2)" by force
  have d2: "disk_part J u n pm body s2"
    by (rule disk_part_touches [OF touches_map_err [OF touches_calls(9)] rd d1, where A = "{}"]) simp_all
  show ?thesis
  proof (cases "\<exists>x l. q = Ok x \<and> es = Ok l")
    case False
    then have "(\<exists>e. r = Err e) \<and> (ms_fs st' = s1 \<or> ms_fs st' = s2)"
      using assms(1) c rd
      by (cases q; cases es) (auto simp: FileMultipartStore_new_def load_sessions_def io_simps on_fs_def)
    with d1 d2 show ?thesis by auto
  next
    case True
    then obtain l where l: "q = Ok ()" "es = Ok l" by auto
    obtain w st2 where w: "io_for (load_session J lc now) l (?st1\<lparr>ms_fs := s2\<rparr>) = (w, st2)" by force
    have "(u, True) \<in> set l"
      using read_dir_lists [of "[''multipart'']" s1 l s2 u] rd l d1
      by (simp add: disk_part_def part_stored_def upload_dir_def)
    with load_all_keeps [OF w _ assms(3)] d2 have L: "disk_part J u n pm body (ms_fs st2)" "w = Ok () \<Longrightarrow> in_table u n pm st2"
      by auto
    obtain x s3 where cl: "multipart_cleanup_stale_temp_files (ms_fs st2) = (x, s3)" by force
    have d3: "disk_part J u n pm body s3"
      by (rule disk_part_touches [OF stale_cleanup_touches cl L(1)])
        (auto simp: session_path_def part_path_def parts_dir_def upload_dir_def dest: arg_cong [where f = last])
    have "(st' = st2 \<or> st' = st2\<lparr>ms_fs := s3\<rparr>) \<and> (r = Ok () \<longrightarrow> w = Ok ())"
      using assms(1) c rd l w cl
      by (cases w) (auto simp: FileMultipartStore_new_def load_sessions_def io_simps on_fs_def split: if_splits)
    with L d3 show ?thesis by (auto simp: in_table_def)
  qed
qed

lemma start_part:
  assumes "AppState_from_builder mp J now b st = (r, st')" "disk_part J u n pm body (ms_fs st)"
    and "lc_abort_incomplete_after (ab_multipart_lifecycle b) = None"
  shows "disk_part J u n pm body (ms_fs st') \<and> (\<forall>x. r = Ok x \<longrightarrow> in_table u n pm st')"
proof -
  have obj: "disk_part J u n pm body s1" if "FileObjectStore_new (ms_fs st) = (q, s1)" for q s1
    by (rule disk_part_touches [OF touches_object_startup that assms(2)])
      (simp_all add: session_path_def part_path_def parts_dir_def upload_dir_def)
  from assms(1) show ?thesis
  proof (cases rule: from_builder_cases)
    case (multipart s1 q)
    from multipart_startup_keeps [OF multipart(2) _ assms(3)] obj [OF multipart(1)] multipart(3) show ?thesis by auto
  next
    case (objects e s1 se)
    with obj show ?thesis by simp
  qed (use assms(2) in simp)
qed

lemma boots_kept:
  assumes "boots mp b A nodes st adm" "fs_nodes s = nodes" "disk_part (app_codec A) u n pm body s"
    and "lc_abort_incomplete_after (ab_multipart_lifecycle b) = None"
  shows "part_kept (app_codec A) u n pm body st"
  using assms(1-3)
proof (induction arbitrary: s rule: boots.induct)
  case (up now st0 adm st nodes)
  then have d: "disk_part (app_codec A) u n pm body (ms_fs st0)" using disk_part_nodes [of s "ms_fs st0"] by simp
  with start_part [OF up.hyps(1) d assms(4)] start_recoverable [OF up.hyps(1)] show ?case
    by (simp add: part_kept_def in_table_def disk_part_def)
next
  case (retry now st0 e st1 nodes st adm)
  then have "disk_part (app_codec A) u n pm body (ms_fs st0)" using disk_part_nodes [of s "ms_fs st0"] by simp
  with start_part [OF retry.hyps(1) _ assms(4)] retry.IH [OF refl] show ?case by blast
qed

lemma server_run_kept:
  assumes "server_run E W mp b A (spares_part E A u n) w w'" "regular A" "session_law (app_codec A)"
    and "stores (part_kept (app_codec A) u n pm body) w" "lc_abort_incomplete_after (ab_multipart_lifecycle b) = None"
  shows "stores (part_kept (app_codec A) u n pm body) w'"
  using assms(1,4)
proof (induction rule: server_run.induct)
  case (serve V i rq w resp w1 w2)
  from request_kept [OF serve.hyps(1) serve.prems serve.hyps(2) assms(2,3) serve.hyps(3)] show ?case by (rule serve.IH)
next
  case (restart w st adm w2)
  have "disk_part (app_codec A) u n pm body (ms_fs (wd_store w))"
    using restart.prems by (simp add: part_kept_def disk_part_def recoverable_def)
  from boots_kept [OF restart.hyps(1) refl this assms(5)] show ?case by (intro restart.IH) simp
qed

section \<open>An acknowledged part is kept\<close>

lemma fs_write_dir: "fs_write p b s = (Ok x, s') \<Longrightarrow> p \<noteq> [] \<Longrightarrow> dir_in s (butlast p)"
  unfolding fs_write_def
  by (erule faulty_cases) (auto simp: write_i_def can_create_def is_dir_def split: if_splits)

lemma hard_link_fresh: "fs_hard_link a b s = (Ok x, s') \<Longrightarrow> files s b = None"
  unfolding fs_hard_link_def
  by (erule faulty_cases)
    (auto simp: hard_link_i_def bt_contains_def file_at_def split: option.splits node.splits if_splits)

lemma publish_part_Ok:
  assumes "publish_part T P B s = (Ok x, s')" "files s T = Some body"
  shows "files s' P = Some body"
proof -
  obtain q1 s1 where c: "create_parent_dir P s = (q1, s1)" by force
  have f1: "files s1 T = Some body"
    using touchesD(1) [OF touches_helpers(1) c, of T "{}"] assms(2) by simp
  obtain q2 s2 where l: "(case B of None \<Rightarrow> io_return () | Some b \<Rightarrow> se_io (fs_hard_link P b)) s1 = (q2, s2)" by force
  from assms(1) c l obtain s3 where ok: "q2 = Ok ()" "fs_rename T P s2 = (Ok (), s3)" "s' = s3"
    by (auto simp: publish_part_def io_simps res_simps split: result.splits prod.splits)
  have "files s2 T = Some body"
  proof (cases B)
    case (Some b)
    with l ok(1) have h: "fs_hard_link P b s1 = (Ok (), s2)" by (auto simp: io_map_err_def res_simps split: prod.splits)
    with hard_link_fresh [OF h] f1 touchesD(1) [OF touches_calls(5) h, of T] show ?thesis by (cases "T = b") auto
  qed (use l f1 in \<open>auto simp: io_return_def\<close>)
  with ok(2,3) show ?thesis by (auto elim: fs_rename_cases)
qed

lemma persist_session_dir:
  assumes "persist_session J uuid us s = (Ok x, s')"
  shows "dir_in s' (upload_dir (us_upload_id us))"
proof -
  let ?u = "us_upload_id us"
  let ?tmp = "upload_dir ?u @ [''session.'' @ uuid @ ''.tmp'']"
  from assms obtain s1 json s2 where w: "fs_write ?tmp json s1 = (Ok (), s2)" "fs_rename ?tmp (session_path ?u) s2 = (Ok (), s')"
    by (auto simp: persist_session_def Let_def io_simps res_simps split: prod.splits result.splits)
  from fs_write_dir [OF w(1)] have "dir_in s1 (upload_dir ?u)" by simp
  with touchesD(2) [OF touches_calls(2) w(1)] touchesD(2) [OF touches_calls(4) w(2)] show ?thesis by blast
qed

lemma commit_part_keeps:
  assumes run: "commit_part J bid uuid now u n (part_temp u n tid) part st = (Ok pm, st')"
    and "recoverable J st" "session_law J" "files (ms_fs st) (part_temp u n tid) = Some body"
  shows "pm = committed_entry now n part \<and> part_kept J u n pm body st'"
proof -
  let ?T = "part_temp u n tid" and ?e = "committed_entry now n part"
  obtain us where us: "bt_get (ms_sessions st) u = Some us" "is_open us"
    using run by (auto simp: commit_part_def io_bind_Ok get_open_upload_eq split: option.splits if_splits)
  then have ok: "session_ok u us" using assms(2) by (auto simp: recoverable_def sessions_wf_def)
  let ?us = "us\<lparr>us_parts := bt_insert n ?e (us_parts us)\<rparr>" and ?B = "backup_of us u bid n"
  obtain q s1 where q: "publish_part ?T (part_path u n) ?B (ms_fs st) = (q, s1)" by force
  obtain w s2 where w: "persist_session J uuid ?us s1 = (w, s2)" by force
  let ?st2 = "\<lparr>ms_fs = s2, ms_sessions = bt_insert u ?us (ms_sessions st)\<rparr>"
  have Ok: "q = Ok ()" "w = Ok ()"
    and last: "io_bind (case ?B of None \<Rightarrow> io_return () | Some b \<Rightarrow> on_fs (remove_file_if_exists b)) (\<lambda>_. io_return ?e) ?st2 = (Ok pm, st')"
    using run commit_part_run [OF us q refl w]
    by (auto simp: io_ignore_def io_match_def io_fail_def split: result.splits prod.splits)
  have ok': "session_ok u ?us" using ok by (simp add: committed_entry_def)
  have part: "has_part n ?e ?us" using us(2) by (simp add: has_part_def is_open_def)
  have "preserved (recoverable J) (on_fs (publish_part ?T (part_path u n) ?B)) st"
    by (rule recoverable_touches [OF touches_part_steps(1) [where A = "{part_path u n, ?T, part_backup u bid n}"]])
      (auto simp: backup_of_def)
  then have "recoverable J (st\<lparr>ms_fs := s1\<rparr>)" using assms(2) q by (auto simp: preserved_def on_fs_def)
  from preservedD [OF recoverable_put_session [OF ok'] _ this] have "recoverable J \<lparr>ms_fs = s1, ms_sessions = bt_insert u ?us (ms_sessions st)\<rparr>"
    by (cases st) (simp add: put_session_def)
  from preservedD [OF recoverable_persist [OF assms(3) ok', of uuid] _ this] w have rec: "recoverable J ?st2"
    by (simp add: on_fs_def)
  have id: "us_upload_id ?us = u" using ok by (simp add: session_ok_id)
  from persist_session_file [OF w id] Ok(2) obtain json where
    "files s2 (session_path u) = Some json" "j_session_encode J ?us = Some json" by auto
  moreover have "files s2 (part_path u n) = Some body"
    using touchesD(1) [OF touches_persist w, of "part_path u n"] publish_part_Ok [OF q [unfolded Ok] assms(4)] id by simp
  moreover have "dir_in s2 (upload_dir u)" using persist_session_dir [OF w [unfolded Ok]] id by simp
  ultimately have kept: "part_kept J u n ?e body ?st2"
    using rec part assms(3) by (auto simp: part_kept_def part_stored_def session_law_def)
  have "preserved (part_kept J u n ?e body) (case ?B of None \<Rightarrow> io_return () | Some b \<Rightarrow> on_fs (remove_file_if_exists b)) ?st2"
    by (intro preserved_cases preserved_basics kept_touches [OF touches_helpers(2)]) (auto simp: backup_of_def)
  with last kept show ?thesis
    by (auto simp: preserved_def io_bind_Ok io_return_def)
qed

text \<open>The body of an UploadPart, as the handler reads it.\<close>

abbreviation read_part_body :: "ext \<Rightarrow> env \<Rightarrow> app_state \<Rightarrow> request \<Rightarrow> auth_context \<Rightarrow> sink \<times> uploaded_body s3res option" where
  "read_part_body E V A rq auth \<equiv>
     write_upload_body E (rq_headers rq) (rq_body rq) (fresh_sink (ev_writes V)) ''part body''
       (ax_streaming_signing auth) (ul_max_part_size (cf_upload_limits (app_config A)))"

abbreviation uploaded_part :: "ext \<Rightarrow> env \<Rightarrow> part_number \<Rightarrow> uploaded_body \<Rightarrow> part_metadata" where
  "uploaded_part E V n ub \<equiv> committed_entry (ev_now V) n
     \<lparr>ct_size = up_size ub, ct_md5 = up_md5_digest ub, ct_etag = ETag_from_hex_md5 (x_hex_encode E (up_md5_digest ub)),
      ct_checksums = up_checksums ub\<rparr>"

lemma upload_part_body_keeps:
  assumes run: "upload_part_body E W V A rq i u n auth w = (Ok resp, w')"
    and "recoverable (app_codec A) (wd_store w)" "session_law (app_codec A)"
  shows "\<exists>sink ub. read_part_body E V A rq auth = (sink, Some (Ok ub))
    \<and> part_kept (app_codec A) u n (uploaded_part E V n ub) (sk_bytes sink) (wd_store w')"
proof -
  let ?J = "app_codec A" and ?T = "part_temp u n (ev_uuid V 0)"
  obtain sink r where rd: "read_part_body E V A rq auth = (sink, Some r)"
    using write_upload_body_total by blast
  from run obtain tp w1 where c: "store_call (create_temp_part (ev_uuid V 0) u n) w = (Ok tp, w1)"
    by (auto simp: upload_part_body_def io_bind_Ok)
  then obtain st1 where st1: "create_temp_part (ev_uuid V 0) u n (wd_store w) = (Ok tp, st1)" "w1 = w\<lparr>wd_store := st1\<rparr>"
    by (auto simp: store_call_def io_map_err_def on_store_def res_simps split: prod.splits)
  then have tp: "tp_path tp = ?T"
    by (auto simp: create_temp_part_def io_bind_Ok Let_def io_return_def part_temp_def)
  have "mframe {?T} {} (create_temp_part (ev_uuid V 0) u n)"
    unfolding create_temp_part_def Let_def part_temp_def [symmetric]
    by (intro mframe_with_open mframe_bind mframe_helpers mframe_return) simp
  from mframeD(3,4) [OF this st1(1)] assms(2) have rec1: "recoverable ?J st1"
    by (intro recoverable_shrinks [OF assms(2)]) (auto simp: recoverable_def same_off_def)
  show ?thesis
  proof (cases r)
    case (Err e)
    with run rd show ?thesis
      by (auto simp: upload_part_body_def io_bind_Ok Let_def discard_part_and_fail_def io_ignore_def io_match_def io_fail_def
          split: prod.splits)
  next
    case (Ok ub)
    let ?tp = "tp\<lparr>tp_bytes := sk_bytes sink\<rparr>"
    obtain q s2 where f: "fs_write ?T (sk_bytes sink) (ms_fs st1) = (q, s2)" by force
    then have fl: "on_store (on_fs (part_flush ?tp)) w1 = (q, w\<lparr>wd_store := st1\<lparr>ms_fs := s2\<rparr>\<rparr>)"
      by (simp add: on_store_def on_fs_def part_flush_def tp st1(2))
    from run c rd Ok fl obtain pm st3 where q: "q = Ok ()"
      and cm: "commit_part ?J (ev_uuid V 1) (ev_uuid V 2) (ev_now V) u n ?T
         \<lparr>ct_size = up_size ub, ct_md5 = up_md5_digest ub, ct_etag = ETag_from_hex_md5 (x_hex_encode E (up_md5_digest ub)),
          ct_checksums = up_checksums ub\<rparr> (st1\<lparr>ms_fs := s2\<rparr>) = (Ok pm, st3)"
      and w': "wd_store w' = st3"
      by (cases q) (auto simp: upload_part_body_def io_bind_Ok Let_def tp io_match_def discard_part_and_fail_def io_ignore_def
          io_fail_def try_res_Ok store_call_def io_map_err_def on_store_def [of "commit_part _ _ _ _ _ _ _ _"] res_simps
          split: prod.splits)
    have rec2: "recoverable ?J (st1\<lparr>ms_fs := s2\<rparr>)"
      using preservedD [OF recoverable_touches [OF touches_calls(2) [of ?T "sk_bytes sink"]] _ rec1] f by (auto simp: on_fs_def)
    have "files s2 ?T = Some (sk_bytes sink)"
      using fs_write_Ok [of id ?T "sk_bytes sink" "ms_fs st1" "()" s2] f q by (simp add: io_map_err_def)
    with commit_part_keeps [OF cm rec2 assms(3)] w' rd Ok show ?thesis by auto
  qed
qed

lemma upload_part_keeps:
  assumes run: "upload_part E W V A rq i u n auth w = (Ok resp, w')"
    and "recoverable (app_codec A) (wd_store w)" "session_law (app_codec A)"
  shows "\<exists>sink ub. read_part_body E V A rq auth = (sink, Some (Ok ub))
    \<and> part_kept (app_codec A) u n (uploaded_part E V n ub) (sk_bytes sink) (wd_store w')"
proof -
  from run obtain s w0 where "validate_upload_session_target E A rq auth u w = (Ok s, w0)"
    and p: "with_permit try_acquire_multipart_part_writer (release ad_multipart_part_writers_update)
       (with_aws_chunked_decoder E (rq_headers rq) (upload_part_body E W V A rq i u n auth)) w0 = (Ok resp, w')"
    by (auto simp: upload_part_def io_bind_Ok try_res_Ok)
  then have w0: "w0 = w" by (elim session_target_Ok)
  from with_permit_Ok [OF p [unfolded try_acquire_multipart_part_writer_def]] obtain w1 w2 where
    "with_aws_chunked_decoder E (rq_headers rq) (upload_part_body E W V A rq i u n auth) w1 = (Ok resp, w2)"
    and w2: "wd_store w1 = wd_store w0" "wd_store w' = wd_store w2" by blast
  from with_decoder_Ok [OF this(1)] obtain w3 w4 where b: "upload_part_body E W V A rq i u n auth w3 = (Ok resp, w4)"
    and w4: "wd_store w3 = wd_store w1" "wd_store w2 = wd_store w4" by blast
  have "recoverable (app_codec A) (wd_store w3)" using assms(2) w0 w2 w4 by simp
  from upload_part_body_keeps [OF b this assms(3)] w2 w4 show ?thesis by simp
qed

text \<open>
  C9. Acknowledged parts survive: on a server started as usual, once UploadPart has answered with
  success, then after any further requests that neither upload this part again nor complete or
  abort this upload, and after any restarts (each with its own faults, after any number of failed
  starts), the upload is open, the part is recorded with the size and the ETag of exactly the
  bytes that were received, these carry every checksum the request declared, and the part file
  holds them. Uploads are not configured to expire.
\<close>

theorem acknowledged_part_survives:
  assumes "started E W mp b A w" "upload_part E W V A rq i u n auth w = (Ok resp, w1)"
    and "server_run E W mp b A (spares_part E A u n) w1 w2"
    and "\<forall>p\<in>set (ab_upload_processors b). confined p" "session_law (app_codec A)"
    and "lc_abort_incomplete_after (ab_multipart_lifecycle b) = None"
    and "ul_max_part_size (cf_upload_limits (ab_config b)) < u64_max"
  shows "\<exists>sink ub us pm. read_part_body E V A rq auth = (sink, Some (Ok ub))
    \<and> checksums_match E (rq_headers rq) (sk_bytes sink) ub
    \<and> bt_get (ms_sessions (wd_store w2)) u = Some us \<and> is_open us \<and> bt_get (us_parts us) n = Some pm
    \<and> pm_part_number pm = n \<and> pm_size pm = length (sk_bytes sink)
    \<and> pm_etag pm = ETag_from_hex_md5 (x_hex_encode E (x_md5 E (sk_bytes sink)))
    \<and> files (ms_fs (wd_store w2)) (part_path u n) = Some (sk_bytes sink)"
proof -
  from upload_part_keeps [OF assms(2) started_recoverable [OF assms(1,4,5)] assms(5)] obtain sink ub where
    rd: "read_part_body E V A rq auth = (sink, Some (Ok ub))"
    and k: "stores (part_kept (app_codec A) u n (uploaded_part E V n ub) (sk_bytes sink)) w1" by blast
  have "checksums_match E (rq_headers rq) (sk_bytes sink) ub"
    using rd assms(7) started_fields(2) [OF assms(1)] by (intro written_body_Ok(1)) auto
  with rd server_run_kept [OF assms(3) started_fields(5) [OF assms(1,4)] assms(5) k assms(6)] show ?thesis
    by (auto simp: part_kept_def part_stored_def has_part_def committed_entry_def checksums_match_def)
qed

text \<open>An upload is created, its first part is sent, and the server restarts.\<close>

definition ex_create :: request where
  "ex_create = \<lparr>rq_method = ''POST'', rq_uri = \<lparr>uri_path = ''/bucket/key'', uri_query = Some ''uploads''\<rparr>,
     rq_headers = [(''host'', ''localhost'')], rq_body = []\<rparr>"

definition ex_part_rq :: request where
  "ex_part_rq = \<lparr>rq_method = ''PUT'', rq_uri = \<lparr>uri_path = ''/bucket/key'', uri_query = Some ''uploadId=id&partNumber=1''\<rparr>,
     rq_headers = [(''host'', ''localhost''), (''content-length'', ''5''), (''x-amz-content-sha256'', ''UNSIGNED-PAYLOAD'')],
     rq_body = [Ok ''hel'', Ok ''lo'']\<rparr>"

definition ex_new_session :: upload_session where
  "ex_new_session = \<lparr>us_upload_id = ''id'', us_bucket = ''bucket'', us_key = ''key'', us_initiated = 7, us_state = Open,
     us_owner = Some ''test'', us_metadata = us_metadata ex_session, us_parts = bt_empty\<rparr>"

definition ex_part_session :: upload_session where
  "ex_part_session = ex_new_session\<lparr>us_parts := [(1, \<lparr>pm_part_number = 1, pm_size = 5,
     pm_etag = ETag_from_hex_md5 (x_hex_encode ext0 (x_md5 ext0 ''hello'')), pm_md5 = x_md5 ext0 ''hello'',
     pm_checksums = [], pm_last_modified = 7\<rparr>)]\<rparr>"

definition ex_session_codec :: codec where
  "ex_session_codec = ex_codec\<lparr>
     j_session_encode := (\<lambda>us. if us = ex_new_session then Some ''new'' else if us = ex_part_session then Some ''part'' else None),
     j_session_decode := (\<lambda>json. if json = ''new'' then Some ex_new_session else if json = ''part'' then Some ex_part_session else None)\<rparr>"

definition ex_uploader :: auth_context where
  "ex_uploader = \<lparr>ax_mode = AM_Custom, ax_principal = RP_AccessKey ''test'', ax_access_key_id = Some ''test'',
     ax_streaming_signing = None\<rparr>"

abbreviation ex_created :: "response option \<times> world" where
  "ex_created \<equiv> handle_s3_request ext0 ex_web ex_env (ex_open_app ex_session_codec) ''r'' ex_create (ex_booted ex_session_codec [])"

abbreviation ex_sent :: "(response, s3_error fail) result \<times> world" where
  "ex_sent \<equiv> upload_part ext0 ex_web ex_env (ex_open_app ex_session_codec) ex_part_rq ''r'' ''id'' 1 ex_uploader (snd ex_created)"

theorem acknowledged_part_survives_witness:
  "\<exists>us. bt_get (ms_sessions (snd (ex_start ex_session_codec (fs_nodes (ms_fs (wd_store (snd ex_sent))))))) ''id'' = Some us
     \<and> is_open us \<and> bt_get (us_parts us) 1 \<noteq> None
     \<and> files (ms_fs (snd (ex_start ex_session_codec (fs_nodes (ms_fs (wd_store (snd ex_sent))))))) (part_path ''id'' 1)
       = Some ''hello''"
proof -
  let ?J = ex_session_codec and ?A = "ex_open_app ex_session_codec" and ?n = "fs_nodes (ms_fs (wd_store (snd ex_sent)))"
  have ok: "is_ok (fst (ex_start ?J []))" "is_ok (fst ex_sent)" "is_ok (fst (ex_start ?J ?n))"
    and body: "sk_bytes (fst (read_part_body ext0 ex_env ?A ex_part_rq ex_uploader)) = ''hello''"
    by code_simp+
  then obtain resp where "fst ex_sent = Ok resp" by (auto simp: is_ok_iff)
  then have sent: "ex_sent = (Ok resp, snd ex_sent)" by (metis prod.collapse)
  have run: "server_run ext0 ex_web (2 ^ 60) ex_builder ?A (\<lambda>_ _. True) (ex_booted ?J []) (snd ex_created)"
    by (rule ex_served_last) simp
  have start: "started ext0 ex_web (2 ^ 60) ex_builder ?A (snd ex_created)"
    by (rule startedI [OF ex_boots [OF ok(1)] _ run]) (simp add: file_at_def)
  have again: "server_run ext0 ex_web (2 ^ 60) ex_builder ?A (spares_part ext0 ?A ''id'' 1) (snd ex_sent) (ex_booted ?J ?n)"
    by (rule server_run.restart [OF ex_boots [OF ok(3)] server_run.idle])
  have b: "\<forall>p\<in>set (ab_upload_processors ex_builder). confined p"
    "lc_abort_incomplete_after (ab_multipart_lifecycle ex_builder) = None"
    "ul_max_part_size (cf_upload_limits (ab_config ex_builder)) < u64_max"
    by (simp_all add: ex_builder_def AppBuilder_authentication_provider_def AppState_builder_def MultipartLifecycle_default_def
        Config_new_def UploadLimits_default_def)
  have law: "session_law (app_codec ?A)"
    by (simp add: session_law_def ex_open_app_def ex_app_def ex_session_codec_def)
  from acknowledged_part_survives [OF start sent again b(1) law b(2,3)] body show ?thesis by auto
qed

end
