(* ===== verification/Read_Your_Writes.thy ===== *)
theory Read_Your_Writes
  imports Upload_Durability
begin

text \<open>
  Handlers composed over the life of a server: what a GET returns after a PUT, a completed
  multipart upload or a DELETE, with any requests for other objects and any restarts in between.
\<close>

section \<open>Handlers keep the stores sound\<close>

lemma handlers_recoverable:
  assumes "regular A" "session_law (app_codec A)" "recoverable (app_codec A) (wd_store w)"
  shows "handle_put_object E W V A rq i auth w = (r, w') \<Longrightarrow> recoverable (app_codec A) (wd_store w')"
    and "delete_object_handler E W A rq i auth w = (r, w') \<Longrightarrow> recoverable (app_codec A) (wd_store w')"
    and "complete_multipart_upload E W V A rq i u auth w = (r, w') \<Longrightarrow> recoverable (app_codec A) (wd_store w')"
  using preservedD [OF disk_inv_operation [OF assms(1,2)] _ assms(3), of _ _ _ _ Op_PutObject]
    preservedD [OF disk_inv_operation [OF assms(1,2)] _ assms(3), of _ _ _ _ Op_DeleteObject]
    preservedD [OF disk_inv_operation [OF assms(1,2)] _ assms(3), of _ _ _ _ "Op_CompleteMultipartUpload u"]
  by auto

section \<open>After a PUT\<close>

definition ex_put :: request where
  "ex_put = \<lparr>rq_method = ''PUT'', rq_uri = \<lparr>uri_path = ''/bucket/key'', uri_query = None\<rparr>,
     rq_headers = [(''host'', ''localhost''), (''content-length'', ''5''), (''x-amz-content-sha256'', ''UNSIGNED-PAYLOAD'')],
     rq_body = [Ok ''hel'', Ok ''lo'']\<rparr>"

definition ex_get :: request where
  "ex_get = \<lparr>rq_method = ''GET'', rq_uri = \<lparr>uri_path = ''/bucket/key'', uri_query = None\<rparr>,
     rq_headers = [(''host'', ''localhost''), (''range'', ''bytes=1-3'')], rq_body = []\<rparr>"

definition ex_put_metadata :: object_metadata where
  "ex_put_metadata = \<lparr>om_bucket = ''bucket'', om_key = ''key'', om_size = 5,
     om_etag = ETag_from_hex_md5 (x_hex_encode ext0 (x_md5 ext0 ''hello'')),
     om_content_type = None, om_content_encoding = None, om_content_disposition = None,
     om_content_language = None, om_cache_control = None, om_expires = None, om_tagging = None,
     om_user_metadata = [], om_checksums = [], om_last_modified = 7\<rparr>"

definition ex_put_codec :: codec where
  "ex_put_codec = \<lparr>j_object_encode = (\<lambda>md. if md = ex_put_metadata then Some ''json'' else None),
     j_object_decode = (\<lambda>_. Some ex_put_metadata),
     j_session_encode = (\<lambda>_. None), j_session_decode = (\<lambda>_. None)\<rparr>"

text \<open>
  C2. Read your writes: on a server started as usual, when a PUT has answered with success, the
  body it read carries every checksum its request declared, and after any further requests that
  spare the object and any restarts (each with its own faults, after any number of failed starts),
  a successful GET of the same target answers its precondition or returns exactly the bytes the
  PUT read, or exactly the requested range of them. This holds with any body framing (plain or
  aws-chunked) and any schedule of I/O faults.
\<close>

theorem put_then_get:
  assumes "started E W mp b A w" "handle_put_object E W V A rq i auth w = (Ok resp, w1)"
    and "server_run E W mp b A (spares_object E A (tgt_bucket t, tgt_key t)) w1 w2"
    and "get_object_handler E W A rq' i' auth' w2 = (Ok r, w3)"
    and "resolve_request_target E A rq = Ok t" "resolve_request_target E A rq' = Ok t"
    and "ab_upload_processors b = []" "ul_max_object_size (cf_upload_limits (ab_config b)) < u64_max"
    and "json_law (app_codec A)" "session_law (app_codec A)" "length (object_digest E (tgt_bucket t) (tgt_key t)) \<ge> 2"
  shows "\<exists>sink ub md. read_put_body E V A rq auth = (sink, Some (Ok ub))
    \<and> checksums_match E (rq_headers rq) (sk_bytes sink) ub
    \<and> om_size md = length (sk_bytes sink)
    \<and> om_etag md = ETag_from_hex_md5 (x_hex_encode E (x_md5 E (sk_bytes sink)))
    \<and> (conditional_response E W (rq_headers rq') md i' = Ok (Some r) \<or> serves E rq' (sk_bytes sink) r)"
proof -
  let ?J = "app_codec A" and ?k = "(tgt_bucket t, tgt_key t)"
  note conf = started_fields [OF assms(1)] and reg = started_fields(5) [OF assms(1)]
  have reg: "regular A" using reg assms(7) by simp
  have rec: "recoverable ?J (wd_store w)" using assms(7) by (intro started_recoverable [OF assms(1) _ assms(10)]) simp
  have max: "ul_max_object_size (cf_upload_limits (app_config A)) < u64_max" using conf(2) assms(8) by simp
  from put_object_visible [OF assms(2,5) _ conf(3) max assms(9)] conf(1) assms(7) obtain sink ub md where
    put: "read_put_body E V A rq auth = (sink, Some (Ok ub))"
    and vis: "visible E ?J (ms_fs (wd_store w1)) ?k = Some (md, sk_bytes sink)"
    and len: "om_size md = length (sk_bytes sink)"
    and tag: "om_etag md = ETag_from_hex_md5 (x_hex_encode E (x_md5 E (sk_bytes sink)))" by auto
  from server_run_visible [OF assms(3) reg assms(10) handlers_recoverable(1) [OF reg assms(10) rec assms(2)] assms(11)] vis
  have vis2: "visible E ?J (ms_fs (wd_store w2)) ?k = Some (md, sk_bytes sink)" by simp
  have "checksums_match E (rq_headers rq) (sk_bytes sink) ub"
    by (rule written_body_Ok(1) [OF put max])
  with put len tag get_object_serves [OF assms(4,6) vis2 conf(4) len] show ?thesis by blast
qed

text \<open>A start, a PUT, a DELETE of another object, a restart, and a GET of a range.\<close>

definition ex_other :: request where
  "ex_other = ex_delete\<lparr>rq_uri := \<lparr>uri_path = ''/bucket/other'', uri_query = None\<rparr>\<rparr>"

abbreviation ex_put_run :: "(response, s3_error fail) result \<times> world" where
  "ex_put_run \<equiv> handle_put_object ext0 ex_web ex_env (ex_open_app ex_put_codec) ex_put ''r'' ex_uploader (ex_booted ex_put_codec [])"

abbreviation ex_other_run :: "response option \<times> world" where
  "ex_other_run \<equiv> handle_s3_request ext0 ex_web ex_env (ex_open_app ex_put_codec) ''q'' ex_other (snd ex_put_run)"

abbreviation ex_reboot :: world where
  "ex_reboot \<equiv> ex_booted ex_put_codec (fs_nodes (ms_fs (wd_store (snd ex_other_run))))"

abbreviation ex_get_run :: "(response, s3_error fail) result \<times> world" where
  "ex_get_run \<equiv> get_object_handler ext0 ex_web (ex_open_app ex_put_codec) ex_get ''s'' ex_uploader ex_reboot"

lemma ex_run_put: "is_ok (fst ex_put_run)"
  by code_simp

lemma ex_run_get: "is_ok (fst ex_get_run)"
  by code_simp

lemma ex_run_restart: "is_ok (fst (ex_start ex_put_codec (fs_nodes (ms_fs (wd_store (snd ex_other_run))))))"
  by code_simp

lemma ex_run_boot: "is_ok (fst (ex_start ex_put_codec []))"
  by code_simp

lemma ex_spares: "spares_object ext0 (ex_open_app ex_put_codec) (''bucket'', ''key'') V ex_other"
  by code_simp

lemma ex_run_other:
  "server_run ext0 ex_web (2 ^ 60) ex_builder (ex_open_app ex_put_codec)
     (spares_object ext0 (ex_open_app ex_put_codec) (''bucket'', ''key'')) (snd ex_put_run) ex_reboot"
  by (rule ex_served [OF _ server_run.restart [OF ex_boots [OF ex_run_restart] server_run.idle]]) (rule ex_spares)

lemma ex_started_put: "started ext0 ex_web (2 ^ 60) ex_builder (ex_open_app ex_put_codec) (ex_booted ex_put_codec [])"
  by (rule startedI [OF ex_boots [OF ex_run_boot] _ server_run.idle]) (simp add: file_at_def)

lemma ex_target:
  obtains t where "tgt_bucket t = ''bucket''" "tgt_key t = ''key''"
    "resolve_request_target ext0 (ex_open_app J) ex_put = Ok t" "resolve_request_target ext0 (ex_open_app J) ex_get = Ok t"
proof -
  have "map_ok (\<lambda>t. (tgt_bucket t, tgt_key t)) (resolve_request_target ext0 (ex_open_app J) ex_put) = Ok (''bucket'', ''key'')"
    "resolve_request_target ext0 (ex_open_app J) ex_get = resolve_request_target ext0 (ex_open_app J) ex_put"
    by code_simp+
  with that show thesis by (auto simp: map_ok_Ok)
qed

lemma ex_digest: "length (object_digest ext0 ''bucket'' ''key'') \<ge> 2"
  by code_simp

lemma ex_builder_limits:
  "ab_upload_processors ex_builder = []" "ul_max_object_size (cf_upload_limits (ab_config ex_builder)) < u64_max"
  by (simp_all add: ex_builder_def AppBuilder_authentication_provider_def AppState_builder_def Config_new_def
      UploadLimits_default_def)

lemma ex_codec_law: "json_law (app_codec (ex_open_app ex_put_codec))" "session_law (app_codec (ex_open_app ex_put_codec))"
  by (simp_all add: json_law_def session_law_def ex_open_app_def ex_app_def ex_put_codec_def)

lemma ex_unconditional: "conditional_response E W (rq_headers ex_get) md i = Ok None"
  by (simp add: conditional_response_def ex_get_def check_if_match_def check_if_none_match_def
      check_if_unmodified_since_def check_if_modified_since_def hdr_eval)

theorem put_then_get_witness:
  "\<exists>resp r. fst ex_put_run = Ok resp \<and> fst ex_get_run = Ok r \<and> rsp_body r = ''ell''"
proof -
  obtain resp r where run: "fst ex_put_run = Ok resp" "fst ex_get_run = Ok r"
    using ex_run_put ex_run_get by (auto simp: is_ok_iff)
  then have put: "ex_put_run = (Ok resp, snd ex_put_run)" and get: "ex_get_run = (Ok r, snd ex_get_run)"
    by (metis prod.collapse)+
  obtain t where t: "tgt_bucket t = ''bucket''" "tgt_key t = ''key''"
    "resolve_request_target ext0 (ex_open_app ex_put_codec) ex_put = Ok t"
    "resolve_request_target ext0 (ex_open_app ex_put_codec) ex_get = Ok t"
    by (rule ex_target)
  have bytes: "sk_bytes (fst (read_put_body ext0 ex_env (ex_open_app ex_put_codec) ex_put ex_uploader)) = ''hello''"
    by code_simp
  have range: "parse_range_header ext0 (rq_headers ex_get) (length ''hello'') = Ok (Some \<lparr>br_start = 1, br_end = 3\<rparr>)"
    by code_simp
  from put_then_get [OF ex_started_put put _ get t(3,4) ex_builder_limits ex_codec_law] bytes ex_run_other ex_digest
  have "serves ext0 ex_get ''hello'' r" by (auto simp: ex_unconditional t(1,2))
  then have "rsp_body r = ''ell''"
    using range by (simp add: serves_def ByteRange_len_def)
  with run show ?thesis by blast
qed

section \<open>After a DELETE\<close>

lemma lift_err_Err: "lift_err r = Err x \<longleftrightarrow> (\<exists>e. r = Err e \<and> x = Fail e)"
  by (cases r) auto

text \<open>
  C8. Deletes last: on a server started as usual, when a DELETE has answered with success, then
  after any further requests that spare the object and any restarts every GET of the same target
  fails. The error says that the request is not authorized or has a wrong payload hash, that the
  store could not be read, or otherwise that there is no such key.
\<close>

theorem delete_then_get:
  assumes "started E W mp b A w" "delete_object_handler E W A rq i auth w = (Ok resp, w1)"
    and "server_run E W mp b A (spares_object E A (tgt_bucket t, tgt_key t)) w1 w2"
    and "get_object_handler E W A rq' i' auth' w2 = (r, w3)"
    and "resolve_request_target E A rq = Ok t" "resolve_request_target E A rq' = Ok t"
    and "\<forall>p\<in>set (ab_upload_processors b). confined p" "session_law (app_codec A)"
      "length (object_digest E (tgt_bucket t) (tgt_key t)) \<ge> 2"
  shows "\<exists>e. r = Err (Fail e)
    \<and> (authorize_request A auth' (tgt_bucket t) (Some (tgt_key t)) Act_GetObject = Err e
       \<or> validate_empty_payload_hash E rq' = Err e
       \<or> (\<exists>se s. open_object E (app_codec A) (tgt_bucket t) (tgt_key t) (ms_fs (wd_store w2)) = (Err se, s)
            \<and> e = internal_error (''failed to open object: '' @ store_error_display se))
       \<or> e = no_such_key)"
proof -
  let ?k = "(tgt_bucket t, tgt_key t)" and ?J = "app_codec A"
  have reg: "regular A" by (rule started_fields(5) [OF assms(1,7)])
  have rec: "recoverable ?J (wd_store w1)"
    by (rule handlers_recoverable(2) [OF reg assms(8) started_recoverable [OF assms(1,7,8)] assms(2)])
  from assms(2,5) obtain s where "delete_object E (tgt_bucket t) (tgt_key t) (ms_fs (wd_store w)) = (Ok (), s)"
    and w1: "ms_fs (wd_store w1) = s"
    by (auto simp: delete_object_handler_def io_bind_Ok try_res_Ok object_call_Ok)
  then have gone: "visible E ?J (ms_fs (wd_store w1)) ?k = None" by (simp add: delete_Ok)
  from server_run_visible [OF assms(3) reg assms(8) rec assms(9)] gone
  have gone2: "visible E ?J (ms_fs (wd_store w2)) ?k = None" by simp
  obtain q s2 where op: "open_object E ?J (tgt_bucket t) (tgt_key t) (ms_fs (wd_store w2)) = (q, s2)" by force
  have "q = Ok x \<Longrightarrow> x = None" for x using open_object_Ok [of E ?J] op gone2 by fastforce
  with assms(4,6) op show ?thesis
    by (cases q) (auto simp: get_object_handler_def io_bind_def try_res_def io_lift_def object_call_def io_map_err_def
        on_store_def on_fs_def res_simps lift_err_Err split: result.splits)
qed

text \<open>A start, a PUT as a request, a DELETE, a restart and a GET.\<close>

abbreviation ex_put_request :: "response option \<times> world" where
  "ex_put_request \<equiv> handle_s3_request ext0 ex_web ex_env (ex_open_app ex_put_codec) ''p'' ex_put (ex_booted ex_put_codec [])"

abbreviation ex_deleted :: "(response, s3_error fail) result \<times> world" where
  "ex_deleted \<equiv> delete_object_handler ext0 ex_web (ex_open_app ex_put_codec) ex_delete ''d'' ex_uploader (snd ex_put_request)"

abbreviation ex_after_delete :: world where
  "ex_after_delete \<equiv> ex_booted ex_put_codec (fs_nodes (ms_fs (wd_store (snd ex_deleted))))"

abbreviation ex_get_deleted :: "(response, s3_error fail) result \<times> world" where
  "ex_get_deleted \<equiv> get_object_handler ext0 ex_web (ex_open_app ex_put_codec) ex_get ''s'' ex_uploader ex_after_delete"

lemma ex_delete_put: "map_option rsp_status (fst ex_put_request) = Some 200"
  by code_simp

lemma ex_delete_ok: "is_ok (fst ex_deleted)"
  by code_simp

lemma ex_delete_restart: "is_ok (fst (ex_start ex_put_codec (fs_nodes (ms_fs (wd_store (snd ex_deleted))))))"
  by code_simp

theorem delete_then_get_witness:
  "map_option rsp_status (fst ex_put_request) = Some 200 \<and> is_ok (fst ex_deleted) \<and> (\<exists>e. fst ex_get_deleted = Err (Fail e))"
proof -
  let ?A = "ex_open_app ex_put_codec"
  note ok = ex_delete_put ex_delete_ok ex_delete_restart
  then obtain resp where "fst ex_deleted = Ok resp" by (auto simp: is_ok_iff)
  then have del: "ex_deleted = (Ok resp, snd ex_deleted)" by (metis prod.collapse)
  have get: "ex_get_deleted = (fst ex_get_deleted, snd ex_get_deleted)" by simp
  have run: "server_run ext0 ex_web (2 ^ 60) ex_builder ?A (\<lambda>_ _. True) (ex_booted ex_put_codec []) (snd ex_put_request)"
    by (rule ex_served_last) simp
  have start: "started ext0 ex_web (2 ^ 60) ex_builder ?A (snd ex_put_request)"
    by (rule startedI [OF ex_boots [OF ex_run_boot] _ run]) (simp add: file_at_def)
  obtain t where t: "tgt_bucket t = ''bucket''" "tgt_key t = ''key''" "resolve_request_target ext0 ?A ex_put = Ok t"
    "resolve_request_target ext0 ?A ex_get = Ok t"
    by (rule ex_target)
  have d: "resolve_request_target ext0 ?A ex_delete = resolve_request_target ext0 ?A ex_put"
    by code_simp
  have "\<exists>e. fst ex_get_deleted = Err (Fail e)"
    using delete_then_get [OF start del server_run.restart [OF ex_boots [OF ok(3)] server_run.idle] get trans [OF d t(3)] t(4) _
        ex_codec_law(2)] ex_digest by (auto simp: t(1,2) ex_builder_limits(1))
  with ok show ?thesis by simp
qed

section \<open>After a completed multipart upload\<close>

text \<open>The completion that the handler asks of the store.\<close>

abbreviation completion_call ::
  "env \<Rightarrow> app_state \<Rightarrow> string \<Rightarrow> upload_id \<Rightarrow> completed_part list \<Rightarrow> checksum_request \<Rightarrow> complete_request" where
  "completion_call V A i u parts checksums \<equiv>
     \<lparr>cr_upload_id = u, cr_parts = parts, cr_checksums = checksums, cr_limits = cf_upload_limits (app_config A),
      cr_copy_buffer = io_multipart_complete_buffer_size (app_io_tuning A),
      cr_summary_buffer = io_upload_summary_buffer_size (app_io_tuning A), cr_request_id = i,
      cr_processors = numbered_processors V 4 (app_upload_processors A)\<rparr>"

lemma complete_handler_Ok:
  assumes "complete_multipart_upload E W V A rq i u auth w = (Ok resp, w')"
  obtains us t parts checksums md st' where
    "get_upload u (wd_store w) = Some us" "resolve_request_target E A rq = Ok t"
    "us_bucket us = tgt_bucket t" "us_key us = tgt_key t"
    "us_owner us = None \<or> us_owner us = ax_access_key_id auth"
    "completion_request E W rq = Ok (parts, checksums)"
    "complete_upload E (app_codec A) (ev_uuid V 0) (ev_uuid V 1) (ev_uuid V 2) (ev_uuid V 3) (ev_now V)
       (completion_call V A i u parts checksums) (wd_store w) = (Ok md, st')"
    "wd_store w' = st'"
proof -
  from assms obtain us parts checksums md w1 where
    v: "validate_upload_session_target E A rq auth u w = (Ok us, w1)"
    and c: "completion_request E W rq = Ok (parts, checksums)"
    and run: "store_call (complete_upload E (app_codec A) (ev_uuid V 0) (ev_uuid V 1) (ev_uuid V 2) (ev_uuid V 3)
       (ev_now V) (completion_call V A i u parts checksums)) w1 = (Ok md, w')"
    unfolding complete_multipart_upload_def io_bind_Ok try_res_Ok
    by (elim exE conjE) (auto simp: io_bind_Ok try_res_Ok)
  obtain st' where "complete_upload E (app_codec A) (ev_uuid V 0) (ev_uuid V 1) (ev_uuid V 2) (ev_uuid V 3) (ev_now V)
       (completion_call V A i u parts checksums) (wd_store w1) = (Ok md, st')" "wd_store w' = st'"
    using run by (auto simp: store_call_def io_map_err_def on_store_def res_simps split: prod.splits)
  with v c show thesis by (elim session_target_Ok) (auto intro: that)
qed

text \<open>
  C3. A completed multipart upload reads back as its parts: on a server started as usual, when
  CompleteMultipartUpload has answered with success, the caller owns the upload, which was open;
  every requested part was recorded with the ETag the client names; the checksums of the request
  are those of the concatenated parts; the session is gone; and after any further requests that
  spare the object and any restarts, a successful GET of the target answers its precondition or
  returns exactly the bytes of the requested part files in the order of the request, or the
  requested range of them, under the multipart ETag of the recorded part digests.
\<close>

theorem complete_then_get:
  assumes "started E W mp b A w" "complete_multipart_upload E W V A rq i u auth w = (Ok resp, w1)"
    and "server_run E W mp b A (spares_object E A (tgt_bucket t, tgt_key t)) w1 w2"
    and "get_object_handler E W A rq' i' auth' w2 = (Ok r, w3)"
    and "completion_request E W rq = Ok (parts, checksums)"
    and "resolve_request_target E A rq = Ok t" "resolve_request_target E A rq' = Ok t"
    and "ab_upload_processors b = []" "json_law (app_codec A)" "session_law (app_codec A)"
      "length (object_digest E (tgt_bucket t) (tgt_key t)) \<ge> 2"
    and "req = completion_call V A i u parts checksums" "length (requested_body (wd_store w) req) < u64_max"
  shows "\<exists>us md. bt_get (ms_sessions (wd_store w)) u = Some us \<and> is_open us
    \<and> (us_owner us = None \<or> us_owner us = ax_access_key_id auth)
    \<and> (\<forall>p\<in>set parts. part_present (wd_store w) us req p)
    \<and> om_size md = length (requested_body (wd_store w) req)
    \<and> om_size md \<le> ul_max_object_size (cf_upload_limits (ab_config b))
    \<and> om_etag md = ETag_from_multipart_md5 (x_hex_encode E (x_md5 E (requested_md5s us req))) (length parts)
    \<and> ChecksumRequest_validate checksums (digests_of E (requested_body (wd_store w) req)) = Ok ()
    \<and> bt_get (ms_sessions (wd_store w1)) u = None
    \<and> (conditional_response E W (rq_headers rq') md i' = Ok (Some r)
       \<or> serves E rq' (requested_body (wd_store w) req) r)"
proof -
  let ?J = "app_codec A" and ?k = "(tgt_bucket t, tgt_key t)" and ?body = "requested_body (wd_store w) req"
  note conf = started_fields [OF assms(1)]
  have reg: "regular A" using conf(5) assms(8) by simp
  have rec: "recoverable ?J (wd_store w)" using assms(8) by (intro started_recoverable [OF assms(1) _ assms(10)]) simp
  then have wf: "sessions_wf (wd_store w)" by (simp add: recoverable_def)
  from assms(2) obtain us md where us: "bt_get (ms_sessions (wd_store w)) u = Some us"
    "us_bucket us = tgt_bucket t" "us_key us = tgt_key t" "us_owner us = None \<or> us_owner us = ax_access_key_id auth"
    and run: "complete_upload E ?J (ev_uuid V 0) (ev_uuid V 1) (ev_uuid V 2) (ev_uuid V 3) (ev_now V) req (wd_store w)
       = (Ok md, wd_store w1)"
    by (rule complete_handler_Ok) (use assms(5,6,12) in \<open>simp add: get_upload_def\<close>)
  have req: "cr_upload_id req = u" "cr_parts req = parts" "cr_checksums req = checksums"
    "cr_limits req = cf_upload_limits (ab_config b)" "cr_processors req = []" "cr_copy_buffer req > 0"
    "cr_summary_buffer req > 0"
    using assms(8,12) conf(1-3) reg by (simp_all add: numbered_processors_def regular_def)
  note C = completion_visible [OF run wf req(5-7) json_law_codable [OF assms(9)] assms(13), unfolded req us, simplified]
  have vis: "visible E ?J (ms_fs (wd_store w1)) ?k = Some (md, ?body)" and len: "om_size md = length ?body"
    using C us by auto
  from server_run_visible [OF assms(3) reg assms(10) handlers_recoverable(3) [OF reg assms(10) rec assms(2)] assms(11)] vis
  have "visible E ?J (ms_fs (wd_store w2)) ?k = Some (md, ?body)" by simp
  from get_object_serves [OF assms(4,7) this conf(4) len]
  have "conditional_response E W (rq_headers rq') md i' = Ok (Some r) \<or> serves E rq' ?body r" by blast
  with C us len show ?thesis by auto
qed

text \<open>An upload is created, its one part is sent, it is completed, and read back after a restart.\<close>

definition ex_mp_web :: web where
  "ex_mp_web = ex_web\<lparr>w_complete_xml := (\<lambda>_. Ok [(Some 1, Some (ETag_from_hex_md5 (x_hex_encode ext0 (x_md5 ext0 ''hello''))))])\<rparr>"

definition ex_mp_complete :: request where
  "ex_mp_complete = \<lparr>rq_method = ''POST'', rq_uri = \<lparr>uri_path = ''/bucket/key'', uri_query = Some ''uploadId=id''\<rparr>,
     rq_headers = [(''host'', ''localhost''), (''x-amz-content-sha256'', ''UNSIGNED-PAYLOAD'')], rq_body = [Ok ''<xml>'']\<rparr>"

abbreviation ex_mp_parts :: "completed_part list" where
  "ex_mp_parts \<equiv> [\<lparr>cp_part_number = 1, cp_etag = ETag_from_hex_md5 (x_hex_encode ext0 (x_md5 ext0 ''hello''))\<rparr>]"

abbreviation ex_mp_call :: "app_state \<Rightarrow> complete_request" where
  "ex_mp_call A \<equiv> completion_call ex_env A ''r'' ''id'' ex_mp_parts (cr_checksums (ex_complete []))"

definition ex_mp_metadata :: object_metadata where
  "ex_mp_metadata = completion_metadata ext0 7 ex_part_session (ex_mp_call (ex_open_app ex_codec)) (x_md5 ext0 ''hello'')
     \<lparr>fu_size = 5, fu_digests = digests_of ext0 ''hello''\<rparr>"

definition ex_mp_codec :: codec where
  "ex_mp_codec = ex_session_codec\<lparr>j_object_encode := (\<lambda>md. if md = ex_mp_metadata then Some ''json'' else None),
     j_object_decode := (\<lambda>_. Some ex_mp_metadata)\<rparr>"

abbreviation ex_mp_created :: "response option \<times> world" where
  "ex_mp_created \<equiv> handle_s3_request ext0 ex_mp_web ex_env (ex_open_app ex_mp_codec) ''r'' ex_create (ex_booted ex_mp_codec [])"

abbreviation ex_mp_sent :: "response option \<times> world" where
  "ex_mp_sent \<equiv> handle_s3_request ext0 ex_mp_web ex_env (ex_open_app ex_mp_codec) ''r'' ex_part_rq (snd ex_mp_created)"

abbreviation ex_mp_run :: "(response, s3_error fail) result \<times> world" where
  "ex_mp_run \<equiv> complete_multipart_upload ext0 ex_mp_web ex_env (ex_open_app ex_mp_codec) ex_mp_complete ''r'' ''id'' ex_uploader (snd ex_mp_sent)"

abbreviation ex_mp_nodes :: nodes where
  "ex_mp_nodes \<equiv> fs_nodes (ms_fs (wd_store (snd ex_mp_run)))"

abbreviation ex_mp_get :: "(response, s3_error fail) result \<times> world" where
  "ex_mp_get \<equiv> get_object_handler ext0 ex_mp_web (ex_open_app ex_mp_codec) ex_get ''s'' ex_uploader (ex_booted ex_mp_codec ex_mp_nodes)"

lemma ex_mp_ok: "is_ok (fst ex_mp_run)"
  by code_simp

text \<open>What the completion leaves on the disk: the metadata and the body of the object, and no session.\<close>

abbreviation ex_mp_tree :: nodes where
  "ex_mp_tree \<equiv> [([''metadata''], DirNode), ([''metadata'', ''62''], DirNode),
     ([''metadata'', ''62'', ''6275636b6574006b65790a0a0a0a0a0a0a0a0a0a0a0a0a0a0a0a0a0a0a0a0a0a.json''], FileNode ''json''),
     ([''multipart''], DirNode), ([''objects''], DirNode), ([''objects'', ''62''], DirNode),
     ([''objects'', ''62'', ''6275636b6574006b65790a0a0a0a0a0a0a0a0a0a0a0a0a0a0a0a0a0a0a0a0a0a.data''], FileNode ''hello''),
     ([''tmp''], DirNode)]"

lemma ex_mp_nodes_eq: "ex_mp_nodes = ex_mp_tree"
  by code_simp

lemma ex_mp_got: "is_ok (fst ex_mp_get)"
  unfolding ex_mp_nodes_eq by code_simp

lemma ex_mp_boot: "is_ok (fst (ex_start ex_mp_codec []))"
  by code_simp

lemma ex_mp_restart: "is_ok (fst (ex_start ex_mp_codec ex_mp_nodes))"
  unfolding ex_mp_nodes_eq by code_simp

lemma ex_mp_body: "requested_body (wd_store (snd ex_mp_sent)) (ex_mp_call (ex_open_app ex_mp_codec)) = ''hello''"
  by code_simp

lemma ex_mp_request: "completion_request ext0 ex_mp_web ex_mp_complete = Ok (ex_mp_parts, cr_checksums (ex_complete []))"
  by code_simp

lemma ex_mp_target:
  "resolve_request_target ext0 (ex_open_app J) ex_mp_complete = resolve_request_target ext0 (ex_open_app J) ex_put"
  by code_simp

lemma ex_mp_law: "json_law (app_codec (ex_open_app ex_mp_codec))" "session_law (app_codec (ex_open_app ex_mp_codec))"
  by (simp_all add: json_law_def session_law_def ex_open_app_def ex_app_def ex_mp_codec_def ex_session_codec_def
      split: if_splits)

lemma ex_mp_started: "started ext0 ex_mp_web (2 ^ 60) ex_builder (ex_open_app ex_mp_codec) (snd ex_mp_sent)"
proof -
  have "server_run ext0 ex_mp_web (2 ^ 60) ex_builder (ex_open_app ex_mp_codec) (\<lambda>_ _. True)
      (ex_booted ex_mp_codec []) (snd ex_mp_sent)"
    by (rule ex_served [OF TrueI ex_served_last [OF TrueI]])
  from startedI [OF ex_boots [OF ex_mp_boot] _ this] show ?thesis by (simp add: file_at_def)
qed

theorem complete_then_get_witness:
  "\<exists>resp r. fst ex_mp_run = Ok resp \<and> fst ex_mp_get = Ok r \<and> rsp_body r = ''ell''"
proof -
  let ?A = "ex_open_app ex_mp_codec"
  obtain resp r where run: "fst ex_mp_run = Ok resp" "fst ex_mp_get = Ok r"
    using ex_mp_ok ex_mp_got by (auto simp: is_ok_iff)
  then have mp: "ex_mp_run = (Ok resp, snd ex_mp_run)" and get: "ex_mp_get = (Ok r, snd ex_mp_get)"
    by (metis prod.collapse)+
  obtain t where t: "tgt_bucket t = ''bucket''" "tgt_key t = ''key''" "resolve_request_target ext0 ?A ex_put = Ok t"
    "resolve_request_target ext0 ?A ex_get = Ok t"
    by (rule ex_target)
  have digest: "length (object_digest ext0 (tgt_bucket t) (tgt_key t)) \<ge> 2"
    and len: "length (requested_body (wd_store (snd ex_mp_sent)) (ex_mp_call ?A)) < u64_max"
    using ex_digest by (simp_all only: t(1,2) ex_mp_body) simp
  have range: "parse_range_header ext0 (rq_headers ex_get) (length ''hello'') = Ok (Some \<lparr>br_start = 1, br_end = 3\<rparr>)"
    by code_simp
  from complete_then_get [OF ex_mp_started mp server_run.restart [OF ex_boots [OF ex_mp_restart] server_run.idle] get
      ex_mp_request trans [OF ex_mp_target t(3)] t(4) ex_builder_limits(1) ex_mp_law digest refl len]
  have "serves ext0 ex_get ''hello'' r" by (simp only: ex_mp_body ex_unconditional) auto
  then have "rsp_body r = ''ell''"
    using range by (simp add: serves_def ByteRange_len_def)
  with run show ?thesis by blast
qed

end
