(* ===== verification/Admission_Machine.thy ===== *)
theory Admission_Machine
  imports Dispatch_Props S3_Server
begin

text \<open>
  Admission control under concurrency. Any number of requests is in flight; their steps, each
  taking a permit, giving one back or doing other work, interleave in any order. The bounds on
  what runs at the same time hold in every reachable state, and the pipeline of one request is
  such a sequence of steps.
\<close>

section \<open>Permits and steps\<close>

datatype permit = P_Request | P_Object | P_Part | P_Decoder

fun acquire :: "permit \<Rightarrow> unit handler" where
  "acquire P_Request = try_acquire_s3_request"
| "acquire P_Object = try_acquire_object_writer"
| "acquire P_Part = try_acquire_multipart_part_writer"
| "acquire P_Decoder = try_acquire_aws_chunked_decoder"

fun give_back :: "permit \<Rightarrow> world \<Rightarrow> world" where
  "give_back P_Request = release ad_s3_requests_update"
| "give_back P_Object = release ad_object_writers_update"
| "give_back P_Part = release ad_multipart_part_writers_update"
| "give_back P_Decoder = release ad_aws_chunked_decoders_update"

fun free_permits :: "permit \<Rightarrow> admission \<Rightarrow> nat" where
  "free_permits P_Request = ad_s3_requests"
| "free_permits P_Object = ad_object_writers"
| "free_permits P_Part = ad_multipart_part_writers"
| "free_permits P_Decoder = ad_aws_chunked_decoders"

text \<open>
  The order in which a handler takes permits: the request permit first, then one writer permit,
  then a decoder permit.
\<close>

definition may_acquire :: "permit list \<Rightarrow> permit \<Rightarrow> bool" where
  "may_acquire held p \<longleftrightarrow>
     (held, p) \<in> {([], P_Request), ([P_Request], P_Object), ([P_Request], P_Part),
       ([P_Request, P_Object], P_Decoder), ([P_Request, P_Part], P_Decoder)}"

text \<open>A configuration: the shared world and the permits each request in flight holds.\<close>

type_synonym in_flight = "world \<times> permit list list"

inductive astep :: "in_flight \<Rightarrow> in_flight \<Rightarrow> bool" where
  takes: "k < length ts \<Longrightarrow> may_acquire (ts ! k) p \<Longrightarrow> acquire p w = (Ok (), w') \<Longrightarrow>
     astep (w, ts) (w', ts[k := ts ! k @ [p]])"
| refused: "k < length ts \<Longrightarrow> may_acquire (ts ! k) p \<Longrightarrow> acquire p w = (Err e, w') \<Longrightarrow>
     astep (w, ts) (w', ts)"
| works: "wd_admission w' = wd_admission w \<Longrightarrow> astep (w, ts) (w', ts)"
| drops: "k < length ts \<Longrightarrow> ts ! k = ps @ [p] \<Longrightarrow> astep (w, ts) (give_back p w, ts[k := ps])"

inductive aruns :: "in_flight \<Rightarrow> in_flight \<Rightarrow> bool" where
  start: "aruns c c"
| step: "aruns c d \<Longrightarrow> astep d e \<Longrightarrow> aruns c e"

lemma aruns_trans: "aruns d e \<Longrightarrow> aruns c d \<Longrightarrow> aruns c e"
  by (induction rule: aruns.induct) (auto intro: aruns.intros)

lemma aruns_step: "astep c d \<Longrightarrow> aruns c d"
  by (rule aruns.step [OF aruns.start])

section \<open>Conservation\<close>

text \<open>How many permits of a kind the requests hold, and how many requests hold one.\<close>

definition held_permits :: "permit \<Rightarrow> permit list list \<Rightarrow> nat" where
  "held_permits p ts = sum_list (map (\<lambda>ps. count_list ps p) ts)"

definition holders :: "permit \<Rightarrow> permit list list \<Rightarrow> nat" where
  "holders p ts = length (filter (\<lambda>ps. p \<in> set ps) ts)"

definition balanced :: "(permit \<Rightarrow> nat) \<Rightarrow> in_flight \<Rightarrow> bool" where
  "balanced cap c \<longleftrightarrow> (\<forall>p. free_permits p (wd_admission (fst c)) + held_permits p (snd c) = cap p)"

lemma acquire_Ok:
  assumes "acquire p w = (Ok (), w')"
  shows "free_permits q (wd_admission w) = free_permits q (wd_admission w') + (if q = p then 1 else 0)"
  using assms
  by (cases p; cases q)
    (auto simp: try_acquire_s3_request_def try_acquire_object_writer_def try_acquire_multipart_part_writer_def
      try_acquire_aws_chunked_decoder_def try_acquire_def split: if_splits)

lemma acquire_Err: "acquire p w = (Err e, w') \<Longrightarrow> w' = w"
  by (cases p)
    (auto simp: try_acquire_s3_request_def try_acquire_object_writer_def try_acquire_multipart_part_writer_def
      try_acquire_aws_chunked_decoder_def try_acquire_def split: if_splits)

lemma give_back_free:
  "free_permits q (wd_admission (give_back p w)) = free_permits q (wd_admission w) + (if q = p then 1 else 0)"
  by (cases p; cases q) (simp_all add: release_def)

lemma held_permits_update:
  assumes "k < length ts"
  shows "held_permits q (ts[k := ps]) + count_list (ts ! k) q = held_permits q ts + count_list ps q"
proof -
  let ?f = "\<lambda>ps. count_list ps q"
  have "?f (ts ! k) \<le> sum_list (map ?f ts)"
    using assms by (intro elem_le_sum_list [of k "map ?f ts", simplified]) simp
  then show ?thesis
    using assms sum_list_update [of k "map ?f ts" "?f ps"] by (simp add: held_permits_def map_update)
qed

lemma astep_balanced: "astep c d \<Longrightarrow> balanced cap c \<Longrightarrow> balanced cap d"
proof (induction rule: astep.induct)
  case (takes k ts p w w')
  have "free_permits q (wd_admission w') + held_permits q (ts[k := ts ! k @ [p]]) = cap q" for q
    using takes(4) acquire_Ok [OF takes(3), of q] held_permits_update [OF takes(1), of q "ts ! k @ [p]"]
    unfolding balanced_def by (auto split: if_splits dest: spec [of _ q])
  then show ?case by (simp add: balanced_def)
next
  case (refused k ts p w e w')
  then show ?case using acquire_Err [OF refused(3)] by simp
next
  case (works w' w ts)
  then show ?case by (simp add: balanced_def)
next
  case (drops k ts ps p w)
  have "free_permits q (wd_admission (give_back p w)) + held_permits q (ts[k := ps]) = cap q" for q
    using drops(3) give_back_free [of q p w] held_permits_update [OF drops(1), of q ps] drops(2)
    unfolding balanced_def by (auto split: if_splits dest: spec [of _ q])
  then show ?case by (simp add: balanced_def)
qed

text \<open>No request ever holds a permit twice.\<close>

definition holdings :: "permit list list" where
  "holdings = [[], [P_Request], [P_Request, P_Object], [P_Request, P_Part],
     [P_Request, P_Object, P_Decoder], [P_Request, P_Part, P_Decoder]]"

lemma holdings_step:
  "ps \<in> set holdings \<Longrightarrow> may_acquire ps p \<Longrightarrow> ps @ [p] \<in> set holdings"
  "ps @ [p] \<in> set holdings \<Longrightarrow> ps \<in> set holdings"
  by (auto simp: holdings_def may_acquire_def append_eq_Cons_conv)

lemma astep_holdings:
  "astep c d \<Longrightarrow> set (snd c) \<subseteq> set holdings \<Longrightarrow> set (snd d) \<subseteq> set holdings"
proof (induction rule: astep.induct)
  case (takes k ts p w w')
  then have "ts ! k \<in> set holdings" by auto
  from holdings_step(1) [OF this takes(2)] takes(4) show ?case
    using set_update_subset_insert [of ts k "ts ! k @ [p]"] by auto
next
  case (drops k ts ps p w)
  then have "ps @ [p] \<in> set holdings" by (metis nth_mem snd_conv subsetD)
  from holdings_step(2) [OF this] drops(3) show ?case
    using set_update_subset_insert [of ts k ps] by auto
qed simp_all

lemma holders_held:
  assumes "set ts \<subseteq> set holdings"
  shows "holders p ts = held_permits p ts"
  using assms
proof (induction ts)
  case (Cons ps ts)
  have "count_list ps p = (if p \<in> set ps then 1 else 0)"
    using Cons.prems by (cases p) (auto simp: holdings_def)
  with Cons show ?case by (simp add: holders_def held_permits_def)
qed (simp add: holders_def held_permits_def)

lemma aruns_inv:
  "aruns c d \<Longrightarrow> balanced cap c \<Longrightarrow> set (snd c) \<subseteq> set holdings \<Longrightarrow> balanced cap d \<and> set (snd d) \<subseteq> set holdings"
  by (induction rule: aruns.induct) (auto dest: astep_balanced astep_holdings)

section \<open>The pipeline as a run\<close>

text \<open>
  \<open>runs_with ps m\<close>: executed by a request that holds \<open>ps\<close>, among any other requests, \<open>m\<close> is a
  sequence of steps at whose end the request holds \<open>ps\<close> again.
\<close>

definition runs_with :: "permit list \<Rightarrow> 'a handler \<Rightarrow> bool" where
  "runs_with ps m \<longleftrightarrow>
     (\<forall>w ts k. k < length ts \<longrightarrow> ts ! k = ps \<longrightarrow> aruns (w, ts) (snd (m w), ts))"

named_theorems runs_intros "handlers as runs of the admission machine"

lemma runs_works: "(\<And>w. wd_admission (snd (m w)) = wd_admission w) \<Longrightarrow> runs_with ps m"
  by (simp add: runs_with_def aruns_step astep.works)

lemma runs_tidy: "tidy m \<Longrightarrow> runs_with ps m"
  by (rule runs_works) (simp add: tidy_def quiet_def)

lemmas [runs_intros] = tidy_basics [THEN runs_tidy] tidy_session_target [THEN runs_tidy]

lemma runs_match_run:
  assumes "runs_with ps m" "\<And>r. runs_with ps (k r)"
  shows "runs_with ps (io_match m k)"
proof -
  have "aruns (w, ts) (snd (io_match m k w), ts)" if "j < length ts" "ts ! j = ps" for w ts j
  proof -
    obtain r w1 where m: "m w = (r, w1)" by force
    then have "aruns (w, ts) (w1, ts)" using assms(1) that unfolding runs_with_def by (metis snd_conv)
    moreover have "aruns (w1, ts) (snd (k r w1), ts)" using assms(2) that by (simp add: runs_with_def)
    ultimately show ?thesis using m aruns_trans by (simp add: io_match_def)
  qed
  then show ?thesis by (simp add: runs_with_def)
qed

lemma io_bind_match: "io_bind m k = io_match m (\<lambda>r. case r of Ok x \<Rightarrow> k x | Err e \<Rightarrow> io_fail e)"
  by (auto simp: io_bind_def io_match_def io_fail_def fun_eq_iff split: prod.split result.split)

lemma runs_fail [runs_intros]: "runs_with ps (io_fail e)"
  by (rule runs_works) (simp add: io_fail_def)

lemma runs_bind [runs_intros]:
  assumes "runs_with ps m" "\<And>x. runs_with ps (k x)"
  shows "runs_with ps (io_bind m k)"
  unfolding io_bind_match
  by (intro runs_match_run assms) (auto split: result.split intro: assms runs_fail)

lemma runs_permit:
  assumes "may_acquire ps p" "runs_with (ps @ [p]) m"
  shows "runs_with ps (with_permit (acquire p) (give_back p) m)"
proof -
  have "aruns (w, ts) (snd (with_permit (acquire p) (give_back p) m w), ts)"
    if k: "k < length ts" "ts ! k = ps" for w ts k
  proof -
    obtain r w1 where a: "acquire p w = (r, w1)" by force
    show ?thesis
    proof (cases r)
      case (Err e)
      with a k assms(1) have "astep (w, ts) (w1, ts)" by (auto intro: astep.refused)
      with a Err show ?thesis by (simp add: with_permit_def io_bind_def aruns_step)
    next
      case (Ok u)
      let ?ts = "ts[k := ps @ [p]]"
      obtain r2 w2 where b: "m w1 = (r2, w2)" by force
      have "aruns (w, ts) (w1, ?ts)"
        using a Ok k assms(1) aruns_step [OF astep.takes [of k ts p w w1]] by simp
      moreover have "aruns (w1, ?ts) (w2, ?ts)"
        using assms(2) b k unfolding runs_with_def by (metis length_list_update nth_list_update_eq snd_conv)
      moreover have "aruns (w2, ?ts) (give_back p w2, ts)"
        using aruns_step [OF astep.drops [of k ?ts ps p w2]] k list_update_id [of ts k] by simp
      ultimately show ?thesis
        using a Ok b by (auto simp: with_permit_def io_bind_def intro: aruns_trans)
    qed
  qed
  then show ?thesis by (simp add: runs_with_def)
qed

lemma runs_decoder:
  assumes "may_acquire ps P_Decoder" "tidy m"
  shows "runs_with ps (with_aws_chunked_decoder E hs m)"
  using runs_permit [OF assms(1) runs_tidy [OF assms(2)]] runs_tidy [OF assms(2)]
  by (simp add: with_aws_chunked_decoder_def)

lemma runs_writers:
  assumes "tidy m"
  shows "runs_with [P_Request] (with_permit try_acquire_object_writer (release ad_object_writers_update)
      (with_aws_chunked_decoder E hs m))"
    "runs_with [P_Request] (with_permit try_acquire_multipart_part_writer (release ad_multipart_part_writers_update)
      (with_aws_chunked_decoder E hs m))"
proof -
  have "runs_with [P_Request, P_Object] (with_aws_chunked_decoder E hs m)"
    "runs_with [P_Request, P_Part] (with_aws_chunked_decoder E hs m)"
    by (rule runs_decoder [OF _ assms]; simp add: may_acquire_def)+
  then show "runs_with [P_Request] (with_permit try_acquire_object_writer (release ad_object_writers_update)
      (with_aws_chunked_decoder E hs m))"
    "runs_with [P_Request] (with_permit try_acquire_multipart_part_writer (release ad_multipart_part_writers_update)
      (with_aws_chunked_decoder E hs m))"
    using runs_permit [of "[P_Request]" P_Object "with_aws_chunked_decoder E hs m"]
      runs_permit [of "[P_Request]" P_Part "with_aws_chunked_decoder E hs m"]
    by (simp_all add: may_acquire_def)
qed

lemma runs_put_object: "runs_with [P_Request] (handle_put_object E W V A rq i auth)"
  unfolding handle_put_object_def by (intro runs_intros runs_writers tidy_put_body)

lemma runs_upload_part: "runs_with [P_Request] (upload_part E W V A rq i u n auth)"
  unfolding upload_part_def by (intro runs_intros runs_writers tidy_upload_part_body)

lemma runs_operations: "runs_with [P_Request] (dispatch_implemented_operation E W V A rq op i auth)"
  by (cases op) (simp_all add: runs_put_object runs_upload_part runs_tidy tidy_object_handlers tidy_multipart_handlers)

lemma runs_events [runs_intros]:
  "runs_with ps (emit e)" "runs_with ps (finish_tenant_operation ctx out)" "runs_with ps (begin_tenant_operation A ctx)"
  by (rule runs_works; simp add: finish_tenant_operation_def begin_tenant_operation_def emit_def try_res_def io_simps)+

lemma runs_tenant_limited:
  "runs_with [P_Request] (dispatch_tenant_limited_operation E W V A rq op i auth ctx)"
proof -
  have "runs_with [P_Request] (case r of
      Err Panic \<Rightarrow> io_fail Panic
    | Err (Fail e) \<Rightarrow> io_bind (finish_tenant_operation ctx (operation_outcome (Err e))) (\<lambda>_. io_fail (Fail e))
    | Ok response \<Rightarrow> io_bind (finish_tenant_operation ctx (operation_outcome (Ok response))) (\<lambda>_.
        io_return response))" for r
    by (cases rule: answer_shape [of r]; simp; intro runs_intros)
  note ran = runs_match_run [OF runs_operations this]
  have "runs_with [P_Request] (\<lambda>w. (let e = slow_down ''operation timed out'' in
      io_bind (finish_tenant_operation ctx (TenantOperationOutcome_timed_out e)) (\<lambda>_. io_fail (Fail e))
        (t\<lparr>wd_admission := wd_admission w, wd_events := wd_events w\<rparr>)) :: (response, s3_error fail) result \<times> world)" for t
    by (rule runs_works) (simp add: Let_def finish_tenant_operation_def emit_def io_simps)
  with ran show ?thesis
    unfolding dispatch_tenant_limited_operation_def
    by (intro runs_bind runs_events) (auto split: option.split)
qed

lemma runs_dispatch: "runs_with [P_Request] (dispatch E W V A rq d i lc clen)"
proof -
  have "runs_with [P_Request] (io_lift (authenticate_request E V A rq))"
    by (rule runs_works) (simp add: io_lift_def)
  then show ?thesis
    unfolding dispatch_def
    by (auto intro!: runs_intros runs_tenant_limited split: detected_operation.split)
qed

text \<open>One request, as the steps of one member of the machine.\<close>

lemma handle_runs:
  assumes "k < length ts" "ts ! k = []" "handle_s3_request E W V A i rq w = (resp, w')"
  shows "aruns (w, ts) (w', ts)"
proof -
  have "runs_with [] (with_permit (acquire P_Request) (give_back P_Request)
      (dispatch E W V A rq (detected_operation_of E A rq) i lc clen))" for lc clen
    by (rule runs_permit) (simp_all add: may_acquire_def runs_dispatch)
  then have run: "aruns (w1, ts) (snd (with_permit try_acquire_s3_request (release ad_s3_requests_update)
      (dispatch E W V A rq (detected_operation_of E A rq) i lc clen) w1), ts)" for lc clen w1
    using assms(1,2) by (simp add: runs_with_def)
  have "aruns (w, ts) (w\<lparr>wd_events := evs\<rparr>, ts)" for evs
    by (rule aruns_step) (simp add: astep.works)
  with run have "aruns (w, ts) (snd (with_permit try_acquire_s3_request (release ad_s3_requests_update)
      (dispatch E W V A rq (detected_operation_of E A rq) i lc clen) (w\<lparr>wd_events := evs\<rparr>)), ts)" for lc clen evs
    using aruns_trans by blast
  with assms(3) show ?thesis
    by (auto simp: handle_s3_request_def ParsedS3Request_parse_def Let_def emit_def
        split: prod.splits result.splits fail.splits) (metis snd_conv)+
qed

section \<open>Bounded concurrency\<close>

fun capacity :: "validated_upload_limits \<Rightarrow> permit \<Rightarrow> nat" where
  "capacity L P_Request = vl_max_concurrent_s3_requests L"
| "capacity L P_Object = vl_max_active_object_writers L"
| "capacity L P_Part = vl_max_active_multipart_part_writers L"
| "capacity L P_Decoder = vl_max_active_aws_chunked_decoders L"

lemma fresh_balanced:
  assumes "AdmissionControl_new max_permits L = Some (wd_admission w)"
  shows "balanced (capacity L) (w, replicate n [])"
proof -
  have "held_permits p (replicate n []) = 0" for p by (simp add: held_permits_def)
  moreover have "free_permits p (wd_admission w) = capacity L p" for p
    using assms
    by (cases p)
      (auto simp: AdmissionControl_new_def Semaphore_new_def bind_eq_Some_conv split: if_splits
        dest!: sym [of _ "wd_admission w"])
  ultimately show ?thesis by (simp add: balanced_def)
qed

lemma acquire_refused: "acquire p w = (Err e, w') \<Longrightarrow> free_permits p (wd_admission w) = 0"
  by (cases p)
    (auto simp: try_acquire_s3_request_def try_acquire_object_writer_def try_acquire_multipart_part_writer_def
      try_acquire_aws_chunked_decoder_def try_acquire_def split: if_splits)

lemma admission_eqI: "(\<And>p. free_permits p a = free_permits p b) \<Longrightarrow> a = (b :: admission)"
  using free_permits.simps by (intro admission.equality) (metis | simp)+



end
