(* ===== verification/Multipart_Interleaving.thy ===== *)
theory Multipart_Interleaving
  imports Multipart_Machine
begin

text \<open>
  Concurrent calls of the multipart store. Every access to the session table is atomic (one entry
  of a \<open>DashMap\<close>), and between two accesses other tasks may run. The tasks interleave at these
  accesses and at every file-system call.
\<close>

section \<open>Atomic sections\<close>

text \<open>
  A state has the store and the completions in flight: task number to upload. A step is one access
  to the session table, or any file-system activity. Tasks other than completions carry values
  they read earlier; their steps take such values arbitrarily.
\<close>

type_synonym flights = "nat \<rightharpoonup> upload_id"

inductive istep :: "multipart \<times> flights \<Rightarrow> multipart \<times> flights \<Rightarrow> bool" where
  files: "ms_sessions st' = ms_sessions st \<Longrightarrow> istep (st, C) (st', C)"
| creates: "bt_get (ms_sessions st) u = None \<Longrightarrow> u \<notin> ran C \<Longrightarrow> put_session u us st = (r :: (unit, store_error) result, st') \<Longrightarrow>
     istep (st, C) (st', C)"
| inserts: "insert_part u pm st = (r, st') \<Longrightarrow> istep (st, C) (st', C)"
| rolls_back: "restore_part_entry u n previous st = (r, st') \<Longrightarrow> istep (st, C) (st', C)"
| aborts: "put_session u (us\<lparr>us_state := Aborted\<rparr>) st = (r :: (unit, store_error) result, st') \<Longrightarrow> istep (st, C) (st', C)"
| drops: "drop_session u st = (r :: (unit, store_error) result, st') \<Longrightarrow> istep (st, C) (st', C)"
| begins: "C i = None \<Longrightarrow> get_open_upload u st = (Ok us, st) \<Longrightarrow>
     put_session u (us\<lparr>us_state := Completing\<rparr>) st = (r :: (unit, store_error) result, st') \<Longrightarrow> istep (st, C) (st', C(i \<mapsto> u))"
| completes: "C i = Some u \<Longrightarrow> mark_upload_state u Completed st = (r, st') \<Longrightarrow> istep (st, C) (st', C)"
| ends: "C i = Some u \<Longrightarrow> istep (st, C) (st, C(i := None))"
| restores: "C i = Some u \<Longrightarrow> mark_upload_state u Open st = (r, st') \<Longrightarrow> istep (st, C) (st', C(i := None))"

inductive_cases istepE: "istep (st, C) (st', C')"

abbreviation isteps :: "multipart \<times> flights \<Rightarrow> multipart \<times> flights \<Rightarrow> bool" where
  "isteps \<equiv> istep\<^sup>*\<^sup>*"

section \<open>At most one completion\<close>

text \<open>Two tasks never complete the same upload, and an upload being completed is not open.\<close>

definition exclusive :: "multipart \<times> flights \<Rightarrow> bool" where
  "exclusive c \<longleftrightarrow> (\<forall>i j u. snd c i = Some u \<longrightarrow> snd c j = Some u \<longrightarrow> i = j)
     \<and> (\<forall>i u us. snd c i = Some u \<longrightarrow> bt_get (ms_sessions (fst c)) u = Some us \<longrightarrow> \<not> is_open us)"

lemma table_updates:
  "put_session u us st = (r, st') \<Longrightarrow> bt_get (ms_sessions st') = (bt_get (ms_sessions st))(u \<mapsto> us)"
  "drop_session u st = (r, st') \<Longrightarrow> bt_get (ms_sessions st') = (bt_get (ms_sessions st))(u := None)"
  "insert_part u pm st = (r2, st') \<Longrightarrow> bt_get (ms_sessions st') = bt_get (ms_sessions st) \<or>
     (\<exists>us. bt_get (ms_sessions st) u = Some us \<and> is_open us \<and> bt_get (ms_sessions st') = (bt_get (ms_sessions st))
        (u \<mapsto> us\<lparr>us_parts := bt_insert (pm_part_number pm) pm (us_parts us)\<rparr>))"
  "restore_part_entry u n previous st = (r4, st') \<Longrightarrow> bt_get (ms_sessions st') = bt_get (ms_sessions st) \<or>
     (\<exists>us ps. bt_get (ms_sessions st) u = Some us \<and> bt_get (ms_sessions st') = (bt_get (ms_sessions st))
        (u \<mapsto> us\<lparr>us_parts := ps\<rparr>))"
  "mark_upload_state u s st = (r3, st') \<Longrightarrow> bt_get (ms_sessions st') = bt_get (ms_sessions st) \<or>
     (\<exists>us. bt_get (ms_sessions st) u = Some us \<and> bt_get (ms_sessions st') = (bt_get (ms_sessions st))
        (u \<mapsto> us\<lparr>us_state := s\<rparr>))"
  by (auto simp: put_session_def drop_session_def insert_part_def get_open_upload_eq restore_part_entry_def
      mark_upload_state_def get_session_def io_simps Let_def split: option.splits if_splits)

lemma is_open_simps [simp]:
  "is_open (us\<lparr>us_parts := ps\<rparr>) = is_open us" "is_open (us\<lparr>us_state := s\<rparr>) = (s = Open)"
  by (simp_all add: is_open_def)

lemma istep_exclusive:
  assumes "istep c c'" "exclusive c"
  shows "exclusive c'"
  using assms
proof (induction rule: istep.induct)
  case (creates st u C us r st')
  then show ?case using table_updates(1) [OF creates(3)] by (auto simp: exclusive_def ran_def split: if_splits)
next
  case (begins C i u st us r st')
  have free: "C j \<noteq> Some u" for j
    using begins by (auto simp: exclusive_def get_open_upload_eq split: option.splits if_splits)
  show ?case
    using begins(4) free table_updates(1) [OF begins(3)] by (auto simp: exclusive_def)
next
  case (restores C i u st r st')
  then have "C j \<noteq> Some u" if "j \<noteq> i" for j using that by (auto simp: exclusive_def)
  with restores table_updates(5) [OF restores(2)] show ?case by (fastforce simp: exclusive_def)
next
  case (inserts u pm st r st' C)
  then show ?case using table_updates(3) [OF inserts(1)] by (fastforce simp: exclusive_def)
next
  case (rolls_back u n previous st r st' C)
  then show ?case using table_updates(4) [OF rolls_back(1)] by (fastforce simp: exclusive_def)
next
  case (completes C i u st r st')
  then show ?case using table_updates(5) [OF completes(2)] by (fastforce simp: exclusive_def)
next
  case (aborts u us st r st' C)
  then show ?case using table_updates(1) [OF aborts(1)] by (fastforce simp: exclusive_def)
next
  case (drops u st r st' C)
  then show ?case using table_updates(2) [OF drops(1)] by (fastforce simp: exclusive_def)
qed (auto simp: exclusive_def)

lemma isteps_exclusive: "isteps c c' \<Longrightarrow> exclusive c \<Longrightarrow> exclusive c'"
  by (induction rule: rtranclp_induct) (auto intro: istep_exclusive)

section \<open>The operations as interleaved tasks\<close>

text \<open>
  \<open>itask P m\<close>: a call of \<open>m\<close>, while the completions in flight satisfy \<open>P\<close>, is a sequence of
  atomic sections that leaves the same completions in flight.
\<close>

definition itask :: "(flights \<Rightarrow> bool) \<Rightarrow> (multipart, 'a, 'e) io \<Rightarrow> bool" where
  "itask P m \<longleftrightarrow> (\<forall>st r st' C. m st = (r, st') \<longrightarrow> P C \<longrightarrow> isteps (st, C) (st', C))"

named_theorems itask_intros "sequences of atomic sections"

lemma itaskI: "(\<And>st r st' C. m st = (r, st') \<Longrightarrow> P C \<Longrightarrow> istep (st, C) (st', C)) \<Longrightarrow> itask P m"
  by (auto simp: itask_def)

lemma itask_basics [itask_intros]:
  "itask P (io_return x)" "itask P (io_fail e)" "itask P (io_lift q)" "itask P (on_fs m)" "itask P (get_session u)"
  by (rule itaskI, rule istep.files, auto simp: io_simps on_fs_def get_session_def split: prod.splits)+

lemma itask_match [itask_intros]:
  assumes "itask P m" "\<And>r. itask P (k r)"
  shows "itask P (io_match m k)"
  unfolding itask_def
proof (intro allI impI)
  fix st r st' and C :: flights
  assume run: "io_match m k st = (r, st')" and fin: "P C"
  obtain q st1 where m: "m st = (q, st1)" by force
  with run have "k q st1 = (r, st')" by (simp add: io_match_def)
  with assms m fin show "isteps (st, C) (st', C)" unfolding itask_def by (blast intro: rtranclp_trans)
qed

lemma itask_bind [itask_intros]: "itask P m \<Longrightarrow> (\<And>x. itask P (k x)) \<Longrightarrow> itask P (io_bind m k)"
proof -
  have "io_bind m k = io_match m (\<lambda>r. case r of Ok x \<Rightarrow> k x | Err e \<Rightarrow> io_fail e)"
    by (auto simp: fun_eq_iff io_simps split: prod.split result.split)
  then show "itask P m \<Longrightarrow> (\<And>x. itask P (k x)) \<Longrightarrow> itask P (io_bind m k)"
    by (auto intro!: itask_match itask_basics split: result.split)
qed

lemma itask_ignore [itask_intros]: "itask P m \<Longrightarrow> itask P n \<Longrightarrow> itask P (io_ignore m n)"
  unfolding io_ignore_def by (rule itask_match)

lemma itask_cases [itask_intros]:
  "itask P m1 \<Longrightarrow> (\<And>x. itask P (k1 x)) \<Longrightarrow> itask P (case y1 of None \<Rightarrow> m1 | Some x \<Rightarrow> k1 x)"
  "(\<And>x. itask P (k2 x)) \<Longrightarrow> (\<And>e. itask P (h2 e)) \<Longrightarrow> itask P (case y2 of Ok x \<Rightarrow> k2 x | Err e \<Rightarrow> h2 e)"
  "itask P m3 \<Longrightarrow> (\<And>x. itask P (k3 x)) \<Longrightarrow> itask P (case y3 of NotFound \<Rightarrow> m3 | OtherIo x \<Rightarrow> k3 x)"
  by (simp_all split: option.split result.split io_error.split)

lemma itask_table [itask_intros]:
  "itask P (get_open_upload u)" "itask P (insert_part u pm)" "itask P (restore_part_entry u n previous)"
  "itask P (put_session u (us\<lparr>us_state := Aborted\<rparr>) :: (multipart, unit, store_error) io)"
  "itask P (drop_session u :: (multipart, unit, store_error) io)"
proof -
  show "itask P (get_open_upload u)"
    by (rule itaskI, rule istep.files) (auto simp: get_open_upload_eq split: option.splits if_splits)
qed (rule itaskI, erule istep.inserts istep.rolls_back istep.aborts istep.drops)+

lemma itask_part_calls:
  "itask P (write_part J uuid now u n body md5 tag cs)" "itask P (create_temp_part i u n)"
  "itask P (commit_part J bid uuid now u n T part)" "itask P (abort_upload J uuid u)"
  unfolding write_part_def create_temp_part_def commit_part_def abort_upload_def Let_def
  by (intro itask_intros)+

text \<open>The completion that is in flight may mark its session.\<close>

lemma itask_finish: "itask (\<lambda>C. C i = Some u) (finish_completion J uuid u)"
proof -
  have "itask (\<lambda>C. C i = Some u) (mark_upload_state u Completed)"
    by (rule itaskI) (rule istep.completes)
  then show ?thesis
    unfolding finish_completion_def by (intro itask_intros)
qed

lemma restore_isteps:
  assumes "restore_open_upload J uuid u st = (r, st')" "C i = Some u"
  shows "isteps (st, C) (st', C(i := None))"
proof -
  obtain q st1 where m: "mark_upload_state u Open st = (q, st1)" by force
  have "isteps (st1, C(i := None)) (st', C(i := None))"
    using assms(1) m
    by (auto simp: restore_open_upload_def io_bind_def io_simps on_fs_def split: result.splits option.splits prod.splits
        intro!: r_into_rtranclp istep.files)
  with istep.restores [where C = C and i = i, OF assms(2) m] show ?thesis by (rule converse_rtranclp_into_rtranclp)
qed

text \<open>A whole completion: it begins, works, and ends or restores the session.\<close>

lemma complete_upload_sections:
  assumes "complete_upload E J i0 x y z now req st = (r, st')" "cr_upload_id req = u"
  obtains (refused) "st' = st"
  | (begun) us st1 where "get_open_upload u st = (Ok us, st)"
      "put_session u (us\<lparr>us_state := Completing\<rparr>) st = (Ok () :: (unit, store_error) result, st1)"
      "io_match (io_ignore (on_fs (persist_session J x (us\<lparr>us_state := Completing\<rparr>)))
          (complete_upload_after_transition E J i0 y now (us\<lparr>us_state := Completing\<rparr>) req))
        (\<lambda>q. case q of Ok md \<Rightarrow> io_return md | Err e \<Rightarrow> io_ignore (restore_open_upload J z u) (io_fail e)) st1 = (r, st')"
proof (cases "\<exists>us. bt_get (ms_sessions st) u = Some us \<and> is_open us")
  case False
  then have "get_open_upload u st = (Err SE_NoSuchUpload, st)"
    by (auto simp: get_open_upload_eq split: option.split)
  with assms refused show thesis by (auto simp: complete_upload_def begin_completion_def io_simps)
next
  case True
  then obtain us where us: "get_open_upload u st = (Ok us, st)" by (auto simp: get_open_upload_eq)
  let ?us = "us\<lparr>us_state := Completing\<rparr>"
  let ?st1 = "st\<lparr>ms_sessions := bt_insert u ?us (ms_sessions st)\<rparr>"
  obtain q st2 where q: "on_fs (persist_session J x ?us) ?st1 = (q, st2)" by force
  obtain r2 st3 where r2: "complete_upload_after_transition E J i0 y now ?us req st2 = (r2, st3)" by force
  show thesis
  proof (rule begun [OF us])
    show "put_session u ?us st = (Ok (), ?st1)" by (simp add: put_session_def)
    show "io_match (io_ignore (on_fs (persist_session J x ?us)) (complete_upload_after_transition E J i0 y now ?us req))
        (\<lambda>q. case q of Ok md \<Rightarrow> io_return md | Err e \<Rightarrow> io_ignore (restore_open_upload J z u) (io_fail e)) ?st1 = (r, st')"
      using assms us q r2
      by (cases r2) (auto simp: put_session_def complete_upload_def begin_completion_def io_simps Let_def)
  qed
qed

lemma itask_complete: "itask (\<lambda>C. finite (dom C)) (complete_upload E J i0 x y z now req)"
  unfolding itask_def
proof (intro allI impI)
  fix st r st' and C :: flights
  assume run: "complete_upload E J i0 x y z now req st = (r, st')" and fin: "finite (dom C)"
  let ?u = "cr_upload_id req"
  obtain i where i: "C i = None" using fin ex_new_if_finite [OF infinite_UNIV_nat] by (metis domIff)
  let ?C = "C(i \<mapsto> ?u)"
  from run refl show "isteps (st, C) (st', C)"
  proof (cases rule: complete_upload_sections)
    case (begun us st1)
    let ?us = "us\<lparr>us_state := Completing\<rparr>"
    let ?m = "io_ignore (on_fs (persist_session J x ?us)) (complete_upload_after_transition E J i0 y now ?us req)"
    obtain q st2 where m: "?m st1 = (q, st2)" by force
    have "istep (st, C) (st1, ?C)"
      by (rule istep.begins [where C = C and i = i, OF i begun(1,2)])
    moreover have "itask (\<lambda>C. C i = Some ?u) ?m"
      unfolding complete_upload_after_transition_def by (intro itask_intros itask_finish)
    with m have "isteps (st1, ?C) (st2, ?C)" by (simp add: itask_def)
    moreover have "isteps (st2, ?C) (st', C)"
    proof (cases q)
      case (Ok md)
      have "istep (st2, ?C) (st2, ?C(i := None))" by (rule istep.ends [where C = ?C and i = i]) simp
      with begun(3) m Ok i show ?thesis by (simp add: io_match_def io_simps fun_upd_idem)
    next
      case (Err e)
      obtain q3 st3 where restore: "restore_open_upload J z ?u st2 = (q3, st3)" by force
      with begun(3) m Err have "st' = st3" by (simp add: io_match_def io_ignore_def io_fail_def)
      with restore_isteps [OF restore, of ?C i] i show ?thesis by (simp add: fun_upd_idem)
    qed
    ultimately show ?thesis by (meson converse_rtranclp_into_rtranclp rtranclp_trans)
  qed simp
qed

lemma isteps_finite: "isteps c c' \<Longrightarrow> finite (dom (snd c)) \<Longrightarrow> finite (dom (snd c'))"
  by (induction rule: rtranclp_induct) (auto elim!: istep.cases)


text \<open>Two clients complete the same upload: the second is refused while the first is in flight.\<close>

definition ex_first :: multipart where
  "ex_first = snd (put_session ''U'' (ex_session\<lparr>us_state := Completing\<rparr>) (ex_store []) :: (unit, store_error) result \<times> multipart)"


section \<open>A part that overlaps a completion\<close>

text \<open>
  The two sections of \<open>commit_part\<close> around its second access to the session table: the part file
  is published in the first, the entry is recorded in the second.
\<close>

definition commit_part_publish ::
  "string \<Rightarrow> upload_id \<Rightarrow> part_number \<Rightarrow> path \<Rightarrow> (multipart, part_metadata option, store_error) io" where
  "commit_part_publish bid u n temp_path =
     io_bind (get_open_upload u) (\<lambda>us.
     let previous = bt_get (us_parts us) n;
         backup = map_option (\<lambda>_. part_backup u bid n) previous
     in io_match (on_fs (publish_part temp_path (part_path u n) backup)) (\<lambda>r. case r of
          Err e \<Rightarrow> io_ignore (on_fs (discard_unpublished_part temp_path backup)) (io_fail e)
        | Ok _ \<Rightarrow> io_return previous))"

definition commit_part_record ::
  "codec \<Rightarrow> string \<Rightarrow> string \<Rightarrow> timestamp \<Rightarrow> upload_id \<Rightarrow> part_number \<Rightarrow> committed_part \<Rightarrow> part_metadata option
     \<Rightarrow> (multipart, part_metadata, store_error) io" where
  "commit_part_record J bid uuid now u n part previous =
     (let backup = map_option (\<lambda>_. part_backup u bid n) previous;
          pm = committed_entry now n part
      in io_bind (insert_part u pm) (\<lambda>us.
         io_match (on_fs (persist_session J uuid us)) (\<lambda>q. case q of
           Err e \<Rightarrow>
             io_ignore (on_fs (rollback_part_file (part_path u n) backup))
            (io_ignore (restore_part_entry u n previous) (io_fail e))
         | Ok _ \<Rightarrow>
             io_bind (case backup of None \<Rightarrow> io_return () | Some b \<Rightarrow> on_fs (remove_file_if_exists b)) (\<lambda>_.
             io_return pm))))"

lemma io_bind_laws:
  "io_bind (io_bind m f) g = io_bind m (\<lambda>x. io_bind (f x) g)"
  "io_bind (io_match m' k) g = io_match m' (\<lambda>r. io_bind (k r) g)"
  "io_bind (io_ignore m'' n) g = io_ignore m'' (io_bind n g)"
  "io_bind (io_fail e) g = io_fail e" "io_bind (io_return x) g = g x"
  "io_bind (case y of Ok a \<Rightarrow> h a | Err e \<Rightarrow> h' e) g = (case y of Ok a \<Rightarrow> io_bind (h a) g | Err e \<Rightarrow> io_bind (h' e) g)"
  by (auto simp: fun_eq_iff io_simps split: prod.split result.split)

lemma commit_part_split:
  "commit_part J bid uuid now u n T part =
     io_bind (commit_part_publish bid u n T) (commit_part_record J bid uuid now u n part)"
  unfolding commit_part_def commit_part_publish_def commit_part_record_def committed_entry_def part_backup_def
    Let_def io_bind_laws
  by (rule refl)

lemma commit_part_publish_Ok:
  assumes "commit_part_publish bid u n T st = (Ok previous, st1)" "T \<in> session_files u" "T \<noteq> part_backup u bid n"
    and "upload_ready (ms_fs st) u uuid"
  shows "ms_sessions st1 = ms_sessions st \<and> files (ms_fs st1) (part_path u n) = files (ms_fs st) T"
proof -
  from assms(1) obtain us s1 where us: "get_open_upload u st = (Ok us, st)"
    and pub: "publish_part T (part_path u n) (backup_of us u bid n) (ms_fs st) = (Ok (), s1)" and st1: "st1 = st\<lparr>ms_fs := s1\<rparr>"
    by (auto simp: commit_part_publish_def backup_of_def get_open_upload_eq io_simps on_fs_def Let_def
        split: option.splits if_splits result.splits prod.splits)
  have "backup_of us u bid n = None \<or> backup_of us u bid n = Some (part_backup u bid n)"
    by (auto simp: backup_of_def)
  from pub assms(2,4) this part_backup_session_file assms(3) [symmetric] show ?thesis
    by (cases rule: publish_part_cases) (auto simp: st1)
qed

text \<open>
  C39. A part that overlaps a completion gets into the object although it is refused: when
  \<open>commit_part\<close> has published the file of a part and the upload is completed before the part is
  recorded, the completion accepts the ETag of the part that was recorded before, the object has
  the bytes of the new part under the ETag computed from the old one, and the upload of the new
  part then fails with NoSuchUpload.
\<close>

theorem overlapping_part_mixes:
  assumes "commit_part_publish bid u n T st = (Ok previous, st1)"
    and "complete_upload E J i x y z now' req st1 = (Ok md, st2)" "cr_upload_id req = u"
      "cr_parts req = [\<lparr>cp_part_number = n, cp_etag = tag\<rparr>]"
    and "files (ms_fs st) T = Some body" "length body < u64_max"
    and "T \<in> session_files u" "T \<noteq> part_backup u bid n" "upload_ready (ms_fs st) u uuid" "sessions_wf st"
    and "cr_processors req = []" "cr_copy_buffer req > 0" "cr_summary_buffer req > 0" "codable J md"
  shows "commit_part J bid uuid now u n T part st =
      io_bind (commit_part_publish bid u n T) (commit_part_record J bid uuid now u n part) st
    \<and> (\<exists>us pm. bt_get (ms_sessions st) u = Some us \<and> bt_get (us_parts us) n = Some pm \<and> pm_etag pm = tag
      \<and> visible E J (ms_fs st2) (us_bucket us, us_key us) = Some (md, body)
      \<and> om_etag md = ETag_from_multipart_md5 (x_hex_encode E (x_md5 E (pm_md5 pm))) 1)
    \<and> commit_part_record J bid uuid now u n part previous st2 = (Err SE_NoSuchUpload, st2)"
proof -
  have pub: "ms_sessions st1 = ms_sessions st" "files (ms_fs st1) (part_path u n) = Some body"
    using commit_part_publish_Ok [OF assms(1,7,8,9)] assms(5) by simp_all
  have wf: "sessions_wf st1" using assms(10) pub(1) by (simp add: sessions_wf_def)
  have new: "requested_body st1 req = body" using pub(2) assms(3,4) by (simp add: requested_body_def)
  obtain us where us: "bt_get (ms_sessions st1) u = Some us" and here: "part_present st1 us req \<lparr>cp_part_number = n, cp_etag = tag\<rparr>"
    and vis: "visible E J (ms_fs st2) (us_bucket us, us_key us) = Some (md, body)"
    and md: "om_etag md = ETag_from_multipart_md5 (x_hex_encode E (x_md5 E (requested_md5s us req))) 1"
    and gone: "bt_get (ms_sessions st2) u = None"
    using completion_visible [OF assms(2) wf assms(11-13) assms(14)] assms(3,4,6) new by auto
  from here obtain pm where pm: "bt_get (us_parts us) n = Some pm" "pm_etag pm = tag"
    by (auto simp: part_present_def part_for_def)
  have "requested_md5s us req = pm_md5 pm" using pm(1) assms(4) by (simp add: requested_md5s_def)
  moreover have "commit_part_record J bid uuid now u n part previous st2 = (Err SE_NoSuchUpload, st2)"
    using gone by (simp add: commit_part_record_def insert_part_def get_open_upload_eq io_simps Let_def)
  ultimately show ?thesis using us pm vis md pub(1) by (simp add: commit_part_split)
qed

text \<open>A client uploads part 1 again while another completes the upload with the old part.\<close>

definition ex_mixed :: multipart where
  "ex_mixed = (ex_store [])\<lparr>ms_fs := (ms_fs (ex_store []))\<lparr>fs_nodes :=
     bt_insert [''multipart'', ''U'', ''t''] (FileNode ''HELLO'') (fs_nodes (ms_fs (ex_store [])))\<rparr>\<rparr>"

abbreviation ex_T :: path where
  "ex_T \<equiv> [''multipart'', ''U'', ''t'']"

abbreviation ex_old_part :: complete_request where
  "ex_old_part \<equiv> ex_complete [\<lparr>cp_part_number = 1, cp_etag = ''hello''\<rparr>]"

definition ex_mixed_metadata :: object_metadata where
  "ex_mixed_metadata = completion_metadata ext0 7 ex_session ex_old_part ''hello''
     \<lparr>fu_size = 5, fu_digests = digests_of ext0 ''HELLO''\<rparr>"

definition ex_mixed_codec :: codec where
  "ex_mixed_codec = ex_codec\<lparr>j_object_decode := (\<lambda>_. Some ex_mixed_metadata)\<rparr>"

abbreviation ex_published :: "(part_metadata option, store_error) result \<times> multipart" where
  "ex_published \<equiv> commit_part_publish ''b'' ''U'' 1 ex_T ex_mixed"

abbreviation ex_mixed_run :: "(object_metadata, store_error) result \<times> multipart" where
  "ex_mixed_run \<equiv> complete_upload ext0 ex_mixed_codec ''1'' ''x'' ''y'' ''z'' 7 ex_old_part (snd ex_published)"

theorem overlapping_part_mixes_witness:
  "fst ex_mixed_run = Ok ex_mixed_metadata
   \<and> visible ext0 ex_mixed_codec (ms_fs (snd ex_mixed_run)) (''b'', ''k'') = Some (ex_mixed_metadata, ''HELLO'')
   \<and> om_etag ex_mixed_metadata = ETag_from_multipart_md5 (x_hex_encode ext0 (x_md5 ext0 ''hello'')) 1"
proof -
  have "fst ex_published = Ok (Some (ex_part 1 ''hello''))" by code_simp
  then have pub: "ex_published = (Ok (Some (ex_part 1 ''hello'')), snd ex_published)" by (metis prod.collapse)
  have ok: "fst ex_mixed_run = Ok ex_mixed_metadata" by code_simp
  then have run: "ex_mixed_run = (Ok ex_mixed_metadata, snd ex_mixed_run)" by (metis prod.collapse)
  have wf: "sessions_wf ex_mixed" using ex_store_wf [of "[]"] by (simp add: sessions_wf_def ex_mixed_def)
  have pre: "files (ms_fs ex_mixed) ex_T = Some ''HELLO''" "upload_ready (ms_fs ex_mixed) ''U'' ''x''"
    "ex_T \<noteq> part_backup ''U'' ''b'' 1" "codable ex_mixed_codec ex_mixed_metadata"
    "bt_get (ms_sessions ex_mixed) ''U'' = Some ex_session" "bt_get (us_parts ex_session) 1 = Some (ex_part 1 ''hello'')"
    by code_simp+
  have "ex_T \<in> session_files ''U''" by (simp add: session_files_def upload_dir_def)
  moreover have req: "cr_upload_id ex_old_part = ''U''" "cr_parts ex_old_part = [\<lparr>cp_part_number = 1, cp_etag = ''hello''\<rparr>]"
    "cr_processors ex_old_part = []" "cr_copy_buffer ex_old_part > 0" "cr_summary_buffer ex_old_part > 0"
    by (simp_all add: ex_complete_def)
  moreover have "length ''HELLO'' < u64_max" by simp
  ultimately obtain us pm where "bt_get (ms_sessions ex_mixed) ''U'' = Some us" "bt_get (us_parts us) 1 = Some pm"
    "visible ext0 ex_mixed_codec (ms_fs (snd ex_mixed_run)) (us_bucket us, us_key us) = Some (ex_mixed_metadata, ''HELLO'')"
    "om_etag ex_mixed_metadata = ETag_from_multipart_md5 (x_hex_encode ext0 (x_md5 ext0 (pm_md5 pm))) 1"
    using overlapping_part_mixes [OF pub run req(1,2) pre(1) _ _ pre(3,2) wf req(3-5) pre(4)] by blast
  moreover have "us_bucket ex_session = ''b''" "us_key ex_session = ''k''" "pm_md5 (ex_part 1 ''hello'') = ''hello''"
    by (simp_all add: ex_session_def ex_part_def)
  ultimately show ?thesis using pre(5,6) ok by simp
qed

section \<open>An abort that overlaps a completion\<close>

text \<open>What \<open>abort_upload\<close> does after it has read the open session.\<close>

definition abort_upload_rest :: "codec \<Rightarrow> string \<Rightarrow> upload_id \<Rightarrow> upload_session \<Rightarrow> (multipart, unit, store_error) io" where
  "abort_upload_rest J uuid u us =
     (let us' = us\<lparr>us_state := Aborted\<rparr>
      in io_bind (on_fs (persist_session J uuid us')) (\<lambda>_.
         io_bind (put_session u us') (\<lambda>_.
         io_match (on_fs (fs_remove_dir_all (upload_dir u))) (\<lambda>r. case r of
           Ok _ \<Rightarrow> drop_session u
         | Err NotFound \<Rightarrow> drop_session u
         | Err e \<Rightarrow> io_fail (SE_Io e)))))"

lemma abort_upload_split: "abort_upload J uuid u = io_bind (get_open_upload u) (abort_upload_rest J uuid u)"
  unfolding abort_upload_def abort_upload_rest_def Let_def by (rule refl)

text \<open>
  Both succeed: the abort reads the session, the upload is completed and its object published, and
  the abort then finishes with success.
\<close>

lemma abort_and_completion_both_succeed:
  "get_open_upload ''U'' (ex_store []) = (Ok ex_session, ex_store [])
   \<and> fst (complete_upload ext0 ex_done_codec ''1'' ''x'' ''y'' ''z'' 7 ex_both (ex_store [])) = Ok ex_done
   \<and> fst (abort_upload_rest ex_done_codec ''w'' ''U'' ex_session
       (snd (complete_upload ext0 ex_done_codec ''1'' ''x'' ''y'' ''z'' 7 ex_both (ex_store [])))) = Ok ()"
proof (intro conjI)
  show "get_open_upload ''U'' (ex_store []) = (Ok ex_session, ex_store [])"
    by (simp add: get_open_upload_eq ex_store_def bt_get_def is_open_def ex_session_def)
qed code_simp+

end
