(* ===== verification/Object_Interleaving.thy ===== *)
theory Object_Interleaving
  imports Object_Store
begin

text \<open>
  Concurrent publications of the same object. The store takes no lock; two tasks that commit the
  same key interleave at every file-system call, in particular between the two renames.
\<close>

section \<open>The two renames\<close>

text \<open>The sections of \<open>publish_renames\<close> around the switch of tasks between the renames.\<close>

definition publish_object_file :: "ext \<Rightarrow> path \<Rightarrow> object_metadata \<Rightarrow> (fs, unit, store_error) io" where
  "publish_object_file E temp_path md = se_io (fs_rename temp_path (object_path E (om_bucket md) (om_key md)))"

definition publish_metadata_file ::
  "ext \<Rightarrow> string \<Rightarrow> object_metadata \<Rightarrow> bool \<Rightarrow> bool \<Rightarrow> (fs, unit, store_error) io" where
  "publish_metadata_file E temp_id md had_object had_metadata =
     (let op = object_path E (om_bucket md) (om_key md);
          mp = metadata_path E (om_bucket md) (om_key md)
      in io_match (fs_rename (metadata_tmp temp_id) mp) (\<lambda>r. case r of
           Err e \<Rightarrow>
             io_ignore (rollback_published_file op (object_backup temp_id) had_object)
            (io_ignore (rollback_published_file mp (metadata_backup temp_id) had_metadata)
            (io_fail (SE_Io e)))
         | Ok _ \<Rightarrow> io_return ()))"

lemma publish_renames_split:
  "publish_renames E i T md ho hm = io_bind (publish_object_file E T md) (\<lambda>_. publish_metadata_file E i md ho hm)"
  by (simp add: publish_renames_def publish_object_file_def publish_metadata_file_def Let_def)

lemma rename_section_Ok:
  assumes "fs_rename a b s = (Ok (), s')"
  shows "files s' = (files s)(a := None, b := files s a)"
  using assms by (cases rule: fs_rename_cases) auto

lemma publish_object_Ok:
  assumes "publish_object_file E T md s = (Ok (), s')"
  shows "files s' = (files s)(T := None, op_of E md := files s T)"
proof -
  have "fs_rename T (op_of E md) s = (Ok (), s')"
    using assms by (auto simp: publish_object_file_def io_map_err_def res_simps split: prod.splits)
  then show ?thesis by (rule rename_section_Ok)
qed

lemma publish_metadata_Ok:
  assumes "publish_metadata_file E i md ho hm s = (Ok (), s')"
  shows "files s' = (files s)(metadata_tmp i := None, mp_of E md := files s (metadata_tmp i))"
proof -
  have "fs_rename (metadata_tmp i) (mp_of E md) s = (Ok (), s')"
    using assms by (auto simp: publish_metadata_file_def io_simps Let_def split: prod.splits result.splits)
  then show ?thesis by (rule rename_section_Ok)
qed

section \<open>Two publications of one object\<close>

text \<open>
  C38. Publication is not atomic across the two renames. Between them a reader (or a restart after a
  crash) finds the new bytes under the metadata of the object they replace; and when a second task
  that publishes the same key performs both of its renames between the two of the first, all four
  succeed, and the object that stays visible has the bytes of the second upload under the metadata
  (size, ETag, checksums) of the first.
\<close>

theorem overlapping_puts_mix:
  assumes "publish_object_file E [''tmp'', i @ ''.part''] md s = (Ok (), s1)"
    and "publish_object_file E [''tmp'', j @ ''.part''] md' s1 = (Ok (), s2)"
    and "publish_metadata_file E j md' ho' hm' s2 = (Ok (), s3)"
    and "publish_metadata_file E i md ho hm s3 = (Ok (), s4)"
    and "key_of md = key_of md'" "i \<noteq> j"
    and "files s [''tmp'', i @ ''.part''] = Some body" "files s [''tmp'', j @ ''.part''] = Some body'"
      "files s (metadata_tmp i) = j_object_encode J md" "codable J md"
  shows "visible E J s4 (key_of md) = Some (md, body')
    \<and> (\<forall>md0 old. visible E J s (key_of md) = Some (md0, old) \<longrightarrow> visible E J s1 (key_of md) = Some (md0, body))
    \<and> publish_renames E i T md ho hm = io_bind (publish_object_file E T md) (\<lambda>_. publish_metadata_file E i md ho hm)"
proof -
  let ?op = "op_of E md" and ?mp = "mp_of E md"
  have same: "op_of E md' = ?op" "mp_of E md' = ?mp" using assms(5) by auto
  have apart: "?op \<noteq> [''tmp'', x]" "?mp \<noteq> [''tmp'', x]" "[''tmp'', x] \<noteq> ?op" "[''tmp'', x] \<noteq> ?mp" for x
    by (auto simp: object_path_def metadata_path_def Let_def)
  have part: "[''tmp'', k @ ''.part''] \<noteq> metadata_tmp x" for k x
  proof
    assume "[''tmp'', k @ ''.part''] = metadata_tmp x"
    then have "last (last [''tmp'', k @ ''.part'']) = last (last (metadata_tmp x))" by (rule arg_cong)
    then show False by (simp add: metadata_tmp_def)
  qed
  have 1: "files s1 = (files s)([''tmp'', i @ ''.part''] := None, ?op := files s [''tmp'', i @ ''.part''])"
    by (rule publish_object_Ok [OF assms(1)])
  have 2: "files s2 = (files s1)([''tmp'', j @ ''.part''] := None, ?op := files s1 [''tmp'', j @ ''.part''])"
    using publish_object_Ok [OF assms(2)] same by simp
  have 3: "files s3 = (files s2)(metadata_tmp j := None, ?mp := files s2 (metadata_tmp j))"
    using publish_metadata_Ok [OF assms(3)] same by simp
  have 4: "files s4 = (files s3)(metadata_tmp i := None, ?mp := files s3 (metadata_tmp i))"
    by (rule publish_metadata_Ok [OF assms(4)])
  have "files s1 [''tmp'', j @ ''.part''] = Some body'" using 1 apart assms(6,8) by simp
  then have "files s2 ?op = Some body'" using 2 by simp
  then have op: "files s4 ?op = Some body'" using 3 4 apart by (simp add: metadata_tmp_def)
  have "files s1 (metadata_tmp i) = files s (metadata_tmp i)" using 1 part apart by (simp add: metadata_tmp_def)
  then have "files s2 (metadata_tmp i) = files s (metadata_tmp i)" using 2 part apart by (simp add: metadata_tmp_def)
  then have "files s3 (metadata_tmp i) = files s (metadata_tmp i)" using 3 assms(6) apart by (simp add: metadata_tmp_def)
  then have "files s4 ?mp = j_object_encode J md" using 4 assms(9) by simp
  with op assms(10) have last: "visible E J s4 (key_of md) = Some (md, body')"
    by (cases "j_object_encode J md") (simp_all add: visible_def codable_def)
  have "files s1 ?op = Some body" "files s1 ?mp = files s ?mp"
    using 1 assms(7) apart by simp_all
  then have "visible E J s1 (key_of md) = Some (md0, body)" if "visible E J s (key_of md) = Some (md0, old)" for md0 old
    using that by (auto simp: visible_def split: option.splits)
  with last publish_renames_split show ?thesis by blast
qed

text \<open>Two clients upload \<open>AAAA\<close> and \<open>BB\<close> to the same key.\<close>

definition ex_second :: object_metadata where
  "ex_second = ex_metadata\<lparr>om_size := 2, om_etag := ''f''\<rparr>"

definition ex_two_staged :: fs where
  "ex_two_staged = \<lparr>fs_nodes = bt_of_list [([''tmp''], DirNode),
     (butlast (op_of ext0 ex_metadata), DirNode), (butlast (mp_of ext0 ex_metadata), DirNode),
     ([''tmp'', ''1.part''], FileNode ''AAAA''), (metadata_tmp ''1'', FileNode ''json''),
     ([''tmp'', ''2.part''], FileNode ''BB''), (metadata_tmp ''2'', FileNode ''second'')], fs_faults = []\<rparr>"

theorem overlapping_puts_mix_witness:
  "\<exists>s1 s2 s3 s4. publish_object_file ext0 [''tmp'', ''1.part''] ex_metadata ex_two_staged = (Ok (), s1)
     \<and> publish_object_file ext0 [''tmp'', ''2.part''] ex_second s1 = (Ok (), s2)
     \<and> publish_metadata_file ext0 ''2'' ex_second False False s2 = (Ok (), s3)
     \<and> publish_metadata_file ext0 ''1'' ex_metadata False False s3 = (Ok (), s4)
     \<and> visible ext0 ex_codec s4 (''b'', ''k'') = Some (ex_metadata, ''BB'') \<and> om_size ex_metadata = 4"
proof -
  define s1 where "s1 = snd (publish_object_file ext0 [''tmp'', ''1.part''] ex_metadata ex_two_staged)"
  define s2 where "s2 = snd (publish_object_file ext0 [''tmp'', ''2.part''] ex_second s1)"
  define s3 where "s3 = snd (publish_metadata_file ext0 ''2'' ex_second False False s2)"
  define s4 where "s4 = snd (publish_metadata_file ext0 ''1'' ex_metadata False False s3)"
  have "fst (publish_object_file ext0 [''tmp'', ''1.part''] ex_metadata ex_two_staged) = Ok ()"
    "fst (publish_object_file ext0 [''tmp'', ''2.part''] ex_second s1) = Ok ()"
    "fst (publish_metadata_file ext0 ''2'' ex_second False False s2) = Ok ()"
    "fst (publish_metadata_file ext0 ''1'' ex_metadata False False s3) = Ok ()"
    unfolding s1_def s2_def s3_def by code_simp+
  then have run: "publish_object_file ext0 [''tmp'', ''1'' @ ''.part''] ex_metadata ex_two_staged = (Ok (), s1)"
    "publish_object_file ext0 [''tmp'', ''2'' @ ''.part''] ex_second s1 = (Ok (), s2)"
    "publish_metadata_file ext0 ''2'' ex_second False False s2 = (Ok (), s3)"
    "publish_metadata_file ext0 ''1'' ex_metadata False False s3 = (Ok (), s4)"
    by (simp_all add: s1_def s2_def s3_def s4_def prod_eq_iff)
  have "key_of ex_metadata = key_of ex_second" "files ex_two_staged [''tmp'', ''1'' @ ''.part''] = Some ''AAAA''"
    "files ex_two_staged [''tmp'', ''2'' @ ''.part''] = Some ''BB''"
    "files ex_two_staged (metadata_tmp ''1'') = j_object_encode ex_codec ex_metadata" "codable ex_codec ex_metadata"
    by code_simp+
  from overlapping_puts_mix [OF run this(1) _ this(2-5)]
  have "visible ext0 ex_codec s4 (''b'', ''k'') = Some (ex_metadata, ''BB'')" by (simp add: ex_metadata_def)
  with run show ?thesis by (auto simp: ex_metadata_def)
qed

end
