(* ===== verification/Config_Debug.thy ===== *)
theory Config_Debug
  imports S3_Config
begin

text \<open>
  The \<open>Debug\<close> implementations of \<open>config.rs\<close>, which decide what of the configuration can reach a
  log. An implementation is modelled by the tree of names and values it hands to the formatter;
  the text is a function of that tree.
\<close>

section \<open>Debug trees\<close>

datatype debug =
    D_Str string
  | D_Bool bool
  | D_Int int
  | D_Variant string
  | D_None
  | D_Some debug
  | D_Seq "debug list"
  | D_Struct string "(string \<times> debug) list"
  | D_Raw string

fun debug_option :: "('a \<Rightarrow> debug) \<Rightarrow> 'a option \<Rightarrow> debug" where
  "debug_option f None = D_None"
| "debug_option f (Some x) = D_Some (f x)"

definition debug_set :: "('a \<Rightarrow> debug) \<Rightarrow> 'a btset \<Rightarrow> debug" where
  "debug_set f s = D_Seq (map (\<lambda>e. f (fst e)) s)"

abbreviation debug_nat :: "nat \<Rightarrow> debug" where
  "debug_nat n \<equiv> D_Int (int n)"

section \<open>Debug implementations\<close>

text \<open>The derived \<open>Debug\<close> of \<open>S3Action\<close>: the name of the variant.\<close>

fun S3Action_debug :: "s3_action \<Rightarrow> debug" where
  "S3Action_debug Act_PutObject = D_Variant ''PutObject''"
| "S3Action_debug Act_GetObject = D_Variant ''GetObject''"
| "S3Action_debug Act_HeadObject = D_Variant ''HeadObject''"
| "S3Action_debug Act_DeleteObject = D_Variant ''DeleteObject''"
| "S3Action_debug Act_CreateMultipartUpload = D_Variant ''CreateMultipartUpload''"
| "S3Action_debug Act_UploadPart = D_Variant ''UploadPart''"
| "S3Action_debug Act_CompleteMultipartUpload = D_Variant ''CompleteMultipartUpload''"
| "S3Action_debug Act_AbortMultipartUpload = D_Variant ''AbortMultipartUpload''"
| "S3Action_debug Act_ListMultipartUploadParts = D_Variant ''ListMultipartUploadParts''"
| "S3Action_debug Act_HeadBucket = D_Variant ''HeadBucket''"

definition SecretKey_debug :: "secret_key \<Rightarrow> debug" where
  "SecretKey_debug k = D_Raw ''<redacted>''"

definition AccessKeyConfig_debug :: "access_key_config \<Rightarrow> debug" where
  "AccessKeyConfig_debug c = D_Struct ''AccessKeyConfig''
     [(''access_key_id'', D_Str (ak_access_key_id c)),
      (''secret_key'', D_Str ''<redacted>''),
      (''session_token'', debug_option D_Str (map_option (\<lambda>_. ''<redacted>'') (ak_session_token c))),
      (''active'', D_Bool (ak_active c)),
      (''allowed_buckets'', debug_set D_Str (ak_allowed_buckets c)),
      (''allowed_actions'', debug_set S3Action_debug (ak_allowed_actions c))]"

definition AccessKeyConfigBuilder_debug :: "access_key_config \<Rightarrow> debug" where
  "AccessKeyConfigBuilder_debug c = D_Struct ''AccessKeyConfigBuilder'' [(''config'', AccessKeyConfig_debug c)]"

definition AuthConfig_debug :: "auth_config \<Rightarrow> debug" where
  "AuthConfig_debug c = D_Struct ''AuthConfig''
     [(''allow_anonymous'', D_Bool (ac_allow_anonymous c)),
      (''access_key_id'', D_Str (ac_access_key_id c)),
      (''secret_key'', D_Str ''<redacted>''),
      (''session_token'', debug_option D_Str (map_option (\<lambda>_. ''<redacted>'') (ac_session_token c))),
      (''region'', D_Str (ac_region c)),
      (''max_skew_seconds'', D_Int (ac_max_skew_seconds c)),
      (''allowed_buckets'', debug_set D_Str (ac_allowed_buckets c)),
      (''allowed_actions'', debug_set S3Action_debug (ac_allowed_actions c)),
      (''credentials'', D_Seq (map AccessKeyConfig_debug (ac_credentials c)))]"

definition AuthConfigBuilder_debug :: "auth_config \<Rightarrow> debug" where
  "AuthConfigBuilder_debug c = D_Struct ''AuthConfigBuilder'' [(''config'', AuthConfig_debug c)]"

definition AuthState_debug :: "auth_state \<Rightarrow> debug" where
  "AuthState_debug st = D_Struct ''AuthState''
     [(''allow_anonymous'', D_Bool (au_allow_anonymous st)),
      (''region'', D_Str (au_region st)),
      (''max_skew_seconds'', D_Int (au_max_skew_seconds st)),
      (''anonymous_allowed_buckets'', debug_set D_Str (au_anonymous_allowed_buckets st)),
      (''credential_count'', debug_nat (length (au_credentials st)))]"

text \<open>The derived implementations of the structs around them.\<close>

definition UploadLimits_debug :: "upload_limits \<Rightarrow> debug" where
  "UploadLimits_debug l = D_Struct ''UploadLimits''
     [(''max_object_size'', debug_nat (ul_max_object_size l)),
      (''max_part_size'', debug_nat (ul_max_part_size l)),
      (''min_non_final_part_size'', debug_nat (ul_min_non_final_part_size l)),
      (''max_concurrent_s3_requests'', debug_nat (ul_max_concurrent_s3_requests l)),
      (''max_active_object_writers'', debug_nat (ul_max_active_object_writers l)),
      (''max_active_multipart_part_writers'', debug_nat (ul_max_active_multipart_part_writers l)),
      (''max_active_aws_chunked_decoders'', debug_nat (ul_max_active_aws_chunked_decoders l))]"

definition Config_debug :: "config \<Rightarrow> debug" where
  "Config_debug c = D_Struct ''Config''
     [(''storage_root'', D_Str (cf_storage_root c)),
      (''auth'', AuthConfig_debug (cf_auth c)),
      (''virtual_host_base_domain'', debug_option D_Str (cf_virtual_host_base_domain c)),
      (''upload_limits'', UploadLimits_debug (cf_upload_limits c))]"

definition ConfigBuilder_debug :: "config \<Rightarrow> debug" where
  "ConfigBuilder_debug c = D_Struct ''ConfigBuilder'' [(''config'', Config_debug c)]"

section \<open>What the output reveals\<close>

text \<open>The configuration with every secret key and every session token blanked out.\<close>

definition blank_key :: "access_key_config \<Rightarrow> access_key_config" where
  "blank_key c = c\<lparr>ak_secret_key := [], ak_session_token := map_option (\<lambda>_. []) (ak_session_token c)\<rparr>"

definition blank_auth :: "auth_config \<Rightarrow> auth_config" where
  "blank_auth c = c\<lparr>ac_secret_key := [], ac_session_token := map_option (\<lambda>_. []) (ac_session_token c),
     ac_credentials := map blank_key (ac_credentials c)\<rparr>"

definition blank_config :: "config \<Rightarrow> config" where
  "blank_config c = c\<lparr>cf_auth := blank_auth (cf_auth c)\<rparr>"

lemma S3Action_debug_inj: "S3Action_debug a = S3Action_debug b \<longleftrightarrow> a = b"
  by (cases a; cases b) simp_all

lemma debug_option_eq: "(\<And>x y. f x = f y \<longleftrightarrow> x = y) \<Longrightarrow> debug_option f a = debug_option f b \<longleftrightarrow> a = b"
  by (cases a; cases b) simp_all

lemma debug_token_eq:
  "debug_option D_Str (map_option (\<lambda>_. r) a) = debug_option D_Str (map_option (\<lambda>_. r) b) \<longleftrightarrow>
     map_option (\<lambda>_. []) a = (map_option (\<lambda>_. []) b :: string option)"
  by (cases a; cases b) simp_all

lemma map_eq_by:
  assumes "\<And>x y. f x = f y \<longleftrightarrow> g x = g y"
  shows "map f xs = map f ys \<longleftrightarrow> map g xs = map g ys"
  using assms by (auto simp: list_eq_iff_nth_eq)

lemma debug_set_eq: "(\<And>x y. f x = f y \<longleftrightarrow> x = y) \<Longrightarrow> debug_set f a = debug_set f b \<longleftrightarrow> a = b"
  using map_eq_by [of "\<lambda>e :: 'a \<times> unit. f (fst e)" "\<lambda>e. e" a b] by (simp add: debug_set_def prod_eq_iff)

lemmas debug_eqs = debug_option_eq debug_set_eq debug_token_eq S3Action_debug_inj

lemma AccessKeyConfig_debug_eq: "AccessKeyConfig_debug a = AccessKeyConfig_debug b \<longleftrightarrow> blank_key a = blank_key b"
  by (cases a; cases b) (auto simp: AccessKeyConfig_debug_def blank_key_def debug_eqs)

lemma AuthConfig_debug_eq: "AuthConfig_debug a = AuthConfig_debug b \<longleftrightarrow> blank_auth a = blank_auth b"
  using map_eq_by [of AccessKeyConfig_debug blank_key, OF AccessKeyConfig_debug_eq]
  by (cases a; cases b) (auto simp: AuthConfig_debug_def blank_auth_def debug_eqs)

lemma UploadLimits_debug_eq: "UploadLimits_debug a = UploadLimits_debug b \<longleftrightarrow> a = b"
  by (cases a; cases b) (auto simp: UploadLimits_debug_def)

text \<open>
  C32. Debug output hides exactly the secrets: two configurations (or their builders) print the same
  if and only if they differ at most in secret keys and in the text of session tokens; the printed
  authentication state shows no credential at all, only their number.
\<close>

theorem debug_hides_exactly_secrets:
  "(ConfigBuilder_debug c = ConfigBuilder_debug c' \<longleftrightarrow> blank_config c = blank_config c')
   \<and> (AuthConfigBuilder_debug a = AuthConfigBuilder_debug a' \<longleftrightarrow> blank_auth a = blank_auth a')
   \<and> (AccessKeyConfigBuilder_debug k = AccessKeyConfigBuilder_debug k' \<longleftrightarrow> blank_key k = blank_key k')
   \<and> SecretKey_debug s = SecretKey_debug s'
   \<and> (AuthState_debug st = AuthState_debug st' \<longleftrightarrow>
       st\<lparr>au_credentials := []\<rparr> = st'\<lparr>au_credentials := []\<rparr> \<and> length (au_credentials st) = length (au_credentials st'))"
proof (intro conjI)
  show "AuthState_debug st = AuthState_debug st' \<longleftrightarrow>
      st\<lparr>au_credentials := []\<rparr> = st'\<lparr>au_credentials := []\<rparr> \<and> length (au_credentials st) = length (au_credentials st')"
    by (cases st; cases st') (auto simp: AuthState_debug_def debug_eqs)
  show "ConfigBuilder_debug c = ConfigBuilder_debug c' \<longleftrightarrow> blank_config c = blank_config c'"
    by (cases c; cases c')
      (auto simp: ConfigBuilder_debug_def Config_debug_def blank_config_def debug_eqs AuthConfig_debug_eq UploadLimits_debug_eq)
qed (simp_all add: AuthConfigBuilder_debug_def AccessKeyConfigBuilder_debug_def SecretKey_debug_def
    AuthConfig_debug_eq AccessKeyConfig_debug_eq)

end
