(* ===== verification/S3_Router.thy ===== *)
theory S3_Router
  imports Dispatch_Props S3_Server
begin

text \<open>
  The routing table (\<open>http.rs\<close>), the health check (\<open>handlers/health.rs\<close>) and what the service
  does with a request. Which pattern of the table a path selects is decided by axum; the matcher
  is a parameter, with its documented rules as the predicate \<open>axum_law\<close>.
\<close>

section \<open>The routing table\<close>

datatype endpoint = EP_S3 | EP_Health

text \<open>\<open>any(handler)\<close> and \<open>get(handler)\<close>; the latter also serves HEAD.\<close>

datatype method_router = MR_Any endpoint | MR_Get endpoint

record router_options =
  ro_health_path :: "string option"

definition router_with_options :: "router_options \<Rightarrow> (string \<times> method_router) list" where
  "router_with_options options =
     (let router = [(''/'', MR_Any EP_S3), (''/{*path}'', MR_Any EP_S3)]
      in case ro_health_path options of
           Some path \<Rightarrow> router @ [(path, MR_Get EP_Health)]
         | None \<Rightarrow> router)"

definition default_router :: "(string \<times> method_router) list" where
  "default_router = router_with_options \<lparr>ro_health_path = Some ''/health''\<rparr>"

definition health :: response where
  "health = \<lparr>rsp_status = 204, rsp_headers = [], rsp_body = [], rsp_decoded_bytes = None\<rparr>"

section \<open>Serving\<close>

text \<open>Answers that axum gives itself: no route, or no handler for the method.\<close>

definition plain_status :: "nat \<Rightarrow> response" where
  "plain_status n = \<lparr>rsp_status = n, rsp_headers = [], rsp_body = [], rsp_decoded_bytes = None\<rparr>"

fun method_handler :: "method_router \<Rightarrow> string \<Rightarrow> endpoint option" where
  "method_handler (MR_Any e) meth = Some e"
| "method_handler (MR_Get e) meth = (if meth = ''GET'' \<or> meth = ''HEAD'' then Some e else None)"

definition serve_http ::
  "(string list \<Rightarrow> string \<Rightarrow> string option) \<Rightarrow> (string \<times> method_router) list
     \<Rightarrow> ext \<Rightarrow> web \<Rightarrow> env \<Rightarrow> app_state \<Rightarrow> string \<Rightarrow> request \<Rightarrow> world \<Rightarrow> response option \<times> world" where
  "serve_http select table E W V A request_id rq w =
     (case Option.bind (select (map fst table) (uri_path (rq_uri rq))) (map_of table) of
        None \<Rightarrow> (Some (plain_status 404), w)
      | Some mr \<Rightarrow>
          (case method_handler mr (rq_method rq) of
             None \<Rightarrow> (Some (plain_status 405), w)
           | Some EP_S3 \<Rightarrow> handle_s3_request E W V A request_id rq w
           | Some EP_Health \<Rightarrow> (Some health, w)))"

section \<open>The rules of the matcher\<close>

text \<open>A pattern without captures.\<close>

definition static_path :: "string \<Rightarrow> bool" where
  "static_path p \<longleftrightarrow> CHR ''{'' \<notin> set p \<and> CHR ''}'' \<notin> set p"

text \<open>
  A path that is itself a static pattern selects that pattern; a path of at least one character
  after the slash that no static pattern matches selects the wildcard, when all other patterns are
  static.
\<close>

definition axum_law :: "(string list \<Rightarrow> string \<Rightarrow> string option) \<Rightarrow> bool" where
  "axum_law select \<longleftrightarrow>
     (\<forall>ps p. p \<in> set ps \<longrightarrow> static_path p \<longrightarrow> select ps p = Some p)
     \<and> (\<forall>ps p. ''/{*path}'' \<in> set ps \<longrightarrow> starts_with p ''/'' \<longrightarrow> 1 < length p \<longrightarrow>
         (\<forall>q\<in>set ps. q = ''/{*path}'' \<or> static_path q \<and> q \<noteq> p) \<longrightarrow> select ps p = Some ''/{*path}'')"

definition ex_select :: "string list \<Rightarrow> string \<Rightarrow> string option" where
  "ex_select ps p =
     (if p \<in> set ps \<and> static_path p then Some p
      else if ''/{*path}'' \<in> set ps \<and> starts_with p ''/'' \<and> 1 < length p then Some ''/{*path}''
      else None)"

lemma wildcard_not_static: "\<not> static_path ''/{*path}''" and root_static: "static_path ''/''"
  by (simp_all add: static_path_def)

lemma axum_law_ex: "axum_law ex_select"
  using wildcard_not_static by (auto simp: axum_law_def ex_select_def)

text \<open>What \<open>validate_health_path\<close> ensures of the health path.\<close>

lemma valid_health_path:
  "validate_health_path (Some p) = Ok () \<longleftrightarrow> starts_with p ''/'' \<and> 1 < length p \<and> CHR ''*'' \<notin> set p"
  by (simp add: validate_health_path_def)

text \<open>
  C31. Routing: with a health path that passed validation and has no captures, every request whose
  path begins with a slash reaches the S3 handler, except those whose path is the health path:
  these are answered 204 for GET and HEAD and 405 for every other method, in every addressing
  style, and do not touch the stores. No request is answered 404 by the router.
\<close>

theorem router_exact:
  assumes "axum_law select" "validate_health_path hp = Ok ()" "\<forall>p. hp = Some p \<longrightarrow> static_path p"
    and "starts_with (uri_path (rq_uri rq)) ''/''"
  shows "serve_http select (router_with_options \<lparr>ro_health_path = hp\<rparr>) E W V A i rq w =
    (if hp = Some (uri_path (rq_uri rq))
     then (if rq_method rq = ''GET'' \<or> rq_method rq = ''HEAD'' then (Some health, w) else (Some (plain_status 405), w))
     else handle_s3_request E W V A i rq w)"
proof -
  let ?P = "uri_path (rq_uri rq)"
  let ?ps = "map fst (router_with_options \<lparr>ro_health_path = hp\<rparr>)"
  have ps: "set ?ps = {''/'', ''/{*path}''} \<union> set_option hp"
    by (cases hp) (auto simp: router_with_options_def)
  have hp: "static_path p \<and> p \<noteq> ''/'' \<and> p \<noteq> ''/{*path}''" if "hp = Some p" for p
    using assms(2,3) that wildcard_not_static by (auto simp: valid_health_path)
  have static: "select ?ps p = Some p" if "p \<in> set ?ps" "static_path p" for p
    using assms(1) that unfolding axum_law_def by blast
  have wild: "select ?ps ?P = Some ''/{*path}''" if "hp \<noteq> Some ?P" "?P \<noteq> ''/''"
  proof -
    have "1 < length ?P" using assms(4) that(2) by (cases ?P; cases "tl ?P") (auto simp: starts_with_iff)
    moreover have "\<forall>q\<in>set ?ps. q = ''/{*path}'' \<or> static_path q \<and> q \<noteq> ?P"
      unfolding ps using hp that root_static by (cases hp) auto
    ultimately show ?thesis using assms(1,4) ps unfolding axum_law_def by blast
  qed
  let ?t = "router_with_options \<lparr>ro_health_path = hp\<rparr>"
  have s3: "map_of ?t ''/'' = Some (MR_Any EP_S3)" "map_of ?t ''/{*path}'' = Some (MR_Any EP_S3)"
    by (cases hp; simp add: router_with_options_def)+
  show ?thesis
  proof (cases "hp = Some ?P")
    case True
    have "?P \<in> set ?ps" unfolding ps using True by simp
    then have "select ?ps ?P = Some ?P" using static hp [OF True] by blast
    moreover have "map_of ?t ?P = Some (MR_Get EP_Health)"
      using hp [OF True] by (simp add: router_with_options_def True)
    ultimately show ?thesis using True by (simp add: serve_http_def)
  next
    case False
    have "select ?ps ?P = Some ''/''" if "?P = ''/''"
      using static [of "''/''"] root_static unfolding that ps by blast
    with wild [OF False] have "select ?ps ?P = Some ''/'' \<or> select ?ps ?P = Some ''/{*path}''" by blast
    with s3 False show ?thesis by (auto simp: serve_http_def)
  qed
qed

text \<open>A PUT in virtual-hosted style of an object with the key \<open>health\<close>.\<close>

definition ex_virtual_app :: app_state where
  "ex_virtual_app = (ex_app ex_codec)\<lparr>app_config :=
     (Config_new ''/data'')\<lparr>cf_virtual_host_base_domain := Some ''s3.local''\<rparr>\<rparr>"

definition ex_virtual_put :: request where
  "ex_virtual_put = \<lparr>rq_method = ''PUT'', rq_uri = \<lparr>uri_path = ''/health'', uri_query = None\<rparr>,
     rq_headers = [(''host'', ''bucket.s3.local'')], rq_body = []\<rparr>"

theorem router_exact_witness:
  "map_ok (\<lambda>t. (tgt_bucket t, tgt_key t)) (resolve_request_target ext0 ex_virtual_app ex_virtual_put) = Ok (''bucket'', ''health'')
   \<and> serve_http ex_select default_router ext0 ex_web ex_env ex_virtual_app ''r'' ex_virtual_put ex_world
     = (Some (plain_status 405), ex_world)"
proof -
  have "map_ok (\<lambda>t. (tgt_bucket t, tgt_key t)) (resolve_request_target ext0 ex_virtual_app ex_virtual_put) = Ok (''bucket'', ''health'')"
    by code_simp
  moreover have "validate_health_path (Some ''/health'') = Ok ()" "static_path ''/health''"
    "starts_with (uri_path (rq_uri ex_virtual_put)) ''/''"
    by code_simp+
  then have "serve_http ex_select default_router ext0 ex_web ex_env ex_virtual_app ''r'' ex_virtual_put ex_world
     = (Some (plain_status 405), ex_world)"
    using router_exact [OF axum_law_ex, of "Some ''/health''" ex_virtual_put]
    by (simp add: default_router_def ex_virtual_put_def)
  ultimately show ?thesis by blast
qed

end
