(* ===== verification/Server_Main.thy ===== *)
theory Server_Main
  imports Server_Runs S3_Router
begin

text \<open>
  The server binary (\<open>main.rs\<close>): from the command line and the credentials file to a running
  server. What the program prints is left out; the accept loop of axum calls \<open>serve_http\<close> on the
  router that \<open>main\<close> hands over.
\<close>

section \<open>The entry point\<close>

text \<open>\<open>router\<close> of \<open>lib.rs\<close>: the routing table with the state its handlers share.\<close>

definition router :: "app_state \<Rightarrow> (string \<times> method_router) list \<times> app_state" where
  "router state = (default_router, state)"

fun init_failed :: "app_init_error fail \<Rightarrow> main_error fail" where
  "init_failed (Fail e) = Fail (ME_Init e)"
| "init_failed Panic = Panic"

text \<open>
  \<open>main\<close> up to the call of \<open>axum::serve\<close>, whose arguments are the result. \<open>subscriber\<close> is the
  outcome of installing the log subscriber and \<open>bind\<close> that of binding the listener.
\<close>

definition main ::
  "(unit, string) result \<Rightarrow> (string \<Rightarrow> (string, string) result) \<Rightarrow> (string \<Rightarrow> (credential_json list, string) result)
     \<Rightarrow> (string \<Rightarrow> (unit, string) result) \<Rightarrow> nat \<Rightarrow> codec \<Rightarrow> timestamp \<Rightarrow> cli
     \<Rightarrow> (multipart, ((string \<times> method_router) list \<times> app_state) \<times> admission, main_error fail) io" where
  "main subscriber read parse bind max_permits J now cli =
     io_bind (io_lift (map_err (\<lambda>m. Fail (ME_Logging m)) subscriber)) (\<lambda>_.
     io_bind (io_lift (map_err Fail (load_credentials_file read parse (cli_credentials_file cli)))) (\<lambda>credentials.
     io_bind (io_map_err init_failed (AppState_new max_permits J now (cli_config cli credentials))) (\<lambda>(state, adm).
     io_bind (io_lift (map_err (\<lambda>m. Fail (ME_Listener m)) (bind (cli_addr cli)))) (\<lambda>_.
     io_return (router state, adm)))))"

section \<open>What a start of the binary does\<close>

lemma main_cases:
  assumes "main subscriber read parse bind mp J now c st = (r, st')"
  obtains (early) e where "r = Err (Fail e)" "st' = st" "subscriber \<noteq> Ok () \<or> load_credentials_file read parse (cli_credentials_file c) = Err e"
  | (start) creds q where "load_credentials_file read parse (cli_credentials_file c) = Ok creds"
      "AppState_from_builder mp J now (AppState_builder (cli_config c creds)) st = (q, st')"
      "\<And>e. q = Err e \<Longrightarrow> r = Err (init_failed e)"
      "\<And>A adm. q = Ok (A, adm) \<Longrightarrow> bind (cli_addr c) = Ok () \<Longrightarrow> r = Ok (router A, adm)"
      "\<And>A adm m. q = Ok (A, adm) \<Longrightarrow> bind (cli_addr c) = Err m \<Longrightarrow> r = Err (Fail (ME_Listener m))"
proof -
  let ?load = "load_credentials_file read parse (cli_credentials_file c)"
  show thesis
  proof (cases "subscriber = Ok () \<and> is_ok ?load")
    case False
    then have "\<exists>e. r = Err (Fail e) \<and> st' = st \<and> (subscriber \<noteq> Ok () \<or> ?load = Err e)"
      using assms by (cases subscriber; cases ?load) (auto simp: main_def io_simps is_ok_iff)
    then show thesis by (elim exE conjE) (rule early)
  next
    case True
    then obtain creds where load: "subscriber = Ok ()" "?load = Ok creds" by (auto simp: is_ok_iff)
    obtain q st1 where q: "AppState_from_builder mp J now (AppState_builder (cli_config c creds)) st = (q, st1)" by force
    have "st' = st1 \<and> (\<forall>e. q = Err e \<longrightarrow> r = Err (init_failed e))
      \<and> (\<forall>A adm. q = Ok (A, adm) \<longrightarrow> bind (cli_addr c) = Ok () \<longrightarrow> r = Ok (router A, adm))
      \<and> (\<forall>A adm m. q = Ok (A, adm) \<longrightarrow> bind (cli_addr c) = Err m \<longrightarrow> r = Err (Fail (ME_Listener m)))"
      using assms load q
      by (cases q; cases "bind (cli_addr c)") (auto simp: main_def AppState_new_def io_simps split: prod.splits)
    with load q show thesis by (intro start [of creds q]) auto
  qed
qed

lemma main_Ok:
  assumes "main subscriber read parse bind mp J now c st = (Ok ((table, A), adm), st')"
  obtains creds where "load_credentials_file read parse (cli_credentials_file c) = Ok creds" "table = default_router"
    "AppState_from_builder mp J now (AppState_builder (cli_config c creds)) st = (Ok (A, adm), st')"
  using assms
proof (cases rule: main_cases)
  case (start creds q)
  then show thesis
    by (cases q; cases "bind (cli_addr c)") (auto simp: router_def intro: that)
qed simp

lemma from_builder_codec:
  "AppState_from_builder mp J now b st = (Ok (A, adm), st') \<Longrightarrow>
   app_codec A = J \<and> app_authentication_provider A = ab_authentication_provider b"
  unfolding AppState_from_builder_def io_bind_Ok
  by (elim exE conjE) (auto simp: io_lift_def io_return_def or_panic_def res_simps)

lemma start_needs_config:
  "AppState_from_builder mp J now b st = (q, st') \<Longrightarrow> Config_validate (ab_config b) = Err e \<Longrightarrow>
   q = Err (Fail (AI_Config e)) \<and> st' = st"
  by (auto simp: AppState_from_builder_def io_simps)

section \<open>The credentials file\<close>

text \<open>The entries of the file, when it can be read.\<close>

definition file_entries ::
  "(string \<Rightarrow> (string, string) result) \<Rightarrow> (string \<Rightarrow> (credential_json list, string) result) \<Rightarrow> string option
     \<Rightarrow> credential_json list" where
  "file_entries read parse path =
     (case path of
        None \<Rightarrow> []
      | Some p \<Rightarrow> (case and_then (read p) parse of Ok entries \<Rightarrow> entries | Err m \<Rightarrow> []))"

text \<open>What an allow-list means: a list that is absent or empty allows everything.\<close>

definition allows :: "('a \<Rightarrow> 'b \<Rightarrow> bool) \<Rightarrow> 'a list \<Rightarrow> 'b \<Rightarrow> bool" where
  "allows means xs y \<longleftrightarrow> xs = [] \<or> (\<exists>x\<in>set xs. means x y)"

definition grants :: "auth_state \<Rightarrow> credential_json \<Rightarrow> bool" where
  "grants auth e \<longleftrightarrow>
     (\<exists>key. AuthState_credential auth (cj_access_key_id e) = Some key \<and> sk_secret_key key = cj_secret_key e
       \<and> sk_session_token key = cj_session_token e \<and> sk_active key = (cj_active e \<noteq> Some False))
     \<and> (\<forall>b a. permits_credential auth (cj_access_key_id e) b a
         \<longleftrightarrow> allows (=) (unwrap_or [] (cj_allowed_buckets e)) b
           \<and> allows (\<lambda>v a. v \<in> set (spelling a)) (unwrap_or [] (cj_allowed_actions e)) a)"

lemma btset_of_contains: "bt_contains (btset_of xs) x \<longleftrightarrow> x \<in> set xs"
  by (simp add: bt_contains_def btset_of_def bt_get_of_list map_of_eq_None_iff image_image)

lemma btset_of_empty: "btset_of xs = bt_empty \<longleftrightarrow> xs = []"
proof (cases xs)
  case (Cons x ys)
  then have "bt_contains (btset_of xs) x" by (simp add: btset_of_contains)
  with Cons show ?thesis by (auto simp: bt_contains_def)
qed (simp add: btset_of_def bt_of_list_def)

lemma btset_of_allows: "btset_of xs = bt_empty \<or> bt_contains (btset_of xs) x \<longleftrightarrow> allows (=) xs x"
  by (auto simp: btset_of_empty btset_of_contains allows_def)

lemma parse_actions_allow:
  assumes "collect_res parse_s3_action vs = Ok actions"
  shows "allows (=) actions a \<longleftrightarrow> allows (\<lambda>v a. v \<in> set (spelling a)) vs a"
proof -
  have "list_all2 (\<lambda>v a. v \<in> set (spelling a)) vs actions"
    using assms by (auto simp: res_simps parse_s3_action_def S3Action_from_str_spelling elim!: list_all2_mono)
  moreover have "v \<in> set (spelling a) \<Longrightarrow> v \<in> set (spelling a') \<Longrightarrow> a = a'" for v a'
    by (metis S3Action_from_str_spelling result.inject(1))
  ultimately have "(\<exists>v\<in>set vs. v \<in> set (spelling a)) \<longleftrightarrow> a \<in> set actions"
    by (induction rule: list_all2_induct) auto
  moreover have "vs = [] \<longleftrightarrow> actions = []" using assms by (auto simp: res_simps)
  ultimately show ?thesis by (auto simp: allows_def)
qed

lemma load_credentials_Ok:
  assumes "load_credentials_file read parse path = Ok creds"
  shows "list_all2 (\<lambda>e k. CredentialFileEntry_try_into_config (CredentialFileEntry_deserialize e) = Ok k)
    (file_entries read parse path) creds"
  using assms
  by (auto simp: load_credentials_file_def file_entries_def parse_credentials_json_def res_simps
      split: option.splits result.splits)

lemma file_entry_grants:
  assumes auth: "AuthState_new c = Ok auth" and k: "k \<in> set (ac_credentials c)"
    and e: "CredentialFileEntry_try_into_config (CredentialFileEntry_deserialize e) = Ok k"
  shows "grants auth e"
proof -
  from e obtain actions where actions: "collect_res parse_s3_action (unwrap_or [] (cj_allowed_actions e)) = Ok actions"
    and k_eq: "k = \<lparr>ak_access_key_id = cj_access_key_id e, ak_secret_key = cj_secret_key e,
      ak_session_token = cj_session_token e, ak_active = unwrap_or default_active (cj_active e),
      ak_allowed_buckets = btset_of (unwrap_or [] (cj_allowed_buckets e)), ak_allowed_actions = btset_of actions\<rparr>"
    by (auto simp: CredentialFileEntry_try_into_config_def CredentialFileEntry_deserialize_def res_simps)
  have key: "AuthState_credential auth (cj_access_key_id e) = Some (stored_additional k)"
    unfolding AuthState_lookup [OF auth] using k by (intro disjI2 bexI [of _ k]) (simp_all add: k_eq)
  have "unwrap_or default_active (cj_active e) = (cj_active e \<noteq> Some False)"
    by (cases "cj_active e") (auto simp: default_active_def)
  with key parse_actions_allow [OF actions] show ?thesis
    by (simp add: grants_def permits_credential_def stored_additional_def k_eq btset_of_allows)
qed

lemma list_all2_member: "list_all2 R xs ys \<Longrightarrow> x \<in> set xs \<Longrightarrow> \<exists>y\<in>set ys. R x y"
  by (induction rule: list_all2_induct) auto

text \<open>The access keys of a server that loaded its credentials.\<close>

lemma loaded_credentials:
  assumes load: "load_credentials_file read parse (cli_credentials_file c) = Ok creds"
    and auth: "AuthState_new (cf_auth (cli_config c creds)) = Ok auth"
  shows "AuthState_credential auth i \<noteq> None
      \<longleftrightarrow> i \<in> {cli_access_key_id c} \<union> cj_access_key_id ` set (file_entries read parse (cli_credentials_file c))"
    and "e \<in> set (file_entries read parse (cli_credentials_file c)) \<Longrightarrow> grants auth e"
    and "permits_credential auth (cli_access_key_id c) b a
      \<longleftrightarrow> allows (=) (cli_allowed_buckets c) b \<and> allows (=) (cli_allowed_actions c) a"
proof -
  let ?entries = "file_entries read parse (cli_credentials_file c)"
  have creds: "ac_credentials (cf_auth (cli_config c creds)) = creds" "ac_access_key_id (cf_auth (cli_config c creds)) = cli_access_key_id c"
    by (simp_all add: cli_config_def)
  note entries = load_credentials_Ok [OF load] and lookup = AuthState_lookup [OF auth, unfolded creds]
  have "map ak_access_key_id creds = map cj_access_key_id ?entries"
    using entries
    by (induction rule: list_all2_induct)
      (auto simp: CredentialFileEntry_try_into_config_def CredentialFileEntry_deserialize_def res_simps)
  then have "cj_access_key_id ` set ?entries = ak_access_key_id ` set creds" by (metis list.set_map)
  moreover have "AuthState_credential auth i \<noteq> None \<longleftrightarrow> i = cli_access_key_id c \<or> (\<exists>k\<in>set creds. i = ak_access_key_id k)"
    using lookup [of i] by (metis not_None_eq)
  ultimately show "AuthState_credential auth i \<noteq> None \<longleftrightarrow> i \<in> {cli_access_key_id c} \<union> cj_access_key_id ` set ?entries"
    by auto
  show "grants auth e" if "e \<in> set ?entries"
    using list_all2_member [OF entries that] file_entry_grants [OF auth] creds by auto
  have "AuthState_credential auth (cli_access_key_id c) = Some (stored_primary (cf_auth (cli_config c creds)))"
    using lookup by simp
  then show "permits_credential auth (cli_access_key_id c) b a
      \<longleftrightarrow> allows (=) (cli_allowed_buckets c) b \<and> allows (=) (cli_allowed_actions c) a"
    by (simp add: permits_credential_def stored_primary_def cli_config_def btset_of_allows)
qed

section \<open>The start of the binary\<close>

text \<open>
  C33. A start of the server binary does what its options say. Whatever the outcome, every object
  stays visible with its metadata and bytes; the storage root is not touched unless the
  credentials file was read and parsed in full and the configuration is valid. A start that
  succeeds serves the default routes, in front of an application that authenticates by SigV4, on
  stores opened from what the root held. Its access keys are exactly the one of the command line
  and those of the file. An entry of the file has its own secret and session token, is inactive
  only when the file says so, and permits exactly the listed buckets and actions, in any spelling
  of an action, where an absent or empty list permits everything; and so does the key of the
  command line.
\<close>

theorem main_starts_server:
  assumes "main subscriber read parse bind mp J now c st = (r, st')" "length (object_digest E bu k) \<ge> 2"
  shows "visible E J (ms_fs st') (bu, k) = visible E J (ms_fs st) (bu, k)
    \<and> (is_ok r \<or> st' \<noteq> st \<longrightarrow> (\<exists>creds. load_credentials_file read parse (cli_credentials_file c) = Ok creds
         \<and> Config_validate (cli_config c creds) = Ok ()))
    \<and> (\<forall>table A adm. r = Ok ((table, A), adm) \<longrightarrow>
         table = default_router \<and> app_authentication_provider A = None
         \<and> boots mp (AppState_builder (app_config A)) A (fs_nodes (ms_fs st)) st' adm
         \<and> (\<forall>i. AuthState_credential (app_auth A) i \<noteq> None
              \<longleftrightarrow> i \<in> {cli_access_key_id c} \<union> cj_access_key_id ` set (file_entries read parse (cli_credentials_file c)))
         \<and> (\<forall>e\<in>set (file_entries read parse (cli_credentials_file c)). grants (app_auth A) e)
         \<and> (\<forall>b a. permits_credential (app_auth A) (cli_access_key_id c) b a
              \<longleftrightarrow> allows (=) (cli_allowed_buckets c) b \<and> allows (=) (cli_allowed_actions c) a))"
proof (intro conjI allI impI)
  let ?load = "load_credentials_file read parse (cli_credentials_file c)"
  show "visible E J (ms_fs st') (bu, k) = visible E J (ms_fs st) (bu, k)"
    using assms(1) by (cases rule: main_cases) (auto dest: start_keeps [OF _ assms(2)])
  assume "is_ok r \<or> st' \<noteq> st"
  with assms(1) show "\<exists>creds. ?load = Ok creds \<and> Config_validate (cli_config c creds) = Ok ()"
  proof (cases rule: main_cases)
    case (start creds q)
    with \<open>is_ok r \<or> st' \<noteq> st\<close> start_needs_config [OF start(2)] show ?thesis
      by (cases "Config_validate (cli_config c creds)") (auto simp: AppState_builder_def)
  qed simp
next
  let ?entries = "file_entries read parse (cli_credentials_file c)"
  fix table A adm
  assume "r = Ok ((table, A), adm)"
  with assms(1) obtain creds where load: "load_credentials_file read parse (cli_credentials_file c) = Ok creds"
    and table: "table = default_router"
    and run: "AppState_from_builder mp J now (AppState_builder (cli_config c creds)) st = (Ok (A, adm), st')"
    by (auto elim: main_Ok)
  note cfg = from_builder_Ok [OF run] and codec = from_builder_codec [OF run]
  have conf: "app_config A = cli_config c creds" and auth: "AuthState_new (cf_auth (cli_config c creds)) = Ok (app_auth A)"
    using cfg by (simp_all add: AppState_builder_def)
  note keys = loaded_credentials [OF load auth]
  show "table = default_router" by (rule table)
  show "app_authentication_provider A = None" using codec by (simp add: AppState_builder_def)
  show "boots mp (AppState_builder (app_config A)) A (fs_nodes (ms_fs st)) st' adm"
    using run codec conf by (auto intro: boots.up)
  show "\<forall>e\<in>set ?entries. grants (app_auth A) e" using keys(2) by blast
  show "AuthState_credential (app_auth A) i \<noteq> None \<longleftrightarrow> i \<in> {cli_access_key_id c} \<union> cj_access_key_id ` set ?entries" for i
    by (rule keys(1))
  show "permits_credential (app_auth A) (cli_access_key_id c) b a
      \<longleftrightarrow> allows (=) (cli_allowed_buckets c) b \<and> allows (=) (cli_allowed_actions c) a" for b a
    by (rule keys(3))
qed

text \<open>A first start with a credentials file of one entry.\<close>

definition ex_cli :: cli where
  "ex_cli = \<lparr>cli_addr = ''127.0.0.1:9000'', cli_storage_root = ''./data'', cli_allow_anonymous = False,
     cli_access_key_id = ''test'', cli_secret_key = ''testsecret'', cli_session_token = None,
     cli_credentials_file = Some ''keys.json'', cli_region = ''us-east-1'', cli_max_skew_seconds = 900,
     cli_allowed_buckets = [], cli_allowed_actions = [], cli_virtual_host_base_domain = None,
     cli_max_object_size = None, cli_max_part_size = None, cli_min_non_final_part_size = None,
     cli_max_concurrent_s3_requests = None, cli_max_active_object_writers = None,
     cli_max_active_multipart_part_writers = None, cli_max_active_aws_chunked_decoders = None\<rparr>"

definition ex_entry :: credential_json where
  "ex_entry = \<lparr>cj_access_key_id = ''client-a'', cj_secret_key = ''client-secret'', cj_session_token = None,
     cj_active = None, cj_allowed_buckets = Some [''bucket-a''], cj_allowed_actions = Some [''s3:PutObject'', ''upload-part'']\<rparr>"

abbreviation ex_main :: "(((string \<times> method_router) list \<times> app_state) \<times> admission, main_error fail) result \<times> multipart" where
  "ex_main \<equiv> main (Ok ()) (\<lambda>_. Ok ''[..]'') (\<lambda>_. Ok [ex_entry]) (\<lambda>_. Ok ()) (2 ^ 60) ex_plain_codec 0 ex_cli (ex_tree_store [] [])"

lemma ex_main_ok: "is_ok (fst ex_main)"
  by code_simp

theorem main_starts_server_witness:
  "\<exists>table A adm. fst ex_main = Ok ((table, A), adm)
     \<and> permits_credential (app_auth A) ''client-a'' ''bucket-a'' Act_UploadPart
     \<and> \<not> permits_credential (app_auth A) ''client-a'' ''bucket-b'' Act_UploadPart
     \<and> \<not> permits_credential (app_auth A) ''client-a'' ''bucket-a'' Act_DeleteObject
     \<and> permits_credential (app_auth A) ''test'' ''bucket-b'' Act_DeleteObject"
proof -
  obtain table A adm where run: "fst ex_main = Ok ((table, A), adm)"
    using ex_main_ok by (auto simp: is_ok_iff)
  then have main: "ex_main = (Ok ((table, A), adm), snd ex_main)" by (metis prod.collapse)
  have entries: "file_entries (\<lambda>_. Ok ''[..]'') (\<lambda>_. Ok [ex_entry]) (cli_credentials_file ex_cli) = [ex_entry]"
    by (simp add: file_entries_def ex_cli_def)
  have cli: "cli_access_key_id ex_cli = ''test''" "cli_allowed_buckets ex_cli = []" "cli_allowed_actions ex_cli = []"
    by (simp_all add: ex_cli_def)
  have digest: "length (object_digest ext0 ''bucket'' ''key'') \<ge> 2"
    by code_simp
  have sp: "''upload-part'' \<in> set (spelling Act_UploadPart)" "\<forall>v\<in>{''s3:PutObject'', ''upload-part''}. v \<notin> set (spelling Act_DeleteObject)"
    by code_simp+
  from main_starts_server [OF main digest] have "grants (app_auth A) ex_entry"
    "\<And>b a. permits_credential (app_auth A) ''test'' b a"
    by (simp_all add: entries cli allows_def)
  with run sp show ?thesis
    by (auto simp: grants_def allows_def ex_entry_def)
qed

end
