(* ===== verification/Upload_Processors.thy ===== *)
theory Upload_Processors
  imports Server_Runs
begin

text \<open>
  Closure-backed upload processors (\<open>UploadProcessorFn\<close> of \<open>middleware.rs\<close>) and what a chain of
  them does to a staged object: it refines a chain of pure functions on the bytes.
\<close>

section \<open>Closures as processors\<close>

record upload_processor_handle =
  uh_context :: processor_context
  uh_current_path :: path
  uh_replacement_path :: path

definition UploadProcessorHandle_from_request :: "processor_context \<Rightarrow> path \<Rightarrow> path \<Rightarrow> upload_processor_handle" where
  "UploadProcessorHandle_from_request ctx current replacement =
     \<lparr>uh_context = ctx, uh_current_path = current, uh_replacement_path = replacement\<rparr>"

definition handle_keep :: processor_action where
  "handle_keep = Keep"

definition handle_replace :: processor_action where
  "handle_replace = Replace"

record upload_processor_fn =
  uf_name :: string
  uf_handler :: "upload_processor_handle \<Rightarrow> (fs, processor_action, processor_error) io"

definition UploadProcessorFn_new ::
  "string \<Rightarrow> (upload_processor_handle \<Rightarrow> (fs, processor_action, processor_error) io) \<Rightarrow> upload_processor_fn" where
  "UploadProcessorFn_new name handler = \<lparr>uf_name = name, uf_handler = handler\<rparr>"

definition UploadProcessorFn_process :: "upload_processor_fn \<Rightarrow> processor" where
  "UploadProcessorFn_process p ctx current replacement =
     (let handle = UploadProcessorHandle_from_request ctx current replacement in uf_handler p handle)"

fun UploadProcessorError_display :: "processor_error \<Rightarrow> string" where
  "UploadProcessorError_display (Rejected m) = m"
| "UploadProcessorError_display (Failed m) = m"

definition processor_error_of_store :: "store_error \<Rightarrow> processor_error" where
  "processor_error_of_store e = Failed (store_error_display e)"

definition AppBuilder_upload_processor_fn ::
  "string \<Rightarrow> (upload_processor_handle \<Rightarrow> (fs, processor_action, processor_error) io) \<Rightarrow> app_builder \<Rightarrow> app_builder" where
  "AppBuilder_upload_processor_fn name handler b =
     b\<lparr>ab_upload_processors := ab_upload_processors b @ [UploadProcessorFn_process (UploadProcessorFn_new name handler)]\<rparr>"

section \<open>Pure verdicts\<close>

text \<open>A closure that decides on the current bytes, through the methods of its handle.\<close>

datatype verdict = Accept | Rewrite bytes | Reject string | Break string

type_synonym judge = "processor_context \<Rightarrow> bytes \<Rightarrow> verdict"

definition judge_handler :: "judge \<Rightarrow> upload_processor_handle \<Rightarrow> (fs, processor_action, processor_error) io" where
  "judge_handler f h =
     io_bind (read_current (uh_current_path h)) (\<lambda>b.
     case f (uh_context h) b of
       Accept \<Rightarrow> io_return handle_keep
     | Rewrite c \<Rightarrow> io_bind (write_replacement (uh_replacement_path h) c) (\<lambda>_. io_return handle_replace)
     | Reject m \<Rightarrow> io_lift (handle_reject m)
     | Break m \<Rightarrow> io_lift (handle_fail m))"

abbreviation judge_processor :: "judge \<Rightarrow> processor" where
  "judge_processor f \<equiv> UploadProcessorFn_process (UploadProcessorFn_new [] (judge_handler f))"

text \<open>What a chain of them means.\<close>

fun judged :: "judge list \<Rightarrow> processor_context \<Rightarrow> bytes \<Rightarrow> (bytes, s3_error) result" where
  "judged [] ctx b = Ok b"
| "judged (f # fs) ctx b =
     (case f ctx b of
        Accept \<Rightarrow> judged fs ctx b
      | Rewrite c \<Rightarrow> judged fs ctx c
      | Reject m \<Rightarrow> Err (access_denied m)
      | Break m \<Rightarrow> Err (internal_error (''upload processor failed: '' @ m)))"

lemma judge_processor_eq:
  "judge_processor f ctx cur repl =
     io_bind (read_current cur) (\<lambda>b.
     case f ctx b of
       Accept \<Rightarrow> io_return Keep
     | Rewrite c \<Rightarrow> io_bind (write_replacement repl c) (\<lambda>_. io_return Replace)
     | Reject m \<Rightarrow> io_fail (Rejected m)
     | Break m \<Rightarrow> io_fail (Failed m))"
  by (simp add: UploadProcessorFn_process_def UploadProcessorFn_new_def UploadProcessorHandle_from_request_def
      judge_handler_def handle_keep_def handle_replace_def handle_reject_def handle_fail_def io_lift_def io_fail_def
      fun_eq_iff io_bind_def split: prod.split result.split verdict.split)

lemma judge_processor_confined: "confined (judge_processor f)"
  unfolding confined_def judge_processor_eq read_current_def write_replacement_def
  by (auto intro!: touches_bind touches_intros touches_mono [OF touches_calls(2)] split: verdict.split)

text \<open>Where the staged file and its replacements can be written.\<close>

definition staging_area :: "staged_object \<Rightarrow> string list \<Rightarrow> fs \<Rightarrow> bool" where
  "staging_area st uuids s \<longleftrightarrow> st_path st \<noteq> [] \<and> dir_in s (butlast (st_path st)) \<and> \<not> dir_in s (st_path st)
     \<and> (\<forall>u\<in>set uuids. replacement_path st u \<noteq> st_path st \<and> \<not> dir_in s (replacement_path st u))"

lemma fs_read_cases:
  assumes "fs_read p s = (r, s')" "files s p = Some b"
  shows "r = Ok b \<and> fs_nodes s' = fs_nodes s \<and> faults_left s' = faults_left s
    \<or> (\<exists>e. r = Err e) \<and> fs_nodes s' = fs_nodes s \<and> faults_left s = Suc (faults_left s')"
  using assms unfolding fs_read_def
  by (auto elim!: faulty_cases simp: read_i_def file_at_def split: option.splits node.splits)

lemma judge_processor_cases:
  assumes "judge_processor f ctx cur repl s = (q, s')" "files s cur = Some b"
    and "repl \<noteq> []" "dir_in s (butlast repl)" "\<not> dir_in s repl"
  obtains (verdict) "dir_in s' = dir_in s" "faults_left s' = faults_left s"
      "case f ctx b of Accept \<Rightarrow> q = Ok Keep \<and> files s' = files s
       | Rewrite c \<Rightarrow> q = Ok Replace \<and> files s' = (files s)(repl \<mapsto> c)
       | Reject m \<Rightarrow> q = Err (Rejected m) \<and> files s' = files s
       | Break m \<Rightarrow> q = Err (Failed m) \<and> files s' = files s"
  | (fault) e where "q = Err e" "faults_left s' < faults_left s"
proof -
  obtain r1 s1 where rd: "fs_read cur s = (r1, s1)" by force
  from fs_read_cases [OF rd assms(2)] show thesis
  proof (elim disjE conjE exE)
    assume r1: "r1 = Ok b" and s1: "fs_nodes s1 = fs_nodes s" "faults_left s1 = faults_left s"
    show thesis
    proof (cases "f ctx b")
      case (Rewrite c)
      obtain r2 s2 where wr: "fs_write repl c s1 = (r2, s2)" by force
      have "(q, s') = (map_ok (\<lambda>_. Replace) (map_err processor_error_of_io r2), s2)"
        using assms(1) rd r1 wr Rewrite
        by (cases r2) (simp_all add: judge_processor_eq read_current_def write_replacement_def io_simps)
      with fs_write_cases [OF wr assms(3)] assms(4,5) s1 Rewrite show thesis
        by (auto intro: verdict fault)
    qed (use assms(1) rd r1 s1 in \<open>auto simp: judge_processor_eq read_current_def io_simps intro!: verdict\<close>)
  next
    fix e
    assume "r1 = Err e" "faults_left s = Suc (faults_left s1)"
    with assms(1) rd show thesis by (auto simp: judge_processor_eq read_current_def io_simps intro!: fault)
  qed
qed

section \<open>One processor of the chain\<close>

lemma remove_unused_cases:
  assumes "remove_unused_replacement p s = (r, s')" "\<not> dir_in s p"
  shows "r = Ok () \<and> files s' = (files s)(p := None) \<and> dir_in s' = dir_in s \<and> faults_left s' = faults_left s
    \<or> (\<exists>e. r = Err e) \<and> faults_left s' < faults_left s"
proof -
  obtain q where "remove_file_if_exists p s = (q, s')" and q: "r = Ok () \<longleftrightarrow> q = Ok ()"
    using assms(1) unfolding remove_unused_replacement_def remove_file_if_exists_def
    by (auto simp: io_simps split: prod.splits result.splits io_error.splits)
  then show ?thesis
  proof (cases rule: remove_file_if_exists_cases)
    case (dir e)
    with assms(2) show ?thesis by (auto simp: is_dir_def file_at_def split: option.splits node.splits)
  qed (use q in \<open>cases r; auto\<close>)+
qed

lemma replace_with_cases:
  assumes "replace_with st p s = (r, s')" "files s p = Some c" "p \<noteq> st_path st"
    and "st_path st \<noteq> []" "dir_in s (butlast (st_path st))" "\<not> dir_in s (st_path st)"
  shows "r = Ok () \<and> files s' = (files s)(p := None, st_path st \<mapsto> c) \<and> dir_in s' = dir_in s \<and> faults_left s' = faults_left s
    \<or> (\<exists>e. r = Err e) \<and> faults_left s' < faults_left s"
proof -
  obtain r1 s1 where md: "fs_metadata p s = (r1, s1)" by force
  have "r1 = Ok True \<and> fs_nodes s1 = fs_nodes s \<and> faults_left s1 = faults_left s
      \<or> (\<exists>e. r1 = Err e) \<and> faults_left s1 < faults_left s"
    using md assms(2) unfolding fs_metadata_def
    by (auto elim!: faulty_cases simp: metadata_i_def file_at_def split: option.splits node.splits)
  then show ?thesis
  proof (elim disjE conjE exE)
    assume r1: "r1 = Ok True" and s1: "fs_nodes s1 = fs_nodes s" "faults_left s1 = faults_left s"
    obtain r2 s2 where rm: "remove_file_if_exists (st_path st) s1 = (r2, s2)" by force
    then show ?thesis
    proof (cases rule: remove_file_if_exists_cases)
      case ok
      obtain r3 s3 where rn: "fs_rename p (st_path st) s2 = (r3, s3)" by force
      have run: "(r, s') = (map_err SE_Io r3, s3)"
        using assms(1) md r1 rm ok rn by (simp add: replace_with_def io_simps)
      from rn show ?thesis
        by (cases rule: fs_rename_cases) (use run ok s1 assms(2-6) in auto)
    next
      case (dir e)
      with s1 assms(6) show ?thesis by (auto simp: is_dir_def file_at_def split: option.splits node.splits)
    qed (use assms(1) md r1 rm s1 in \<open>auto simp: replace_with_def io_simps\<close>)
  qed (use assms(1) md in \<open>auto simp: replace_with_def io_simps\<close>)
qed

lemma drop_staged_cases:
  assumes "drop_staged st e s = (r, s')" "\<not> dir_in s (st_path st)"
  shows "r = Err e \<and> (files s' = (files s)(st_path st := None) \<and> dir_in s' = dir_in s \<and> faults_left s' = faults_left s
    \<or> faults_left s' < faults_left s)"
proof -
  obtain q where q: "remove_file_if_exists (st_path st) s = (q, s')" and r: "r = Err e"
    using assms(1) by (auto simp: drop_staged_def staged_discard_def io_simps split: prod.splits)
  from q show ?thesis
  proof (cases rule: remove_file_if_exists_cases)
    case (dir e')
    with assms(2) show ?thesis by (auto simp: is_dir_def file_at_def split: option.splits node.splits)
  qed (use r in auto)
qed

lemma touches_remove_unused: "touches UNIV (remove_unused_replacement p)"
  unfolding remove_unused_replacement_def
  by (auto intro!: touches_match touches_intros touches_mono [OF touches_calls(6)] split: result.split io_error.split)

lemma touches_drop_staged: "touches UNIV (drop_staged st e)"
  unfolding drop_staged_def staged_discard_def
  by (intro touches_ignore touches_intros touches_mono [OF touches_helpers(2)]) simp

text \<open>What follows a processor: its outcome \<open>q\<close> is carried out on the staged file.\<close>

definition settle :: "staged_object \<Rightarrow> path \<Rightarrow> (processor_action, processor_error) result \<Rightarrow> (fs, unit, s3_error) io" where
  "settle st p q = (case q of
     Ok Replace \<Rightarrow> io_match (replace_with st p) (\<lambda>r. case r of
         Err e \<Rightarrow> drop_staged st (internal_error (''failed to replace staged upload: '' @ store_error_display e))
       | Ok _ \<Rightarrow> io_return ())
   | _ \<Rightarrow> io_match (remove_unused_replacement p) (\<lambda>r. case r of
         Err e \<Rightarrow> drop_staged st e
       | Ok _ \<Rightarrow> (case q of Err e \<Rightarrow> drop_staged st (map_processor_error e) | Ok _ \<Rightarrow> io_return ())))"

lemma process_one_settle:
  "process_one ctx st (p, u) = io_match (p ctx (st_path st) (replacement_path st u)) (settle st (replacement_path st u))"
  unfolding process_one_def settle_def prod.case Let_def
  by (rule arg_cong2 [where f = io_match, OF refl]) (auto simp: fun_eq_iff split: result.split processor_action.split)

lemma drop_staged_Err: "drop_staged st e s = (r, s') \<Longrightarrow> r = Err e \<and> faults_left s' \<le> faults_left s"
  using touchesD(3) [OF touches_drop_staged, of st e s r s'] by (auto simp: drop_staged_def io_simps split: prod.splits)

lemma settle_Err:
  assumes "settle st p (Err e) s = (r, s')"
  shows "(\<exists>x. r = Err x) \<and> faults_left s' \<le> faults_left s"
proof -
  obtain r2 s2 where rm: "remove_unused_replacement p s = (r2, s2)" by force
  with assms obtain x where "drop_staged st x s2 = (r, s')"
    by (cases r2) (auto simp: settle_def io_simps)
  from drop_staged_Err [OF this] touchesD(3) [OF touches_remove_unused rm] show ?thesis by auto
qed

lemma settle_Replace:
  assumes "settle st p (Ok Replace) s = (r, s')" "files s p = Some c" "p \<noteq> st_path st"
    and "st_path st \<noteq> []" "dir_in s (butlast (st_path st))" "\<not> dir_in s (st_path st)"
  shows "r = Ok () \<and> files s' (st_path st) = Some c \<and> dir_in s' = dir_in s \<and> faults_left s' = faults_left s
    \<or> (\<exists>e. r = Err e) \<and> faults_left s' < faults_left s"
proof -
  obtain r3 s3 where rw: "replace_with st p s = (r3, s3)" by force
  have "r = Ok () \<and> s' = s3 \<and> r3 = Ok () \<or> (\<exists>e e2. r3 = Err e \<and> drop_staged st e2 s3 = (r, s'))"
    using assms(1) rw by (cases r3) (auto simp: settle_def io_simps)
  with replace_with_cases [OF rw assms(2-6)] show ?thesis by (auto dest!: drop_staged_Err)
qed

lemma settle_other:
  assumes "settle st p q s = (r, s')" "q \<noteq> Ok Replace" "\<not> dir_in s (st_path st)" "\<not> dir_in s p" "p \<noteq> st_path st"
  shows "(case q of Ok _ \<Rightarrow> r = Ok () \<and> files s' (st_path st) = files s (st_path st)
        | Err e \<Rightarrow> r = Err (map_processor_error e) \<and> files s' (st_path st) = None)
      \<and> dir_in s' = dir_in s \<and> faults_left s' = faults_left s
    \<or> (\<exists>e. r = Err e) \<and> faults_left s' < faults_left s"
proof -
  obtain r2 s2 where rm: "remove_unused_replacement p s = (r2, s2)" by force
  have "case r2 of Err e \<Rightarrow> drop_staged st e s2 = (r, s')
      | Ok _ \<Rightarrow> (case q of Err e \<Rightarrow> drop_staged st (map_processor_error e) s2 = (r, s') | Ok _ \<Rightarrow> r = Ok () \<and> s' = s2)"
    using assms(1,2) rm by (cases r2; cases q) (auto simp: settle_def io_simps split: processor_action.splits)
  with remove_unused_cases [OF rm assms(4)] assms(3,5) show ?thesis
    by (auto split: result.splits dest: drop_staged_Err drop_staged_cases)
qed

lemma process_one_judge:
  assumes "process_one ctx st (judge_processor f, u) s = (r, s')" "staging_area st [u] s" "files s (st_path st) = Some b"
  obtains (verdict) "dir_in s' = dir_in s" "faults_left s' = faults_left s"
      "case judged [f] ctx b of Ok c \<Rightarrow> r = Ok () \<and> files s' (st_path st) = Some c
       | Err e \<Rightarrow> r = Err e \<and> files s' (st_path st) = None"
  | (fault) e where "r = Err e" "faults_left s' < faults_left s"
proof -
  let ?p = "st_path st" and ?q = "replacement_path st u"
  have area: "?p \<noteq> []" "dir_in s (butlast ?p)" "\<not> dir_in s ?p" "?q \<noteq> ?p" "\<not> dir_in s ?q" "?q \<noteq> []" "dir_in s (butlast ?q)"
    using assms(2) by (auto simp: staging_area_def replacement_path_def)
  obtain q s1 where run: "judge_processor f ctx ?p ?q s = (q, s1)" and settle: "settle st ?q q s1 = (r, s')"
    using assms(1) by (auto simp: process_one_settle io_match_def split: prod.splits)
  from run assms(3) area(6,7,5) show thesis
  proof (cases rule: judge_processor_cases)
    case (fault e)
    with settle settle_Err [of st ?q e s1 r s'] show thesis by (auto intro: that(2))
  next
    case verdict
    show thesis
    proof (cases "q = Ok Replace")
      case True
      then obtain c where c: "f ctx b = Rewrite c" "files s1 = (files s)(?q \<mapsto> c)"
        using verdict(3) by (cases "f ctx b") auto
      with settle_Replace [of st ?q s1 r s' c] settle True area verdict(1,2) show thesis by (auto intro: that)
    next
      case False
      with settle_other [OF settle False] area verdict assms(3) show thesis
        by (auto simp: map_processor_error_def intro: that split: verdict.splits)
    qed
  qed
qed

section \<open>The chain\<close>

lemma judged_Cons: "judged (f # fs) ctx b = and_then (judged [f] ctx b) (judged fs ctx)"
  by (simp split: verdict.split)

lemma process_chain_judged:
  assumes "io_for (process_one ctx st) (zip (map judge_processor fs) uuids) s = (r, s')" "length uuids = length fs"
    and "staging_area st uuids s" "files s (st_path st) = Some b"
  shows "(case judged fs ctx b of Ok c \<Rightarrow> r = Ok () \<and> files s' (st_path st) = Some c
        | Err e \<Rightarrow> r = Err e \<and> files s' (st_path st) = None) \<and> faults_left s' = faults_left s
    \<or> (\<exists>e. r = Err e) \<and> faults_left s' < faults_left s"
  using assms
proof (induction fs arbitrary: uuids s b)
  case Nil
  then show ?case by (simp add: io_simps)
next
  case (Cons f fs)
  then obtain u us where uuids: "uuids = u # us" "length us = length fs" by (cases uuids) auto
  obtain r1 s1 where one: "process_one ctx st (judge_processor f, u) s = (r1, s1)" by force
  have "staging_area st [u] s" using Cons.prems(3) uuids by (simp add: staging_area_def)
  with one show ?case using Cons.prems(4)
  proof (cases rule: process_one_judge)
    case verdict
    show ?thesis
    proof (cases "judged [f] ctx b")
      case (Ok c)
      have area: "staging_area st us s1" using Cons.prems(3) uuids verdict(1) by (simp add: staging_area_def)
      have "io_for (process_one ctx st) (zip (map judge_processor fs) us) s1 = (r, s')"
        using Cons.prems(1) one uuids verdict(3) Ok by (simp add: io_simps)
      from Cons.IH [OF this uuids(2) area, of c] verdict Ok show ?thesis
        unfolding judged_Cons [of f fs] by simp
    next
      case (Err e)
      with Cons.prems(1) one uuids verdict show ?thesis unfolding judged_Cons [of f fs] by (simp add: io_simps)
    qed
  next
    case (fault e)
    with Cons.prems(1) one uuids show ?thesis by (auto simp: io_simps)
  qed
qed

text \<open>
  C18. A chain of upload processors refines a chain of pure functions: with closures that judge
  the current bytes of a staged object, an upload that passes the chain is staged with exactly the
  bytes that the functions compute, each applied to the result of the one before; the first
  rejection or failure is the answer, and the staged file is removed. This holds whatever I/O
  faults occur, except that a fault makes the upload fail; no file is touched but the staged
  file and the replacement files.
\<close>

theorem processor_chain_refines:
  assumes "process_staged_upload (zip (map judge_processor fs) uuids) st ctx s = (r, s')" "length uuids = length fs"
    and "staging_area st uuids s" "files s (st_path st) = Some b"
  shows "(\<forall>st'. r = Ok st' \<longrightarrow> st' = st \<and> (\<exists>c. judged fs ctx b = Ok c \<and> files s' (st_path st) = Some c))
    \<and> (faults_left s' = faults_left s \<longrightarrow> r = map_ok (\<lambda>_. st) (judged fs ctx b)
         \<and> files s' (st_path st) = res_ok (judged fs ctx b))
    \<and> (\<forall>p. p \<notin> insert (st_path st) (replacement_path st ` set uuids) \<longrightarrow> files s' p = files s p)"
proof -
  let ?ps = "zip (map judge_processor fs) uuids" and ?A = "insert (st_path st) (replacement_path st ` set uuids)"
  obtain q where chain: "io_for (process_one ctx st) ?ps s = (q, s')" and r: "r = map_ok (\<lambda>_. st) q"
    using assms(1) by (auto simp: process_staged_upload_def io_simps split: prod.splits result.splits)
  have "touches ?A (io_for (process_one ctx st) ?ps)"
    by (rule touches_for) (auto dest!: set_zip_leftD set_zip_rightD intro!: touches_process_one judge_processor_confined
        elim!: in_set_zipE)
  from touchesD(1) [OF this chain] have "\<forall>p. p \<notin> ?A \<longrightarrow> files s' p = files s p" by blast
  with process_chain_judged [OF chain assms(2-4)] r show ?thesis
    by (cases "judged fs ctx b") auto
qed

text \<open>One closure rewrites the bytes, the next one checks their length.\<close>

definition ex_judges :: "judge list" where
  "ex_judges = [\<lambda>_ b. Rewrite (b @ ''!''), \<lambda>_ b. if length b < 10 then Accept else Reject ''too long'']"

definition ex_staged :: staged_object where
  "ex_staged = \<lparr>st_temp_id = ''x'', st_path = [''tmp'', ''x.part'']\<rparr>"

definition ex_chain_context :: processor_context where
  "ex_chain_context = \<lparr>pc_request_id = ''r'', pc_bucket = ''bucket'', pc_key = ''key'', pc_operation = ProcPutObject,
     pc_original_size = 5, pc_content_type = None, pc_user_metadata = []\<rparr>"

definition ex_staging :: "bytes \<Rightarrow> fs" where
  "ex_staging b = \<lparr>fs_nodes = [([''tmp''], DirNode), ([''tmp'', ''x.part''], FileNode b)], fs_faults = []\<rparr>"

abbreviation ex_chain :: "bytes \<Rightarrow> (staged_object, s3_error) result \<times> fs" where
  "ex_chain b \<equiv> process_staged_upload (zip (map judge_processor ex_judges) [''u'', ''v'']) ex_staged ex_chain_context (ex_staging b)"

theorem processor_chain_refines_witness:
  "fst (ex_chain ''hello'') = Ok ex_staged \<and> files (snd (ex_chain ''hello'')) [''tmp'', ''x.part''] = Some ''hello!''
   \<and> fst (ex_chain ''hello world'') = Err (access_denied ''too long'')
   \<and> files (snd (ex_chain ''hello world'')) [''tmp'', ''x.part''] = None"
proof -
  have run: "ex_chain b = (fst (ex_chain b), snd (ex_chain b))" for b by simp
  have n: "length [''u'', ''v''] = length ex_judges" by (simp add: ex_judges_def)
  have area: "staging_area ex_staged [''u'', ''v''] (ex_staging b)" "files (ex_staging b) (st_path ex_staged) = Some b" for b
    by (simp_all add: staging_area_def ex_staged_def ex_staging_def replacement_path_def is_dir_def file_at_def bt_get_def)
  have f: "faults_left (snd (ex_chain ''hello'')) = faults_left (ex_staging ''hello'')"
    "faults_left (snd (ex_chain ''hello world'')) = faults_left (ex_staging ''hello world'')"
    by code_simp+
  have p: "st_path ex_staged = [''tmp'', ''x.part'']" by (simp add: ex_staged_def)
  from processor_chain_refines [OF run n area] f show ?thesis
    unfolding p by (auto simp: ex_judges_def)
qed

end
