(* ===== verification/Spec2Isabelle.thy ===== *)
theory Spec2Isabelle
  imports
    S3_Target
    Multipart_Machine
    Multipart_Startup
    Handler_Props
    Dispatch_Props
    Read_Your_Writes
    Admission_Machine
    Multipart_Interleaving
    Object_Interleaving
    Config_Debug
    Server_Main
    Upload_Processors
begin

text \<open>
  \<^bold>\<open>s3-endpoint\<close>: an S3-compatible HTTP endpoint that stores objects in a directory tree.
  This development models the Rust sources under \<open>src/src/\<close> and proves what makes them correct.
  This theory imports all others; every property stands in the theory of its component, after a
  text block that carries its claim id.

  \<^bold>\<open>The program and its model.\<close> A request passes through
  \<open>handle_s3_request\<close>: the operation is detected from method, path and query; a request permit
  is taken; operation policy, authentication and tenant limits are asked; the handler of the
  operation resolves the target, authorizes, and calls the stores; the result is mapped to a
  response. The theories follow these parts:

  \<^item> \<open>S3_Prelude\<close>: results and \<open>?\<close>, bytes and strings, Rust's integer parsing and printing,
    UTF-8 validity; \<open>BTree_Map\<close>: \<open>BTreeMap\<close> with the locale \<open>ordered_map\<close>; \<open>Ext_Model\<close>: header
    maps, and the record \<open>ext\<close> of functions that are not in the repository (digests, HMAC,
    hexadecimal and base64 codecs, percent decoding, chrono), with the laws the proofs use as
    named predicates and the instance \<open>ext0\<close> that satisfies them.
  \<^item> \<open>S3_Error\<close> (\<open>error.rs\<close>), \<open>S3_Types\<close> (\<open>s3/types.rs\<close>), \<open>S3_Target\<close> (\<open>s3/target.rs\<close>),
    \<open>S3_Config\<close> (\<open>config.rs\<close>): error values and their XML, validated newtypes, addressing
    styles, validation and the credential index.
  \<^item> \<open>S3_Checksum\<close> (\<open>body/checksum.rs\<close>, \<open>storage/checksum.rs\<close>), \<open>Upload_State\<close> and
    \<open>Upload_Body\<close> (\<open>body/upload.rs\<close>), \<open>Aws_Chunked\<close> (\<open>body/aws_chunked.rs\<close>): request
    checksums, the incremental reader of plain and aws-chunked bodies, chunk signatures and
    trailers. A body is the list of its frames; a write fault may cut any write short.
  \<^item> \<open>Fs_Model\<close>: the file tree with a schedule of faults (\<open>std::fs\<close> and \<open>tokio::fs\<close> as the code
    uses them) and the io combinators; \<open>Store_Model\<close> (\<open>storage/model.rs\<close>, \<open>fs_util.rs\<close>,
    \<open>temp.rs\<close>): stored data, helpers and a frame calculus; \<open>Object_Store\<close>
    (\<open>storage/object.rs\<close>) with the locale \<open>object_store\<close>; \<open>Upload_Middleware\<close>
    and \<open>Upload_Processors\<close> (\<open>middleware.rs\<close>: the chain, and processors made of closures); \<open>Multipart_Store\<close> and \<open>Multipart_Complete\<close> (\<open>storage/multipart.rs\<close>,
    \<open>storage/complete_checksum.rs\<close>).
  \<^item> \<open>S3_Hooks\<close> (\<open>hooks.rs\<close>), \<open>S3_Auth\<close> (\<open>auth.rs\<close>), \<open>S3_App\<close> (\<open>lib.rs\<close>,
    \<open>handlers/request.rs\<close>), \<open>S3_Server\<close> (the builder of \<open>lib.rs\<close>, the options
    and the credentials file of \<open>main.rs\<close>), \<open>Server_Main\<close> (\<open>main\<close> itself).
  \<^item> \<open>S3_Requests\<close> (\<open>handlers/mod.rs\<close>, \<open>upload_metadata.rs\<close>, query parsing and operation
    detection of \<open>handlers/s3.rs\<close>), \<open>Object_Handlers\<close> (\<open>get_object.rs\<close>, \<open>head_object.rs\<close>,
    \<open>head_bucket.rs\<close>, \<open>put_object.rs\<close>, \<open>delete_object.rs\<close>), \<open>Multipart_Handlers\<close>
    (\<open>handlers/multipart.rs\<close>), \<open>S3_Dispatch\<close> (the pipeline of \<open>handlers/s3.rs\<close>).
  \<^item> \<open>S3_Router\<close> (\<open>http.rs\<close>, \<open>handlers/health.rs\<close>): the routing table and the health check;
    \<open>Config_Debug\<close>: the \<open>Debug\<close> implementations of \<open>config.rs\<close> as trees of names and values.

  \<^bold>\<open>Conventions.\<close> A struct is a record whose fields carry a short prefix, an enum a datatype,
  \<open>Result\<close> the datatype \<open>result\<close>; \<open>?\<close> is \<open>and_then\<close> in pure code and \<open>io_bind\<close> in code with
  effects. Effects are explicit: \<open>('s, 'a, 'e) io\<close> maps a state to a result and a state; stores
  run on the file tree and the session table, handlers on the \<open>world\<close> (stores, free permits,
  hook events). A panic is the error \<open>Panic\<close>, or \<open>None\<close> where the caller sees no value. Strings
  are byte lists; unsigned integers are naturals with saturation, wrap-around and range checks
  written out where the code has them.

  \<^bold>\<open>What is shown.\<close>

  \<^item> Pipeline (\<open>Dispatch_Props\<close>): nothing is read or changed without an enabled operation,
    authentication, authorization for the resolved target and ownership of the named upload;
    permits are conserved; every request is answered; tenant operations are begun and finished
    once. \<open>S3_Router\<close>: which requests reach the pipeline.
  \<^item> Composition (\<open>End_To_End\<close>, \<open>Request_Frames\<close>): what a successful PUT makes visible and a GET
    serves; a frame calculus of handlers and the footprint of every operation, so that requests
    are isolated from each other's objects and uploads.
  \<^item> The life of a server (\<open>Session_Recovery\<close>, \<open>Server_Runs\<close>, \<open>Upload_Durability\<close>,
    \<open>Read_Your_Writes\<close>): the relation \<open>server_run\<close> of requests and restarts, where a restart keeps
    the file tree and nothing else and may follow failed starts; an invariant of the session table
    and the session files that every operation and every start keeps; acknowledged parts survive;
    a GET returns the bytes of the last PUT or of the completed parts, and nothing after a DELETE.
    \<open>Server_Main\<close>: what a start of the binary does with its options and the credentials file.
  \<^item> Admission (\<open>Admission_Machine\<close>): requests as interleaved processes that take and give back
    permits; in every reachable state the permits held and the free permits add up to the
    configured capacity, and the acquisitions of \<open>handle_s3_request\<close> are runs of the machine.
  \<^item> Authentication (\<open>Auth_Canonical\<close>, \<open>Auth_Props\<close>): canonical requests determine what they
    sign; accepted requests were signed with an active key over the request itself and within the
    time window; correctly signed requests are accepted; authorization decisions; when the time
    arithmetic panics.
  \<^item> Bodies (\<open>Upload_Body\<close>): integrity of what is staged, chained chunk signatures, the reader
    against a grammar of the framing in both directions, agreement with the complete-buffer
    decoder, independence of frame boundaries, termination.
  \<^item> Objects (\<open>Object_Store\<close>): refinement of an abstract map under every schedule of faults,
    all-or-nothing commits, isolation of keys, recovery at startup. \<open>Object_Interleaving\<close>: what
    readers and overlapping commits see between the two renames of a publication.
  \<^item> Middleware (\<open>Upload_Processors\<close>): a chain of processors refines a chain of pure functions on
    the staged bytes, under every schedule of faults.
  \<^item> Multipart (\<open>Multipart_Props\<close>, \<open>Multipart_Machine\<close>, \<open>Multipart_Startup\<close>): completion
    publishes exactly the requested parts, failures restore, a state machine over the store
    calls with isolation and finality, and what startup loads and removes.
    \<open>Multipart_Interleaving\<close>: concurrent calls that switch at every access to the session table
    and at file-system calls; completions exclude each other, and what goes wrong when a part
    upload or an abort overlaps a completion.
  \<^item> Requests and data (\<open>Handler_Props\<close>, \<open>S3_Hooks\<close>, \<open>S3_Config\<close>, \<open>S3_Target\<close>,
    \<open>S3_Error\<close>, \<open>Config_Debug\<close>): byte ranges, complete listings, tenant identifiers, validation,
    targets, XML escaping, and that debug output hides exactly the secrets.

  \<^bold>\<open>Bounds and fuel.\<close> The readers and streams are total functions: the parser loop recurses on
  the length of the buffered input, file streams on the length of the file, \<open>canonical_uri\<close> and
  the query loops on the text. The list of all pages has fuel, and one more than the number of
  parts is shown to suffice. \<open>file_chunks\<close> has the file's length as fuel, which suffices for
  every positive buffer size. Sizes are below \<open>2 ^ 64\<close> where a theorem needs it.

  \<^bold>\<open>Not modelled.\<close> Logging and tracing. Concurrency is modelled for permits and for the
  session table, and for pairs of overlapping store calls; elsewhere a request runs to its end,
  or is cut off by a tenant timeout in an arbitrary state of the stores. Read errors in the
  middle of a streamed GET body, which reach the client after the status. Custom stores, request
  id factories and router layers of an embedding application. Path matching by axum, the accept loop, and the parsing of arguments and of JSON and XML documents, which are parameters
  where the model depends on them. The text that formatters make of a debug tree.
\<close>

end
